(* ===== verification/Prelude.thy ===== *)
theory Prelude
  imports
    Main
    "HOL-Library.AList"
    "HOL-Library.Multiset"
    "HOL-Library.Char_ord"
    "HOL-Library.List_Lexorder"
    "HOL-Library.Sublist"
begin

text \<open>
  Shared vocabulary of the development: the Go values the components use (strings as byte lists,
  times and durations as integers of nanoseconds, maps as association lists), the error values
  of package \<^verbatim>\<open>repository\<close>, the parts of package \<^verbatim>\<open>strconv\<close> and \<^verbatim>\<open>strings\<close> that
  the sources call, and the lemmas on maps, sorting and numbers every component rests on.
\<close>

section \<open>Collections of facts\<close>

named_theorems gw_defs \<open>definitions unfolded by the component proofs\<close>
named_theorems gw_maps \<open>facts on Go maps\<close>

section \<open>Go values\<close>

text \<open>
  A Go \<^verbatim>\<open>time.Time\<close> is the number of nanoseconds since the zero time, so the zero value
  \<^verbatim>\<open>time.Time{}\<close> is \<open>0\<close> and \<^verbatim>\<open>IsZero\<close> is equality with it; a \<^verbatim>\<open>time.Duration\<close> is a number
  of nanoseconds. Readings of the wall clock are arguments of the operations.
  An operation's result is a value or one of the package's errors.
\<close>

type_synonym gotime = int
type_synonym duration = int

definition isZero :: "gotime \<Rightarrow> bool" where
  "isZero t \<longleftrightarrow> t = 0"

abbreviation zeroTime :: gotime where
  "zeroTime \<equiv> 0"

abbreviation microsecond :: duration where
  "microsecond \<equiv> 1000"

abbreviation second :: duration where
  "second \<equiv> 1000000000"

abbreviation minute :: duration where
  "minute \<equiv> 60 * second"

abbreviation hour :: duration where
  "hour \<equiv> 60 * minute"

datatype error =
    ErrNotFound
  | ErrDisabled
  | ErrNameExists
  | ErrIdempotencyConflict
  | ErrVersionConflict
  | ErrQuotaExceeded
  | ErrUpstreamChanged
  | ErrArtifactTombstoned
  | ErrWebhookSubscriptionNameExists
  | ErrInvalidWebhookDeliveryState
  | ErrPreconditionFailed
  | ErrMavenSnapshotImportRetention
  | ErrQuotaAlertConflict
  | ErrQuotaAlertLimit
  | ErrQuotaAlertDeleted
  | ErrQuotaAlertScopeImmutable
  | ErrEmailTargetDisabled
  | ErrEmailRateLimited
  | ErrEmailQueueFull
  | ErrEmailIdempotencyConflict
  | ErrEmailInvalidState
  | ErrInvalidArtifactQuarantine
  | ErrArtifactQuarantined
  | ErrObjectNotFound
  | ErrText string

type_synonym 'a result = "error + 'a"

fun is_ok :: "'a result \<Rightarrow> bool" where
  "is_ok (Inr _) = True"
| "is_ok (Inl _) = False"

lemma is_ok_iff: "is_ok r \<longleftrightarrow> (\<exists>x. r = Inr x)"
  by (cases r) auto

lemma isZero_0 [simp]: "isZero 0"
  by (simp add: isZero_def)

text \<open>
  \<open>newUUID n\<close> is the \<open>n\<close>-th identifier \<^verbatim>\<open>uuid.NewString\<close> returns to the process; \<open>fresh_uuids\<close> is what the
  code relies on: identifiers are never repeated and never empty.
\<close>

definition fresh_uuids :: "(nat \<Rightarrow> string) \<Rightarrow> bool" where
  "fresh_uuids newUUID \<longleftrightarrow> inj newUUID \<and> (\<forall>n. newUUID n \<noteq> [])"

section \<open>Go maps\<close>

text \<open>
  A Go map with string keys is an association list. The order of the list is the order in which
  a \<^verbatim>\<open>range\<close> loop visits the entries; Go leaves that order open, and the theorems hold for every
  list with distinct keys, hence for every order. Assigning an entry keeps the positions of the
  others; a loop that only reassigns the entries it visits is a \<^const>\<open>map\<close> over the list.
\<close>

type_synonym 'v gomap = "(string \<times> 'v) list"

abbreviation gm_get :: "'v gomap \<Rightarrow> string \<Rightarrow> 'v option" where
  "gm_get m k \<equiv> map_of m k"

abbreviation gm_put :: "string \<Rightarrow> 'v \<Rightarrow> 'v gomap \<Rightarrow> 'v gomap" where
  "gm_put k v m \<equiv> AList.update k v m"

abbreviation gm_del :: "string \<Rightarrow> 'v gomap \<Rightarrow> 'v gomap" where
  "gm_del k m \<equiv> AList.delete k m"

abbreviation gm_vals :: "'v gomap \<Rightarrow> 'v list" where
  "gm_vals m \<equiv> map snd m"

definition gm_ok :: "'v gomap \<Rightarrow> bool" where
  "gm_ok m \<longleftrightarrow> distinct (map fst m)"

definition gm_each :: "('v \<Rightarrow> 'v) \<Rightarrow> 'v gomap \<Rightarrow> 'v gomap" where
  "gm_each f m = map (\<lambda>(k, v). (k, f v)) m"

lemma gm_get_put [simp]: "gm_get (gm_put k v m) k' = (if k' = k then Some v else gm_get m k')"
  by (simp add: AList.update_conv')

lemma gm_get_del [simp]: "gm_get (gm_del k m) k' = (if k' = k then None else gm_get m k')"
  by (simp add: AList.delete_conv')

lemma gm_ok_Nil [simp]: "gm_ok []"
  by (simp add: gm_ok_def)

lemma gm_ok_put [simp]: "gm_ok m \<Longrightarrow> gm_ok (gm_put k v m)"
  by (simp add: gm_ok_def AList.distinct_update)

lemma gm_ok_del [simp]: "gm_ok m \<Longrightarrow> gm_ok (gm_del k m)"
  by (simp add: gm_ok_def AList.distinct_delete)

lemma gm_ok_each [simp]: "gm_ok (gm_each f m) = gm_ok m"
  by (simp add: gm_ok_def gm_each_def o_def case_prod_beta)

lemma gm_get_each [simp]: "gm_get (gm_each f m) k = map_option f (gm_get m k)"
  by (induction m) (auto simp: gm_each_def)

lemma gm_vals_each [simp]: "gm_vals (gm_each f m) = map f (gm_vals m)"
  by (simp add: gm_each_def o_def case_prod_beta)

lemma update_absent: "gm_get m k = None \<Longrightarrow> gm_put k v m = m @ [(k, v)]"
  by (induction m) (auto split: if_splits)

lemma gm_get_in: "gm_get m k = Some v \<Longrightarrow> (k, v) \<in> set m"
  by (rule map_of_SomeD)

lemma gm_get_iff [gw_maps]: "gm_ok m \<Longrightarrow> gm_get m k = Some v \<longleftrightarrow> (k, v) \<in> set m"
  by (auto simp: gm_ok_def dest: map_of_SomeD)

lemma gm_vals_iff: "gm_ok m \<Longrightarrow> v \<in> set (gm_vals m) \<longleftrightarrow> (\<exists>k. gm_get m k = Some v)"
  by (force simp: gm_get_iff)

lemma gm_get_vals: "gm_get m k = Some v \<Longrightarrow> v \<in> set (gm_vals m)"
  by (force dest: gm_get_in)

lemma gm_get_ran: "gm_get m k = Some v \<Longrightarrow> v \<in> snd ` set m"
  by (force dest: gm_get_in)

lemma find_SomeD: "find P xs = Some x \<Longrightarrow> x \<in> set xs \<and> P x"
  by (auto simp: find_Some_iff)

lemma set_put: "gm_ok m \<Longrightarrow>
    set (gm_put k v m) = insert (k, v) {(k', w) \<in> set m. k' \<noteq> k}"
  by (auto simp: gm_get_iff [symmetric] split: if_splits)

lemma set_del: "set (gm_del k m) = {(k', w) \<in> set m. k' \<noteq> k}"
  by (auto simp: AList.delete_eq)

lemma vals_put: "gm_ok m \<Longrightarrow>
    set (gm_vals (gm_put k v m)) = insert v (snd ` {(k', w) \<in> set m. k' \<noteq> k})"
  by (simp add: set_put)

lemma gm_all_put:
  "gm_ok m \<Longrightarrow> (\<forall>k w. gm_get m k = Some w \<longrightarrow> P k w) \<Longrightarrow> P k v \<Longrightarrow>
     (\<forall>k' w. gm_get (gm_put k v m) k' = Some w \<longrightarrow> P k' w)"
  by auto

lemma gm_vals_put_subset: "gm_ok m \<Longrightarrow> set (gm_vals (gm_put k v m)) \<subseteq> insert v (set (gm_vals m))"
  by (auto simp: set_put)

lemma gm_vals_del_subset: "set (gm_vals (gm_del k m)) \<subseteq> set (gm_vals m)"
  by (auto simp: set_del)

lemma distinct_vals_by:
  assumes "gm_ok m" and "\<And>k v. gm_get m k = Some v \<Longrightarrow> f v = k"
  shows "distinct (map f (gm_vals m))"
proof -
  have "map (\<lambda>x. f (snd x)) m = map fst m"
    using assms by (auto simp: gm_get_iff)
  then have "map f (gm_vals m) = map fst m"
    by (simp add: o_def)
  then show ?thesis
    using assms(1) unfolding gm_ok_def by (simp only:)
qed

text \<open>A loop that reassigns selected entries one after another.\<close>

lemma gm_get_fold_put:
  "gm_get (fold (\<lambda>v m. if P v then gm_put (f v) (g v) m else m) vs m) k =
     (case find (\<lambda>v. P v \<and> f v = k) (rev vs) of Some v \<Rightarrow> Some (g v) | None \<Rightarrow> gm_get m k)"
proof (induction vs rule: rev_induct)
  case (snoc v vs)
  then show ?case by auto
qed simp

lemma gm_ok_fold_put [simp]:
  "gm_ok m \<Longrightarrow> gm_ok (fold (\<lambda>v m. if P v then gm_put (f v) (g v) m else m) vs m)"
  by (induction vs arbitrary: m) auto

lemma gm_get_fold_cases:
  "gm_get (fold (\<lambda>v m. if P v then gm_put (f v) (g v) m else m) vs m) k = Some w \<Longrightarrow>
     (\<exists>v \<in> set vs. P v \<and> f v = k \<and> w = g v) \<or> (\<forall>v \<in> set vs. P v \<longrightarrow> f v \<noteq> k) \<and> gm_get m k = Some w"
  by (auto simp: gm_get_fold_put find_None_iff split: option.splits dest!: find_SomeD)

section \<open>Sorting\<close>

text \<open>
  \<^verbatim>\<open>sort.Slice\<close> orders by a key and leaves the order of equal keys open; \<^const>\<open>sort_key\<close> is one
  of its outcomes and, where the keys are distinct, the only one.
\<close>

lemma sort_key_unique:
  "mset xs = mset ys \<Longrightarrow> inj_on f (set xs) \<Longrightarrow> sort_key f xs = sort_key f ys"
  by (rule sort_key_inj_key_eq) simp_all

lemma distinct_map_sort_filter: "distinct (map f xs) \<Longrightarrow> distinct (map f (sort_key g (filter P xs)))"
  by (auto simp: distinct_map intro: inj_on_subset)

section \<open>Decimal numbers\<close>

text \<open>
  \<^verbatim>\<open>strconv.ParseInt(s, 10, 64)\<close>, \<^verbatim>\<open>strconv.ParseUint(s, 10, 64)\<close> and \<^verbatim>\<open>strconv.FormatInt(n, 10)\<close>:
  an optional sign, decimal digits, and a range error outside 64 bits. \<open>wrap64\<close> is the
  two's-complement wrap-around of \<^verbatim>\<open>int64\<close> arithmetic.
\<close>

definition is_digit :: "char \<Rightarrow> bool" where
  "is_digit c \<longleftrightarrow> 48 \<le> (of_char c :: nat) \<and> (of_char c :: nat) \<le> 57"

definition digit_val :: "char \<Rightarrow> nat" where
  "digit_val c = of_char c - 48"

definition digit_char :: "nat \<Rightarrow> char" where
  "digit_char d = char_of (48 + d)"

fun digits_val :: "nat \<Rightarrow> string \<Rightarrow> nat option" where
  "digits_val acc [] = Some acc"
| "digits_val acc (c # cs) = (if is_digit c then digits_val (acc * 10 + digit_val c) cs else None)"

fun formatNat :: "nat \<Rightarrow> string" where
  "formatNat n = (if n < 10 then [digit_char n] else formatNat (n div 10) @ [digit_char (n mod 10)])"

declare formatNat.simps [simp del]

definition parseUint64 :: "string \<Rightarrow> nat option" where
  "parseUint64 s =
     (if s = [] then None
      else case digits_val 0 s of
        None \<Rightarrow> None
      | Some n \<Rightarrow> if n < 2 ^ 64 then Some n else None)"

definition parseInt64 :: "string \<Rightarrow> int option" where
  "parseInt64 s =
     (case s of
        [] \<Rightarrow> None
      | c # r \<Rightarrow>
          let neg = (c = CHR ''-''); body = (if c = CHR ''-'' \<or> c = CHR ''+'' then r else s)
          in case parseUint64 body of
               None \<Rightarrow> None
             | Some n \<Rightarrow>
                 if neg then (if n \<le> 2 ^ 63 then Some (- int n) else None)
                 else (if n < 2 ^ 63 then Some (int n) else None))"

definition formatInt :: "int \<Rightarrow> string" where
  "formatInt n = (if n < 0 then CHR ''-'' # formatNat (nat (- n)) else formatNat (nat n))"

definition wrap64 :: "int \<Rightarrow> int" where
  "wrap64 n = (n + 2 ^ 63) mod 2 ^ 64 - 2 ^ 63"

definition int64 :: "int \<Rightarrow> bool" where
  "int64 n \<longleftrightarrow> - (2 ^ 63) \<le> n \<and> n < 2 ^ 63"

lemma wrap64_id [simp]: "int64 n \<Longrightarrow> wrap64 n = n"
  by (simp add: wrap64_def int64_def mod_pos_pos_trivial)

lemma wrap64_int64 [simp]: "int64 (wrap64 n)"
proof -
  have "0 \<le> (n + 2 ^ 63) mod 2 ^ 64" and "(n + 2 ^ 63) mod 2 ^ 64 < (2 ^ 64 :: int)"
    by simp_all
  then show ?thesis
    by (simp add: wrap64_def int64_def)
qed

lemma is_digit_char [simp]: "d < 10 \<Longrightarrow> is_digit (digit_char d)"
  by (simp add: is_digit_def digit_char_def)

lemma digit_val_char [simp]: "d < 10 \<Longrightarrow> digit_val (digit_char d) = d"
  by (simp add: digit_val_def digit_char_def)

lemma digits_val_append:
  "digits_val a (s @ t) = (case digits_val a s of None \<Rightarrow> None | Some b \<Rightarrow> digits_val b t)"
  by (induction a s rule: digits_val.induct) auto

lemma formatNat_nonempty [simp]: "formatNat n \<noteq> []"
  by (subst formatNat.simps) simp

lemma formatNat_digits: "c \<in> set (formatNat n) \<Longrightarrow> is_digit c"
proof (induction n rule: formatNat.induct)
  case (1 n)
  then show ?case
    by (subst (asm) (2) formatNat.simps) (auto split: if_splits)
qed

lemma digits_val_format: "digits_val 0 (formatNat n) = Some n"
proof (induction n rule: formatNat.induct)
  case (1 n)
  show ?case
  proof (cases "n < 10")
    case True
    then show ?thesis by (subst formatNat.simps) simp
  next
    case False
    with 1 have "digits_val 0 (formatNat (n div 10)) = Some (n div 10)"
      by simp
    with False show ?thesis
      by (subst formatNat.simps) (simp add: digits_val_append)
  qed
qed

lemma parseUint64_format: "n < 2 ^ 64 \<Longrightarrow> parseUint64 (formatNat n) = Some n"
  by (simp add: parseUint64_def digits_val_format)

lemma formatNat_no_sign: "formatNat n = c # r \<Longrightarrow> c \<noteq> CHR ''-'' \<and> c \<noteq> CHR ''+''"
  using formatNat_digits [of c n] by (auto simp: is_digit_def)

text \<open>Evaluation compares the parsed numbers with the bounds as integers, in binary.\<close>

lemma parseUint64_code [code]:
  "parseUint64 s =
     (if s = [] then None
      else case digits_val 0 s of None \<Rightarrow> None | Some n \<Rightarrow> if int n < 2 ^ 64 then Some n else None)"
  by (simp add: parseUint64_def split: option.split)

lemma parseInt64_code [code]:
  "parseInt64 s =
     (case s of
        [] \<Rightarrow> None
      | c # r \<Rightarrow>
          let neg = (c = CHR ''-''); body = (if c = CHR ''-'' \<or> c = CHR ''+'' then r else s)
          in case parseUint64 body of
               None \<Rightarrow> None
             | Some n \<Rightarrow>
                 if neg then (if int n \<le> 2 ^ 63 then Some (- int n) else None)
                 else (if int n < 2 ^ 63 then Some (int n) else None))"
  by (simp add: parseInt64_def split: list.split option.split)

lemma parseInt64_format: "int64 n \<Longrightarrow> parseInt64 (formatInt n) = Some n"
proof (cases "n < 0")
  case True
  moreover assume "int64 n"
  ultimately have "nat (- n) \<le> 2 ^ 63" and "int (nat (- n)) = - n"
    by (auto simp: int64_def)
  with True show ?thesis
    by (simp add: formatInt_def parseInt64_def parseUint64_format)
next
  case False
  moreover assume "int64 n"
  ultimately have bound: "nat n < 2 ^ 63"
    by (auto simp: int64_def)
  obtain c r where cr: "formatNat (nat n) = c # r"
    using formatNat_nonempty by (meson neq_Nil_conv)
  have "parseUint64 (c # r) = Some (nat n)"
    using parseUint64_format [of "nat n"] bound cr by simp
  with False bound cr formatNat_no_sign [OF cr] show ?thesis
    by (simp add: formatInt_def parseInt64_def)
qed

section \<open>Strings\<close>

text \<open>The functions of package \<^verbatim>\<open>strings\<close> the sources use, on byte lists.\<close>

definition hasPrefix :: "string \<Rightarrow> string \<Rightarrow> bool" where
  "hasPrefix s p \<longleftrightarrow> take (length p) s = p"

definition hasSuffix :: "string \<Rightarrow> string \<Rightarrow> bool" where
  "hasSuffix s p \<longleftrightarrow> length p \<le> length s \<and> drop (length s - length p) s = p"

definition trimPrefix :: "string \<Rightarrow> string \<Rightarrow> string" where
  "trimPrefix s p = (if hasPrefix s p then drop (length p) s else s)"

definition trimSuffix :: "string \<Rightarrow> string \<Rightarrow> string" where
  "trimSuffix s p = (if hasSuffix s p then take (length s - length p) s else s)"

fun containsSub :: "string \<Rightarrow> string \<Rightarrow> bool" where
  "containsSub [] p = (p = [])"
| "containsSub (c # s) p = (hasPrefix (c # s) p \<or> containsSub s p)"

lemma hasPrefix_iff: "hasPrefix s p \<longleftrightarrow> (\<exists>t. s = p @ t)"
  by (metis append_eq_conv_conj append_take_drop_id hasPrefix_def)

lemma hasPrefix_append [simp]: "hasPrefix (p @ t) p"
  by (simp add: hasPrefix_def)

lemma trimPrefix_append [simp]: "trimPrefix (p @ t) p = t"
  by (simp add: trimPrefix_def)

lemma hasSuffix_iff: "hasSuffix s p \<longleftrightarrow> (\<exists>t. s = t @ p)"
  by (metis append_take_drop_id diff_diff_cancel hasSuffix_def length_append
      le_add2 diff_add_inverse2 append_eq_conv_conj)

text \<open>
  Composite map keys join their parts with a NUL byte. Joining is injective when the parts before
  the last hold no NUL byte.
\<close>

definition nul :: char where
  "nul = CHR 0x00"

definition joinKey2 :: "string \<Rightarrow> string \<Rightarrow> string" where
  "joinKey2 a b = a @ nul # b"

lemma append_sep_inject:
  "x \<notin> set a \<Longrightarrow> x \<notin> set a' \<Longrightarrow> a @ x # b = a' @ x # b' \<longleftrightarrow> a = a' \<and> b = b'"
proof (induction a arbitrary: a')
  case Nil
  then show ?case by (cases a') auto
next
  case (Cons y ys)
  then show ?case by (cases a') auto
qed

lemma joinKey2_inject:
  "nul \<notin> set a \<Longrightarrow> nul \<notin> set a' \<Longrightarrow> joinKey2 a b = joinKey2 a' b' \<longleftrightarrow> a = a' \<and> b = b'"
  by (simp add: joinKey2_def append_sep_inject)

end
