(* ===== verification/Hosted.thy ===== *)
theory Hosted
  imports Prelude
begin

text \<open>
  The repository registry of \<^verbatim>\<open>MemoryStore\<close> (\<^verbatim>\<open>internal/repository/memory_hosted.go\<close>): Hosted and
  Proxy repositories with their deletion state machine, ordered Groups, per-repository grants and
  retention policies, all guarded by decimal resource versions and idempotency records. The store
  is a record that the other components extend with their own maps.
\<close>

section \<open>Data\<close>

type_synonym Format = string

abbreviation FormatRaw :: Format where "FormatRaw \<equiv> ''raw''"
abbreviation FormatOCI :: Format where "FormatOCI \<equiv> ''oci''"
abbreviation FormatMaven :: Format where "FormatMaven \<equiv> ''maven''"
abbreviation FormatNPM :: Format where "FormatNPM \<equiv> ''npm''"
abbreviation FormatPyPI :: Format where "FormatPyPI \<equiv> ''pypi''"
abbreviation FormatGo :: Format where "FormatGo \<equiv> ''go''"
abbreviation FormatCargo :: Format where "FormatCargo \<equiv> ''cargo''"
abbreviation FormatAPT :: Format where "FormatAPT \<equiv> ''apt''"
abbreviation FormatConan :: Format where "FormatConan \<equiv> ''conan''"

text \<open>The state \<open>RepositoryStateUnset\<close> is the empty string of a zero \<^verbatim>\<open>HostedRepository\<close>.\<close>

datatype RepositoryState = RepositoryStateUnset | RepositoryActive | RepositoryDeleting | RepositoryDeleted

record EgressProxy =
  ep_Mode :: string
  ep_Protocol :: string
  ep_Host :: string
  ep_Port :: int
  ep_Username :: string
  ep_Password :: string
  ep_RemoteDNS :: bool
  ep_NoProxy :: "string list"
  ep_CredentialsConfigured :: bool

record UpstreamAuth =
  ua_Scheme :: string
  ua_Username :: string
  ua_Secret :: string
  ua_CredentialsConfigured :: bool

record OCIBearer =
  ob_Realm :: string
  ob_Service :: string

record HostedRepository =
  hr_ID :: string
  hr_Name :: string
  hr_Format :: Format
  hr_Type :: string
  hr_Endpoint :: string
  hr_AllowedHosts :: "string list"
  hr_EgressProxy :: "EgressProxy option"
  hr_UpstreamAuth :: "UpstreamAuth option"
  hr_OCIBearer :: "OCIBearer option"
  hr_AnonymousRead :: bool
  hr_MavenStrictPublication :: bool
  hr_State :: RepositoryState
  hr_Version :: string
  hr_CreatedAt :: gotime

record GroupMember =
  gmem_RepositoryID :: string
  gmem_Position :: int

record HostedGroup =
  hg_ID :: string
  hg_Name :: string
  hg_Format :: Format
  hg_AnonymousRead :: bool
  hg_Members :: "GroupMember list"
  hg_Version :: string

record RepositoryGrant =
  rg_Principal :: string
  rg_Scopes :: "string list"
  rg_ResourcePrefix :: string

record RepositoryGrantSet =
  gs_Version :: string
  gs_Grants :: "RepositoryGrant list"

record RepositoryGrantRecord =
  gr_RepositoryID :: string
  gr_RepositoryName :: string
  gr_Format :: Format
  gr_Grant :: RepositoryGrant

record RepositoryRetentionPolicy =
  rp_Version :: string
  rp_Enabled :: bool
  rp_KeepDays :: int
  rp_SnapshotKeepDays :: int
  rp_MinimumVersions :: int
  rp_MaximumVersions :: int
  rp_KeepDownloadedDays :: int
  rp_CoordinatePatterns :: "string list"
  rp_ProtectedPatterns :: "string list"

record idempotencyRecord =
  ir_payload :: string
  ir_repositoryID :: string
  ir_expiresAt :: gotime

record MavenAsset =
  ma_RepositoryID :: string
  ma_Path :: string
  ma_ObjectKey :: string
  ma_Digest :: string
  ma_Size :: int

record MavenSnapshotImport =
  mi_RepositoryID :: string
  mi_Coordinate :: string
  mi_TargetID :: string
  mi_TargetBinding :: string
  mi_SourceID :: string
  mi_ManifestDigest :: string
  mi_PlanDigest :: string
  mi_SessionID :: string
  mi_Actor :: string
  mi_State :: string
  mi_Metadata :: "MavenAsset option"
  mi_Aliases :: "string gomap"
  mi_CreatedAt :: gotime
  mi_TakeoverKey :: string
  mi_TakeoverActor :: string
  mi_TakenOverAt :: gotime
  mi_CurrentBuildNumber :: int
  mi_CurrentAliases :: "string gomap"

definition Writable :: "MavenSnapshotImport \<Rightarrow> bool" where
  "Writable v \<longleftrightarrow> mi_State v = ''committed'' \<and> \<not> isZero (mi_TakenOverAt v)"

text \<open>
  The part of \<^verbatim>\<open>MemoryStore\<close> this component owns. \<open>uuidsDrawn\<close> counts the UUIDs the process has
  drawn; the drawing function itself is an argument of the operations that need one.
\<close>

record hosted_store =
  uuidsDrawn :: nat
  hostedRepositories :: "HostedRepository gomap"
  hostedGroups :: "HostedGroup gomap"
  repositoryGrants :: "RepositoryGrantSet gomap"
  retentionPolicies :: "RepositoryRetentionPolicy gomap"
  idempotencyRecords :: "idempotencyRecord gomap"
  mavenImports :: "MavenSnapshotImport gomap"

definition emptyHostedStore :: hosted_store where
  "emptyHostedStore =
     \<lparr>uuidsDrawn = 0, hostedRepositories = [], hostedGroups = [], repositoryGrants = [],
      retentionPolicies = [], idempotencyRecords = [], mavenImports = []\<rparr>"

definition zeroHostedRepository :: HostedRepository where
  "zeroHostedRepository =
     \<lparr>hr_ID = [], hr_Name = [], hr_Format = [], hr_Type = [], hr_Endpoint = [], hr_AllowedHosts = [],
      hr_EgressProxy = None, hr_UpstreamAuth = None, hr_OCIBearer = None, hr_AnonymousRead = False,
      hr_MavenStrictPublication = False, hr_State = RepositoryStateUnset, hr_Version = [],
      hr_CreatedAt = zeroTime\<rparr>"

definition zeroHostedGroup :: HostedGroup where
  "zeroHostedGroup =
     \<lparr>hg_ID = [], hg_Name = [], hg_Format = [], hg_AnonymousRead = False, hg_Members = [], hg_Version = []\<rparr>"

section \<open>Versions\<close>

definition nextHostedGroupVersion :: "string \<Rightarrow> string" where
  "nextHostedGroupVersion version =
     (case parseInt64 version of
        None \<Rightarrow> ''1''
      | Some current \<Rightarrow> if current < 1 then ''1'' else formatInt (wrap64 (current + 1)))"

section \<open>Repositories\<close>

definition normalizeHostedRepository :: "HostedRepository \<Rightarrow> HostedRepository" where
  "normalizeHostedRepository repo = (if hr_Type repo = [] then repo\<lparr>hr_Type := ''hosted''\<rparr> else repo)"

definition cloneEgressProxy :: "EgressProxy option \<Rightarrow> EgressProxy option" where
  "cloneEgressProxy p = map_option (\<lambda>x. x\<lparr>ep_CredentialsConfigured := False\<rparr>) p"

definition cloneUpstreamAuth :: "UpstreamAuth option \<Rightarrow> UpstreamAuth option" where
  "cloneUpstreamAuth a = map_option (\<lambda>x. x\<lparr>ua_CredentialsConfigured := False\<rparr>) a"

definition repositoryNameTaken :: "string \<Rightarrow> 'z hosted_store_scheme \<Rightarrow> bool" where
  "repositoryNameTaken n s \<longleftrightarrow> list_ex (\<lambda>r. hr_Name r = n) (gm_vals (hostedRepositories s))"

definition CreateHostedRepository ::
  "gotime \<Rightarrow> HostedRepository \<Rightarrow> 'z hosted_store_scheme \<Rightarrow> HostedRepository result \<times> 'z hosted_store_scheme" where
  "CreateHostedRepository now repo s =
     (let repo = normalizeHostedRepository repo
      in if repositoryNameTaken (hr_Name repo) s then (Inl ErrNameExists, s)
         else
           let repo = repo\<lparr>hr_State := RepositoryActive, hr_Version := ''1'', hr_CreatedAt := now,
                           hr_EgressProxy := cloneEgressProxy (hr_EgressProxy repo),
                           hr_UpstreamAuth := cloneUpstreamAuth (hr_UpstreamAuth repo)\<rparr>
           in (Inr repo,
               s\<lparr>hostedRepositories := gm_put (hr_ID repo) repo (hostedRepositories s)\<rparr>))"

text \<open>
  An operation that reads the clock more than once takes \<open>clk\<close>, the reading made at each of its
  call sites, numbered from 0 in source order.
\<close>

definition repositoriesRecordKey :: "string \<Rightarrow> string \<Rightarrow> string" where
  "repositoriesRecordKey actor key = actor @ [nul] @ ''/repositories'' @ [nul] @ key"

definition CreateHostedRepositoryIdempotently ::
  "(nat \<Rightarrow> gotime) \<Rightarrow> HostedRepository \<Rightarrow> string \<Rightarrow> string \<Rightarrow> string \<Rightarrow> 'z hosted_store_scheme
     \<Rightarrow> (HostedRepository \<times> bool) result \<times> 'z hosted_store_scheme" where
  "CreateHostedRepositoryIdempotently clk repo actor key payload s =
     (let repo = normalizeHostedRepository repo;
          recordKey = repositoriesRecordKey actor key;
          create =
            (if repositoryNameTaken (hr_Name repo) s then (Inl ErrNameExists, s)
             else
               let repo = repo\<lparr>hr_State := RepositoryActive, hr_Version := ''1'', hr_CreatedAt := clk 1\<rparr>
               in (Inr (repo, False),
                   s\<lparr>hostedRepositories := gm_put (hr_ID repo) repo (hostedRepositories s),
                     idempotencyRecords :=
                       gm_put recordKey
                         \<lparr>ir_payload = payload, ir_repositoryID = hr_ID repo, ir_expiresAt = clk 2 + 24 * hour\<rparr>
                         (idempotencyRecords s)\<rparr>))
      in case gm_get (idempotencyRecords s) recordKey of
           None \<Rightarrow> create
         | Some rec \<Rightarrow>
             if clk 0 < ir_expiresAt rec then
               (if ir_payload rec \<noteq> payload then (Inl ErrIdempotencyConflict, s)
                else (Inr (case gm_get (hostedRepositories s) (ir_repositoryID rec) of
                             Some r \<Rightarrow> r | None \<Rightarrow> zeroHostedRepository, True), s))
             else create)"

text \<open>
  Cursor pages. \<open>indexAfter\<close> is the loop that looks for the cursor; \<open>listPage\<close> is the slice
  \<^verbatim>\<open>items[start:end]\<close> with the cursor of the next page, \<^verbatim>\<open>""\<close> on the last one.
\<close>

fun indexAfter :: "('a \<Rightarrow> string) \<Rightarrow> string \<Rightarrow> 'a list \<Rightarrow> nat option" where
  "indexAfter f a [] = None"
| "indexAfter f a (x # xs) = (if f x = a then Some 1 else map_option Suc (indexAfter f a xs))"

definition pageLimit :: "int \<Rightarrow> nat" where
  "pageLimit limit = (if limit \<le> 0 \<or> limit > 200 then 50 else nat limit)"

definition listPage :: "('a \<Rightarrow> string) \<Rightarrow> int \<Rightarrow> string \<Rightarrow> 'a list \<Rightarrow> ('a list \<times> string) result" where
  "listPage f limit after items =
     (let n = pageLimit limit;
          start = (if after = [] then Some 0 else indexAfter f after items)
      in case start of
           None \<Rightarrow> Inl ErrNotFound
         | Some st \<Rightarrow>
             if st + n < length items
             then Inr (take n (drop st items), f (items ! (st + n - 1)))
             else Inr (drop st items, []))"

definition ListHostedRepositories ::
  "int \<Rightarrow> string \<Rightarrow> 'z hosted_store_scheme \<Rightarrow> (HostedRepository list \<times> string) result" where
  "ListHostedRepositories limit after s =
     listPage hr_ID limit after (sort_key hr_ID (gm_vals (hostedRepositories s)))"

definition GetHostedRepository :: "string \<Rightarrow> 'z hosted_store_scheme \<Rightarrow> HostedRepository result" where
  "GetHostedRepository rid s =
     (case gm_get (hostedRepositories s) rid of None \<Rightarrow> Inl ErrNotFound | Some r \<Rightarrow> Inr r)"

definition GetHostedRepositoryByName :: "string \<Rightarrow> 'z hosted_store_scheme \<Rightarrow> HostedRepository result" where
  "GetHostedRepositoryByName n s =
     (case find (\<lambda>r. hr_Name r = n) (gm_vals (hostedRepositories s)) of
        None \<Rightarrow> Inl ErrNotFound | Some r \<Rightarrow> Inr r)"

definition DisableHostedRepository ::
  "string \<Rightarrow> 'z hosted_store_scheme \<Rightarrow> HostedRepository result \<times> 'z hosted_store_scheme" where
  "DisableHostedRepository rid s =
     (case gm_get (hostedRepositories s) rid of
        None \<Rightarrow> (Inl ErrNotFound, s)
      | Some repo \<Rightarrow>
          if hr_State repo = RepositoryDeleting then (Inr repo, s)
          else if hr_State repo \<noteq> RepositoryActive then (Inl ErrNotFound, s)
          else let repo = repo\<lparr>hr_State := RepositoryDeleting, hr_Version := ''2''\<rparr>
               in (Inr repo, s\<lparr>hostedRepositories := gm_put rid repo (hostedRepositories s)\<rparr>))"

definition FinalizeHostedRepositoryDeletion ::
  "string \<Rightarrow> 'z hosted_store_scheme \<Rightarrow> HostedRepository result \<times> 'z hosted_store_scheme" where
  "FinalizeHostedRepositoryDeletion rid s =
     (case gm_get (hostedRepositories s) rid of
        None \<Rightarrow> (Inl ErrNotFound, s)
      | Some repo \<Rightarrow>
          if hr_State repo = RepositoryDeleted then (Inr repo, s)
          else if hr_State repo \<noteq> RepositoryDeleting then (Inl ErrVersionConflict, s)
          else let repo = repo\<lparr>hr_State := RepositoryDeleted,
                               hr_Version := nextHostedGroupVersion (hr_Version repo)\<rparr>
               in (Inr repo, s\<lparr>hostedRepositories := gm_put rid repo (hostedRepositories s)\<rparr>))"

definition UpdateHostedRepository ::
  "HostedRepository \<Rightarrow> string \<Rightarrow> 'z hosted_store_scheme \<Rightarrow> HostedRepository result \<times> 'z hosted_store_scheme" where
  "UpdateHostedRepository repo expectedVersion s =
     (case gm_get (hostedRepositories s) (hr_ID repo) of
        None \<Rightarrow> (Inl ErrNotFound, s)
      | Some current \<Rightarrow>
          if hr_Version current \<noteq> expectedVersion \<or> hr_State current \<noteq> RepositoryActive
          then (Inl ErrVersionConflict, s)
          else
            let current = current\<lparr>hr_Endpoint := hr_Endpoint repo,
                                  hr_AllowedHosts := hr_AllowedHosts repo,
                                  hr_AnonymousRead := hr_AnonymousRead repo,
                                  hr_MavenStrictPublication := hr_MavenStrictPublication repo,
                                  hr_EgressProxy := cloneEgressProxy (hr_EgressProxy repo),
                                  hr_UpstreamAuth := cloneUpstreamAuth (hr_UpstreamAuth repo),
                                  hr_OCIBearer := hr_OCIBearer repo,
                                  hr_Version := nextHostedGroupVersion (hr_Version current)\<rparr>
            in (Inr current,
                s\<lparr>hostedRepositories := gm_put (hr_ID repo) current (hostedRepositories s)\<rparr>))"

section \<open>Groups\<close>

text \<open>
  Group writes for Cargo run \<^verbatim>\<open>preflightCargoGroupMembersLocked\<close> first; \<open>preflight\<close> is its verdict at
  the current store for a group and a member list.
\<close>

type_synonym cargo_preflight = "string \<Rightarrow> GroupMember list \<Rightarrow> error option"

definition sortMembers :: "GroupMember list \<Rightarrow> GroupMember list" where
  "sortMembers members = sort_key gmem_Position members"

definition groupPreflight :: "cargo_preflight \<Rightarrow> Format \<Rightarrow> string \<Rightarrow> GroupMember list \<Rightarrow> error option" where
  "groupPreflight preflight fmt gid members = (if fmt = FormatCargo then preflight gid members else None)"

definition groupsRecordKey :: "string \<Rightarrow> string \<Rightarrow> string" where
  "groupsRecordKey actor key = actor @ [nul] @ ''/groups'' @ [nul] @ key"

definition CreateHostedGroupIdempotently ::
  "cargo_preflight \<Rightarrow> (nat \<Rightarrow> gotime) \<Rightarrow> HostedGroup \<Rightarrow> string \<Rightarrow> string \<Rightarrow> string \<Rightarrow> 'z hosted_store_scheme
     \<Rightarrow> (HostedGroup \<times> bool) result \<times> 'z hosted_store_scheme" where
  "CreateHostedGroupIdempotently preflight clk grp actor key payload s =
     (let recordKey = groupsRecordKey actor key;
          create =
            (if list_ex (\<lambda>g. hg_Name g = hg_Name grp) (gm_vals (hostedGroups s)) then (Inl ErrNameExists, s)
             else case groupPreflight preflight (hg_Format grp) (hg_ID grp) (hg_Members grp) of
                    Some e \<Rightarrow> (Inl e, s)
                  | None \<Rightarrow>
                      let grp = grp\<lparr>hg_Version := ''1'', hg_Members := sortMembers (hg_Members grp)\<rparr>
                      in (Inr (grp, False),
                          s\<lparr>hostedGroups := gm_put (hg_ID grp) grp (hostedGroups s),
                            idempotencyRecords :=
                              gm_put recordKey
                                \<lparr>ir_payload = payload, ir_repositoryID = hg_ID grp,
                                 ir_expiresAt = clk 1 + 24 * hour\<rparr>
                                (idempotencyRecords s)\<rparr>))
      in case gm_get (idempotencyRecords s) recordKey of
           None \<Rightarrow> create
         | Some rec \<Rightarrow>
             if clk 0 < ir_expiresAt rec then
               (if ir_payload rec \<noteq> payload then (Inl ErrIdempotencyConflict, s)
                else (Inr (case gm_get (hostedGroups s) (ir_repositoryID rec) of
                             Some g \<Rightarrow> g | None \<Rightarrow> zeroHostedGroup, True), s))
             else create)"

definition ListHostedGroups ::
  "int \<Rightarrow> string \<Rightarrow> 'z hosted_store_scheme \<Rightarrow> (HostedGroup list \<times> string) result" where
  "ListHostedGroups limit after s =
     listPage hg_ID limit after (sort_key hg_ID (gm_vals (hostedGroups s)))"

definition GetHostedGroup :: "string \<Rightarrow> 'z hosted_store_scheme \<Rightarrow> HostedGroup result" where
  "GetHostedGroup gid s =
     (case gm_get (hostedGroups s) gid of None \<Rightarrow> Inl ErrNotFound | Some g \<Rightarrow> Inr g)"

definition GetHostedGroupByName :: "string \<Rightarrow> 'z hosted_store_scheme \<Rightarrow> HostedGroup result" where
  "GetHostedGroupByName n s =
     (case find (\<lambda>g. hg_Name g = n) (gm_vals (hostedGroups s)) of
        None \<Rightarrow> Inl ErrNotFound | Some g \<Rightarrow> Inr g)"

definition ReplaceHostedGroup ::
  "cargo_preflight \<Rightarrow> HostedGroup \<Rightarrow> string \<Rightarrow> 'z hosted_store_scheme
     \<Rightarrow> HostedGroup result \<times> 'z hosted_store_scheme" where
  "ReplaceHostedGroup preflight grp expectedVersion s =
     (case gm_get (hostedGroups s) (hg_ID grp) of
        None \<Rightarrow> (Inl ErrNotFound, s)
      | Some stored \<Rightarrow>
          if hg_Version stored \<noteq> expectedVersion then (Inl ErrVersionConflict, s)
          else case groupPreflight preflight (hg_Format grp) (hg_ID grp) (hg_Members grp) of
                 Some e \<Rightarrow> (Inl e, s)
               | None \<Rightarrow>
                   let grp = grp\<lparr>hg_Version := nextHostedGroupVersion (hg_Version stored),
                                     hg_Members := sortMembers (hg_Members grp)\<rparr>
                   in (Inr grp, s\<lparr>hostedGroups := gm_put (hg_ID grp) grp (hostedGroups s)\<rparr>))"

definition ReplaceHostedGroupMembers ::
  "cargo_preflight \<Rightarrow> string \<Rightarrow> GroupMember list \<Rightarrow> string \<Rightarrow> 'z hosted_store_scheme
     \<Rightarrow> HostedGroup result \<times> 'z hosted_store_scheme" where
  "ReplaceHostedGroupMembers preflight gid members expectedVersion s =
     (case gm_get (hostedGroups s) gid of
        None \<Rightarrow> (Inl ErrNotFound, s)
      | Some grp \<Rightarrow>
          if hg_Version grp \<noteq> expectedVersion then (Inl ErrVersionConflict, s)
          else case groupPreflight preflight (hg_Format grp) (hg_ID grp) members of
                 Some e \<Rightarrow> (Inl e, s)
               | None \<Rightarrow>
                   let grp = grp\<lparr>hg_Members := sortMembers members,
                                     hg_Version := nextHostedGroupVersion (hg_Version grp)\<rparr>
                   in (Inr grp, s\<lparr>hostedGroups := gm_put gid grp (hostedGroups s)\<rparr>))"

definition DeleteHostedGroup ::
  "string \<Rightarrow> 'z hosted_store_scheme \<Rightarrow> unit result \<times> 'z hosted_store_scheme" where
  "DeleteHostedGroup gid s =
     (case gm_get (hostedGroups s) gid of
        None \<Rightarrow> (Inl ErrNotFound, s)
      | Some _ \<Rightarrow> (Inr (), s\<lparr>hostedGroups := gm_del gid (hostedGroups s)\<rparr>))"

section \<open>Grants\<close>

definition repositoryMissing :: "string \<Rightarrow> 'z hosted_store_scheme \<Rightarrow> bool" where
  "repositoryMissing rid s \<longleftrightarrow> gm_get (hostedRepositories s) rid = None"

definition GetRepositoryGrants :: "string \<Rightarrow> 'z hosted_store_scheme \<Rightarrow> RepositoryGrantSet result" where
  "GetRepositoryGrants rid s =
     (if repositoryMissing rid s then Inl ErrNotFound
      else case gm_get (repositoryGrants s) rid of
             None \<Rightarrow> Inr \<lparr>gs_Version = ''1'', gs_Grants = []\<rparr>
           | Some gset \<Rightarrow> Inr gset)"

definition ListRepositoryGrantRecords :: "'z hosted_store_scheme \<Rightarrow> RepositoryGrantRecord list" where
  "ListRepositoryGrantRecords s =
     sort_key (\<lambda>r. [rg_Principal (gr_Grant r), gr_RepositoryName r, rg_ResourcePrefix (gr_Grant r)])
       (concat (map (\<lambda>(rid, gset).
          case gm_get (hostedRepositories s) rid of
            None \<Rightarrow> []
          | Some repo \<Rightarrow>
              map (\<lambda>g. \<lparr>gr_RepositoryID = rid, gr_RepositoryName = hr_Name repo,
                        gr_Format = hr_Format repo, gr_Grant = g\<rparr>) (gs_Grants gset))
          (repositoryGrants s)))"

definition ReplaceRepositoryGrants ::
  "string \<Rightarrow> RepositoryGrant list \<Rightarrow> string \<Rightarrow> 'z hosted_store_scheme
     \<Rightarrow> RepositoryGrantSet result \<times> 'z hosted_store_scheme" where
  "ReplaceRepositoryGrants rid grants expectedVersion s =
     (if repositoryMissing rid s then (Inl ErrNotFound, s)
      else
        let gset = (case gm_get (repositoryGrants s) rid of
                     None \<Rightarrow> \<lparr>gs_Version = ''1'', gs_Grants = []\<rparr> | Some x \<Rightarrow> x)
        in if gs_Version gset \<noteq> expectedVersion then (Inl ErrVersionConflict, s)
           else let gset = \<lparr>gs_Version = nextHostedGroupVersion (gs_Version gset), gs_Grants = grants\<rparr>
                in (Inr gset, s\<lparr>repositoryGrants := gm_put rid gset (repositoryGrants s)\<rparr>))"

text \<open>A template copies its grants under the same version guard; \<open>templates\<close> is the map \<^verbatim>\<open>authorizationTemplates\<close>, which the registry only reads.\<close>

record AuthorizationTemplate =
  tpl_ID :: string
  tpl_Name :: string
  tpl_Description :: string
  tpl_Grants :: "RepositoryGrant list"
  tpl_Version :: string
  tpl_CreatedAt :: gotime
  tpl_UpdatedAt :: gotime

definition ApplyAuthorizationTemplate ::
  "AuthorizationTemplate gomap \<Rightarrow> string \<Rightarrow> string \<Rightarrow> string \<Rightarrow> 'z hosted_store_scheme
     \<Rightarrow> RepositoryGrantSet result \<times> 'z hosted_store_scheme" where
  "ApplyAuthorizationTemplate templates templateID rid expectedVersion s =
     (case gm_get templates templateID of
        None \<Rightarrow> (Inl ErrNotFound, s)
      | Some template \<Rightarrow>
          if repositoryMissing rid s then (Inl ErrNotFound, s)
          else
            let gset = (case gm_get (repositoryGrants s) rid of
                         None \<Rightarrow> \<lparr>gs_Version = ''1'', gs_Grants = []\<rparr> | Some x \<Rightarrow> x)
            in if gs_Version gset \<noteq> expectedVersion then (Inl ErrVersionConflict, s)
               else let gset = \<lparr>gs_Version = nextHostedGroupVersion (gs_Version gset), gs_Grants = tpl_Grants template\<rparr>
                    in (Inr gset, s\<lparr>repositoryGrants := gm_put rid gset (repositoryGrants s)\<rparr>))"

fun upsertGrant :: "RepositoryGrant \<Rightarrow> RepositoryGrant list \<Rightarrow> RepositoryGrant list" where
  "upsertGrant g [] = [g]"
| "upsertGrant g (h # hs) =
     (if rg_Principal h = rg_Principal g \<and> rg_ResourcePrefix h = rg_ResourcePrefix g then g # hs
      else h # upsertGrant g hs)"

definition UpsertRepositoryGrant ::
  "string \<Rightarrow> RepositoryGrant \<Rightarrow> 'z hosted_store_scheme
     \<Rightarrow> RepositoryGrantSet result \<times> 'z hosted_store_scheme" where
  "UpsertRepositoryGrant rid grant s =
     (if repositoryMissing rid s then (Inl ErrNotFound, s)
      else
        let gset = (case gm_get (repositoryGrants s) rid of
                     None \<Rightarrow> \<lparr>gs_Version = [], gs_Grants = []\<rparr> | Some x \<Rightarrow> x);
            version = (if gs_Version gset = [] then ''1'' else gs_Version gset);
            gset = \<lparr>gs_Version = nextHostedGroupVersion version, gs_Grants = upsertGrant grant (gs_Grants gset)\<rparr>
        in (Inr gset, s\<lparr>repositoryGrants := gm_put rid gset (repositoryGrants s)\<rparr>))"

definition DeleteRepositoryGrant ::
  "string \<Rightarrow> string \<Rightarrow> string \<Rightarrow> 'z hosted_store_scheme
     \<Rightarrow> RepositoryGrantSet result \<times> 'z hosted_store_scheme" where
  "DeleteRepositoryGrant rid prin resourcePrefix s =
     (if repositoryMissing rid s then (Inl ErrNotFound, s)
      else case gm_get (repositoryGrants s) rid of
             None \<Rightarrow> (Inl ErrNotFound, s)
           | Some gset \<Rightarrow>
               let named = (\<lambda>g. rg_Principal g = prin \<and> rg_ResourcePrefix g = resourcePrefix)
               in if \<not> list_ex named (gs_Grants gset) then (Inl ErrNotFound, s)
                  else let gset = \<lparr>gs_Version = nextHostedGroupVersion (gs_Version gset),
                                  gs_Grants = filter (\<lambda>g. \<not> named g) (gs_Grants gset)\<rparr>
                       in (Inr gset, s\<lparr>repositoryGrants := gm_put rid gset (repositoryGrants s)\<rparr>))"

section \<open>Retention policies\<close>

definition defaultRepositoryRetentionPolicy :: RepositoryRetentionPolicy where
  "defaultRepositoryRetentionPolicy =
     \<lparr>rp_Version = ''1'', rp_Enabled = False, rp_KeepDays = 30, rp_SnapshotKeepDays = 30,
      rp_MinimumVersions = 1, rp_MaximumVersions = 0, rp_KeepDownloadedDays = 0,
      rp_CoordinatePatterns = [], rp_ProtectedPatterns = []\<rparr>"

definition GetRepositoryRetentionPolicy ::
  "string \<Rightarrow> 'z hosted_store_scheme \<Rightarrow> RepositoryRetentionPolicy result" where
  "GetRepositoryRetentionPolicy rid s =
     (if repositoryMissing rid s then Inl ErrNotFound
      else case gm_get (retentionPolicies s) rid of
             None \<Rightarrow> Inr defaultRepositoryRetentionPolicy
           | Some p \<Rightarrow> Inr p)"

definition ReplaceRepositoryRetentionPolicy ::
  "string \<Rightarrow> RepositoryRetentionPolicy \<Rightarrow> string \<Rightarrow> 'z hosted_store_scheme
     \<Rightarrow> RepositoryRetentionPolicy result \<times> 'z hosted_store_scheme" where
  "ReplaceRepositoryRetentionPolicy rid policy expectedVersion s =
     (if repositoryMissing rid s then (Inl ErrNotFound, s)
      else if rp_Enabled policy \<and>
              list_ex (\<lambda>v. mi_RepositoryID v = rid \<and> Writable v) (gm_vals (mavenImports s))
      then (Inl ErrMavenSnapshotImportRetention, s)
      else
        let current = (case gm_get (retentionPolicies s) rid of
                         None \<Rightarrow> defaultRepositoryRetentionPolicy | Some p \<Rightarrow> p)
        in if rp_Version current \<noteq> expectedVersion then (Inl ErrVersionConflict, s)
           else
             let policy = (if rp_SnapshotKeepDays policy = 0
                           then policy\<lparr>rp_SnapshotKeepDays := rp_KeepDays policy\<rparr> else policy);
                 policy = policy\<lparr>rp_Version := nextHostedGroupVersion (rp_Version current)\<rparr>
             in (Inr policy, s\<lparr>retentionPolicies := gm_put rid policy (retentionPolicies s)\<rparr>))"

end
