(* ===== verification/Contracts.thy ===== *)
theory Contracts
  imports Hosted
begin

text \<open>
  The interfaces several operations of the store share, as locales: updates guarded by an expected
  resource version or by the state they replace, creations guarded by an idempotency key, and completions fenced by a lease
  token. The lemmas a client relies on are proved once here; each component interprets the locale
  on its own operations.
\<close>

section \<open>Resource versions\<close>

lemma nextHostedGroupVersion_first:
  assumes "\<And>n. parseInt64 v = Some n \<Longrightarrow> n < 1"
  shows "nextHostedGroupVersion v = ''1''"
proof (cases "parseInt64 v")
  case None
  then show ?thesis by (simp add: nextHostedGroupVersion_def)
next
  case (Some n)
  with assms [OF Some] show ?thesis by (simp add: nextHostedGroupVersion_def)
qed

lemma nextHostedGroupVersion_later:
  "parseInt64 v = Some n \<Longrightarrow> 1 \<le> n \<Longrightarrow> nextHostedGroupVersion v = formatInt (wrap64 (n + 1))"
  by (simp add: nextHostedGroupVersion_def)

lemma parseInt64_one [simp]: "parseInt64 ''1'' = Some 1"
  by (simp add: parseInt64_def parseUint64_def is_digit_def digit_val_def)

lemma parseInt64_range: "parseInt64 v = Some n \<Longrightarrow> int64 n"
  by (auto simp: parseInt64_def int64_def Let_def split: list.splits option.splits if_splits)

lemma wrap64_succ_neq: "int64 n \<Longrightarrow> wrap64 (n + 1) \<noteq> n"
  by (cases "n = 2 ^ 63 - 1") (auto simp: wrap64_def int64_def)

text \<open>A version is never its own successor, whatever string a resource carries.\<close>

lemma nextHostedGroupVersion_neq [simp]: "nextHostedGroupVersion v \<noteq> v"
proof
  assume eq: "nextHostedGroupVersion v = v"
  show False
  proof (cases "\<exists>n. parseInt64 v = Some n \<and> 1 \<le> n")
    case True
    then obtain n where p: "parseInt64 v = Some n" and "1 \<le> n" by blast
    then have "v = formatInt (wrap64 (n + 1))"
      using eq nextHostedGroupVersion_later by metis
    then have "parseInt64 v = Some (wrap64 (n + 1))"
      using parseInt64_format wrap64_int64 by metis
    with p parseInt64_range [OF p] show False
      by (simp add: wrap64_succ_neq)
  next
    case False
    then have small: "\<And>n. parseInt64 v = Some n \<Longrightarrow> n < 1"
      using not_le by blast
    then have "v = ''1''"
      using eq nextHostedGroupVersion_first by metis
    with small [of 1] show False by simp
  qed
qed

lemma nextHostedGroupVersion_neq' [simp]: "v \<noteq> nextHostedGroupVersion v"
  by (metis nextHostedGroupVersion_neq)

lemma nextHostedGroupVersion_succ:
  assumes "parseInt64 v = Some n" and "1 \<le> n" and "n < 2 ^ 63 - 1"
  shows "parseInt64 (nextHostedGroupVersion v) = Some (n + 1)"
proof -
  have "int64 (n + 1)"
    using assms by (simp add: int64_def)
  with assms show ?thesis
    by (simp add: nextHostedGroupVersion_def parseInt64_format)
qed

section \<open>Updates guarded by an expected version\<close>

text \<open>Several writers that all read the same version, applied one after another.\<close>

fun run_updates ::
  "('a \<Rightarrow> string \<Rightarrow> 's \<Rightarrow> 'r result \<times> 's) \<Rightarrow> string \<Rightarrow> 'a list \<Rightarrow> 's \<Rightarrow> 'r result list \<times> 's" where
  "run_updates upd v [] s = ([], s)"
| "run_updates upd v (a # as) s =
     (let (r, s') = upd a v s; (rs, t) = run_updates upd v as s' in (r # rs, t))"

locale cas_update =
  fixes version :: "'s \<Rightarrow> string option"
    and upd :: "'a \<Rightarrow> string \<Rightarrow> 's \<Rightarrow> 'r result \<times> 's"
  assumes upd_ok: "upd a v s = (Inr r, s') \<Longrightarrow>
      version s = Some v \<and> version s' = Some (nextHostedGroupVersion v)"
    and upd_err: "upd a v s = (Inl e, s') \<Longrightarrow> s' = s"
begin

lemma stale_refused: "version s \<noteq> Some v \<Longrightarrow> \<exists>e. upd a v s = (Inl e, s)"
  by (metis old.prod.exhaust sum.exhaust upd_err upd_ok)

lemma no_lost_update: "upd a v s = (Inr r, s') \<Longrightarrow> \<exists>e. upd b v s' = (Inl e, s')"
  by (rule stale_refused) (auto dest: upd_ok)

lemma all_stale: "version s \<noteq> Some v \<Longrightarrow>
    snd (run_updates upd v as s) = s \<and> (\<forall>r \<in> set (fst (run_updates upd v as s)). \<not> is_ok r)"
proof (induction as)
  case Nil
  then show ?case by simp
next
  case (Cons a as)
  obtain e where "upd a v s = (Inl e, s)"
    using stale_refused Cons.prems by blast
  with Cons show ?case
    by (auto simp: case_prod_beta)
qed

lemma one_winner: "length (filter is_ok (fst (run_updates upd v as s))) \<le> 1"
proof (induction as arbitrary: s)
  case Nil
  then show ?case by simp
next
  case (Cons a as)
  show ?case
  proof (cases "upd a v s")
    case (Pair r s')
    show ?thesis
    proof (cases r)
      case (Inl e)
      with Pair Cons.IH show ?thesis
        by (simp add: case_prod_beta)
    next
      case (Inr x)
      with Pair have "version s' \<noteq> Some v"
        using upd_ok by fastforce
      then have "filter is_ok (fst (run_updates upd v as s')) = []"
        using all_stale by (simp add: filter_empty_conv)
      with Pair Inr show ?thesis
        by (simp add: case_prod_beta)
    qed
  qed
qed

lemma first_wins:
  assumes "upd a v s = (Inr r, s')"
  shows "length (filter is_ok (fst (run_updates upd v (a # as) s))) = 1"
    and "snd (run_updates upd v (a # as) s) = s'"
proof -
  have "version s' \<noteq> Some v"
    using upd_ok [OF assms] by simp
  then have "filter is_ok (fst (run_updates upd v as s')) = []" and "snd (run_updates upd v as s') = s'"
    using all_stale by (simp_all add: filter_empty_conv)
  with assms show "length (filter is_ok (fst (run_updates upd v (a # as) s))) = 1"
    and "snd (run_updates upd v (a # as) s) = s'"
    by (simp_all add: case_prod_beta)
qed

end

section \<open>Writes that disarm their own guard\<close>

text \<open>
  \<open>armed s\<close> is the state in which a write may succeed. A successful write leaves it and no other write brings it back, so of any number
  of writers that rely on the same state at most one succeeds. Updates under an expected version are
  the instance whose guard is that version.
\<close>

fun run_writes :: "('a \<Rightarrow> 's \<Rightarrow> 'r \<times> 's) \<Rightarrow> 'a list \<Rightarrow> 's \<Rightarrow> 'r list \<times> 's" where
  "run_writes fire [] s = ([], s)"
| "run_writes fire (a # as) s = (let (r, s') = fire a s; (rs, t) = run_writes fire as s' in (r # rs, t))"

locale one_shot =
  fixes armed :: "'s \<Rightarrow> bool"
    and fire :: "'a \<Rightarrow> 's \<Rightarrow> 'r \<times> 's"
    and won :: "'r \<Rightarrow> bool"
    and legit :: "'a \<Rightarrow> bool"
  assumes won_disarms: "legit a \<Longrightarrow> fire a s = (r, s') \<Longrightarrow> won r \<Longrightarrow> armed s \<and> \<not> armed s'"
    and lost_disarmed: "legit a \<Longrightarrow> fire a s = (r, s') \<Longrightarrow> \<not> won r \<Longrightarrow> \<not> armed s \<Longrightarrow> \<not> armed s'"
begin

lemma disarmed_all_lose:
  "\<not> armed s \<Longrightarrow> \<forall>a \<in> set as. legit a \<Longrightarrow> filter won (fst (run_writes fire as s)) = []"
proof (induction as arbitrary: s)
  case Nil
  then show ?case by simp
next
  case (Cons a as)
  obtain r s' where f: "fire a s = (r, s')" by fastforce
  then have "\<not> won r" using Cons.prems won_disarms [OF _ f] by auto
  moreover from this have "\<not> armed s'" using Cons.prems lost_disarmed [OF _ f] by auto
  ultimately show ?case using f Cons by (simp add: case_prod_beta)
qed

lemma at_most_one: "\<forall>a \<in> set as. legit a \<Longrightarrow> length (filter won (fst (run_writes fire as s))) \<le> 1"
proof (induction as arbitrary: s)
  case Nil
  then show ?case by simp
next
  case (Cons a as)
  obtain r s' where f: "fire a s = (r, s')" by fastforce
  show ?case
  proof (cases "won r")
    case True
    then have "\<not> armed s'"
      using Cons.prems won_disarms [OF _ f] by simp
    then have "filter won (fst (run_writes fire as s')) = []"
      using disarmed_all_lose Cons.prems by simp
    with f True show ?thesis by (simp add: case_prod_beta)
  next
    case False
    with f Cons show ?thesis by (simp add: case_prod_beta)
  qed
qed

end

sublocale cas_update \<subseteq> at_version: one_shot "\<lambda>s. version s = Some v" "\<lambda>a. upd a v" is_ok "\<lambda>_. True" for v
proof unfold_locales
  show "version s = Some v \<and> version s' \<noteq> Some v" if "upd a v s = (r, s')" "is_ok r" for a s r s'
    using that upd_ok by (auto simp: is_ok_iff)
  show "version s' \<noteq> Some v" if "upd a v s = (r, s')" "\<not> is_ok r" "version s \<noteq> Some v" for a s r s'
    using that by (cases r) (auto dest: upd_err)
qed

section \<open>Creations guarded by an idempotency key\<close>

text \<open>
  \<open>recorded s k\<close> is the live record of a key in a state at a clock: the payload it was first used
  with and the identity of what was created; \<open>view\<close> reads that object back.
\<close>

locale idempotent_create =
  fixes create :: "'c \<Rightarrow> 'a \<Rightarrow> 'k \<Rightarrow> 'p \<Rightarrow> 's \<Rightarrow> ('r \<times> bool) result \<times> 's"
    and recorded :: "'c \<Rightarrow> 's \<Rightarrow> 'k \<Rightarrow> ('p \<times> 'i) option"
    and same :: "'p \<Rightarrow> 'p \<Rightarrow> bool"
    and view :: "'s \<Rightarrow> 'i \<Rightarrow> 'r"
  assumes replay: "recorded c s k = Some (p, i) \<Longrightarrow> same p q \<Longrightarrow> create c a k q s = (Inr (view s i, True), s)"
    and conflict: "recorded c s k = Some (p, i) \<Longrightarrow> \<not> same p q \<Longrightarrow> create c a k q s = (Inl ErrIdempotencyConflict, s)"
    and fresh: "recorded c s k = None \<Longrightarrow> create c a k q s = (Inr (r, b), s') \<Longrightarrow>
      \<not> b \<and> (\<exists>i. (\<forall>c'. recorded c' s' k = None \<or> recorded c' s' k = Some (q, i)) \<and> view s' i = r)"
    and refl: "same p p"
begin

lemma replay_after_create:
  assumes "recorded c s k = None" and "create c a k q s = (Inr (r, b), s')"
    and "recorded c' s' k \<noteq> None"
  shows "create c' a' k q s' = (Inr (r, True), s')"
  using fresh [OF assms(1,2)] assms(3) replay refl by metis

lemma conflict_after_create:
  assumes "recorded c s k = None" and "create c a k q s = (Inr (r, b), s')"
    and "recorded c' s' k \<noteq> None" and "\<not> same q q'"
  shows "create c' a' k q' s' = (Inl ErrIdempotencyConflict, s')"
  using fresh [OF assms(1,2)] assms(3,4) conflict by metis

end

section \<open>Completions fenced by a lease token\<close>

text \<open>
  \<open>holder s i\<close> is the token of the worker that currently holds item \<open>i\<close>, if any; \<open>finish\<close> is an
  operation with which a worker hands the item back.
\<close>

locale lease_fence =
  fixes holder :: "'s \<Rightarrow> 'i \<Rightarrow> string option"
    and finish :: "'c \<Rightarrow> 'i \<Rightarrow> string \<Rightarrow> 's \<Rightarrow> 'r result \<times> 's"
    and good :: "'s \<Rightarrow> bool"
  assumes finish_ok: "good s \<Longrightarrow> finish c i t s = (Inr r, s') \<Longrightarrow> holder s i = Some t \<and> holder s' i = None"
    and finish_err: "finish c i t s = (Inl e, s') \<Longrightarrow> s' = s"
    and finish_good: "good s \<Longrightarrow> finish c i t s = (Inr r, s') \<Longrightarrow> good s'"
begin

lemma stale_token_refused:
  "good s \<Longrightarrow> holder s i \<noteq> Some t \<Longrightarrow> \<exists>e. finish c i t s = (Inl e, s)"
  by (metis old.prod.exhaust sum.exhaust finish_err finish_ok)

lemma finish_once:
  "good s \<Longrightarrow> finish c i t s = (Inr r, s') \<Longrightarrow> \<exists>e. finish c' i t' s' = (Inl e, s')"
  by (rule stale_token_refused) (auto dest: finish_ok intro: finish_good)

end

end
