(* ===== verification/Authorization.thy ===== *)
theory Authorization
  imports Contracts
begin

text \<open>
  Package \<^verbatim>\<open>internal/authorization\<close>: principals and their account state, the static reader and
  writer patterns, credentials resolved to principals, and the repository authorizer that evaluates
  account state, administrator identity, role, per-repository grants and legacy patterns in that
  order. The grant store, the user, key and service-account stores are interfaces of the code, so
  they are fields of function type.
\<close>

section \<open>Roles\<close>

type_synonym Role = string

definition RoleNone :: Role where "RoleNone = ''none''"
definition RoleMember :: Role where "RoleMember = ''member''"
definition RoleAdmin :: Role where "RoleAdmin = ''admin''"

lemmas role_defs = RoleNone_def RoleMember_def RoleAdmin_def

lemma role_distinct [simp]:
  "[] \<noteq> RoleNone" "[] \<noteq> RoleMember" "[] \<noteq> RoleAdmin"
  "RoleNone \<noteq> []" "RoleNone \<noteq> RoleMember" "RoleNone \<noteq> RoleAdmin"
  "RoleMember \<noteq> []" "RoleMember \<noteq> RoleNone" "RoleMember \<noteq> RoleAdmin"
  "RoleAdmin \<noteq> []" "RoleAdmin \<noteq> RoleNone" "RoleAdmin \<noteq> RoleMember"
  by (simp_all add: role_defs)

datatype RepositoryOperation =
    RepositoryRead
  | RepositoryWrite
  | RepositoryAdmin
  | RepositoryIntelligence
  | OtherOperation string

definition RoleAllows :: "Role \<Rightarrow> RepositoryOperation \<Rightarrow> bool" where
  "RoleAllows role operation \<longleftrightarrow> role = RoleAdmin"

definition roleRank :: "Role \<Rightarrow> nat" where
  "roleRank role = (if role = RoleAdmin then 2 else if role = RoleMember then 1 else 0)"

fun bestRole :: "Role \<Rightarrow> string list \<Rightarrow> Role" where
  "bestRole best [] = best"
| "bestRole best (r # rs) = bestRole (if roleRank r > roleRank best then r else best) rs"

definition RoleFromRoles :: "string list \<Rightarrow> Role" where
  "RoleFromRoles roles = bestRole [] roles"

definition validGatewayRole :: "Role \<Rightarrow> bool" where
  "validGatewayRole role \<longleftrightarrow> role = RoleNone \<or> role = RoleMember \<or> role = RoleAdmin"

section \<open>Principals\<close>

type_synonym AuthenticationKind = string

definition AuthenticationStaticAdmin :: AuthenticationKind where "AuthenticationStaticAdmin = ''static_admin''"
definition AuthenticationStaticResolver :: AuthenticationKind where "AuthenticationStaticResolver = ''static_resolver''"
definition AuthenticationLocalSession :: AuthenticationKind where "AuthenticationLocalSession = ''local_session''"
definition AuthenticationAPIKey :: AuthenticationKind where "AuthenticationAPIKey = ''api_key''"
definition AuthenticationServiceAccountCredential :: AuthenticationKind where "AuthenticationServiceAccountCredential = ''service_account_credential''"
definition AuthenticationOIDC :: AuthenticationKind where "AuthenticationOIDC = ''oidc''"

lemmas kind_defs = AuthenticationStaticAdmin_def AuthenticationStaticResolver_def AuthenticationLocalSession_def AuthenticationAPIKey_def AuthenticationServiceAccountCredential_def AuthenticationOIDC_def

lemma kind_distinct [simp]:
  "[] \<noteq> AuthenticationStaticAdmin" "[] \<noteq> AuthenticationStaticResolver" "[] \<noteq> AuthenticationLocalSession"
  "[] \<noteq> AuthenticationAPIKey" "[] \<noteq> AuthenticationServiceAccountCredential" "[] \<noteq> AuthenticationOIDC"
  "AuthenticationStaticAdmin \<noteq> []" "AuthenticationStaticAdmin \<noteq> AuthenticationStaticResolver" "AuthenticationStaticAdmin \<noteq> AuthenticationLocalSession"
  "AuthenticationStaticAdmin \<noteq> AuthenticationAPIKey" "AuthenticationStaticAdmin \<noteq> AuthenticationServiceAccountCredential" "AuthenticationStaticAdmin \<noteq> AuthenticationOIDC"
  "AuthenticationStaticResolver \<noteq> []" "AuthenticationStaticResolver \<noteq> AuthenticationStaticAdmin" "AuthenticationStaticResolver \<noteq> AuthenticationLocalSession"
  "AuthenticationStaticResolver \<noteq> AuthenticationAPIKey" "AuthenticationStaticResolver \<noteq> AuthenticationServiceAccountCredential" "AuthenticationStaticResolver \<noteq> AuthenticationOIDC"
  "AuthenticationLocalSession \<noteq> []" "AuthenticationLocalSession \<noteq> AuthenticationStaticAdmin" "AuthenticationLocalSession \<noteq> AuthenticationStaticResolver"
  "AuthenticationLocalSession \<noteq> AuthenticationAPIKey" "AuthenticationLocalSession \<noteq> AuthenticationServiceAccountCredential" "AuthenticationLocalSession \<noteq> AuthenticationOIDC"
  "AuthenticationAPIKey \<noteq> []" "AuthenticationAPIKey \<noteq> AuthenticationStaticAdmin" "AuthenticationAPIKey \<noteq> AuthenticationStaticResolver"
  "AuthenticationAPIKey \<noteq> AuthenticationLocalSession" "AuthenticationAPIKey \<noteq> AuthenticationServiceAccountCredential" "AuthenticationAPIKey \<noteq> AuthenticationOIDC"
  "AuthenticationServiceAccountCredential \<noteq> []" "AuthenticationServiceAccountCredential \<noteq> AuthenticationStaticAdmin" "AuthenticationServiceAccountCredential \<noteq> AuthenticationStaticResolver"
  "AuthenticationServiceAccountCredential \<noteq> AuthenticationLocalSession" "AuthenticationServiceAccountCredential \<noteq> AuthenticationAPIKey" "AuthenticationServiceAccountCredential \<noteq> AuthenticationOIDC"
  "AuthenticationOIDC \<noteq> []" "AuthenticationOIDC \<noteq> AuthenticationStaticAdmin" "AuthenticationOIDC \<noteq> AuthenticationStaticResolver"
  "AuthenticationOIDC \<noteq> AuthenticationLocalSession" "AuthenticationOIDC \<noteq> AuthenticationAPIKey" "AuthenticationOIDC \<noteq> AuthenticationServiceAccountCredential"
  by (simp_all add: kind_defs)

record OIDCRoleMappingMatch =
  om_ExternalRole :: string
  om_GatewayRole :: Role

text \<open>
  A nil slice and an empty one differ for the reader patterns, so the patterns are \<^const>\<open>None\<close> when nil.
\<close>

type_synonym patterns = "string list option"

record Principal =
  pr_Actor :: string
  pr_Admin :: bool
  pr_Role :: Role
  pr_RepositoryPatterns :: patterns
  pr_AuthenticationKind :: AuthenticationKind
  pr_OIDCAdminSubject :: bool
  pr_OIDCRoleMappings :: "OIDCRoleMappingMatch list"
  pr_MustChangePassword :: bool
  pr_UserID :: string
  pr_SessionID :: string
  pr_CredentialID :: string

definition zeroPrincipal :: Principal where
  "zeroPrincipal =
     \<lparr>pr_Actor = [], pr_Admin = False, pr_Role = [], pr_RepositoryPatterns = None, pr_AuthenticationKind = [],
      pr_OIDCAdminSubject = False, pr_OIDCRoleMappings = [], pr_MustChangePassword = False, pr_UserID = [],
      pr_SessionID = [], pr_CredentialID = []\<rparr>"

record User =
  us_ID :: string
  us_Name :: string
  us_DisplayName :: string
  us_Email :: string
  us_Description :: string
  us_SecretHash :: string
  us_Role :: string
  us_State :: string
  us_LastLoginAt :: "gotime option"
  us_PasswordChangedAt :: "gotime option"
  us_FailedLoginAttempts :: int
  us_LockedUntil :: "gotime option"
  us_MustChangePassword :: bool
  us_SessionVersion :: int
  us_CreatedAt :: gotime
  us_UpdatedAt :: gotime
  us_Version :: string

record APIKey =
  ak_ID :: string
  ak_ServiceAccountID :: string
  ak_Name :: string
  ak_SecretHash :: string
  ak_Roles :: "string list"
  ak_CreatedAt :: gotime
  ak_RevokedAt :: "gotime option"
  ak_ExpiresAt :: "gotime option"
  ak_LastUsedAt :: "gotime option"

record ServiceAccount =
  sa_ID :: string
  sa_Name :: string
  sa_Description :: string
  sa_State :: string
  sa_CreatedAt :: gotime
  sa_UpdatedAt :: gotime
  sa_Version :: string

text \<open>
  The authenticator. A map of patterns is \<^const>\<open>None\<close> when the deployment configured none; the stores
  are the lookups the code makes on them, \<^const>\<open>None\<close> when the interface value is nil.
\<close>

record Authenticator =
  au_AdminToken :: string
  au_ResolverToken :: string
  au_ConanTokenSecret :: string
  au_AdminActor :: string
  au_ResolverActor :: string
  au_RepositoryReaders :: "patterns gomap option"
  au_LegacyReadPermissive :: bool
  au_RepositoryWriters :: "patterns gomap option"
  au_APIKeys :: "(string \<Rightarrow> APIKey result) option"
  au_ServiceAccounts :: "(string \<Rightarrow> ServiceAccount result) option"
  au_Users :: "(string \<Rightarrow> User result) option"

definition patternsOf :: "patterns gomap option \<Rightarrow> string \<Rightarrow> patterns" where
  "patternsOf m actor =
     (case m of None \<Rightarrow> None | Some mm \<Rightarrow> (case gm_get mm actor of None \<Rightarrow> None | Some p \<Rightarrow> p))"

definition patternList :: "patterns \<Rightarrow> string list" where
  "patternList p = (case p of None \<Rightarrow> [] | Some ps \<Rightarrow> ps)"

definition AccountStateReason :: "Principal \<Rightarrow> string" where
  "AccountStateReason p =
     (if pr_Role p = RoleNone then ''authorization_pending''
      else if pr_MustChangePassword p then ''password_change_required''
      else [])"

definition RepositoryAccessBlocked :: "Principal \<Rightarrow> bool" where
  "RepositoryAccessBlocked p \<longleftrightarrow> AccountStateReason p \<noteq> []"

definition PrincipalForActor :: "Authenticator \<Rightarrow> string \<Rightarrow> Principal" where
  "PrincipalForActor a actor =
     zeroPrincipal\<lparr>pr_Actor := actor, pr_RepositoryPatterns := patternsOf (au_RepositoryReaders a) actor,
                   pr_AuthenticationKind := AuthenticationStaticResolver\<rparr>"

section \<open>Static patterns\<close>

definition patternMatches :: "string \<Rightarrow> string \<Rightarrow> bool" where
  "patternMatches pat repositoryName \<longleftrightarrow>
     pat = repositoryName \<or> hasSuffix pat ''/*'' \<and> hasPrefix repositoryName (trimSuffix pat ''*'')"

definition PrincipalCanReadRepository :: "Principal \<Rightarrow> string \<Rightarrow> bool" where
  "PrincipalCanReadRepository p repositoryName =
     (if RepositoryAccessBlocked p then False
      else if pr_Admin p \<or> RoleAllows (pr_Role p) RepositoryRead then True
      else list_ex (\<lambda>pat. patternMatches pat repositoryName) (patternList (pr_RepositoryPatterns p)))"

definition CanReadRepository :: "Authenticator \<Rightarrow> Principal \<Rightarrow> string \<Rightarrow> bool" where
  "CanReadRepository a p repositoryName =
     (if PrincipalCanReadRepository p repositoryName then True
      else \<not> RepositoryAccessBlocked p \<and> au_RepositoryReaders a = None \<and> au_LegacyReadPermissive a)"

definition CanReadMavenRepository :: "Authenticator \<Rightarrow> Principal \<Rightarrow> string \<Rightarrow> bool" where
  "CanReadMavenRepository a p groupName =
     (if RepositoryAccessBlocked p then False
      else if CanReadRepository a p groupName then True
      else list_ex (\<lambda>pat. trimSuffix pat ''/*'' = groupName \<and> hasSuffix pat ''/*'')
             (patternList (pr_RepositoryPatterns p)))"

definition CanWriteMavenRepository :: "Authenticator \<Rightarrow> Principal \<Rightarrow> string \<Rightarrow> bool" where
  "CanWriteMavenRepository a p repositoryName =
     (if RepositoryAccessBlocked p then False
      else if pr_Admin p \<or> RoleAllows (pr_Role p) RepositoryWrite then True
      else list_ex (\<lambda>pat. patternMatches pat repositoryName)
             (patternList (patternsOf (au_RepositoryWriters a) (pr_Actor p))))"

section \<open>Credentials\<close>

definition tokenMatches :: "string \<Rightarrow> string \<Rightarrow> bool" where
  "tokenMatches val expected \<longleftrightarrow> expected \<noteq> [] \<and> length val = length expected \<and> val = expected"

definition ResolverPasswordMatches :: "Authenticator \<Rightarrow> string \<Rightarrow> bool" where
  "ResolverPasswordMatches a password \<longleftrightarrow> tokenMatches password (au_ResolverToken a)"

definition principalForTokenActor :: "Authenticator \<Rightarrow> string \<Rightarrow> Principal option" where
  "principalForTokenActor a actor =
     (case au_Users a of
        None \<Rightarrow> Some (PrincipalForActor a actor)
      | Some getUserByName \<Rightarrow>
          if \<not> hasPrefix actor ''user:'' then Some (PrincipalForActor a actor)
          else case getUserByName (trimPrefix actor ''user:'') of
                 Inl _ \<Rightarrow> None
               | Inr user \<Rightarrow>
                   if us_State user \<noteq> ''active'' then None
                   else
                     let base = zeroPrincipal\<lparr>pr_Actor := actor,
                                  pr_RepositoryPatterns := patternsOf (au_RepositoryReaders a) actor,
                                  pr_AuthenticationKind := AuthenticationLocalSession\<rparr>
                     in if us_MustChangePassword user then Some (base\<lparr>pr_MustChangePassword := True\<rparr>)
                        else Some (base\<lparr>pr_Admin := (us_Role user = RoleAdmin), pr_Role := us_Role user\<rparr>))"

text \<open>\<open>hashAPIKey\<close> stands for \<^verbatim>\<open>HashAPIKey\<close>, the SHA-256 verifier of a key.\<close>

definition apiKeyPrincipal :: "(string \<Rightarrow> string) \<Rightarrow> Authenticator \<Rightarrow> string \<Rightarrow> Principal option" where
  "apiKeyPrincipal hashAPIKey a token =
     (case au_APIKeys a of
        None \<Rightarrow> None
      | Some findActive \<Rightarrow>
          if token = [] then None
          else case findActive (hashAPIKey token) of
                 Inl _ \<Rightarrow> None
               | Inr key \<Rightarrow>
                   if ak_ServiceAccountID key \<noteq> [] then
                     (case au_ServiceAccounts a of
                        None \<Rightarrow> None
                      | Some getAccount \<Rightarrow>
                          (case getAccount (ak_ServiceAccountID key) of
                             Inl _ \<Rightarrow> None
                           | Inr account \<Rightarrow>
                               if sa_State account \<noteq> ''active'' then None
                               else Some (zeroPrincipal\<lparr>pr_Actor := ''service-account:'' @ sa_ID account,
                                            pr_CredentialID := ak_ID key,
                                            pr_AuthenticationKind := AuthenticationServiceAccountCredential\<rparr>)))
                   else
                     let role = RoleFromRoles (ak_Roles key)
                     in Some (zeroPrincipal\<lparr>pr_Actor := ''api-key:'' @ ak_ID key, pr_Admin := (role = RoleAdmin),
                                pr_Role := role, pr_AuthenticationKind := AuthenticationAPIKey\<rparr>))"

definition AuthenticateBasic :: "(string \<Rightarrow> string) \<Rightarrow> Authenticator \<Rightarrow> string \<Rightarrow> string \<Rightarrow> Principal option" where
  "AuthenticateBasic hashAPIKey a username password =
     (if username = [] then None
      else if ResolverPasswordMatches a password
      then Some ((PrincipalForActor a username)\<lparr>pr_AuthenticationKind := AuthenticationStaticResolver\<rparr>)
      else case apiKeyPrincipal hashAPIKey a password of
             None \<Rightarrow> None
           | Some p \<Rightarrow> if pr_AuthenticationKind p \<noteq> AuthenticationServiceAccountCredential then None else Some p)"

text \<open>
  \<^verbatim>\<open>DurablePrincipal\<close> returns the principal and whether it may act; the principal is returned even
  when it is blocked.
\<close>

definition DurablePrincipal ::
  "Authenticator \<Rightarrow> string \<Rightarrow> AuthenticationKind \<Rightarrow> string \<Rightarrow> bool \<Rightarrow> bool \<Rightarrow> Principal \<times> bool" where
  "DurablePrincipal a actor kind role active mustChangePassword =
     (if actor = [] \<or> \<not> active then (zeroPrincipal, False)
      else
        let p = zeroPrincipal\<lparr>pr_Actor := actor, pr_AuthenticationKind := kind,
                  pr_RepositoryPatterns := patternsOf (au_RepositoryReaders a) actor,
                  pr_MustChangePassword := mustChangePassword\<rparr>;
            finish = (\<lambda>p. (p, AccountStateReason p = []))
        in if kind = AuthenticationStaticAdmin then
             (if au_AdminToken a = [] \<or> au_AdminActor a \<noteq> actor then (zeroPrincipal, False)
              else finish (p\<lparr>pr_Admin := True, pr_Role := RoleAdmin\<rparr>))
           else if kind = AuthenticationStaticResolver then
             (if au_ResolverToken a = [] \<or> au_ResolverActor a = [] \<or> au_ResolverActor a \<noteq> actor
              then (zeroPrincipal, False) else finish p)
           else if kind = AuthenticationLocalSession \<or> kind = AuthenticationOIDC \<or> kind = AuthenticationAPIKey then
             (if \<not> validGatewayRole role \<and> (kind \<noteq> AuthenticationAPIKey \<or> role \<noteq> [])
              then (zeroPrincipal, False)
              else finish (p\<lparr>pr_Role := role, pr_Admin := (role = RoleAdmin)\<rparr>))
           else if kind = AuthenticationServiceAccountCredential then finish p
           else (zeroPrincipal, False))"

section \<open>The repository authorizer\<close>

record AuthorizationDecision =
  ad_Allowed :: bool
  ad_Source :: string
  ad_Reason :: string

definition deny :: "string \<Rightarrow> string \<Rightarrow> AuthorizationDecision" where
  "deny source reason = \<lparr>ad_Allowed = False, ad_Source = source, ad_Reason = reason\<rparr>"

definition allow :: "string \<Rightarrow> string \<Rightarrow> AuthorizationDecision" where
  "allow source reason = \<lparr>ad_Allowed = True, ad_Source = source, ad_Reason = reason\<rparr>"

record RepositoryAuthorizer =
  az_Grants :: "(string \<Rightarrow> RepositoryGrantSet result) option"
  az_Legacy :: Authenticator
  az_LegacyFallback :: "(Principal \<Rightarrow> HostedRepository \<Rightarrow> RepositoryOperation \<Rightarrow> AuthorizationDecision) option"

definition accountStateDecision :: "Principal \<Rightarrow> AuthorizationDecision option" where
  "accountStateDecision p =
     (if AccountStateReason p = [] then None else Some (deny ''role'' (AccountStateReason p)))"

definition isManagedRepositoryGrantSet :: "string \<Rightarrow> bool" where
  "isManagedRepositoryGrantSet version =
     (case parseUint64 version of None \<Rightarrow> False | Some n \<Rightarrow> n > 1)"

definition scopeAllows :: "RepositoryOperation \<Rightarrow> string \<Rightarrow> bool" where
  "scopeAllows operation scope =
     (case operation of
        RepositoryRead \<Rightarrow>
          scope = ''repositories:read'' \<or> scope = ''repositories:write'' \<or> scope = ''repositories:admin''
      | RepositoryWrite \<Rightarrow> scope = ''repositories:write'' \<or> scope = ''repositories:admin''
      | RepositoryAdmin \<Rightarrow> scope = ''repositories:admin''
      | RepositoryIntelligence \<Rightarrow> scope = ''repositories:intelligence'' \<or> scope = ''repositories:admin''
      | OtherOperation _ \<Rightarrow> False)"

definition grantAllows :: "string list \<Rightarrow> RepositoryOperation \<Rightarrow> bool" where
  "grantAllows scopes operation \<longleftrightarrow> list_ex (scopeAllows operation) scopes"

definition grantMatchesResource :: "string \<Rightarrow> string \<Rightarrow> bool" where
  "grantMatchesResource pfx resource =
     (if pfx = [] then True else resource \<noteq> [] \<and> hasPrefix resource pfx)"

text \<open>
  The loop over the grants of a set: it stops with \<^const>\<open>None\<close> at the first grant that allows the
  operation, and otherwise reports whether the set named the actor.
\<close>

fun scanGrants ::
  "string \<Rightarrow> RepositoryOperation \<Rightarrow> string \<Rightarrow> bool \<Rightarrow> RepositoryGrant list \<Rightarrow> bool option" where
  "scanGrants actor operation resource attributed [] = Some attributed"
| "scanGrants actor operation resource attributed (g # gs) =
     (if rg_Principal g \<noteq> actor then scanGrants actor operation resource attributed gs
      else if grantAllows (rg_Scopes g) operation \<and> grantMatchesResource (rg_ResourcePrefix g) resource then None
      else scanGrants actor operation resource True gs)"

definition ManagedResourceDecision ::
  "RepositoryAuthorizer \<Rightarrow> Principal \<Rightarrow> HostedRepository \<Rightarrow> RepositoryOperation \<Rightarrow> string
     \<Rightarrow> AuthorizationDecision option" where
  "ManagedResourceDecision a p target operation resource =
     (case accountStateDecision p of
        Some d \<Rightarrow> Some d
      | None \<Rightarrow>
          if pr_Admin p then Some (allow ''administrator'' ''administrator'')
          else if RoleAllows (pr_Role p) operation then Some (allow ''role'' (''role_'' @ pr_Role p))
          else case az_Grants a of
                 None \<Rightarrow> None
               | Some getGrants \<Rightarrow>
                   (case getGrants (hr_ID target) of
                      Inl _ \<Rightarrow> Some (deny ''repository_grants'' ''grant_lookup_failed'')
                    | Inr gset \<Rightarrow>
                        (case scanGrants (pr_Actor p) operation resource False (gs_Grants gset) of
                           None \<Rightarrow> Some (allow ''repository_grants'' ''scope_granted'')
                         | Some attributed \<Rightarrow>
                             if \<not> isManagedRepositoryGrantSet (gs_Version gset) \<and> \<not> attributed then None
                             else Some (deny ''repository_grants'' ''scope_not_granted''))))"

definition ManagedDecision ::
  "RepositoryAuthorizer \<Rightarrow> Principal \<Rightarrow> HostedRepository \<Rightarrow> RepositoryOperation
     \<Rightarrow> AuthorizationDecision option" where
  "ManagedDecision a p target operation = ManagedResourceDecision a p target operation []"

definition authorizeLegacy ::
  "RepositoryAuthorizer \<Rightarrow> Principal \<Rightarrow> string \<Rightarrow> RepositoryOperation \<Rightarrow> AuthorizationDecision" where
  "authorizeLegacy a p repositoryName operation =
     (let p = (if pr_RepositoryPatterns p = None
               then p\<lparr>pr_RepositoryPatterns := patternsOf (au_RepositoryReaders (az_Legacy a)) (pr_Actor p)\<rparr>
               else p);
          refused = deny ''legacy_static'' ''scope_not_granted''
      in case operation of
           RepositoryRead \<Rightarrow>
             if CanReadRepository (az_Legacy a) p repositoryName
             then allow ''legacy_static'' ''read_pattern_granted'' else refused
         | RepositoryWrite \<Rightarrow>
             if CanWriteMavenRepository (az_Legacy a) p repositoryName
             then allow ''legacy_static'' ''write_pattern_granted'' else refused
         | _ \<Rightarrow> refused)"

definition authorizeLegacyForTarget ::
  "RepositoryAuthorizer \<Rightarrow> Principal \<Rightarrow> HostedRepository \<Rightarrow> RepositoryOperation \<Rightarrow> AuthorizationDecision" where
  "authorizeLegacyForTarget a p target operation =
     (case az_LegacyFallback a of
        Some fallback \<Rightarrow> fallback p target operation
      | None \<Rightarrow> authorizeLegacy a p (hr_Name target) operation)"

definition AuthorizeResource ::
  "RepositoryAuthorizer \<Rightarrow> Principal \<Rightarrow> HostedRepository \<Rightarrow> RepositoryOperation \<Rightarrow> string
     \<Rightarrow> AuthorizationDecision" where
  "AuthorizeResource a p target operation resource =
     (case accountStateDecision p of
        Some d \<Rightarrow> d
      | None \<Rightarrow>
          if pr_Admin p then allow ''administrator'' ''administrator''
          else if RoleAllows (pr_Role p) operation then allow ''role'' (''role_'' @ pr_Role p)
          else case ManagedResourceDecision a p target operation resource of
                 Some d \<Rightarrow> d
               | None \<Rightarrow> authorizeLegacyForTarget a p target operation)"

definition Authorize ::
  "RepositoryAuthorizer \<Rightarrow> Principal \<Rightarrow> HostedRepository \<Rightarrow> RepositoryOperation \<Rightarrow> AuthorizationDecision" where
  "Authorize a p target operation = AuthorizeResource a p target operation []"

text \<open>\<open>repositories\<close> is \<^verbatim>\<open>GetHostedRepository\<close> of the store, \<^const>\<open>None\<close> when the interface value is nil.\<close>

definition ManagedGroupMemberDecision ::
  "(string \<Rightarrow> HostedRepository result) option \<Rightarrow> RepositoryAuthorizer \<Rightarrow> Principal \<Rightarrow> string \<Rightarrow> Format
     \<Rightarrow> string \<Rightarrow> AuthorizationDecision option" where
  "ManagedGroupMemberDecision repositories a p memberRepositoryID fmt resource =
     (let failed = Some (deny ''repository_grants'' ''grant_lookup_failed'')
      in if memberRepositoryID = [] then None
         else case repositories of
                None \<Rightarrow> failed
              | Some getRepository \<Rightarrow>
                  (case getRepository memberRepositoryID of
                     Inl _ \<Rightarrow> failed
                   | Inr target \<Rightarrow>
                       if hr_Format target \<noteq> fmt \<or> hr_State target \<noteq> RepositoryActive then failed
                       else ManagedResourceDecision a p target RepositoryRead resource))"

end
