(* ===== verification/HostedLaws.thy ===== *)
theory HostedLaws
  imports Contracts
begin

text \<open>
  Laws of the repository registry: its well-formedness invariant over every sequence of operations,
  the one-way deletion state machine, name lookup, complete pagination, the version contract of
  the five guarded updates and the idempotency contract of the two creations.
\<close>

section \<open>The invariant\<close>

definition repositories_ok :: "HostedRepository gomap \<Rightarrow> bool" where
  "repositories_ok m \<longleftrightarrow> gm_ok m \<and>
     (\<forall>k r. gm_get m k = Some r \<longrightarrow> hr_ID r = k) \<and>
     (\<forall>k k' r r'. gm_get m k = Some r \<longrightarrow> gm_get m k' = Some r' \<longrightarrow> hr_Name r = hr_Name r' \<longrightarrow> k = k')"

definition groups_ok :: "HostedGroup gomap \<Rightarrow> bool" where
  "groups_ok m \<longleftrightarrow> gm_ok m \<and>
     (\<forall>k g. gm_get m k = Some g \<longrightarrow> hg_ID g = k \<and> sorted (map gmem_Position (hg_Members g)))"

definition owned_by :: "HostedRepository gomap \<Rightarrow> 'v gomap \<Rightarrow> bool" where
  "owned_by repos m \<longleftrightarrow> (\<forall>k. gm_get m k \<noteq> None \<longrightarrow> gm_get repos k \<noteq> None)"

definition hosted_ok :: "'z hosted_store_scheme \<Rightarrow> bool" where
  "hosted_ok s \<longleftrightarrow> repositories_ok (hostedRepositories s) \<and> groups_ok (hostedGroups s) \<and>
     owned_by (hostedRepositories s) (repositoryGrants s) \<and> owned_by (hostedRepositories s) (retentionPolicies s)"

lemma hosted_ok_empty: "hosted_ok emptyHostedStore"
  by (simp add: hosted_ok_def repositories_ok_def groups_ok_def owned_by_def emptyHostedStore_def)

lemma repositories_okD:
  assumes "repositories_ok m"
  shows "gm_ok m" and "gm_get m k = Some r \<Longrightarrow> hr_ID r = k"
    and "gm_get m k = Some r \<Longrightarrow> gm_get m k' = Some r' \<Longrightarrow> hr_Name r = hr_Name r' \<Longrightarrow> k = k'"
  using assms unfolding repositories_ok_def by blast+

lemma name_free: "\<not> repositoryNameTaken n s \<Longrightarrow> gm_get (hostedRepositories s) k = Some r \<Longrightarrow> hr_Name r \<noteq> n"
  by (force simp: repositoryNameTaken_def list_ex_iff dest: gm_get_in)

lemma sorted_sortMembers [simp]: "sorted (map gmem_Position (sortMembers ms))"
  by (simp add: sortMembers_def)

text \<open>
  The ways an operation writes: a repository entry whose name no other entry carries, a group
  entry with sorted members, and an auxiliary entry of an existing repository.
\<close>

lemma repositories_ok_put:
  assumes "repositories_ok m" and "hr_ID r = k"
    and "\<forall>k' r'. gm_get m k' = Some r' \<longrightarrow> hr_Name r' = hr_Name r \<longrightarrow> k' = k"
  shows "repositories_ok (gm_put k r m)"
  unfolding repositories_ok_def
proof (intro conjI allI impI)
  fix i j x y
  assume "gm_get (gm_put k r m) i = Some x" and "gm_get (gm_put k r m) j = Some y" and "hr_Name x = hr_Name y"
  then show "i = j"
    using assms(3) repositories_okD(3) [OF assms(1)] by (metis gm_get_put option.inject)
qed (use assms(1,2) in \<open>auto dest: repositories_okD split: if_splits\<close>)

lemma repositories_ok_put_new:
  "repositories_ok (hostedRepositories s) \<Longrightarrow> \<not> repositoryNameTaken n s \<Longrightarrow> hr_ID r = k \<Longrightarrow> hr_Name r = n \<Longrightarrow>
     repositories_ok (gm_put k r (hostedRepositories s))"
  by (rule repositories_ok_put) (auto dest: name_free)

lemma repositories_ok_put_same:
  assumes "repositories_ok m" and "gm_get m k = Some old" and "hr_ID r = hr_ID old" and "hr_Name r = hr_Name old"
  shows "repositories_ok (gm_put k r m)"
proof (rule repositories_ok_put [OF assms(1)])
  show "hr_ID r = k"
    using assms repositories_okD(2) by metis
  show "\<forall>k' r'. gm_get m k' = Some r' \<longrightarrow> hr_Name r' = hr_Name r \<longrightarrow> k' = k"
    using assms repositories_okD(3) by metis
qed

lemma groups_ok_put:
  "groups_ok m \<Longrightarrow> hg_ID g = k \<Longrightarrow> sorted (map gmem_Position (hg_Members g)) \<Longrightarrow> groups_ok (gm_put k g m)"
  by (simp add: groups_ok_def)

lemma groups_ok_del: "groups_ok m \<Longrightarrow> groups_ok (gm_del k m)"
  by (simp add: groups_ok_def)

lemma owned_by_put_repository: "owned_by repos m \<Longrightarrow> owned_by (gm_put k r repos) m"
  by (simp add: owned_by_def)

lemma owned_by_put: "owned_by repos m \<Longrightarrow> gm_get repos k = Some r \<Longrightarrow> owned_by repos (gm_put k v m)"
  by (simp add: owned_by_def)

lemmas hosted_ok_intros = repositories_ok_put_new repositories_ok_put_same groups_ok_put groups_ok_del
  owned_by_put_repository owned_by_put

section \<open>Steps\<close>

text \<open>
  One rule per operation that changes the registry. A creation runs with an identifier no
  repository carries yet, which is what the management API's fresh UUIDs provide.
\<close>

inductive hosted_step :: "'z hosted_store_scheme \<Rightarrow> 'z hosted_store_scheme \<Rightarrow> bool" where
  create: "CreateHostedRepository now repo s = (r, s') \<Longrightarrow>
     gm_get (hostedRepositories s) (hr_ID repo) = None \<Longrightarrow> hosted_step s s'"
| create_once: "CreateHostedRepositoryIdempotently clk repo actor key payload s = (r', s') \<Longrightarrow>
     gm_get (hostedRepositories s) (hr_ID repo) = None \<Longrightarrow> hosted_step s s'"
| disable: "DisableHostedRepository rid s = (r, s') \<Longrightarrow> hosted_step s s'"
| finalize: "FinalizeHostedRepositoryDeletion rid s = (r, s') \<Longrightarrow> hosted_step s s'"
| update: "UpdateHostedRepository repo v s = (r, s') \<Longrightarrow> hosted_step s s'"
| group_create: "CreateHostedGroupIdempotently preflight clk grp actor key payload s = (rg, s') \<Longrightarrow> hosted_step s s'"
| group_replace: "ReplaceHostedGroup preflight grp v s = (g, s') \<Longrightarrow> hosted_step s s'"
| group_members: "ReplaceHostedGroupMembers preflight rid ms v s = (g, s') \<Longrightarrow> hosted_step s s'"
| group_delete: "DeleteHostedGroup rid s = (u, s') \<Longrightarrow> hosted_step s s'"
| grants_replace: "ReplaceRepositoryGrants rid gs v s = (rs, s') \<Longrightarrow> hosted_step s s'"
| template: "ApplyAuthorizationTemplate templates tid rid v s = (rs, s') \<Longrightarrow> hosted_step s s'"
| grant_upsert: "UpsertRepositoryGrant rid grant s = (rs, s') \<Longrightarrow> hosted_step s s'"
| grant_delete: "DeleteRepositoryGrant rid pr pf s = (rs, s') \<Longrightarrow> hosted_step s s'"
| retention: "ReplaceRepositoryRetentionPolicy rid policy v s = (rp, s') \<Longrightarrow> hosted_step s s'"

inductive hosted_reach :: "hosted_store \<Rightarrow> bool" where
  start: "hosted_reach emptyHostedStore"
| step: "hosted_reach s \<Longrightarrow> hosted_step s t \<Longrightarrow> hosted_reach t"

subsection \<open>What each operation writes\<close>

text \<open>
  An outcome lemma per operation: either the store is unchanged or exactly one entry is written.
\<close>

lemma CreateHostedRepository_cases:
  assumes "CreateHostedRepository now repo s = (r, s')"
  shows "s' = s \<or> (\<exists>repo'. \<not> repositoryNameTaken (hr_Name repo) s \<and> hr_ID repo' = hr_ID repo \<and>
      hr_Name repo' = hr_Name repo \<and> hr_State repo' = RepositoryActive \<and> r = Inr repo' \<and>
      s' = s\<lparr>hostedRepositories := gm_put (hr_ID repo) repo' (hostedRepositories s)\<rparr>)"
  using assms
  by (auto simp: CreateHostedRepository_def normalizeHostedRepository_def Let_def split: if_splits)

lemma CreateHostedRepositoryIdempotently_cases:
  assumes "CreateHostedRepositoryIdempotently clk repo actor key payload s = (r, s')"
  shows "s' = s \<or> (\<exists>repo' recs. \<not> repositoryNameTaken (hr_Name repo) s \<and> hr_ID repo' = hr_ID repo \<and>
      hr_Name repo' = hr_Name repo \<and> hr_State repo' = RepositoryActive \<and> r = Inr (repo', False) \<and>
      s' = s\<lparr>hostedRepositories := gm_put (hr_ID repo) repo' (hostedRepositories s),
             idempotencyRecords := recs\<rparr>)"
  using assms
  by (auto simp: CreateHostedRepositoryIdempotently_def normalizeHostedRepository_def Let_def
      split: if_splits option.splits)

lemma repository_transition_cases:
  assumes "DisableHostedRepository k s = (r, s') \<or> FinalizeHostedRepositoryDeletion k s = (r, s') \<or>
      UpdateHostedRepository repo v s = (r, s') \<and> k = hr_ID repo"
  shows "s' = s \<or> (\<exists>old new. gm_get (hostedRepositories s) k = Some old \<and>
      hr_ID new = hr_ID old \<and> hr_Name new = hr_Name old \<and> hr_Format new = hr_Format old \<and>
      (hr_State old, hr_State new) \<in>
        {(RepositoryActive, RepositoryActive), (RepositoryActive, RepositoryDeleting), (RepositoryDeleting, RepositoryDeleted)} \<and> r = Inr new \<and>
      s' = s\<lparr>hostedRepositories := gm_put k new (hostedRepositories s)\<rparr>)"
  using assms
  by (auto simp: DisableHostedRepository_def FinalizeHostedRepositoryDeletion_def UpdateHostedRepository_def
      Let_def split: if_splits option.splits)

lemma group_write_cases:
  assumes "ReplaceHostedGroup preflight grp v s = (g, s') \<and> k = hg_ID grp \<or>
      ReplaceHostedGroupMembers preflight k ms v s = (g, s')"
  shows "s' = s \<or> (\<exists>old new. gm_get (hostedGroups s) k = Some old \<and> (hg_ID new = k \<or> hg_ID new = hg_ID old) \<and>
      sorted (map gmem_Position (hg_Members new)) \<and> g = Inr new \<and>
      s' = s\<lparr>hostedGroups := gm_put k new (hostedGroups s)\<rparr>)"
  using assms
  by (auto simp: ReplaceHostedGroup_def ReplaceHostedGroupMembers_def Let_def split: if_splits option.splits)

lemma CreateHostedGroupIdempotently_cases:
  assumes "CreateHostedGroupIdempotently preflight clk grp actor key payload s = (r, s')"
  shows "s' = s \<or> (\<exists>new recs. hg_ID new = hg_ID grp \<and> sorted (map gmem_Position (hg_Members new)) \<and>
      r = Inr (new, False) \<and>
      s' = s\<lparr>hostedGroups := gm_put (hg_ID grp) new (hostedGroups s), idempotencyRecords := recs\<rparr>)"
  using assms
  by (auto simp: CreateHostedGroupIdempotently_def Let_def split: if_splits option.splits)

lemma DeleteHostedGroup_cases:
  assumes "DeleteHostedGroup k s = (u, s')"
  shows "s' = s \<or> s' = s\<lparr>hostedGroups := gm_del k (hostedGroups s)\<rparr>"
  using assms by (auto simp: DeleteHostedGroup_def split: option.splits)

lemma grants_write_cases:
  assumes "ReplaceRepositoryGrants k gs v s = (r, s') \<or> UpsertRepositoryGrant k g s = (r, s') \<or>
      DeleteRepositoryGrant k pr pf s = (r, s')"
  shows "s' = s \<or> \<not> repositoryMissing k s \<and>
      (\<exists>x. s' = s\<lparr>repositoryGrants := gm_put k x (repositoryGrants s)\<rparr>)"
  using assms
  by (auto simp: ReplaceRepositoryGrants_def UpsertRepositoryGrant_def DeleteRepositoryGrant_def Let_def
      split: if_splits option.splits)

lemma template_eq:
  "ApplyAuthorizationTemplate templates tid rid v s =
     (case gm_get templates tid of None \<Rightarrow> (Inl ErrNotFound, s) | Some x \<Rightarrow> ReplaceRepositoryGrants rid (tpl_Grants x) v s)"
  by (simp add: ApplyAuthorizationTemplate_def ReplaceRepositoryGrants_def Let_def split: option.splits)

lemma template_write_cases:
  assumes "ApplyAuthorizationTemplate templates tid k v s = (r, s')"
  shows "s' = s \<or> \<not> repositoryMissing k s \<and> (\<exists>x. s' = s\<lparr>repositoryGrants := gm_put k x (repositoryGrants s)\<rparr>)"
proof (cases "gm_get templates tid")
  case (Some x)
  then show ?thesis using assms grants_write_cases [of k "tpl_Grants x" v s r s'] by (simp add: template_eq)
qed (use assms in \<open>simp add: template_eq\<close>)

lemma retention_write_cases:
  assumes "ReplaceRepositoryRetentionPolicy k policy v s = (r, s')"
  shows "s' = s \<or> \<not> repositoryMissing k s \<and>
      (\<exists>x. s' = s\<lparr>retentionPolicies := gm_put k x (retentionPolicies s)\<rparr>)"
  using assms
  by (auto simp: ReplaceRepositoryRetentionPolicy_def Let_def split: if_splits option.splits)

subsection \<open>Preservation\<close>

lemma hosted_step_ok: "hosted_step s t \<Longrightarrow> hosted_ok s \<Longrightarrow> hosted_ok t"
proof (induction rule: hosted_step.induct)
  case (create now repo s r s')
  from CreateHostedRepository_cases [OF create(1)] create(3) show ?case
    by (auto simp: hosted_ok_def intro: hosted_ok_intros)
next
  case (create_once clk repo actor key payload s r s')
  from CreateHostedRepositoryIdempotently_cases [OF create_once(1)] create_once(3) show ?case
    by (auto simp: hosted_ok_def intro: hosted_ok_intros)
next
  case (disable rid s r s')
  from repository_transition_cases [of rid s r s'] disable show ?case
    by (auto simp: hosted_ok_def intro: hosted_ok_intros)
next
  case (finalize rid s r s')
  from repository_transition_cases [of rid s r s'] finalize show ?case
    by (auto simp: hosted_ok_def intro: hosted_ok_intros)
next
  case (update repo v s r s')
  from repository_transition_cases [of "hr_ID repo" s r s' repo v] update show ?case
    by (auto simp: hosted_ok_def intro: hosted_ok_intros)
next
  case (group_create preflight clk grp actor key payload s rg s')
  from CreateHostedGroupIdempotently_cases [OF group_create(1)] group_create(2) show ?case
    by (auto simp: hosted_ok_def intro: hosted_ok_intros)
next
  case (group_replace preflight grp v s g s')
  from group_write_cases [of preflight grp v s g s' "hg_ID grp"] group_replace show ?case
    by (auto simp: hosted_ok_def groups_ok_def split: if_splits)
next
  case (group_members preflight rid ms v s g s')
  from group_write_cases [of preflight undefined v s g s' rid ms] group_members show ?case
    by (auto simp: hosted_ok_def groups_ok_def split: if_splits)
next
  case (group_delete rid s u s')
  from DeleteHostedGroup_cases [OF group_delete(1)] group_delete(2) show ?case
    by (auto simp: hosted_ok_def intro: hosted_ok_intros)
next
  case (grants_replace rid gs v s rs s')
  from grants_write_cases [of rid gs v s rs s'] grants_replace show ?case
    by (auto simp: hosted_ok_def repositoryMissing_def intro: hosted_ok_intros)
next
  case (template templates tid rid v s rs s')
  from template_write_cases [OF template(1)] template(2) show ?case
    by (auto simp: hosted_ok_def repositoryMissing_def intro: hosted_ok_intros)
next
  case (grant_upsert rid grant s rs s')
  from grants_write_cases [of rid undefined undefined s rs s' grant] grant_upsert show ?case
    by (auto simp: hosted_ok_def repositoryMissing_def intro: hosted_ok_intros)
next
  case (grant_delete rid pr pf s rs s')
  from grants_write_cases [of rid undefined undefined s rs s' undefined pr pf] grant_delete show ?case
    by (auto simp: hosted_ok_def repositoryMissing_def intro: hosted_ok_intros)
next
  case (retention rid policy v s rp s')
  from retention_write_cases [OF retention(1)] retention(2) show ?case
    by (auto simp: hosted_ok_def repositoryMissing_def intro: hosted_ok_intros)
qed

lemma hosted_reach_ok: "hosted_reach s \<Longrightarrow> hosted_ok s"
  by (induction rule: hosted_reach.induct) (auto intro: hosted_ok_empty hosted_step_ok)

section \<open>The deletion state machine\<close>

fun state_rank :: "RepositoryState \<Rightarrow> nat" where
  "state_rank RepositoryStateUnset = 0"
| "state_rank RepositoryActive = 1"
| "state_rank RepositoryDeleting = 2"
| "state_rank RepositoryDeleted = 3"

text \<open>A repository that is being deleted keeps everything but its state and version, and these change only together.\<close>

definition repository_moves :: "HostedRepository \<Rightarrow> HostedRepository \<Rightarrow> bool" where
  "repository_moves r r' \<longleftrightarrow> hr_ID r' = hr_ID r \<and> hr_Name r' = hr_Name r \<and> hr_Format r' = hr_Format r \<and> hr_Type r' = hr_Type r \<and>
     hr_CreatedAt r' = hr_CreatedAt r \<and> state_rank (hr_State r) \<le> state_rank (hr_State r') \<and>
     (2 \<le> state_rank (hr_State r) \<longrightarrow> r'\<lparr>hr_State := hr_State r, hr_Version := hr_Version r\<rparr> = r) \<and>
     (2 \<le> state_rank (hr_State r) \<longrightarrow> hr_State r' = hr_State r \<longrightarrow> r' = r)"

lemma repository_moves_refl [simp]: "repository_moves r r"
  by (simp add: repository_moves_def)

lemma state_rank_le3: "state_rank x \<le> 3"
  by (cases x) auto

lemma state_rank_1 [simp]: "state_rank x \<le> Suc 0 \<longleftrightarrow> x = RepositoryStateUnset \<or> x = RepositoryActive"
  by (cases x) auto

lemma state_rank_inj: "state_rank x = state_rank y \<longleftrightarrow> x = y"
  by (cases x; cases y) auto

lemma repository_moves_trans:
  assumes "repository_moves a b" "repository_moves b c"
  shows "repository_moves a c"
proof -
  have "c\<lparr>hr_State := hr_State a, hr_Version := hr_Version a\<rparr> = a \<and> (hr_State c = hr_State a \<longrightarrow> c = a)" if "2 \<le> state_rank (hr_State a)"
  proof -
    have b: "b\<lparr>hr_State := hr_State a, hr_Version := hr_Version a\<rparr> = a" "hr_State b = hr_State a \<longrightarrow> b = a"
      and c: "c\<lparr>hr_State := hr_State b, hr_Version := hr_Version b\<rparr> = b" "hr_State c = hr_State b \<longrightarrow> c = b"
      using assms that by (auto simp: repository_moves_def)
    have "c\<lparr>hr_State := hr_State a, hr_Version := hr_Version a\<rparr> =
        (c\<lparr>hr_State := hr_State b, hr_Version := hr_Version b\<rparr>)\<lparr>hr_State := hr_State a, hr_Version := hr_Version a\<rparr>" by simp
    then have "c\<lparr>hr_State := hr_State a, hr_Version := hr_Version a\<rparr> = a" using b(1) c(1) by simp
    moreover have "hr_State c = hr_State a \<Longrightarrow> hr_State b = hr_State a"
      using assms by (auto simp: repository_moves_def state_rank_inj [symmetric])
    ultimately show ?thesis using b(2) c(2) by metis
  qed
  then show ?thesis using assms by (auto simp: repository_moves_def)
qed

lemma active_moves:
  "hr_State r = RepositoryActive \<Longrightarrow> hr_ID r' = hr_ID r \<Longrightarrow> hr_Name r' = hr_Name r \<Longrightarrow> hr_Format r' = hr_Format r \<Longrightarrow> hr_Type r' = hr_Type r \<Longrightarrow>
     hr_CreatedAt r' = hr_CreatedAt r \<Longrightarrow> hr_State r' \<in> {RepositoryActive, RepositoryDeleting} \<Longrightarrow> repository_moves r r'"
  by (auto simp: repository_moves_def)

lemma deleting_moves:
  "hr_State r = RepositoryDeleting \<Longrightarrow> repository_moves r (r\<lparr>hr_State := RepositoryDeleted, hr_Version := v\<rparr>)"
  by (cases r) (simp add: repository_moves_def)

lemma transition_moves:
  assumes "DisableHostedRepository k s = (r, s') \<or> FinalizeHostedRepositoryDeletion k s = (r, s') \<or>
      UpdateHostedRepository repo v s = (r, s')"
    and "gm_get (hostedRepositories s) i = Some old"
  shows "\<exists>new. gm_get (hostedRepositories s') i = Some new \<and> repository_moves old new"
  using assms(1)
proof (elim disjE)
  assume "DisableHostedRepository k s = (r, s')"
  then show ?thesis
    using assms(2) by (auto simp: DisableHostedRepository_def Let_def intro!: active_moves split: if_splits option.splits)
next
  assume "FinalizeHostedRepositoryDeletion k s = (r, s')"
  then show ?thesis
    using assms(2) by (auto simp: FinalizeHostedRepositoryDeletion_def Let_def deleting_moves split: if_splits option.splits)
next
  assume "UpdateHostedRepository repo v s = (r, s')"
  then show ?thesis
    using assms(2) by (auto simp: UpdateHostedRepository_def Let_def intro!: active_moves split: if_splits option.splits)
qed

lemma repositories_unchanged:
  assumes "CreateHostedGroupIdempotently preflight clk grp actor key payload s = (rg, s') \<or>
      ReplaceHostedGroup preflight grp v s = (g, s') \<or> ReplaceHostedGroupMembers preflight rid ms v s = (g, s') \<or>
      DeleteHostedGroup rid s = (u, s') \<or> ReplaceRepositoryGrants rid gs v s = (rs, s') \<or>
      UpsertRepositoryGrant rid grant s = (rs, s') \<or> DeleteRepositoryGrant rid pr pf s = (rs, s') \<or>
      ReplaceRepositoryRetentionPolicy rid policy v s = (rp, s') \<or> ApplyAuthorizationTemplate templates tid rid v s = (rs, s')"
  shows "hostedRepositories s' = hostedRepositories s"
  using assms
  by (auto dest!: CreateHostedGroupIdempotently_cases DeleteHostedGroup_cases retention_write_cases template_write_cases
      group_write_cases [OF disjI1, OF conjI [OF _ refl]] group_write_cases [OF disjI2]
      grants_write_cases [OF disjI1] grants_write_cases [OF disjI2, OF disjI1] grants_write_cases [OF disjI2, OF disjI2])

lemma hosted_step_moves:
  assumes "hosted_step s t" and "gm_get (hostedRepositories s) i = Some old"
  shows "\<exists>new. gm_get (hostedRepositories t) i = Some new \<and> repository_moves old new"
  using assms
proof (induction rule: hosted_step.induct)
  case (create now repo s r s')
  then show ?case by (auto dest!: CreateHostedRepository_cases)
next
  case (create_once clk repo actor key payload s r' s')
  then show ?case by (auto dest!: CreateHostedRepositoryIdempotently_cases)
next
  case (disable rid s r s')
  then show ?case using transition_moves by blast
next
  case (finalize rid s r s')
  then show ?case using transition_moves by blast
next
  case (update repo v s r s')
  then show ?case using transition_moves by blast
qed (use repositories_unchanged in \<open>metis repository_moves_refl\<close>)+

section \<open>Versions guard every update\<close>

text \<open>The version contract holds for each of the five guarded updates, resource by resource.\<close>

interpretation repo_cas: cas_update
  "\<lambda>s :: 'z hosted_store_scheme. map_option hr_Version (gm_get (hostedRepositories s) rid)"
  "\<lambda>repo. UpdateHostedRepository (repo\<lparr>hr_ID := rid\<rparr>)" for rid
  by unfold_locales
    (auto simp: UpdateHostedRepository_def Let_def split: option.splits if_splits)

interpretation group_cas: cas_update
  "\<lambda>s :: 'z hosted_store_scheme. map_option hg_Version (gm_get (hostedGroups s) gid)"
  "\<lambda>g. ReplaceHostedGroup preflight (g\<lparr>hg_ID := gid\<rparr>)" for gid preflight
  by unfold_locales
    (auto simp: ReplaceHostedGroup_def Let_def split: option.splits if_splits)

interpretation member_cas: cas_update
  "\<lambda>s :: 'z hosted_store_scheme. map_option hg_Version (gm_get (hostedGroups s) gid)"
  "ReplaceHostedGroupMembers preflight gid" for gid preflight
  by unfold_locales
    (auto simp: ReplaceHostedGroupMembers_def Let_def split: option.splits if_splits)

definition grantVersion :: "string \<Rightarrow> 'z hosted_store_scheme \<Rightarrow> string option" where
  "grantVersion rid s =
     (case GetRepositoryGrants rid s of Inl _ \<Rightarrow> None | Inr gset \<Rightarrow> Some (gs_Version gset))"

definition retentionVersion :: "string \<Rightarrow> 'z hosted_store_scheme \<Rightarrow> string option" where
  "retentionVersion rid s =
     (case GetRepositoryRetentionPolicy rid s of Inl _ \<Rightarrow> None | Inr p \<Rightarrow> Some (rp_Version p))"

interpretation grant_cas: cas_update
  "grantVersion rid :: 'z hosted_store_scheme \<Rightarrow> string option" "ReplaceRepositoryGrants rid" for rid
  by unfold_locales
    (auto simp: ReplaceRepositoryGrants_def grantVersion_def GetRepositoryGrants_def repositoryMissing_def Let_def
      split: option.splits if_splits)

interpretation retention_cas: cas_update
  "retentionVersion rid :: 'z hosted_store_scheme \<Rightarrow> string option" "ReplaceRepositoryRetentionPolicy rid" for rid
  by unfold_locales
    (auto simp: ReplaceRepositoryRetentionPolicy_def retentionVersion_def GetRepositoryRetentionPolicy_def
      repositoryMissing_def defaultRepositoryRetentionPolicy_def Let_def split: option.splits if_splits)

section \<open>Idempotent creation\<close>

definition liveRecord :: "(nat \<Rightarrow> gotime) \<Rightarrow> 'z hosted_store_scheme \<Rightarrow> string \<Rightarrow> (string \<times> string) option" where
  "liveRecord clk s key =
     (case gm_get (idempotencyRecords s) key of
        None \<Rightarrow> None
      | Some rec \<Rightarrow> if clk 0 < ir_expiresAt rec then Some (ir_payload rec, ir_repositoryID rec) else None)"

definition repositoryAt :: "'z hosted_store_scheme \<Rightarrow> string \<Rightarrow> HostedRepository" where
  "repositoryAt s i = (case gm_get (hostedRepositories s) i of Some r \<Rightarrow> r | None \<Rightarrow> zeroHostedRepository)"

definition groupAt :: "'z hosted_store_scheme \<Rightarrow> string \<Rightarrow> HostedGroup" where
  "groupAt s i = (case gm_get (hostedGroups s) i of Some g \<Rightarrow> g | None \<Rightarrow> zeroHostedGroup)"

interpretation repo_once: idempotent_create
  "\<lambda>clk repo (actor, key). CreateHostedRepositoryIdempotently clk repo actor key"
  "\<lambda>clk (s :: 'z hosted_store_scheme) (actor, key). liveRecord clk s (repositoriesRecordKey actor key)"
  "(=)" repositoryAt
  by unfold_locales
    (auto simp: CreateHostedRepositoryIdempotently_def liveRecord_def repositoryAt_def Let_def
      split: option.splits if_splits)

interpretation group_once: idempotent_create
  "\<lambda>clk grp (actor, key). CreateHostedGroupIdempotently preflight clk grp actor key"
  "\<lambda>clk (s :: 'z hosted_store_scheme) (actor, key). liveRecord clk s (groupsRecordKey actor key)"
  "(=)" groupAt for preflight
  by unfold_locales
    (auto simp: CreateHostedGroupIdempotently_def liveRecord_def groupAt_def Let_def
      split: option.splits if_splits)

section \<open>Pagination\<close>

text \<open>A client that follows the cursors until the last page; \<open>fuel\<close> bounds the number of requests.\<close>

fun walkPages :: "nat \<Rightarrow> (string \<Rightarrow> ('a list \<times> string) result) \<Rightarrow> string \<Rightarrow> 'a list result" where
  "walkPages 0 page after = Inl (ErrText ''out of requests'')"
| "walkPages (Suc fuel) page after =
     (case page after of
        Inl e \<Rightarrow> Inl e
      | Inr (items, cursor) \<Rightarrow>
          if cursor = [] then Inr items
          else case walkPages fuel page cursor of Inl e \<Rightarrow> Inl e | Inr rest \<Rightarrow> Inr (items @ rest))"

lemma pageLimit_pos [simp]: "0 < pageLimit limit"
  by (simp add: pageLimit_def)

lemma indexAfter_nth:
  "distinct (map f items) \<Longrightarrow> i < length items \<Longrightarrow> indexAfter f (f (items ! i)) items = Some (Suc i)"
proof (induction items arbitrary: i)
  case Nil
  then show ?case by simp
next
  case (Cons x xs)
  then show ?case
    by (cases i) (auto dest: nth_mem)
qed

lemma listPage_at:
  assumes "distinct (map f items)" and "\<forall>x \<in> set items. f x \<noteq> []" and "i < length items"
  shows "listPage f limit (f (items ! i)) items =
     (let st = Suc i; n = pageLimit limit
      in if st + n < length items then Inr (take n (drop st items), f (items ! (st + n - 1)))
         else Inr (drop st items, []))"
proof -
  have "f (items ! i) \<noteq> []"
    using assms(2,3) by auto
  then show ?thesis
    using assms by (simp add: listPage_def indexAfter_nth)
qed

lemma walkPages_from:
  assumes "distinct (map f items)" and "\<forall>x \<in> set items. f x \<noteq> []" and "i < length items"
    and "length items - Suc i < fuel"
  shows "walkPages fuel (\<lambda>a. listPage f limit a items) (f (items ! i)) = Inr (drop (Suc i) items)"
  using assms(3,4)
proof (induction fuel arbitrary: i)
  case 0
  then show ?case by simp
next
  case (Suc fuel)
  let ?n = "pageLimit limit"
  show ?case
  proof (cases "Suc i + ?n < length items")
    case True
    then have "f (items ! (i + ?n)) \<noteq> []"
      using assms(2) by simp
    moreover have "length items - Suc (i + ?n) < fuel"
      using Suc.prems True pageLimit_pos [of limit] by linarith
    then have "walkPages fuel (\<lambda>a. listPage f limit a items) (f (items ! (i + ?n))) = Inr (drop (Suc (i + ?n)) items)"
      using Suc.IH [of "i + ?n"] True by simp
    moreover have "take ?n (drop (Suc i) items) @ drop (Suc (i + ?n)) items = drop (Suc i) items"
      by (metis add.commute add_Suc append_take_drop_id drop_drop)
    ultimately show ?thesis
      using True Suc.prems by (simp add: listPage_at [OF assms(1,2)] Let_def)
  next
    case False
    with Suc.prems show ?thesis
      by (simp add: listPage_at [OF assms(1,2)] Let_def)
  qed
qed

lemma walkPages_all:
  assumes "distinct (map f items)" and "\<forall>x \<in> set items. f x \<noteq> []" and "length items < fuel"
  shows "walkPages fuel (\<lambda>a. listPage f limit a items) [] = Inr items"
proof (cases fuel)
  case 0
  with assms(3) show ?thesis by simp
next
  case (Suc k)
  let ?n = "pageLimit limit"
  show ?thesis
  proof (cases "?n < length items")
    case True
    have pos: "0 < ?n" by simp
    have idx: "?n - 1 < length items" using True by simp
    then have "f (items ! (?n - 1)) \<noteq> []"
      using assms(2) by simp
    moreover have "length items - Suc (?n - 1) < k"
      using True assms(3) Suc pos by linarith
    then have "walkPages k (\<lambda>a. listPage f limit a items) (f (items ! (?n - 1))) = Inr (drop ?n items)"
      using walkPages_from [OF assms(1,2) idx, of k limit] pos by simp
    moreover have "listPage f limit [] items = Inr (take ?n items, f (items ! (?n - 1)))"
      using True by (simp add: listPage_def Let_def)
    ultimately show ?thesis
      by (simp add: Suc)
  next
    case False
    then show ?thesis
      by (simp add: Suc listPage_def Let_def)
  qed
qed

lemma distinct_sort_key: "distinct (map f xs) \<Longrightarrow> distinct (map f (sort_key f xs))"
  by (metis distinct_map mset_sort mset_eq_imp_distinct_iff set_sort)

lemma repositories_distinct_ids:
  "hosted_ok s \<Longrightarrow> distinct (map hr_ID (sort_key hr_ID (gm_vals (hostedRepositories s))))"
  by (intro distinct_sort_key distinct_vals_by) (auto simp: hosted_ok_def dest: repositories_okD)

lemma GetHostedRepositoryByName_iff:
  assumes "hosted_ok s"
  shows "GetHostedRepositoryByName n s = Inr r \<longleftrightarrow> (\<exists>k. GetHostedRepository k s = Inr r \<and> hr_Name r = n)"
proof -
  let ?m = "hostedRepositories s"
  have ok: "repositories_ok ?m" and mok: "gm_ok ?m"
    using assms by (auto simp: hosted_ok_def repositories_ok_def)
  have uniq: "x = y" if "x \<in> set (gm_vals ?m)" "y \<in> set (gm_vals ?m)" "hr_Name x = hr_Name y" for x y
    using that repositories_okD(3) [OF ok] by (metis gm_vals_iff [OF mok] option.inject)
  show ?thesis
  proof
    assume "GetHostedRepositoryByName n s = Inr r"
    then have "r \<in> set (gm_vals ?m)" and "hr_Name r = n"
      by (auto simp: GetHostedRepositoryByName_def split: option.splits dest!: find_SomeD)
    then show "\<exists>k. GetHostedRepository k s = Inr r \<and> hr_Name r = n"
      by (metis GetHostedRepository_def gm_vals_iff [OF mok] option.simps(5))
  next
    assume "\<exists>k. GetHostedRepository k s = Inr r \<and> hr_Name r = n"
    then have r: "r \<in> set (gm_vals ?m)" "hr_Name r = n"
      by (auto simp: GetHostedRepository_def split: option.splits dest: gm_get_ran)
    show "GetHostedRepositoryByName n s = Inr r"
    proof (cases "find (\<lambda>r. hr_Name r = n) (gm_vals ?m)")
      case None
      with r show ?thesis by (auto simp: find_None_iff)
    next
      case (Some x)
      then have "x \<in> set (gm_vals ?m)" and "hr_Name x = n"
        by (auto dest!: find_SomeD)
      with r uniq have "x = r" by blast
      with Some show ?thesis by (simp add: GetHostedRepositoryByName_def)
    qed
  qed
qed

lemma groups_distinct_ids:
  "hosted_ok s \<Longrightarrow> distinct (map hg_ID (sort_key hg_ID (gm_vals (hostedGroups s))))"
  by (intro distinct_sort_key distinct_vals_by) (auto simp: hosted_ok_def groups_ok_def)

section \<open>The properties of the registry\<close>

text \<open>A repository and a group to evaluate the operations on.\<close>

definition exampleRepository :: HostedRepository where
  "exampleRepository = zeroHostedRepository\<lparr>hr_ID := ''r1'', hr_Name := ''libs'', hr_Format := FormatRaw\<rparr>"

definition exampleStore :: hosted_store where
  "exampleStore = snd (CreateHostedRepository 5 exampleRepository emptyHostedStore)"

lemmas example_defs = exampleStore_def exampleRepository_def CreateHostedRepository_def emptyHostedStore_def
  normalizeHostedRepository_def repositoryNameTaken_def zeroHostedRepository_def cloneEgressProxy_def
  cloneUpstreamAuth_def Let_def

lemma exampleStore_reach: "hosted_reach exampleStore"
proof (rule hosted_reach.step [OF hosted_reach.start])
  show "hosted_step emptyHostedStore exampleStore"
    unfolding exampleStore_def
    by (rule hosted_step.create [OF prod.collapse [symmetric]]) (simp add: emptyHostedStore_def)
qed

text \<open>
  C1. The registry invariant holds in every state a sequence of management operations can reach from
  the empty store, errors included: every repository and group is filed under its own identifier,
  repository names are unique, group members stay sorted by position, and grants and retention
  policies belong to existing repositories.
\<close>

theorem registry_invariant: "hosted_reach s \<Longrightarrow> hosted_ok s"
  by (rule hosted_reach_ok)

theorem registry_invariant_witness: "hosted_ok exampleStore \<and> hostedRepositories exampleStore \<noteq> []"
  using registry_invariant [OF exampleStore_reach] by (simp add: example_defs)

text \<open>
  C15. Deletion is one-way. Over any sequence of registry operations a repository is never dropped,
  keeps its identifier, name, format, type and creation time, and only moves forward along active, deleting, deleted. Once it is
  deleting every field but its state and version is frozen, and the version changes only with the step to deleted;
  a deleted repository never changes again.
\<close>

theorem repository_deletion_one_way:
  assumes "hosted_step\<^sup>*\<^sup>* s t" and "gm_get (hostedRepositories s) i = Some old"
  shows "\<exists>new. gm_get (hostedRepositories t) i = Some new \<and> hr_ID new = hr_ID old \<and> hr_Name new = hr_Name old \<and>
    hr_Format new = hr_Format old \<and> hr_Type new = hr_Type old \<and> hr_CreatedAt new = hr_CreatedAt old \<and>
    state_rank (hr_State old) \<le> state_rank (hr_State new) \<and>
    (hr_State old \<in> {RepositoryDeleting, RepositoryDeleted} \<longrightarrow>
       new\<lparr>hr_State := hr_State old, hr_Version := hr_Version old\<rparr> = old \<and> (hr_State new = hr_State old \<longrightarrow> new = old)) \<and>
    (hr_State old = RepositoryDeleted \<longrightarrow> new = old)"
proof -
  have "\<exists>new. gm_get (hostedRepositories t) i = Some new \<and> repository_moves old new"
    using assms
  proof (induction rule: rtranclp_induct)
    case (step y z)
    then show ?case
      using hosted_step_moves repository_moves_trans by meson
  qed simp
  then obtain new where new: "gm_get (hostedRepositories t) i = Some new" "repository_moves old new" by blast
  have "hr_State new = RepositoryDeleted" if "hr_State old = RepositoryDeleted"
    using new(2) that by (cases "hr_State new") (auto simp: repository_moves_def)
  with new show ?thesis
    by (auto simp: repository_moves_def)
qed

theorem repository_deletion_one_way_witness:
  "\<exists>new. gm_get (hostedRepositories (snd (DisableHostedRepository ''r1'' exampleStore))) ''r1'' = Some new \<and>
     state_rank RepositoryActive \<le> state_rank (hr_State new)"
proof -
  let ?t = "snd (DisableHostedRepository ''r1'' exampleStore)"
  have "hosted_step\<^sup>*\<^sup>* exampleStore ?t"
    by (intro r_into_rtranclp hosted_step.disable [OF prod.collapse [symmetric]])
  from repository_deletion_one_way [OF this, of "''r1''"] show ?thesis
    by (auto simp: example_defs)
qed

text \<open>
  Lookup by name. In every reachable registry a name resolves to a repository exactly when some
  identifier resolves to that repository and it carries the name, so the result does not depend on
  the order in which the map is ranged over; and a name no repository carries is not found.
\<close>

theorem lookup_by_name_unique:
  assumes "hosted_reach s"
  shows "(GetHostedRepositoryByName n s = Inr r \<longleftrightarrow> (\<exists>k. GetHostedRepository k s = Inr r \<and> hr_Name r = n)) \<and>
    (GetHostedRepositoryByName n s = Inl ErrNotFound \<longleftrightarrow> \<not> repositoryNameTaken n s)"
  using GetHostedRepositoryByName_iff [OF hosted_reach_ok [OF assms]]
  by (auto simp: GetHostedRepositoryByName_def repositoryNameTaken_def list_ex_iff find_None_iff
      split: option.splits dest!: find_SomeD)

theorem lookup_by_name_unique_witness:
  "GetHostedRepositoryByName ''absent'' exampleStore = Inl ErrNotFound"
  using conjunct2 [OF lookup_by_name_unique [OF exampleStore_reach, of "''absent''"]] by (simp add: example_defs)

text \<open>
  C11. No lost update. Any number of writers that read the same version of a repository, of a group's
  member list, of a grant set or of a retention policy and write one after another produce at most
  one success, in every state and whatever they write; and when the version they read is current and
  the repository is active, the first repository write succeeds and the result is its effect alone.
\<close>

theorem guarded_updates_one_winner:
  "length (filter is_ok (fst (run_updates (\<lambda>repo. UpdateHostedRepository (repo\<lparr>hr_ID := rid\<rparr>)) v repos s))) \<le> 1 \<and>
   length (filter is_ok (fst (run_updates (\<lambda>g. ReplaceHostedGroup preflight (g\<lparr>hg_ID := rid\<rparr>)) v gs s))) \<le> 1 \<and>
   length (filter is_ok (fst (run_updates (ReplaceHostedGroupMembers preflight rid) v ms s))) \<le> 1 \<and>
   length (filter is_ok (fst (run_updates (ReplaceRepositoryGrants rid) v grants s))) \<le> 1 \<and>
   length (filter is_ok (fst (run_updates (ReplaceRepositoryRetentionPolicy rid) v policies s))) \<le> 1 \<and>
   (\<forall>cur. gm_get (hostedRepositories s) rid = Some cur \<longrightarrow> hr_State cur = RepositoryActive \<longrightarrow> hr_Version cur = v \<longrightarrow>
      length (filter is_ok (fst (run_updates (\<lambda>repo. UpdateHostedRepository (repo\<lparr>hr_ID := rid\<rparr>)) v (a # repos) s))) = 1 \<and>
      snd (run_updates (\<lambda>repo. UpdateHostedRepository (repo\<lparr>hr_ID := rid\<rparr>)) v (a # repos) s) =
        snd (UpdateHostedRepository (a\<lparr>hr_ID := rid\<rparr>) v s))"
proof (intro conjI allI impI repo_cas.one_winner group_cas.one_winner member_cas.one_winner
    grant_cas.one_winner retention_cas.one_winner)
  fix cur
  assume "gm_get (hostedRepositories s) rid = Some cur" and "hr_State cur = RepositoryActive" and "hr_Version cur = v"
  then obtain r where win: "UpdateHostedRepository (a\<lparr>hr_ID := rid\<rparr>) v s = (Inr r, snd (UpdateHostedRepository (a\<lparr>hr_ID := rid\<rparr>) v s))"
    by (simp add: UpdateHostedRepository_def Let_def)
  then show "length (filter is_ok (fst (run_updates (\<lambda>repo. UpdateHostedRepository (repo\<lparr>hr_ID := rid\<rparr>)) v (a # repos) s))) = 1"
    and "snd (run_updates (\<lambda>repo. UpdateHostedRepository (repo\<lparr>hr_ID := rid\<rparr>)) v (a # repos) s) =
        snd (UpdateHostedRepository (a\<lparr>hr_ID := rid\<rparr>) v s)"
    by (rule repo_cas.first_wins)+
qed

theorem guarded_updates_one_winner_witness:
  "length (filter is_ok (fst (run_updates (\<lambda>repo. UpdateHostedRepository (repo\<lparr>hr_ID := ''r1''\<rparr>)) ''1''
     [exampleRepository, exampleRepository, exampleRepository] exampleStore))) = 1"
  using guarded_updates_one_winner [of "''r1''" "''1''" "[exampleRepository, exampleRepository]" exampleStore
      "\<lambda>_ _. None" "[]" "[]" "[]" "[]" exampleRepository]
  by (simp add: example_defs)

text \<open>
  C16. Idempotent creation. After a creation under an unused key, a retry with the same actor, key and
  payload within 24 hours returns the repository that was created, marked as a replay, whatever
  repository the retry carries, and changes nothing; a retry with another payload is refused.
\<close>

theorem repository_creation_idempotent:
  assumes "liveRecord clk s (repositoriesRecordKey actor key) = None"
    and "CreateHostedRepositoryIdempotently clk repo actor key payload s = (Inr (r, b), s')"
    and "clk' 0 < clk 2 + 24 * hour"
  shows "CreateHostedRepositoryIdempotently clk' repo' actor key payload s' = (Inr (r, True), s') \<and>
    (payload' \<noteq> payload \<longrightarrow>
      CreateHostedRepositoryIdempotently clk' repo' actor key payload' s' = (Inl ErrIdempotencyConflict, s'))"
proof -
  have live: "liveRecord clk' s' (repositoriesRecordKey actor key) \<noteq> None"
    using assms by (auto simp: CreateHostedRepositoryIdempotently_def liveRecord_def Let_def
        split: option.splits if_splits)
  show ?thesis
    using repo_once.replay_after_create [of clk s "(actor, key)" repo payload r b s' clk' repo']
      repo_once.conflict_after_create [of clk s "(actor, key)" repo payload r b s' clk' payload' repo'] assms(1,2) live
    by auto
qed

theorem repository_creation_idempotent_witness:
  "let s' = snd (CreateHostedRepositoryIdempotently (\<lambda>_. 7) exampleRepository ''ci'' ''k1'' ''p'' emptyHostedStore)
   in fst (CreateHostedRepositoryIdempotently (\<lambda>_. 9) exampleRepository ''ci'' ''k1'' ''q'' s') = Inl ErrIdempotencyConflict"
  using repository_creation_idempotent [of "\<lambda>_. 7" emptyHostedStore "''ci''" "''k1''" exampleRepository "''p''"
      _ _ _ "\<lambda>_. 9" exampleRepository "''q''"]
  by (simp add: example_defs CreateHostedRepositoryIdempotently_def liveRecord_def)

text \<open>
  C17. Complete pagination. A client that follows the cursors of the repository list or of the group
  list, whatever page size it asks for, gets every entry exactly once in the order of identifiers,
  and needs at most one request more than there are entries.
\<close>

theorem pagination_complete:
  assumes "hosted_reach s" and "\<forall>r \<in> set (gm_vals (hostedRepositories s)). hr_ID r \<noteq> []"
    and "\<forall>g \<in> set (gm_vals (hostedGroups s)). hg_ID g \<noteq> []"
  shows "walkPages (Suc (length (hostedRepositories s))) (\<lambda>a. ListHostedRepositories limit a s) [] =
      Inr (sort_key hr_ID (gm_vals (hostedRepositories s))) \<and>
    walkPages (Suc (length (hostedGroups s))) (\<lambda>a. ListHostedGroups limit a s) [] =
      Inr (sort_key hg_ID (gm_vals (hostedGroups s)))"
  using assms(2,3) repositories_distinct_ids [OF hosted_reach_ok [OF assms(1)]]
    groups_distinct_ids [OF hosted_reach_ok [OF assms(1)]]
  unfolding ListHostedRepositories_def ListHostedGroups_def
  by (intro conjI walkPages_all) simp_all

theorem pagination_complete_witness:
  "walkPages 2 (\<lambda>a. ListHostedRepositories 1 a exampleStore) [] =
     Inr (sort_key hr_ID (gm_vals (hostedRepositories exampleStore)))"
  using pagination_complete [OF exampleStore_reach, of 1] by (simp add: example_defs numeral_2_eq_2)

text \<open>
  Disabling an active repository stores the version \<^verbatim>\<open>2\<close> whatever version the repository
  had reached, so after two updates, at version \<^verbatim>\<open>3\<close>, the version goes backwards.
\<close>

theorem disable_resets_version:
  assumes "gm_get (hostedRepositories s) rid = Some repo" and "hr_State repo = RepositoryActive"
    and "parseInt64 (hr_Version repo) = Some n" and "2 < n"
  shows "\<exists>repo' m. gm_get (hostedRepositories (snd (DisableHostedRepository rid s))) rid = Some repo' \<and>
    parseInt64 (hr_Version repo') = Some m \<and> m < n"
proof -
  have "parseInt64 ''2'' = Some 2"
    by (simp add: parseInt64_def parseUint64_def is_digit_def digit_val_def)
  with assms show ?thesis
    by (simp add: DisableHostedRepository_def Let_def)
qed

text \<open>
  The idempotent creation of a repository stores the response-only marker
  \<^verbatim>\<open>CredentialsConfigured\<close> as the caller sent it, where the plain creation clears it.
\<close>

theorem idempotent_creation_keeps_marker:
  assumes "\<not> repositoryNameTaken (hr_Name repo) s" and "gm_get (idempotencyRecords s) (repositoriesRecordKey actor key) = None"
  shows "map_option hr_UpstreamAuth (gm_get (hostedRepositories
      (snd (CreateHostedRepositoryIdempotently clk repo actor key payload s))) (hr_ID repo)) = Some (hr_UpstreamAuth repo) \<and>
    map_option hr_UpstreamAuth (gm_get (hostedRepositories
      (snd (CreateHostedRepository now repo s))) (hr_ID repo)) = Some (cloneUpstreamAuth (hr_UpstreamAuth repo))"
  using assms
  by (auto simp: CreateHostedRepositoryIdempotently_def CreateHostedRepository_def normalizeHostedRepository_def
      repositoryNameTaken_def Let_def)

text \<open>
  C18. Replacing a group does not check the new name against the other groups, so a rename can leave
  two groups with one name; a lookup of that name then depends on the order in which the map is
  ranged over.
\<close>

theorem group_rename_can_collide:
  assumes "gm_ok (hostedGroups s)" and "gm_get (hostedGroups s) a = Some ga" and "hg_ID ga = a"
    and "gm_get (hostedGroups s) b = Some gb" and "a \<noteq> b" and "hg_Format ga \<noteq> FormatCargo"
  shows "\<exists>s'. ReplaceHostedGroup preflight (ga\<lparr>hg_Name := hg_Name gb\<rparr>) (hg_Version ga) s =
      (Inr (groupAt s' a), s') \<and> hg_Name (groupAt s' a) = hg_Name (groupAt s' b)"
  using assms by (simp add: ReplaceHostedGroup_def groupPreflight_def groupAt_def Let_def)

text \<open>The states that make the three observations concrete.\<close>

definition exampleUpdatedStore :: hosted_store where
  "exampleUpdatedStore = emptyHostedStore\<lparr>hostedRepositories :=
     [(''r1'', exampleRepository\<lparr>hr_State := RepositoryActive, hr_Version := ''3''\<rparr>)]\<rparr>"

definition exampleGroupStore :: hosted_store where
  "exampleGroupStore = emptyHostedStore\<lparr>hostedGroups :=
     [(''g1'', zeroHostedGroup\<lparr>hg_ID := ''g1'', hg_Name := ''one'', hg_Version := ''1''\<rparr>),
      (''g2'', zeroHostedGroup\<lparr>hg_ID := ''g2'', hg_Name := ''two'', hg_Version := ''1''\<rparr>)]\<rparr>"

lemma parseInt64_three: "parseInt64 ''3'' = Some 3"
  by (simp add: parseInt64_def parseUint64_def is_digit_def digit_val_def)

theorem disable_resets_version_witness:
  "\<exists>repo' m. gm_get (hostedRepositories (snd (DisableHostedRepository ''r1'' exampleUpdatedStore))) ''r1'' = Some repo' \<and>
     parseInt64 (hr_Version repo') = Some m \<and> m < 3"
  using disable_resets_version [of exampleUpdatedStore "''r1''" _ 3] parseInt64_three
  by (simp add: exampleUpdatedStore_def example_defs)

theorem idempotent_creation_keeps_marker_witness:
  "let auth = \<lparr>ua_Scheme = ''basic'', ua_Username = ''u'', ua_Secret = ''s'', ua_CredentialsConfigured = True\<rparr>;
       repo = exampleRepository\<lparr>hr_UpstreamAuth := Some auth\<rparr>
   in map_option hr_UpstreamAuth (gm_get (hostedRepositories
        (snd (CreateHostedRepositoryIdempotently (\<lambda>_. 7) repo ''ci'' ''k1'' ''p'' emptyHostedStore))) ''r1'') =
      Some (Some auth)"
  using idempotent_creation_keeps_marker [of "exampleRepository\<lparr>hr_UpstreamAuth := Some \<lparr>ua_Scheme = ''basic'',
        ua_Username = ''u'', ua_Secret = ''s'', ua_CredentialsConfigured = True\<rparr>\<rparr>" emptyHostedStore "''ci''" "''k1''"]
  by (simp add: example_defs)

theorem group_rename_can_collide_witness:
  "\<exists>s'. hg_Name (groupAt s' ''g1'') = hg_Name (groupAt (s' :: hosted_store) ''g2'') \<and>
     snd (ReplaceHostedGroup (\<lambda>_ _. None) (zeroHostedGroup\<lparr>hg_ID := ''g1'', hg_Name := ''two'', hg_Version := ''1''\<rparr>)
       ''1'' exampleGroupStore) = s'"
  using group_rename_can_collide [of exampleGroupStore "''g1''" "zeroHostedGroup\<lparr>hg_ID := ''g1'', hg_Name := ''one'', hg_Version := ''1''\<rparr>"
      "''g2''" "zeroHostedGroup\<lparr>hg_ID := ''g2'', hg_Name := ''two'', hg_Version := ''1''\<rparr>" "\<lambda>_ _. None"]
  by (auto simp: exampleGroupStore_def emptyHostedStore_def zeroHostedGroup_def gm_ok_def)

end
