(* ===== verification/AuthorizationLaws.thy ===== *)
theory AuthorizationLaws
  imports Authorization HostedLaws
begin

text \<open>
  Laws of the repository authorizer: a declarative reading of its decision, that a blocked account
  is refused on every path, that a decision only depends on what names the actor, that read and
  write authority stay apart, and that grants stored in the registry take effect and are revoked.
\<close>

section \<open>Roles and scopes\<close>

lemma roleRank_not_above [simp]: "\<not> 2 < roleRank r"
  by (simp add: roleRank_def)

lemma bestRole_rank: "roleRank (bestRole best rs) = Max (insert (roleRank best) (roleRank ` set rs))"
proof (induction rs arbitrary: best)
  case Nil
  then show ?case by simp
next
  case (Cons r rs)
  have "Max (insert (roleRank (if roleRank r > roleRank best then r else best)) (roleRank ` set rs)) =
      Max (insert (roleRank best) (insert (roleRank r) (roleRank ` set rs)))"
    by (cases "set rs = {}") (auto simp: Max_insert max_def)
  then show ?case
    by (simp add: Cons.IH)
qed

lemma bestRole_mem: "bestRole best rs = best \<or> bestRole best rs \<in> set rs"
  by (induction best rs rule: bestRole.induct) auto

lemma bestRole_zero: "roleRank best = 0 \<Longrightarrow> \<forall>r \<in> set rs. roleRank r = 0 \<Longrightarrow> bestRole best rs = best"
  by (induction best rs rule: bestRole.induct) auto

lemma roleRank_2: "roleRank r = 2 \<longleftrightarrow> r = RoleAdmin"
  and roleRank_1: "roleRank r = Suc 0 \<longleftrightarrow> r = RoleMember"
  by (auto simp: roleRank_def)

lemma bestRole_fix: "roleRank best = 2 \<Longrightarrow> bestRole best rs = best"
  by (induction best rs rule: bestRole.induct) simp_all

lemma bestRole_admin: "RoleAdmin \<in> set rs \<Longrightarrow> roleRank best < 2 \<or> best = RoleAdmin \<Longrightarrow> bestRole best rs = RoleAdmin"
proof (induction best rs rule: bestRole.induct)
  case (2 best r rs)
  show ?case
  proof (cases "r = RoleAdmin")
    case True
    with 2(3) show ?thesis
      by (auto simp: bestRole_fix roleRank_def)
  next
    case False
    with 2 show ?thesis
      by (auto simp: roleRank_def split: if_splits)
  qed
qed simp

lemma bestRole_member:
  "RoleAdmin \<notin> set rs \<Longrightarrow> RoleMember \<in> set rs \<or> best = RoleMember \<Longrightarrow> best \<noteq> RoleAdmin \<Longrightarrow>
     bestRole best rs = RoleMember"
proof (induction best rs rule: bestRole.induct)
  case (2 best r rs)
  then show ?case
    by (auto simp: roleRank_def split: if_splits)
qed simp

lemma RoleFromRoles_eq:
  "RoleFromRoles roles =
     (if RoleAdmin \<in> set roles then RoleAdmin else if RoleMember \<in> set roles then RoleMember else [])"
proof -
  have "bestRole [] roles = []" if "RoleAdmin \<notin> set roles" "RoleMember \<notin> set roles"
    using that by (intro bestRole_zero) (auto simp: roleRank_def)
  then show ?thesis
    unfolding RoleFromRoles_def using bestRole_admin [of roles "[]"] bestRole_member [of roles "[]"]
    by (auto simp: roleRank_def)
qed

lemma scopeAllows_hierarchy:
  "scopeAllows RepositoryAdmin sc \<Longrightarrow> scopeAllows RepositoryWrite sc \<and> scopeAllows RepositoryIntelligence sc"
  "scopeAllows RepositoryWrite sc \<Longrightarrow> scopeAllows RepositoryRead sc"
  by (auto simp: scopeAllows_def)

lemma grantAllows_hierarchy:
  "grantAllows scs RepositoryAdmin \<Longrightarrow> grantAllows scs RepositoryWrite \<and> grantAllows scs RepositoryIntelligence"
  "grantAllows scs RepositoryWrite \<Longrightarrow> grantAllows scs RepositoryRead"
  by (auto simp: grantAllows_def list_ex_iff dest: scopeAllows_hierarchy)

section \<open>The scan of a grant set\<close>

definition permits :: "string \<Rightarrow> RepositoryOperation \<Rightarrow> string \<Rightarrow> RepositoryGrant \<Rightarrow> bool" where
  "permits actor operation resource g \<longleftrightarrow> rg_Principal g = actor \<and> grantAllows (rg_Scopes g) operation \<and>
     grantMatchesResource (rg_ResourcePrefix g) resource"

lemma scanGrants_None:
  "scanGrants actor operation resource att gs = None \<longleftrightarrow> (\<exists>g \<in> set gs. permits actor operation resource g)"
  by (induction gs arbitrary: att) (auto simp: permits_def)

lemma scanGrants_Some:
  "scanGrants actor operation resource att gs = Some b \<longleftrightarrow>
     (\<forall>g \<in> set gs. \<not> permits actor operation resource g) \<and> (b \<longleftrightarrow> att \<or> (\<exists>g \<in> set gs. rg_Principal g = actor))"
  by (induction gs arbitrary: att) (auto simp: permits_def)

lemma scanGrants_filter:
  "scanGrants actor operation resource att (filter (\<lambda>g. rg_Principal g = actor) gs) =
     scanGrants actor operation resource att gs"
  by (induction gs arbitrary: att) auto

section \<open>The decision, declaratively\<close>

text \<open>
  What the authorizer is meant to decide: account state first, then administrators, then the grants
  that name the actor, and the static patterns only where no grant set decides.
\<close>

definition grants_decide :: "RepositoryAuthorizer \<Rightarrow> Principal \<Rightarrow> HostedRepository \<Rightarrow> bool" where
  "grants_decide a p target \<longleftrightarrow>
     (\<exists>getGrants. az_Grants a = Some getGrants \<and>
        (\<forall>gset. getGrants (hr_ID target) = Inr gset \<longrightarrow>
           isManagedRepositoryGrantSet (gs_Version gset) \<or> (\<exists>g \<in> set (gs_Grants gset). rg_Principal g = pr_Actor p)))"

definition grants_permit :: "RepositoryAuthorizer \<Rightarrow> Principal \<Rightarrow> HostedRepository \<Rightarrow> RepositoryOperation \<Rightarrow> string \<Rightarrow> bool" where
  "grants_permit a p target operation resource \<longleftrightarrow>
     (\<exists>getGrants gset g. az_Grants a = Some getGrants \<and> getGrants (hr_ID target) = Inr gset \<and>
        g \<in> set (gs_Grants gset) \<and> permits (pr_Actor p) operation resource g)"

lemma deny_not_allowed [simp]: "\<not> ad_Allowed (deny source reason)"
  and allow_allowed [simp]: "ad_Allowed (allow source reason)"
  by (simp_all add: deny_def allow_def)

lemma ManagedResourceDecision_open:
  assumes "\<not> RepositoryAccessBlocked p" and "\<not> pr_Admin p" and "pr_Role p \<noteq> RoleAdmin"
  shows "ManagedResourceDecision a p target operation resource =
    (if grants_permit a p target operation resource then Some (allow ''repository_grants'' ''scope_granted'')
     else if \<not> grants_decide a p target then None
     else if \<exists>getGrants e. az_Grants a = Some getGrants \<and> getGrants (hr_ID target) = Inl e
     then Some (deny ''repository_grants'' ''grant_lookup_failed'')
     else Some (deny ''repository_grants'' ''scope_not_granted''))"
proof (cases "az_Grants a")
  case None
  with assms show ?thesis
    by (simp add: ManagedResourceDecision_def accountStateDecision_def RepositoryAccessBlocked_def RoleAllows_def
        grants_permit_def grants_decide_def)
next
  case (Some getGrants)
  with assms show ?thesis
    by (auto simp: ManagedResourceDecision_def accountStateDecision_def RepositoryAccessBlocked_def RoleAllows_def
        grants_permit_def grants_decide_def scanGrants_None scanGrants_Some permits_def
        split: sum.splits option.splits)
qed

lemma AuthorizeResource_allowed:
  "ad_Allowed (AuthorizeResource a p target operation resource) \<longleftrightarrow>
     \<not> RepositoryAccessBlocked p \<and>
     (pr_Admin p \<or> pr_Role p = RoleAdmin \<or> grants_permit a p target operation resource \<or>
      \<not> grants_decide a p target \<and> ad_Allowed (authorizeLegacyForTarget a p target operation))"
proof (cases "RepositoryAccessBlocked p \<or> pr_Admin p \<or> pr_Role p = RoleAdmin")
  case True
  then show ?thesis
    by (auto simp: AuthorizeResource_def accountStateDecision_def RepositoryAccessBlocked_def RoleAllows_def)
next
  case False
  moreover have "grants_permit a p target operation resource \<Longrightarrow> grants_decide a p target"
    by (auto simp: grants_permit_def grants_decide_def permits_def)
  ultimately show ?thesis
    by (auto simp: AuthorizeResource_def accountStateDecision_def RepositoryAccessBlocked_def RoleAllows_def
        ManagedResourceDecision_open)
qed


lemma authorizeLegacy_grants [simp]:
  "authorizeLegacyForTarget (a\<lparr>az_Grants := gr\<rparr>) p target operation = authorizeLegacyForTarget a p target operation"
  by (cases operation) (simp_all add: authorizeLegacyForTarget_def authorizeLegacy_def Let_def cong: option.case_cong)

section \<open>The properties of the authorizer\<close>

definition exampleAuthenticator :: Authenticator where
  "exampleAuthenticator =
     \<lparr>au_AdminToken = ''adm'', au_ResolverToken = ''res'', au_ConanTokenSecret = [], au_AdminActor = ''root'',
      au_ResolverActor = ''ci'', au_RepositoryReaders = None, au_LegacyReadPermissive = False,
      au_RepositoryWriters = None, au_APIKeys = None, au_ServiceAccounts = None, au_Users = None\<rparr>"

definition exampleAuthorizer :: RepositoryAuthorizer where
  "exampleAuthorizer = \<lparr>az_Grants = None, az_Legacy = exampleAuthenticator, az_LegacyFallback = None\<rparr>"

text \<open>
  C2. The decision of the authorizer is the documented precedence. Access is allowed exactly when the
  account is not blocked and the principal is an administrator by identity or role, or a grant that
  names the actor permits the operation on the resource, or the grants do not decide for this actor
  (no grant store, or an unmanaged grant set that does not name it) and the legacy policy allows.
\<close>

theorem authorize_precedence:
  "ad_Allowed (AuthorizeResource a p target operation resource) \<longleftrightarrow>
     \<not> RepositoryAccessBlocked p \<and>
     (pr_Admin p \<or> pr_Role p = RoleAdmin \<or> grants_permit a p target operation resource \<or>
      \<not> grants_decide a p target \<and> ad_Allowed (authorizeLegacyForTarget a p target operation))"
  by (rule AuthorizeResource_allowed)

text \<open>
  C14. A blocked account is refused everywhere. While an account is pending or must change its
  password, no path allows it anything, whatever its administrator flag, the grants, the patterns
  and the legacy fallback say: not the authorizer, not the managed decisions of repositories or
  group members, not the static read and write checks.
\<close>

theorem blocked_account_refused:
  assumes "pr_Role p = RoleNone \<or> pr_MustChangePassword p"
  shows "\<not> ad_Allowed (AuthorizeResource a p target operation resource) \<and>
    (\<forall>d. ManagedResourceDecision a p target operation resource = Some d \<longrightarrow> \<not> ad_Allowed d) \<and>
    (\<forall>d. ManagedGroupMemberDecision repositories a p member fmt resource = Some d \<longrightarrow> \<not> ad_Allowed d) \<and>
    \<not> CanReadRepository auth p n \<and> \<not> CanReadMavenRepository auth p n \<and> \<not> CanWriteMavenRepository auth p n"
proof -
  have blocked: "RepositoryAccessBlocked p"
    using assms by (auto simp: RepositoryAccessBlocked_def AccountStateReason_def)
  have managed: "\<not> ad_Allowed d" if "ManagedResourceDecision a p t opn res = Some d" for t opn res d
    using that blocked by (auto simp: ManagedResourceDecision_def accountStateDecision_def RepositoryAccessBlocked_def)
  show ?thesis
    using blocked managed
    by (auto simp: AuthorizeResource_allowed ManagedGroupMemberDecision_def Let_def CanReadRepository_def
        PrincipalCanReadRepository_def CanReadMavenRepository_def CanWriteMavenRepository_def
        split: if_splits option.splits sum.splits)
qed

text \<open>
  A decision depends on nobody else's grants. Two grant sets with the same version that agree on
  the entries naming the actor give that actor the same decision, in any order relative to the
  entries of others; in particular adding or removing another actor's grants changes nothing.
\<close>

theorem authorize_actor_isolation:
  assumes "gs_Version g1 = gs_Version g2"
    and "filter (\<lambda>g. rg_Principal g = pr_Actor p) (gs_Grants g1) = filter (\<lambda>g. rg_Principal g = pr_Actor p) (gs_Grants g2)"
  shows "AuthorizeResource (a\<lparr>az_Grants := Some (\<lambda>_. Inr g1)\<rparr>) p target operation resource =
    AuthorizeResource (a\<lparr>az_Grants := Some (\<lambda>_. Inr g2)\<rparr>) p target operation resource"
proof -
  have "scanGrants (pr_Actor p) operation resource False (gs_Grants g1) =
      scanGrants (pr_Actor p) operation resource False (gs_Grants g2)"
    using assms(2) scanGrants_filter by metis
  then have "ManagedResourceDecision (a\<lparr>az_Grants := Some (\<lambda>_. Inr g1)\<rparr>) p target operation resource =
      ManagedResourceDecision (a\<lparr>az_Grants := Some (\<lambda>_. Inr g2)\<rparr>) p target operation resource"
    using assms(1) by (cases "accountStateDecision p") (simp_all add: ManagedResourceDecision_def cong: if_cong option.case_cong)
  then show ?thesis
    by (simp add: AuthorizeResource_def cong: if_cong option.case_cong)
qed

text \<open>
  A download grant is never publication authority. Whether a principal may write a Maven
  repository is the same for any reader patterns it carries, any reader policy and any legacy read
  posture of the deployment; and the scopes of a grant are ordered, so admin implies write and
  intelligence, and write implies read, never the other way round.
\<close>

theorem read_is_not_write:
  "CanWriteMavenRepository (auth\<lparr>au_RepositoryReaders := readers, au_LegacyReadPermissive := permissive\<rparr>)
     (p\<lparr>pr_RepositoryPatterns := pats\<rparr>) n = CanWriteMavenRepository auth p n \<and>
   \<not> grantAllows [''repositories:read'', ''repositories:intelligence''] RepositoryWrite \<and>
   \<not> grantAllows [''repositories:read'', ''repositories:write'', ''repositories:intelligence''] RepositoryAdmin \<and>
   (grantAllows scs RepositoryAdmin \<longrightarrow> grantAllows scs RepositoryWrite \<and> grantAllows scs RepositoryIntelligence) \<and>
   (grantAllows scs RepositoryWrite \<longrightarrow> grantAllows scs RepositoryRead)"
  using grantAllows_hierarchy [of scs]
  by (auto simp: CanWriteMavenRepository_def RepositoryAccessBlocked_def AccountStateReason_def grantAllows_def scopeAllows_def)

text \<open>
  C21. A principal rebuilt for a durable job never exceeds its current subject. When the rebuild
  succeeds the subject is active and not blocked, and the principal carries its actor and kind, the patterns configured for the
  actor, and the role of the snapshot: the given role for sessions, OIDC and API keys, the administrator role only for the
  configured administrator, none for the resolver and for service accounts. It is an administrator exactly when
  that role is the administrator role. The role is one the gateway recognises or, except for sessions and OIDC, empty, and a static identity is
  only rebuilt while its token is configured.
\<close>

theorem durable_principal_sound:
  assumes "DurablePrincipal a actor kind role active mustChange = (p, True)"
  shows "active \<and> actor \<noteq> [] \<and> pr_Actor p = actor \<and> \<not> RepositoryAccessBlocked p \<and> \<not> mustChange \<and>
    pr_AuthenticationKind p = kind \<and> pr_RepositoryPatterns p = patternsOf (au_RepositoryReaders a) actor \<and>
    pr_Role p = (if kind = AuthenticationStaticAdmin then RoleAdmin
                 else if kind \<in> {AuthenticationLocalSession, AuthenticationOIDC, AuthenticationAPIKey} then role else []) \<and>
    (pr_Admin p \<longleftrightarrow> pr_Role p = RoleAdmin) \<and>
    (kind = AuthenticationStaticAdmin \<longrightarrow> au_AdminActor a = actor \<and> au_AdminToken a \<noteq> []) \<and>
    (pr_Role p = [] \<and> kind \<notin> {AuthenticationLocalSession, AuthenticationOIDC} \<or> validGatewayRole (pr_Role p)) \<and>
    (kind = AuthenticationStaticResolver \<longrightarrow> au_ResolverToken a \<noteq> [] \<and> au_ResolverActor a = actor)"
proof -
  note unfold = DurablePrincipal_def RepositoryAccessBlocked_def AccountStateReason_def zeroPrincipal_def Let_def
  have live: "active" "actor \<noteq> []"
    using assms unfolding DurablePrincipal_def by (metis prod.inject)+
  consider "kind = AuthenticationStaticAdmin" | "kind = AuthenticationStaticResolver"
    | "kind \<in> {AuthenticationLocalSession, AuthenticationOIDC, AuthenticationAPIKey}"
    | "kind = AuthenticationServiceAccountCredential"
    | "kind \<notin> {AuthenticationStaticAdmin, AuthenticationStaticResolver, AuthenticationLocalSession, AuthenticationOIDC,
          AuthenticationAPIKey, AuthenticationServiceAccountCredential}"
    by blast
  then show ?thesis
  proof cases
    case 1
    with assms live show ?thesis
      by (simp add: unfold validGatewayRole_def split: if_splits) (auto split: if_splits)
  next
    case 2
    with assms live show ?thesis
      by (simp add: unfold split: if_splits) (auto split: if_splits)
  next
    case 3
    with assms live show ?thesis
      by (elim insertE emptyE; simp add: unfold split: if_splits) (auto split: if_splits)
  next
    case 4
    with assms live show ?thesis
      by (simp add: unfold split: if_splits) (auto split: if_splits)
  next
    case 5
    with assms live show ?thesis
      by (simp add: unfold)
  qed
qed

text \<open>
  The role of an API key does not depend on the order of its role list and ignores everything
  unrecognised: admin when the list holds it, otherwise member when the list holds it, otherwise none.
\<close>

theorem role_from_roles_best:
  "RoleFromRoles roles =
     (if RoleAdmin \<in> set roles then RoleAdmin else if RoleMember \<in> set roles then RoleMember else [])"
  by (rule RoleFromRoles_eq)

section \<open>Grants of the registry\<close>

text \<open>
  The authorizer over the registry: its grant store is \<^const>\<open>GetRepositoryGrants\<close> of the current state.
\<close>

definition registryAuthorizer :: "Authenticator \<Rightarrow> 'z hosted_store_scheme \<Rightarrow> RepositoryAuthorizer" where
  "registryAuthorizer legacy s =
     \<lparr>az_Grants = Some (\<lambda>rid. GetRepositoryGrants rid s), az_Legacy = legacy, az_LegacyFallback = None\<rparr>"

lemma upsertGrant_mem: "g \<in> set (upsertGrant g gs)"
  by (induction gs) auto

lemma digits_sign: "digits_val 0 (CHR ''-'' # r) = None" "digits_val 0 (CHR ''+'' # r) = None"
  by (simp_all add: is_digit_def)

lemma managed_after_next:
  assumes "parseInt64 v = Some n" and "1 \<le> n" and "n < 2 ^ 63 - 1"
  shows "isManagedRepositoryGrantSet (nextHostedGroupVersion v)"
proof -
  have "int64 (n + 1)"
    using assms by (simp add: int64_def)
  then have "nextHostedGroupVersion v = formatNat (nat (n + 1))"
    using assms by (simp add: nextHostedGroupVersion_def formatInt_def)
  moreover have "nat (n + 1) < 2 ^ 64"
    using assms by simp
  ultimately show ?thesis
    using assms(2) by (simp add: isManagedRepositoryGrantSet_def parseUint64_format)
qed

lemma UpsertRepositoryGrant_reads:
  assumes "GetHostedRepository rid s = Inr target"
  shows "\<exists>gset. GetRepositoryGrants rid (snd (UpsertRepositoryGrant rid grant s)) = Inr gset \<and> grant \<in> set (gs_Grants gset)"
  using assms upsertGrant_mem
  by (auto simp: GetHostedRepository_def UpsertRepositoryGrant_def GetRepositoryGrants_def repositoryMissing_def Let_def
      split: option.splits)

lemma DeleteRepositoryGrant_reads:
  assumes "DeleteRepositoryGrant rid prin pfx s = (Inr gset, s')"
  shows "GetRepositoryGrants rid s' = Inr gset \<and>
    (\<exists>old. gm_get (repositoryGrants s) rid = Some old \<and> gs_Version gset = nextHostedGroupVersion (gs_Version old) \<and>
       (\<forall>g. g \<in> set (gs_Grants gset) \<longleftrightarrow> g \<in> set (gs_Grants old) \<and> \<not> (rg_Principal g = prin \<and> rg_ResourcePrefix g = pfx)))"
  using assms
  by (auto simp: DeleteRepositoryGrant_def GetRepositoryGrants_def repositoryMissing_def Let_def
      split: option.splits if_splits)

text \<open>
  C20. Granting takes effect at once. After a grant is upserted into the registry, the authorizer that
  reads the registry allows the named actor every operation its scopes cover on every resource under
  its prefix, unless the account is blocked.
\<close>

theorem upserted_grant_effective:
  assumes "GetHostedRepository rid s = Inr target" and "hr_ID target = rid"
    and "rg_Principal grant = pr_Actor p" and "grantAllows (rg_Scopes grant) operation"
    and "grantMatchesResource (rg_ResourcePrefix grant) resource" and "\<not> RepositoryAccessBlocked p"
  shows "ad_Allowed (AuthorizeResource (registryAuthorizer legacy (snd (UpsertRepositoryGrant rid grant s)))
    p target operation resource)"
proof -
  obtain gset where "GetRepositoryGrants rid (snd (UpsertRepositoryGrant rid grant s)) = Inr gset"
    and "grant \<in> set (gs_Grants gset)"
    using UpsertRepositoryGrant_reads [OF assms(1)] by blast
  with assms(2-) show ?thesis
    by (auto simp: AuthorizeResource_allowed grants_permit_def permits_def registryAuthorizer_def)
qed

text \<open>
  C19. Revocation is complete. Once the last entry that permits an operation to an actor is deleted
  from a grant set at a valid version, the actor is refused that operation on that resource: the set
  stays managed, so the legacy patterns do not take over, even in a deployment that admits readers by
  default.
\<close>

theorem deleted_grant_revoked:
  assumes "gm_get (repositoryGrants s) rid = Some old" and "parseInt64 (gs_Version old) = Some n"
    and "1 \<le> n" and "n < 2 ^ 63 - 1"
    and "DeleteRepositoryGrant rid prin pfx s = (Inr gset, s')"
    and "\<forall>g \<in> set (gs_Grants old). permits (pr_Actor p) operation resource g \<longrightarrow>
           rg_Principal g = prin \<and> rg_ResourcePrefix g = pfx"
    and "hr_ID target = rid" and "\<not> pr_Admin p" and "pr_Role p \<noteq> RoleAdmin"
  shows "\<not> ad_Allowed (AuthorizeResource (registryAuthorizer legacy s') p target operation resource)"
proof -
  note reads = DeleteRepositoryGrant_reads [OF assms(5)]
  then have managed: "isManagedRepositoryGrantSet (gs_Version gset)"
    using managed_after_next [OF assms(2-4)] assms(1) by auto
  have "\<not> grants_permit (registryAuthorizer legacy s') p target operation resource"
    using reads assms(1,6,7) by (auto simp: grants_permit_def registryAuthorizer_def)
  moreover have "grants_decide (registryAuthorizer legacy s') p target"
    using reads managed assms(7) by (auto simp: grants_decide_def registryAuthorizer_def)
  ultimately show ?thesis
    using assms(8,9) by (simp add: AuthorizeResource_allowed)
qed

section \<open>Instances\<close>

definition exampleReader :: Principal where
  "exampleReader = zeroPrincipal\<lparr>pr_Actor := ''user:ann'', pr_Role := RoleMember\<rparr>"

definition exampleGrant :: RepositoryGrant where
  "exampleGrant = \<lparr>rg_Principal = ''user:ann'', rg_Scopes = [''repositories:read''], rg_ResourcePrefix = ''a/''\<rparr>"

definition exampleGrantedStore :: hosted_store where
  "exampleGrantedStore = exampleStore\<lparr>repositoryGrants := [(''r1'', \<lparr>gs_Version = ''2'', gs_Grants = [exampleGrant]\<rparr>)]\<rparr>"

lemma parseInt64_two: "parseInt64 ''2'' = Some 2"
  by (simp add: parseInt64_def parseUint64_def is_digit_def digit_val_def)

lemma exampleReader_open: "\<not> RepositoryAccessBlocked exampleReader"
  by (simp add: RepositoryAccessBlocked_def AccountStateReason_def exampleReader_def zeroPrincipal_def)

theorem blocked_account_refused_witness:
  "\<not> ad_Allowed (AuthorizeResource exampleAuthorizer (exampleReader\<lparr>pr_Admin := True, pr_MustChangePassword := True\<rparr>)
     exampleRepository RepositoryRead [])"
  using blocked_account_refused [of "exampleReader\<lparr>pr_Admin := True, pr_MustChangePassword := True\<rparr>"] by simp

theorem authorize_actor_isolation_witness:
  "AuthorizeResource (exampleAuthorizer\<lparr>az_Grants := Some (\<lambda>_. Inr \<lparr>gs_Version = ''2'', gs_Grants = [exampleGrant]\<rparr>)\<rparr>)
     (exampleReader\<lparr>pr_Actor := ''user:bob''\<rparr>) exampleRepository RepositoryRead ''a/x'' =
   AuthorizeResource (exampleAuthorizer\<lparr>az_Grants := Some (\<lambda>_. Inr \<lparr>gs_Version = ''2'', gs_Grants = []\<rparr>)\<rparr>)
     (exampleReader\<lparr>pr_Actor := ''user:bob''\<rparr>) exampleRepository RepositoryRead ''a/x''"
  by (rule authorize_actor_isolation) (simp_all add: exampleGrant_def exampleReader_def)

theorem read_is_not_write_witness:
  "grantAllows [''repositories:admin''] RepositoryAdmin \<and> grantAllows [''repositories:admin''] RepositoryWrite"
  using read_is_not_write [where scs = "[''repositories:admin'']"]
  by (simp add: grantAllows_def scopeAllows_def)

theorem durable_principal_sound_witness:
  "au_AdminToken exampleAuthenticator \<noteq> [] \<and>
     snd (DurablePrincipal exampleAuthenticator ''root'' AuthenticationStaticAdmin [] True False)"
proof -
  obtain p where "DurablePrincipal exampleAuthenticator ''root'' AuthenticationStaticAdmin [] True False = (p, True)"
    by (simp add: DurablePrincipal_def exampleAuthenticator_def AccountStateReason_def)
  from durable_principal_sound [OF this] this show ?thesis
    by (simp add: exampleAuthenticator_def)
qed

theorem upserted_grant_effective_witness:
  "ad_Allowed (AuthorizeResource (registryAuthorizer exampleAuthenticator
     (snd (UpsertRepositoryGrant ''r1'' exampleGrant exampleStore))) exampleReader
     (repositoryAt exampleStore ''r1'') RepositoryRead ''a/x'')"
proof (rule upserted_grant_effective)
  show "GetHostedRepository ''r1'' exampleStore = Inr (repositoryAt exampleStore ''r1'')"
    and "hr_ID (repositoryAt exampleStore ''r1'') = ''r1''"
    by (simp_all add: repositoryAt_def GetHostedRepository_def example_defs)
qed (simp_all add: exampleGrant_def exampleReader_def grantAllows_def scopeAllows_def grantMatchesResource_def hasPrefix_def
    exampleReader_open [unfolded exampleReader_def])

theorem deleted_grant_revoked_witness:
  "\<not> ad_Allowed (AuthorizeResource (registryAuthorizer (exampleAuthenticator\<lparr>au_LegacyReadPermissive := True\<rparr>)
     (snd (DeleteRepositoryGrant ''r1'' ''user:ann'' ''a/'' exampleGrantedStore))) exampleReader
     exampleRepository RepositoryRead ''a/x'')"
proof -
  obtain gset where "DeleteRepositoryGrant ''r1'' ''user:ann'' ''a/'' exampleGrantedStore =
      (Inr gset, snd (DeleteRepositoryGrant ''r1'' ''user:ann'' ''a/'' exampleGrantedStore))"
    by (simp add: DeleteRepositoryGrant_def exampleGrantedStore_def example_defs repositoryMissing_def exampleGrant_def)
  from deleted_grant_revoked [OF _ _ _ _ this, of "\<lparr>gs_Version = ''2'', gs_Grants = [exampleGrant]\<rparr>" 2 exampleReader
      RepositoryRead "''a/x''" exampleRepository]
  show ?thesis
    by (simp add: exampleGrantedStore_def parseInt64_two exampleGrant_def exampleReader_def zeroPrincipal_def
        exampleRepository_def)
qed

end
