(* ===== verification/Webhooks.thy ===== *)
theory Webhooks
  imports Hosted "HOL-Library.Product_Lexorder"
begin

text \<open>
  Webhook subscriptions, events and deliveries of \<^verbatim>\<open>MemoryStore\<close>
  (\<^verbatim>\<open>internal/repository/memory_webhooks.go\<close>): an event fans out into one delivery per accepting
  subscription; workers claim due deliveries under a lease, report success or failure with the
  lease token, and a delivery is abandoned after eight attempts.
\<close>

section \<open>Data\<close>

type_synonym WebhookEventType = string

record WebhookSubscription =
  ws_ID :: string
  ws_Name :: string
  ws_EndpointURL :: string
  ws_SecretCiphertext :: string
  ws_EventTypes :: "WebhookEventType list"
  ws_Enabled :: bool
  ws_Version :: string
  ws_CreatedAt :: gotime
  ws_UpdatedAt :: gotime

record WebhookEvent =
  we_ID :: string
  we_Type :: WebhookEventType
  we_OccurredAt :: gotime
  we_Data :: string

datatype WebhookDeliveryState =
    WebhookDeliveryPending
  | WebhookDeliveryDelivering
  | WebhookDeliveryRetrying
  | WebhookDeliverySucceeded
  | WebhookDeliveryDead

record WebhookDelivery =
  wd_ID :: string
  wd_EventID :: string
  wd_EventType :: WebhookEventType
  wd_SubscriptionID :: string
  wd_State :: WebhookDeliveryState
  wd_Attempts :: int
  wd_NextAttemptAt :: gotime
  wd_LeaseOwner :: string
  wd_LeaseToken :: string
  wd_LeaseExpiresAt :: gotime
  wd_LastStatus :: int
  wd_LastError :: string
  wd_CreatedAt :: gotime
  wd_UpdatedAt :: gotime
  wd_DeliveredAt :: gotime

record WebhookDeliveryClaim =
  wc_Delivery :: WebhookDelivery
  wc_Event :: WebhookEvent
  wc_Subscription :: WebhookSubscription

text \<open>In a query the empty state, which selects every state, is \<^const>\<open>None\<close>.\<close>

record WebhookDeliveryQuery =
  wq_SubscriptionID :: string
  wq_State :: "WebhookDeliveryState option"
  wq_Limit :: int

record webhook_store = hosted_store +
  webhookSubscriptions :: "WebhookSubscription gomap"
  webhookEvents :: "WebhookEvent gomap"
  webhookDeliveries :: "WebhookDelivery gomap"

section \<open>Subscriptions\<close>

definition CreateWebhookSubscription ::
  "gotime \<Rightarrow> WebhookSubscription \<Rightarrow> 'z webhook_store_scheme
     \<Rightarrow> WebhookSubscription result \<times> 'z webhook_store_scheme" where
  "CreateWebhookSubscription now sub s =
     (if list_ex (\<lambda>e. ws_Name e = ws_Name sub) (gm_vals (webhookSubscriptions s))
      then (Inl ErrWebhookSubscriptionNameExists, s)
      else let sub = sub\<lparr>ws_Version := ''1'', ws_CreatedAt := now, ws_UpdatedAt := now\<rparr>
           in (Inr sub, s\<lparr>webhookSubscriptions := gm_put (ws_ID sub) sub (webhookSubscriptions s)\<rparr>))"

definition ListWebhookSubscriptions :: "'z webhook_store_scheme \<Rightarrow> WebhookSubscription list" where
  "ListWebhookSubscriptions s = sort_key ws_Name (gm_vals (webhookSubscriptions s))"

definition GetWebhookSubscription :: "string \<Rightarrow> 'z webhook_store_scheme \<Rightarrow> WebhookSubscription result" where
  "GetWebhookSubscription i s =
     (case gm_get (webhookSubscriptions s) i of None \<Rightarrow> Inl ErrNotFound | Some v \<Rightarrow> Inr v)"

definition UpdateWebhookSubscription ::
  "gotime \<Rightarrow> WebhookSubscription \<Rightarrow> string \<Rightarrow> 'z webhook_store_scheme
     \<Rightarrow> WebhookSubscription result \<times> 'z webhook_store_scheme" where
  "UpdateWebhookSubscription now sub expectedVersion s =
     (case gm_get (webhookSubscriptions s) (ws_ID sub) of
        None \<Rightarrow> (Inl ErrNotFound, s)
      | Some current \<Rightarrow>
          if ws_Version current \<noteq> expectedVersion then (Inl ErrVersionConflict, s)
          else if list_ex (\<lambda>(i, e). i \<noteq> ws_ID sub \<and> ws_Name e = ws_Name sub) (webhookSubscriptions s)
          then (Inl ErrWebhookSubscriptionNameExists, s)
          else let sub = sub\<lparr>ws_Version := nextHostedGroupVersion (ws_Version current),
                             ws_CreatedAt := ws_CreatedAt current, ws_UpdatedAt := now\<rparr>
               in (Inr sub, s\<lparr>webhookSubscriptions := gm_put (ws_ID sub) sub (webhookSubscriptions s)\<rparr>))"

definition webhookSubscriptionAccepts :: "WebhookSubscription \<Rightarrow> WebhookEventType \<Rightarrow> bool" where
  "webhookSubscriptionAccepts v eventType =
     (if \<not> ws_Enabled v then False else list_ex (\<lambda>c. c = eventType) (ws_EventTypes v))"

section \<open>Events\<close>

text \<open>\<open>newUUID n\<close> is the \<open>n\<close>-th identifier \<^verbatim>\<open>uuid.NewString\<close> returns to the process.\<close>

definition newDelivery :: "WebhookEvent \<Rightarrow> WebhookSubscription \<Rightarrow> string \<Rightarrow> WebhookDelivery" where
  "newDelivery event subscription i =
     \<lparr>wd_ID = i, wd_EventID = we_ID event, wd_EventType = we_Type event,
      wd_SubscriptionID = ws_ID subscription, wd_State = WebhookDeliveryPending, wd_Attempts = 0,
      wd_NextAttemptAt = we_OccurredAt event, wd_LeaseOwner = [], wd_LeaseToken = [],
      wd_LeaseExpiresAt = zeroTime, wd_LastStatus = 0, wd_LastError = [],
      wd_CreatedAt = we_OccurredAt event, wd_UpdatedAt = we_OccurredAt event, wd_DeliveredAt = zeroTime\<rparr>"

fun fanOut ::
  "(nat \<Rightarrow> string) \<Rightarrow> WebhookEvent \<Rightarrow> WebhookSubscription list \<Rightarrow> 'z webhook_store_scheme
     \<Rightarrow> 'z webhook_store_scheme" where
  "fanOut newUUID event [] s = s"
| "fanOut newUUID event (v # vs) s =
     (if \<not> webhookSubscriptionAccepts v (we_Type event) then fanOut newUUID event vs s
      else let d = newDelivery event v (newUUID (uuidsDrawn s))
           in fanOut newUUID event vs
                (s\<lparr>uuidsDrawn := Suc (uuidsDrawn s),
                   webhookDeliveries := gm_put (wd_ID d) d (webhookDeliveries s)\<rparr>))"

definition enqueueWebhookEventLocked ::
  "(nat \<Rightarrow> string) \<Rightarrow> gotime \<Rightarrow> WebhookEvent \<Rightarrow> 'z webhook_store_scheme
     \<Rightarrow> WebhookEvent \<times> 'z webhook_store_scheme" where
  "enqueueWebhookEventLocked newUUID now event s =
     (let (event, s) =
            (if we_ID event = []
             then (event\<lparr>we_ID := newUUID (uuidsDrawn s)\<rparr>, s\<lparr>uuidsDrawn := Suc (uuidsDrawn s)\<rparr>)
             else (event, s));
          event = (if isZero (we_OccurredAt event) then event\<lparr>we_OccurredAt := now\<rparr> else event);
          s = s\<lparr>webhookEvents := gm_put (we_ID event) event (webhookEvents s)\<rparr>
      in (event, fanOut newUUID event (gm_vals (webhookSubscriptions s)) s))"

definition EnqueueWebhookEvent ::
  "(nat \<Rightarrow> string) \<Rightarrow> gotime \<Rightarrow> WebhookEvent \<Rightarrow> 'z webhook_store_scheme
     \<Rightarrow> WebhookEvent \<times> 'z webhook_store_scheme" where
  "EnqueueWebhookEvent newUUID now event s = enqueueWebhookEventLocked newUUID now event s"

section \<open>Deliveries\<close>

definition ListWebhookDeliveries :: "WebhookDeliveryQuery \<Rightarrow> 'z webhook_store_scheme \<Rightarrow> WebhookDelivery list" where
  "ListWebhookDeliveries query s =
     (let limit = (if wq_Limit query \<le> 0 \<or> wq_Limit query > 500 then 100 else nat (wq_Limit query));
          skip = (\<lambda>v. wq_SubscriptionID query \<noteq> [] \<and> wd_SubscriptionID v \<noteq> wq_SubscriptionID query \<or>
                     wq_State query \<noteq> None \<and> Some (wd_State v) \<noteq> wq_State query)
      in take limit (rev (sort_key (\<lambda>v. (wd_CreatedAt v, wd_ID v))
           (filter (\<lambda>v. \<not> skip v) (gm_vals (webhookDeliveries s))))))"

definition GetWebhookDelivery :: "string \<Rightarrow> 'z webhook_store_scheme \<Rightarrow> WebhookDelivery result" where
  "GetWebhookDelivery i s =
     (case gm_get (webhookDeliveries s) i of None \<Rightarrow> Inl ErrNotFound | Some v \<Rightarrow> Inr v)"

definition due :: "gotime \<Rightarrow> WebhookDelivery \<Rightarrow> bool" where
  "due now v \<longleftrightarrow> (wd_State v = WebhookDeliveryPending \<or> wd_State v = WebhookDeliveryRetrying) \<and>
     \<not> wd_NextAttemptAt v > now"

definition leaseExpired :: "gotime \<Rightarrow> WebhookDelivery \<Rightarrow> bool" where
  "leaseExpired now v \<longleftrightarrow> wd_State v = WebhookDeliveryDelivering \<and> \<not> wd_LeaseExpiresAt v > now"

definition exhausted :: "gotime \<Rightarrow> WebhookDelivery \<Rightarrow> bool" where
  "exhausted now v \<longleftrightarrow> leaseExpired now v \<and> wd_Attempts v \<ge> 8"

definition buryDelivery :: "gotime \<Rightarrow> WebhookDelivery \<Rightarrow> WebhookDelivery" where
  "buryDelivery now v =
     v\<lparr>wd_State := WebhookDeliveryDead, wd_LeaseOwner := [], wd_LeaseToken := [],
       wd_LeaseExpiresAt := zeroTime, wd_UpdatedAt := now, wd_NextAttemptAt := zeroTime\<rparr>"

definition leaseDelivery :: "string \<Rightarrow> gotime \<Rightarrow> duration \<Rightarrow> string \<Rightarrow> WebhookDelivery \<Rightarrow> WebhookDelivery" where
  "leaseDelivery owner now lease token v =
     v\<lparr>wd_State := WebhookDeliveryDelivering, wd_Attempts := wd_Attempts v + 1, wd_LeaseOwner := owner,
       wd_LeaseToken := token, wd_LeaseExpiresAt := now + lease, wd_UpdatedAt := now,
       wd_NextAttemptAt := zeroTime\<rparr>"

fun claimEach ::
  "(nat \<Rightarrow> string) \<Rightarrow> string \<Rightarrow> gotime \<Rightarrow> duration \<Rightarrow> WebhookDelivery list \<Rightarrow> 'z webhook_store_scheme
     \<Rightarrow> WebhookDeliveryClaim list \<times> 'z webhook_store_scheme" where
  "claimEach newUUID owner now lease [] s = ([], s)"
| "claimEach newUUID owner now lease (v # vs) s =
     (let d = leaseDelivery owner now lease (newUUID (uuidsDrawn s)) v;
          s = s\<lparr>uuidsDrawn := Suc (uuidsDrawn s),
                webhookDeliveries := gm_put (wd_ID d) d (webhookDeliveries s)\<rparr>;
          (claims, t) = claimEach newUUID owner now lease vs s
      in (case (gm_get (webhookEvents s) (wd_EventID d), gm_get (webhookSubscriptions s) (wd_SubscriptionID d)) of
            (Some event, Some subscription) \<Rightarrow>
              \<lparr>wc_Delivery = d, wc_Event = event, wc_Subscription = subscription\<rparr> # claims
          | _ \<Rightarrow> claims, t))"

definition claimCandidates :: "gotime \<Rightarrow> WebhookDelivery list \<Rightarrow> WebhookDelivery list" where
  "claimCandidates now vs =
     sort_key (\<lambda>v. (wd_NextAttemptAt v, wd_CreatedAt v))
       (filter (\<lambda>v. \<not> exhausted now v \<and> (due now v \<or> leaseExpired now v)) vs)"

definition ClaimWebhookDeliveries ::
  "(nat \<Rightarrow> string) \<Rightarrow> string \<Rightarrow> gotime \<Rightarrow> duration \<Rightarrow> int \<Rightarrow> 'z webhook_store_scheme
     \<Rightarrow> WebhookDeliveryClaim list \<times> 'z webhook_store_scheme" where
  "ClaimWebhookDeliveries newUUID owner now lease limit s =
     (let limit = (if limit \<le> 0 \<or> limit > 100 then 20 else nat limit);
          vs = gm_vals (webhookDeliveries s);
          s = s\<lparr>webhookDeliveries :=
                 fold (\<lambda>v m. if exhausted now v then gm_put (wd_ID v) (buryDelivery now v) m else m) vs
                   (webhookDeliveries s)\<rparr>
      in claimEach newUUID owner now lease (take limit (claimCandidates now vs)) s)"

definition CompleteWebhookDelivery ::
  "string \<Rightarrow> string \<Rightarrow> int \<Rightarrow> gotime \<Rightarrow> 'z webhook_store_scheme \<Rightarrow> unit result \<times> 'z webhook_store_scheme" where
  "CompleteWebhookDelivery i leaseToken status completedAt s =
     (case gm_get (webhookDeliveries s) i of
        None \<Rightarrow> (Inl ErrNotFound, s)
      | Some v \<Rightarrow>
          if wd_State v \<noteq> WebhookDeliveryDelivering \<or> wd_LeaseToken v \<noteq> leaseToken \<or>
             \<not> wd_LeaseExpiresAt v > completedAt
          then (Inl ErrVersionConflict, s)
          else let v = v\<lparr>wd_State := WebhookDeliverySucceeded, wd_LastStatus := status,
                         wd_DeliveredAt := completedAt, wd_UpdatedAt := completedAt,
                         wd_NextAttemptAt := zeroTime, wd_LeaseExpiresAt := zeroTime,
                         wd_LeaseOwner := [], wd_LeaseToken := [], wd_LastError := []\<rparr>
               in (Inr (), s\<lparr>webhookDeliveries := gm_put i v (webhookDeliveries s)\<rparr>))"

definition FailWebhookDelivery ::
  "string \<Rightarrow> string \<Rightarrow> gotime \<Rightarrow> gotime \<Rightarrow> int \<Rightarrow> string \<Rightarrow> bool \<Rightarrow> 'z webhook_store_scheme
     \<Rightarrow> unit result \<times> 'z webhook_store_scheme" where
  "FailWebhookDelivery i leaseToken failedAt retryAt status message dead s =
     (case gm_get (webhookDeliveries s) i of
        None \<Rightarrow> (Inl ErrNotFound, s)
      | Some v \<Rightarrow>
          if wd_State v \<noteq> WebhookDeliveryDelivering \<or> wd_LeaseToken v \<noteq> leaseToken \<or>
             \<not> wd_LeaseExpiresAt v > failedAt
          then (Inl ErrVersionConflict, s)
          else let v = v\<lparr>wd_State := WebhookDeliveryRetrying, wd_NextAttemptAt := retryAt\<rparr>;
                   v = (if dead \<or> wd_Attempts v \<ge> 8
                        then v\<lparr>wd_State := WebhookDeliveryDead, wd_NextAttemptAt := zeroTime\<rparr> else v);
                   v = v\<lparr>wd_LastStatus := status, wd_LastError := message, wd_LeaseOwner := [],
                         wd_LeaseToken := [], wd_LeaseExpiresAt := zeroTime, wd_UpdatedAt := failedAt\<rparr>
               in (Inr (), s\<lparr>webhookDeliveries := gm_put i v (webhookDeliveries s)\<rparr>))"

definition ReplayWebhookDelivery ::
  "string \<Rightarrow> gotime \<Rightarrow> 'z webhook_store_scheme \<Rightarrow> WebhookDelivery result \<times> 'z webhook_store_scheme" where
  "ReplayWebhookDelivery i now s =
     (case gm_get (webhookDeliveries s) i of
        None \<Rightarrow> (Inl ErrNotFound, s)
      | Some v \<Rightarrow>
          if wd_State v \<noteq> WebhookDeliveryDead then (Inl ErrInvalidWebhookDeliveryState, s)
          else let v = v\<lparr>wd_State := WebhookDeliveryPending, wd_Attempts := 0, wd_NextAttemptAt := now,
                         wd_LastStatus := 0, wd_LastError := [], wd_UpdatedAt := now,
                         wd_LeaseOwner := [], wd_LeaseToken := [], wd_LeaseExpiresAt := zeroTime\<rparr>
               in (Inr v, s\<lparr>webhookDeliveries := gm_put i v (webhookDeliveries s)\<rparr>))"

definition emptyWebhookStore :: webhook_store where
  "emptyWebhookStore = hosted_store.extend emptyHostedStore
     \<lparr>webhookSubscriptions = [], webhookEvents = [], webhookDeliveries = []\<rparr>"

end
