(* ===== verification/Json.thy ===== *)
theory Json
  imports Prelude
begin

text \<open>
  What the sources use of \<^verbatim>\<open>encoding/json\<close>: payload bytes either fail to parse or hold a document.
  A document is kept as its syntax tree, members in source order, because decoding into a struct
  and decoding into \<^verbatim>\<open>any\<close> read the members differently.
\<close>

section \<open>Documents\<close>

text \<open>
  \<open>JNum b\<close> is a number by the bit pattern of the \<^verbatim>\<open>float64\<close> it decodes to, with minus zero read as zero.
  Bytes that \<^verbatim>\<open>json.Unmarshal\<close> rejects as syntax are \<open>Malformed\<close>.
\<close>

datatype json =
    JNull
  | JBool bool
  | JNum nat
  | JStr string
  | JArr "json list"
  | JObj "(string \<times> json) list"

datatype document = Malformed string | Document json

section \<open>Decoding into any\<close>

text \<open>
  An object decodes into a \<^verbatim>\<open>map[string]any\<close>, so the last member of a name wins and the order is
  lost; \<open>lastMembers\<close> is that map as a list sorted by name. \<open>decodeAny\<close> gives equal results exactly for
  values that \<^verbatim>\<open>reflect.DeepEqual\<close> identifies.
\<close>

fun dropShadowed :: "(string \<times> 'a) list \<Rightarrow> (string \<times> 'a) list" where
  "dropShadowed [] = []"
| "dropShadowed ((k, v) # ms) = (if k \<in> fst ` set ms then dropShadowed ms else (k, v) # dropShadowed ms)"

definition lastMembers :: "(string \<times> 'a) list \<Rightarrow> (string \<times> 'a) list" where
  "lastMembers ms = sort_key fst (dropShadowed ms)"

fun decodeAny :: "json \<Rightarrow> json" where
  "decodeAny (JArr vs) = JArr (map decodeAny vs)"
| "decodeAny (JObj ms) = JObj (lastMembers (map (\<lambda>(k, v). (k, decodeAny v)) ms))"
| "decodeAny j = j"

section \<open>Decoding into a struct\<close>

text \<open>
  \<open>foldName\<close> is the name folding of struct decoding restricted to what can meet an ASCII field name:
  ASCII letters, the long s (UTF-8 \<^verbatim>\<open>C5 BF\<close>) and the Kelvin sign (UTF-8 \<^verbatim>\<open>E2 84 AA\<close>).
\<close>

definition lowerChar :: "char \<Rightarrow> char" where
  "lowerChar c = (let n = of_char c :: nat in if 65 \<le> n \<and> n \<le> 90 then char_of (n + 32) else c)"

fun foldName :: "string \<Rightarrow> string" where
  "foldName [] = []"
| "foldName (c # cs) =
     (case cs of
        d # ds \<Rightarrow>
          if c = CHR 0xC5 \<and> d = CHR 0xBF then CHR ''s'' # foldName ds
          else (case ds of
                  e # es \<Rightarrow>
                    if c = CHR 0xE2 \<and> d = CHR 0x84 \<and> e = CHR 0xAA then CHR ''k'' # foldName es
                    else lowerChar c # foldName cs
                | [] \<Rightarrow> lowerChar c # foldName cs)
      | [] \<Rightarrow> [lowerChar c])"

text \<open>
  A string field of a struct after decoding a member list: later members overwrite earlier ones,
  \<^verbatim>\<open>null\<close> leaves the field alone, any other kind is an error but decoding goes on.
\<close>

fun stringField :: "string \<Rightarrow> string \<Rightarrow> (string \<times> json) list \<Rightarrow> string" where
  "stringField n cur [] = cur"
| "stringField n cur ((k, v) # ms) =
     stringField n (if foldName k = foldName n then (case v of JStr x \<Rightarrow> x | _ \<Rightarrow> cur) else cur) ms"

definition stringFieldError :: "string \<Rightarrow> (string \<times> json) list \<Rightarrow> bool" where
  "stringFieldError n ms \<longleftrightarrow>
     list_ex (\<lambda>(k, v). foldName k = foldName n \<and> (case v of JStr _ \<Rightarrow> False | JNull \<Rightarrow> False | _ \<Rightarrow> True)) ms"

text \<open>
  \<^verbatim>\<open>json.Unmarshal\<close> into a struct whose fields are the strings named \<open>ns\<close>: whether it returned an
  error, and the fields it leaves behind.
\<close>

definition unmarshalStrings :: "string list \<Rightarrow> document \<Rightarrow> bool \<times> string list" where
  "unmarshalStrings ns d =
     (case d of
        Malformed _ \<Rightarrow> (True, map (\<lambda>_. []) ns)
      | Document j \<Rightarrow>
          (case j of
             JObj ms \<Rightarrow> (list_ex (\<lambda>n. stringFieldError n ms) ns, map (\<lambda>n. stringField n [] ms) ns)
           | JNull \<Rightarrow> (False, map (\<lambda>_. []) ns)
           | _ \<Rightarrow> (True, map (\<lambda>_. []) ns)))"

section \<open>Facts\<close>

lemma dropShadowed_keys: "fst ` set (dropShadowed ms) = fst ` set ms"
  by (induction ms rule: dropShadowed.induct) auto

lemma dropShadowed_distinct: "distinct (map fst (dropShadowed ms))"
  by (induction ms rule: dropShadowed.induct) (auto simp: dropShadowed_keys)

lemma dropShadowed_id: "distinct (map fst ms) \<Longrightarrow> dropShadowed ms = ms"
  by (induction ms rule: dropShadowed.induct) auto

lemma dropShadowed_map:
  "dropShadowed (map (\<lambda>(k, v). (k, f v)) ms) = map (\<lambda>(k, v). (k, f v)) (dropShadowed ms)"
  by (induction ms rule: dropShadowed.induct) (auto simp: image_image case_prod_beta)

section \<open>Equal values\<close>

text \<open>
  Two texts denote the same value when arrays agree element by element and objects agree as maps from names to values, where the last
  member of a name counts. Decoding identifies exactly these.
\<close>

inductive same_value :: "json \<Rightarrow> json \<Rightarrow> bool" where
  null: "same_value JNull JNull"
| bool: "same_value (JBool b) (JBool b)"
| num: "same_value (JNum n) (JNum n)"
| str: "same_value (JStr s) (JStr s)"
| arr: "list_all2 same_value vs ws \<Longrightarrow> same_value (JArr vs) (JArr ws)"
| obj: "\<forall>k. rel_option same_value (map_of (rev ms) k) (map_of (rev ns) k) \<Longrightarrow> same_value (JObj ms) (JObj ns)"

inductive_simps same_value_simps:
  "same_value JNull j" "same_value (JBool b) j" "same_value (JNum n) j" "same_value (JStr s) j" "same_value (JArr vs) j" "same_value (JObj ms) j"

lemma map_of_dropShadowed: "map_of (dropShadowed ms) = map_of (rev ms)"
proof (induction ms rule: dropShadowed.induct)
  case (2 k v ms)
  have "map_of (rev ms) k = None" if "k \<notin> fst ` set ms" using that by (simp add: map_of_eq_None_iff)
  moreover have "\<exists>w. map_of (rev ms) k = Some w" if "k \<in> fst ` set ms" using that by (metis map_of_eq_None_iff not_None_eq set_rev)
  ultimately show ?case using 2 by (auto simp: map_add_def fun_eq_iff split: option.splits)
qed simp

lemma lastMembers_eq: "lastMembers ms = lastMembers ns \<longleftrightarrow> map_of (rev ms) = map_of (rev ns)"
proof -
  have dist: "distinct (map fst (lastMembers xs))" for xs :: "(string \<times> 'a) list"
    using dropShadowed_distinct [of xs] by (simp add: lastMembers_def distinct_map)
  have map: "map_of (lastMembers xs) = map_of (rev xs)" for xs :: "(string \<times> 'a) list"
    using map_of_eqI [of "lastMembers xs" "dropShadowed xs"] dropShadowed_distinct [of xs] dist [of xs]
    by (metis (no_types, lifting) lastMembers_def map_of_dropShadowed map_of_inject_set set_sort)
  have sorted: "sorted (map fst (lastMembers xs))" for xs :: "(string \<times> 'a) list" by (simp add: lastMembers_def)
  show ?thesis
  proof
    assume "map_of (rev ms) = map_of (rev ns)"
    then have "set (lastMembers ms) = set (lastMembers ns)"
      using map_of_inject_set [OF dist dist] map by metis
    then show "lastMembers ms = lastMembers ns"
      using map_sorted_distinct_set_unique [of fst "lastMembers ms" "lastMembers ns"] sorted dist
      by (auto simp: inj_on_def distinct_map)
  qed (use map in metis)
qed

lemma decodeAny_obj:
  "decodeAny (JObj ms) = decodeAny (JObj ns) \<longleftrightarrow>
     (\<forall>k. map_option decodeAny (map_of (rev ms) k) = map_option decodeAny (map_of (rev ns) k))"
  by (simp add: lastMembers_eq rev_map map_of_map fun_eq_iff)

lemma decodeAny_iff: "decodeAny l = decodeAny r \<longleftrightarrow> same_value l r"
proof
  show "decodeAny l = decodeAny r \<Longrightarrow> same_value l r"
  proof (induction l arbitrary: r)
    case (JArr vs)
    obtain ws where r: "r = JArr ws" "map decodeAny vs = map decodeAny ws" using JArr.prems by (cases r) simp_all
    then have "list_all2 (\<lambda>v w. decodeAny v = decodeAny w) vs ws" by (simp add: list_all2_conv_all_nth list_eq_iff_nth_eq)
    then have "list_all2 same_value vs ws" using JArr.IH by (auto intro: list.rel_mono_strong)
    then show ?case by (simp add: r same_value_simps)
  next
    case (JObj ms)
    obtain ns where r: "r = JObj ns" using JObj.prems by (cases r) simp_all
    have eq: "map_option decodeAny (map_of (rev ms) k) = map_option decodeAny (map_of (rev ns) k)" for k
      using JObj.prems unfolding r decodeAny_obj by blast
    have "rel_option same_value (map_of (rev ms) k) (map_of (rev ns) k)" for k
    proof (cases "map_of (rev ms) k")
      case (Some v)
      then have "(k, v) \<in> set ms" using map_of_SomeD by fastforce
      then show ?thesis using eq [of k] Some JObj.IH [of "(k, v)" v] by (cases "map_of (rev ns) k") auto
    qed (use eq [of k] in simp)
    then show ?case by (simp add: r same_value_simps)
  next
    case JNull
    then show ?case by (cases r) (simp_all add: same_value_simps)
  next
    case (JBool b)
    then show ?case by (cases r) (simp_all add: same_value_simps)
  next
    case (JNum n)
    then show ?case by (cases r) (simp_all add: same_value_simps)
  next
    case (JStr s)
    then show ?case by (cases r) (simp_all add: same_value_simps)
  qed
next
  assume "same_value l r"
  then show "decodeAny l = decodeAny r"
  proof induction
    case (arr vs ws)
    then show ?case by (auto simp: list_all2_conv_all_nth list_eq_iff_nth_eq)
  next
    case (obj ms ns)
    have "map_option decodeAny (map_of (rev ms) k) = map_option decodeAny (map_of (rev ns) k)" for k
      using obj.IH [rule_format, of k] by (cases "map_of (rev ms) k"; cases "map_of (rev ns) k") auto
    then show ?case unfolding decodeAny_obj by blast
  qed simp_all
qed

end
