(* ===== verification/Lifecycle.thy ===== *)
theory Lifecycle
  imports Webhooks Json
begin

text \<open>
  The lifecycle job queue of \<^verbatim>\<open>MemoryStore\<close> (\<^verbatim>\<open>internal/repository/memory_lifecycle.go\<close>), the webhook
  event a finished Cargo promotion raises (\<^verbatim>\<open>cargo_distribution_webhooks.go\<close>) and the runtime that
  executes claimed jobs (\<^verbatim>\<open>internal/lifecycle/runtime.go\<close>). Jobs are enqueued under an idempotency
  key, claimed one per repository under a lease, and completed, failed, retried with back-off,
  cancelled or recovered when the lease runs out.
\<close>

section \<open>Data\<close>

type_synonym LifecycleJobKind = string

definition LifecycleJobRetention :: LifecycleJobKind where "LifecycleJobRetention = ''retention''"
definition LifecycleJobPromotion :: LifecycleJobKind where "LifecycleJobPromotion = ''promotion''"
definition LifecycleJobScan :: LifecycleJobKind where "LifecycleJobScan = ''scan''"

text \<open>\<open>LifecycleJobUnset\<close> is the empty state of a zero \<^verbatim>\<open>LifecycleJob\<close>.\<close>

datatype LifecycleJobState =
    LifecycleJobUnset
  | LifecycleJobPending
  | LifecycleJobRunning
  | LifecycleJobRetrying
  | LifecycleJobCompleted
  | LifecycleJobFailed
  | LifecycleJobCancelled

record LifecycleJob =
  lj_ID :: string
  lj_RepositoryID :: string
  lj_Kind :: LifecycleJobKind
  lj_IdempotencyKey :: string
  lj_Payload :: document
  lj_State :: LifecycleJobState
  lj_CreatedAt :: gotime
  lj_StartedAt :: gotime
  lj_CompletedAt :: gotime
  lj_NextAttemptAt :: gotime
  lj_LeaseExpiresAt :: gotime
  lj_LeaseToken :: string
  lj_Attempts :: int
  lj_MaxAttempts :: int
  lj_ProgressCurrent :: int
  lj_ProgressTotal :: int
  lj_ProgressMessage :: string
  lj_LastError :: string

record RepositoryLifecycleJob =
  rl_RepositoryName :: string
  rl_Job :: LifecycleJob

definition zeroLifecycleJob :: LifecycleJob where
  "zeroLifecycleJob =
     \<lparr>lj_ID = [], lj_RepositoryID = [], lj_Kind = [], lj_IdempotencyKey = [], lj_Payload = Malformed [],
      lj_State = LifecycleJobUnset, lj_CreatedAt = zeroTime, lj_StartedAt = zeroTime, lj_CompletedAt = zeroTime,
      lj_NextAttemptAt = zeroTime, lj_LeaseExpiresAt = zeroTime, lj_LeaseToken = [], lj_Attempts = 0,
      lj_MaxAttempts = 0, lj_ProgressCurrent = 0, lj_ProgressTotal = 0, lj_ProgressMessage = [], lj_LastError = []\<rparr>"

record lifecycle_store = webhook_store +
  lifecycleJobs :: "LifecycleJob gomap"
  lifecycleCreatedAt :: gotime

definition lifecycleJobLeaseDuration :: duration where
  "lifecycleJobLeaseDuration = 10 * minute"

definition DefaultLifecycleJobMaxAttempts :: int where
  "DefaultLifecycleJobMaxAttempts = 3"

definition lifecycleJobKey :: "string \<Rightarrow> LifecycleJobKind \<Rightarrow> string \<Rightarrow> string" where
  "lifecycleJobKey repositoryID kind idempotencyKey = repositoryID @ nul # kind @ nul # idempotencyKey"

section \<open>Payloads\<close>

text \<open>Two payloads that both parse are compared as decoded values, any others byte by byte.\<close>

definition equivalentLifecyclePayload :: "document \<Rightarrow> document \<Rightarrow> bool" where
  "equivalentLifecyclePayload left right =
     (case (left, right) of
        (Document l, Document r) \<Rightarrow> decodeAny l = decodeAny r
      | _ \<Rightarrow> left = right)"

definition lifecycleJobMatchesFormat :: "document \<Rightarrow> Format \<Rightarrow> bool" where
  "lifecycleJobMatchesFormat payload fmt =
     (if fmt = [] then True
      else let (err, fields) = unmarshalStrings [''format''] payload in \<not> err \<and> hd fields = fmt)"

definition lifecycleRetryDelay :: "int \<Rightarrow> duration" where
  "lifecycleRetryDelay attempt =
     (let attempt = (if attempt < 1 then 1 else attempt);
          delay = 30 * second * 2 ^ nat (min (attempt - 1) 6)
      in if delay > 30 * minute then 30 * minute else delay)"

definition renewedLifecycleLeaseExpiry :: "gotime \<Rightarrow> gotime \<Rightarrow> gotime" where
  "renewedLifecycleLeaseExpiry current now =
     (let n = now + lifecycleJobLeaseDuration
      in if \<not> n > current then current + microsecond else n)"

section \<open>Events of finished Cargo promotions\<close>

record CargoDistributionWebhookData =
  cd_OperationID :: string
  cd_Kind :: string
  cd_Format :: Format
  cd_SourceRepositoryID :: string
  cd_TargetRepositoryID :: string
  cd_Coordinate :: string
  cd_Digest :: string
  cd_State :: string
  cd_Attempts :: int

text \<open>
  The environment of the operations that raise events: the process's identifiers and
  \<^verbatim>\<open>json.Marshal\<close> of the event data, whose bytes the store only keeps.
\<close>

record env =
  env_UUID :: "nat \<Rightarrow> string"
  env_marshalCargo :: "CargoDistributionWebhookData \<Rightarrow> string"

fun stateString :: "LifecycleJobState \<Rightarrow> string" where
  "stateString LifecycleJobUnset = []"
| "stateString LifecycleJobPending = ''pending''"
| "stateString LifecycleJobRunning = ''running''"
| "stateString LifecycleJobRetrying = ''retrying''"
| "stateString LifecycleJobCompleted = ''completed''"
| "stateString LifecycleJobFailed = ''failed''"
| "stateString LifecycleJobCancelled = ''cancelled''"

definition cargoPromotionWebhookEvent :: "env \<Rightarrow> LifecycleJob \<Rightarrow> string \<Rightarrow> WebhookEvent option" where
  "cargoPromotionWebhookEvent e job i =
     (if lj_Kind job \<noteq> LifecycleJobPromotion \<or> \<not> lifecycleJobMatchesFormat (lj_Payload job) FormatCargo \<or>
         lj_State job \<noteq> LifecycleJobCompleted \<and> lj_State job \<noteq> LifecycleJobFailed
      then None
      else
        let fields = snd (unmarshalStrings [''sourceRepositoryId'', ''name'', ''version'', ''digest''] (lj_Payload job));
            eventType = (if lj_State job = LifecycleJobFailed then ''cargo.promotion.failed''
                         else ''cargo.promotion.completed'');
            data = env_marshalCargo e
              \<lparr>cd_OperationID = lj_ID job, cd_Kind = ''promotion'', cd_Format = FormatCargo,
               cd_SourceRepositoryID = fields ! 0, cd_TargetRepositoryID = lj_RepositoryID job,
               cd_Coordinate = fields ! 1 @ ''@'' @ fields ! 2, cd_Digest = fields ! 3,
               cd_State = stateString (lj_State job), cd_Attempts = lj_Attempts job\<rparr>
        in Some \<lparr>we_ID = i, we_Type = eventType, we_OccurredAt = lj_CompletedAt job, we_Data = data\<rparr>)"

text \<open>
  Storing a job and raising its event, the tail of the three operations that finish a job. \<open>now\<close> is
  the clock reading the enqueueing would make for an event with no time of its own.
\<close>

definition storeFinishedJob ::
  "env \<Rightarrow> gotime \<Rightarrow> string \<Rightarrow> LifecycleJob \<Rightarrow> 'z lifecycle_store_scheme \<Rightarrow> 'z lifecycle_store_scheme" where
  "storeFinishedJob e now key job s =
     (let s = s\<lparr>lifecycleJobs := gm_put key job (lifecycleJobs s)\<rparr>
      in case cargoPromotionWebhookEvent e job (env_UUID e (uuidsDrawn s)) of
           None \<Rightarrow> s
         | Some event \<Rightarrow>
             snd (enqueueWebhookEventLocked (env_UUID e) now event (s\<lparr>uuidsDrawn := Suc (uuidsDrawn s)\<rparr>)))"

section \<open>Enqueueing and reading\<close>

definition EnqueueLifecycleJob ::
  "gotime \<Rightarrow> LifecycleJob \<Rightarrow> 'z lifecycle_store_scheme
     \<Rightarrow> (LifecycleJob \<times> bool) result \<times> 'z lifecycle_store_scheme" where
  "EnqueueLifecycleJob now job s =
     (let key = lifecycleJobKey (lj_RepositoryID job) (lj_Kind job) (lj_IdempotencyKey job)
      in case gm_get (lifecycleJobs s) key of
           Some existing \<Rightarrow>
             if \<not> equivalentLifecyclePayload (lj_Payload existing) (lj_Payload job)
             then (Inl ErrIdempotencyConflict, s) else (Inr (existing, True), s)
         | None \<Rightarrow>
             let createdAt = (if \<not> now > lifecycleCreatedAt s then lifecycleCreatedAt s + 1 else now);
                 job = (if lj_MaxAttempts job \<le> 0
                        then job\<lparr>lj_MaxAttempts := DefaultLifecycleJobMaxAttempts\<rparr> else job);
                 job = (if lj_ProgressTotal job \<le> 0 \<and> lj_Kind job \<noteq> LifecycleJobRetention
                        then job\<lparr>lj_ProgressTotal := 1\<rparr> else job);
                 job = job\<lparr>lj_State := LifecycleJobPending, lj_CreatedAt := createdAt, lj_NextAttemptAt := now\<rparr>
             in (Inr (job, False),
                 s\<lparr>lifecycleCreatedAt := createdAt, lifecycleJobs := gm_put key job (lifecycleJobs s)\<rparr>))"

definition ListLifecycleJobs :: "string \<Rightarrow> int \<Rightarrow> 'z lifecycle_store_scheme \<Rightarrow> LifecycleJob list" where
  "ListLifecycleJobs repositoryID limit s =
     take (if limit \<le> 0 \<or> limit > 100 then 100 else nat limit)
       (sort_key (\<lambda>j. - lj_CreatedAt j) (filter (\<lambda>j. lj_RepositoryID j = repositoryID) (gm_vals (lifecycleJobs s))))"

definition ListAllLifecycleJobs :: "int \<Rightarrow> 'z lifecycle_store_scheme \<Rightarrow> RepositoryLifecycleJob list" where
  "ListAllLifecycleJobs limit s =
     take (if limit \<le> 0 \<or> limit > 500 then 500 else nat limit)
       (sort_key (\<lambda>r. - lj_CreatedAt (rl_Job r))
         (List.map_filter (\<lambda>j. map_option (\<lambda>repo. \<lparr>rl_RepositoryName = hr_Name repo, rl_Job = j\<rparr>)
            (gm_get (hostedRepositories s) (lj_RepositoryID j))) (gm_vals (lifecycleJobs s))))"

definition GetLifecycleJob :: "string \<Rightarrow> string \<Rightarrow> 'z lifecycle_store_scheme \<Rightarrow> LifecycleJob result" where
  "GetLifecycleJob repositoryID i s =
     (case find (\<lambda>j. lj_RepositoryID j = repositoryID \<and> lj_ID j = i) (gm_vals (lifecycleJobs s)) of
        None \<Rightarrow> Inl ErrNotFound | Some j \<Rightarrow> Inr j)"

definition scanMatches :: "string \<Rightarrow> Format \<Rightarrow> string \<Rightarrow> string \<Rightarrow> LifecycleJob \<Rightarrow> bool" where
  "scanMatches repositoryID fmt coordinate digest j \<longleftrightarrow>
     lj_RepositoryID j = repositoryID \<and> lj_Kind j = LifecycleJobScan \<and>
     unmarshalStrings [''format'', ''coordinate'', ''digest''] (lj_Payload j) = (False, [fmt, coordinate, digest])"

definition newerJob :: "LifecycleJob \<Rightarrow> LifecycleJob \<Rightarrow> bool" where
  "newerJob j latest \<longleftrightarrow> lj_ID latest = [] \<or> lj_CreatedAt j > lj_CreatedAt latest \<or>
     lj_CreatedAt j = lj_CreatedAt latest \<and> lj_ID j > lj_ID latest"

definition GetLatestArtifactScanJob ::
  "string \<Rightarrow> Format \<Rightarrow> string \<Rightarrow> string \<Rightarrow> 'z lifecycle_store_scheme \<Rightarrow> LifecycleJob result" where
  "GetLatestArtifactScanJob repositoryID fmt coordinate digest s =
     (let latest = fold (\<lambda>j latest. if scanMatches repositoryID fmt coordinate digest j \<and> newerJob j latest
                                    then j else latest) (gm_vals (lifecycleJobs s)) zeroLifecycleJob
      in if lj_ID latest = [] then Inl ErrNotFound else Inr latest)"

section \<open>Claiming and recovery\<close>

definition leaseRanOut :: "gotime \<Rightarrow> LifecycleJob \<Rightarrow> bool" where
  "leaseRanOut before job \<longleftrightarrow>
     \<not> (lj_State job \<noteq> LifecycleJobRunning \<or> isZero (lj_LeaseExpiresAt job) \<or> lj_LeaseExpiresAt job > before)"

definition failOrRetry :: "gotime \<Rightarrow> LifecycleJob \<Rightarrow> LifecycleJob" where
  "failOrRetry now job =
     (if lj_Attempts job \<ge> lj_MaxAttempts job
      then job\<lparr>lj_State := LifecycleJobFailed, lj_CompletedAt := now\<rparr>
      else job\<lparr>lj_State := LifecycleJobRetrying,
               lj_NextAttemptAt := now + lifecycleRetryDelay (lj_Attempts job), lj_CompletedAt := zeroTime\<rparr>)"

definition expireJob :: "gotime \<Rightarrow> LifecycleJob \<Rightarrow> LifecycleJob" where
  "expireJob before job =
     failOrRetry before (job\<lparr>lj_LeaseExpiresAt := zeroTime, lj_LeaseToken := [],
                             lj_LastError := ''worker lease expired before completion''\<rparr>)"

definition recoverExpiredLifecycleJobsLocked ::
  "env \<Rightarrow> gotime \<Rightarrow> 'z lifecycle_store_scheme \<Rightarrow> nat \<times> 'z lifecycle_store_scheme" where
  "recoverExpiredLifecycleJobsLocked e before s =
     fold (\<lambda>(key, job) (recovered, s).
             if leaseRanOut before job
             then (Suc recovered, storeFinishedJob e before key (expireJob before job) s)
             else (recovered, s)) (lifecycleJobs s) (0, s)"

definition RecoverExpiredLifecycleJobs ::
  "env \<Rightarrow> gotime \<Rightarrow> 'z lifecycle_store_scheme \<Rightarrow> nat \<times> 'z lifecycle_store_scheme" where
  "RecoverExpiredLifecycleJobs e before s = recoverExpiredLifecycleJobsLocked e before s"

definition claimable :: "gotime \<Rightarrow> LifecycleJobKind \<Rightarrow> Format \<Rightarrow> LifecycleJob \<Rightarrow> bool" where
  "claimable now kind fmt job \<longleftrightarrow>
     (lj_State job = LifecycleJobPending \<or> lj_State job = LifecycleJobRetrying) \<and>
     (isZero (lj_NextAttemptAt job) \<or> \<not> lj_NextAttemptAt job > now) \<and>
     (kind = [] \<or> lj_Kind job = kind) \<and> lifecycleJobMatchesFormat (lj_Payload job) fmt"

definition startJob :: "gotime \<Rightarrow> string \<Rightarrow> LifecycleJob \<Rightarrow> LifecycleJob" where
  "startJob now token job =
     job\<lparr>lj_State := LifecycleJobRunning, lj_StartedAt := now, lj_CompletedAt := zeroTime,
         lj_NextAttemptAt := zeroTime, lj_LeaseExpiresAt := now + lifecycleJobLeaseDuration,
         lj_LeaseToken := token, lj_Attempts := lj_Attempts job + 1\<rparr>"

text \<open>The loop over the sorted candidates: \<open>busy\<close> are the repositories already claimed, \<open>room\<close> the claims left.\<close>

fun claimKeys ::
  "(nat \<Rightarrow> string) \<Rightarrow> gotime \<Rightarrow> (string \<times> LifecycleJob) list \<Rightarrow> string list \<Rightarrow> nat \<Rightarrow> 'z lifecycle_store_scheme
     \<Rightarrow> LifecycleJob list \<times> 'z lifecycle_store_scheme" where
  "claimKeys newUUID now [] busy room s = ([], s)"
| "claimKeys newUUID now ((key, job) # ks) busy room s =
     (if room = 0 then ([], s)
      else if lj_RepositoryID job \<in> set busy then claimKeys newUUID now ks busy room s
      else let job = startJob now (newUUID (uuidsDrawn s)) job;
               s = s\<lparr>uuidsDrawn := Suc (uuidsDrawn s), lifecycleJobs := gm_put key job (lifecycleJobs s)\<rparr>;
               (jobs, t) = claimKeys newUUID now ks (lj_RepositoryID job # busy) (room - 1) s
           in (job # jobs, t))"

definition runningRepositories :: "'z lifecycle_store_scheme \<Rightarrow> string list" where
  "runningRepositories s =
     map lj_RepositoryID (filter (\<lambda>j. lj_State j = LifecycleJobRunning) (gm_vals (lifecycleJobs s)))"

definition claimLifecycleJobs ::
  "env \<Rightarrow> gotime \<Rightarrow> LifecycleJobKind \<Rightarrow> Format \<Rightarrow> int \<Rightarrow> 'z lifecycle_store_scheme
     \<Rightarrow> LifecycleJob list \<times> 'z lifecycle_store_scheme" where
  "claimLifecycleJobs e now kind fmt limit s =
     (let s = snd (recoverExpiredLifecycleJobsLocked e now s);
          room = (if limit \<le> 0 then 100 else nat limit);
          candidates = sort_key (\<lambda>(k, j). lj_CreatedAt j) (filter (\<lambda>(k, j). claimable now kind fmt j) (lifecycleJobs s))
      in claimKeys (env_UUID e) now candidates (runningRepositories s) room s)"

definition ClaimLifecycleJobs ::
  "env \<Rightarrow> gotime \<Rightarrow> int \<Rightarrow> 'z lifecycle_store_scheme \<Rightarrow> LifecycleJob list \<times> 'z lifecycle_store_scheme" where
  "ClaimLifecycleJobs e now limit s = claimLifecycleJobs e now [] [] limit s"

definition ClaimLifecycleJobsByKind ::
  "env \<Rightarrow> gotime \<Rightarrow> LifecycleJobKind \<Rightarrow> int \<Rightarrow> 'z lifecycle_store_scheme
     \<Rightarrow> LifecycleJob list \<times> 'z lifecycle_store_scheme" where
  "ClaimLifecycleJobsByKind e now kind limit s = claimLifecycleJobs e now kind [] limit s"

definition ClaimLifecycleJobsByKindAndFormat ::
  "env \<Rightarrow> gotime \<Rightarrow> LifecycleJobKind \<Rightarrow> Format \<Rightarrow> int \<Rightarrow> 'z lifecycle_store_scheme
     \<Rightarrow> LifecycleJob list \<times> 'z lifecycle_store_scheme" where
  "ClaimLifecycleJobsByKindAndFormat e now kind fmt limit s = claimLifecycleJobs e now kind fmt limit s"

section \<open>Operator controls\<close>

definition updateLifecycleJobControl ::
  "string \<Rightarrow> string \<Rightarrow> (LifecycleJob \<Rightarrow> LifecycleJob result) \<Rightarrow> 'z lifecycle_store_scheme
     \<Rightarrow> LifecycleJob result \<times> 'z lifecycle_store_scheme" where
  "updateLifecycleJobControl repositoryID i upd s =
     (case find (\<lambda>(k, j). lj_RepositoryID j = repositoryID \<and> lj_ID j = i) (lifecycleJobs s) of
        None \<Rightarrow> (Inl ErrNotFound, s)
      | Some (key, job) \<Rightarrow>
          (case upd job of
             Inl e \<Rightarrow> (Inl e, s)
           | Inr job \<Rightarrow> (Inr job, s\<lparr>lifecycleJobs := gm_put key job (lifecycleJobs s)\<rparr>)))"

definition RunLifecycleJobNow ::
  "gotime \<Rightarrow> string \<Rightarrow> string \<Rightarrow> 'z lifecycle_store_scheme \<Rightarrow> LifecycleJob result \<times> 'z lifecycle_store_scheme" where
  "RunLifecycleJobNow now repositoryID i =
     updateLifecycleJobControl repositoryID i (\<lambda>job.
       if lj_State job \<noteq> LifecycleJobPending \<and> lj_State job \<noteq> LifecycleJobRetrying then Inl ErrVersionConflict
       else Inr (job\<lparr>lj_State := LifecycleJobPending, lj_NextAttemptAt := now\<rparr>))"

definition resetLifecycleJobForRetry :: "gotime \<Rightarrow> LifecycleJob \<Rightarrow> LifecycleJob" where
  "resetLifecycleJobForRetry now job =
     job\<lparr>lj_State := LifecycleJobPending, lj_NextAttemptAt := now, lj_Attempts := 0, lj_LastError := [],
         lj_StartedAt := zeroTime, lj_CompletedAt := zeroTime, lj_LeaseExpiresAt := zeroTime, lj_LeaseToken := [],
         lj_ProgressCurrent := 0, lj_ProgressMessage := []\<rparr>"

definition RetryLifecycleJob ::
  "gotime \<Rightarrow> string \<Rightarrow> string \<Rightarrow> 'z lifecycle_store_scheme \<Rightarrow> LifecycleJob result \<times> 'z lifecycle_store_scheme" where
  "RetryLifecycleJob now repositoryID i =
     updateLifecycleJobControl repositoryID i (\<lambda>job.
       if lj_State job \<noteq> LifecycleJobFailed \<and> lj_State job \<noteq> LifecycleJobCancelled then Inl ErrVersionConflict
       else Inr (resetLifecycleJobForRetry now job))"

definition CancelLifecycleJob ::
  "gotime \<Rightarrow> string \<Rightarrow> string \<Rightarrow> 'z lifecycle_store_scheme \<Rightarrow> LifecycleJob result \<times> 'z lifecycle_store_scheme" where
  "CancelLifecycleJob now repositoryID i =
     updateLifecycleJobControl repositoryID i (\<lambda>job.
       if lj_State job \<noteq> LifecycleJobPending \<and> lj_State job \<noteq> LifecycleJobRetrying then Inl ErrVersionConflict
       else Inr (job\<lparr>lj_State := LifecycleJobCancelled, lj_CompletedAt := now, lj_NextAttemptAt := zeroTime\<rparr>))"

definition RequeueFailedLifecycleJobs ::
  "gotime \<Rightarrow> string \<Rightarrow> LifecycleJobKind \<Rightarrow> int \<Rightarrow> 'z lifecycle_store_scheme
     \<Rightarrow> LifecycleJob list \<times> 'z lifecycle_store_scheme" where
  "RequeueFailedLifecycleJobs now repositoryID kind limit s =
     (let n = (if limit \<le> 0 \<or> limit > 100 then 100 else nat limit);
          chosen = take n (sort_key (\<lambda>(k, j). lj_CreatedAt j)
            (filter (\<lambda>(k, j). lj_RepositoryID j = repositoryID \<and> lj_Kind j = kind \<and>
               (lj_State j = LifecycleJobFailed \<or> lj_State j = LifecycleJobCancelled)) (lifecycleJobs s)))
      in (map (\<lambda>(k, j). resetLifecycleJobForRetry now j) chosen,
          s\<lparr>lifecycleJobs := fold (\<lambda>(k, j) m. gm_put k (resetLifecycleJobForRetry now j) m) chosen (lifecycleJobs s)\<rparr>))"

section \<open>Leases\<close>

definition UpdateLifecycleJobProgress ::
  "gotime \<Rightarrow> string \<Rightarrow> string \<Rightarrow> int \<Rightarrow> int \<Rightarrow> string \<Rightarrow> 'z lifecycle_store_scheme
     \<Rightarrow> unit result \<times> 'z lifecycle_store_scheme" where
  "UpdateLifecycleJobProgress now i leaseToken current tot message s =
     (if current < 0 \<or> tot < 0 \<or> current > tot then (Inl ErrVersionConflict, s)
      else case find (\<lambda>(k, j). lj_ID j = i \<and> lj_State j = LifecycleJobRunning \<and> lj_LeaseToken j = leaseToken)
                  (lifecycleJobs s) of
             None \<Rightarrow> (Inl ErrNotFound, s)
           | Some (key, job) \<Rightarrow>
               let job = job\<lparr>lj_ProgressCurrent := current, lj_ProgressTotal := tot, lj_ProgressMessage := message,
                             lj_LeaseExpiresAt := renewedLifecycleLeaseExpiry (lj_LeaseExpiresAt job) now\<rparr>
               in (Inr (), s\<lparr>lifecycleJobs := gm_put key job (lifecycleJobs s)\<rparr>))"

definition leaseLive :: "gotime \<Rightarrow> LifecycleJob \<Rightarrow> bool" where
  "leaseLive now job \<longleftrightarrow> isZero (lj_LeaseExpiresAt job) \<or> now < lj_LeaseExpiresAt job"

definition RenewLifecycleJobLease ::
  "gotime \<Rightarrow> string \<Rightarrow> string \<Rightarrow> 'z lifecycle_store_scheme \<Rightarrow> unit result \<times> 'z lifecycle_store_scheme" where
  "RenewLifecycleJobLease now i leaseToken s =
     (case find (\<lambda>(k, j). lj_ID j = i \<and> lj_State j = LifecycleJobRunning \<and> lj_LeaseToken j = leaseToken \<and>
                leaseLive now j) (lifecycleJobs s) of
        None \<Rightarrow> (Inl ErrNotFound, s)
      | Some (key, job) \<Rightarrow>
          let job = job\<lparr>lj_LeaseExpiresAt := renewedLifecycleLeaseExpiry (lj_LeaseExpiresAt job) now\<rparr>
          in (Inr (), s\<lparr>lifecycleJobs := gm_put key job (lifecycleJobs s)\<rparr>))"

text \<open>\<^verbatim>\<open>LockLifecycleJobLease\<close> returns the unlock function of the lease fence; here its verdict.\<close>

definition LockLifecycleJobLease ::
  "gotime \<Rightarrow> string \<Rightarrow> string \<Rightarrow> 'z lifecycle_store_scheme \<Rightarrow> unit result" where
  "LockLifecycleJobLease now i leaseToken s =
     (if list_ex (\<lambda>j. lj_ID j = i \<and> lj_State j = LifecycleJobRunning \<and> lj_LeaseToken j = leaseToken \<and>
                 leaseLive now j) (gm_vals (lifecycleJobs s))
      then Inr () else Inl ErrNotFound)"

definition finishLifecycleJob ::
  "env \<Rightarrow> (nat \<Rightarrow> gotime) \<Rightarrow> string \<Rightarrow> string \<Rightarrow> LifecycleJobState \<Rightarrow> string \<Rightarrow> 'z lifecycle_store_scheme
     \<Rightarrow> unit result \<times> 'z lifecycle_store_scheme" where
  "finishLifecycleJob e clk i leaseToken state message s =
     (case find (\<lambda>(k, j). lj_ID j = i) (lifecycleJobs s) of
        None \<Rightarrow> (Inl ErrNotFound, s)
      | Some (key, job) \<Rightarrow>
          if lj_State job \<noteq> LifecycleJobRunning \<or> lj_LeaseToken job \<noteq> leaseToken \<or> \<not> leaseLive (clk 0) job
          then (Inl ErrNotFound, s)
          else
            let job = job\<lparr>lj_State := state, lj_CompletedAt := clk 1, lj_LastError := message,
                          lj_LeaseExpiresAt := zeroTime, lj_LeaseToken := []\<rparr>;
                job = (if state = LifecycleJobCompleted \<and> lj_ProgressTotal job > 0
                       then job\<lparr>lj_ProgressCurrent := lj_ProgressTotal job\<rparr> else job)
            in (Inr (), storeFinishedJob e (clk 2) key job s))"

definition CompleteLifecycleJob ::
  "env \<Rightarrow> (nat \<Rightarrow> gotime) \<Rightarrow> string \<Rightarrow> string \<Rightarrow> 'z lifecycle_store_scheme
     \<Rightarrow> unit result \<times> 'z lifecycle_store_scheme" where
  "CompleteLifecycleJob e clk i leaseToken s = finishLifecycleJob e clk i leaseToken LifecycleJobCompleted [] s"

definition FailLifecycleJob ::
  "env \<Rightarrow> (nat \<Rightarrow> gotime) \<Rightarrow> string \<Rightarrow> string \<Rightarrow> string \<Rightarrow> 'z lifecycle_store_scheme
     \<Rightarrow> unit result \<times> 'z lifecycle_store_scheme" where
  "FailLifecycleJob e clk i leaseToken message s =
     (case find (\<lambda>(k, j). lj_ID j = i \<and> lj_State j = LifecycleJobRunning \<and> lj_LeaseToken j = leaseToken)
             (lifecycleJobs s) of
        None \<Rightarrow> (Inl ErrNotFound, s)
      | Some (key, job) \<Rightarrow>
          let job = failOrRetry (clk 0)
                (job\<lparr>lj_LastError := message, lj_LeaseExpiresAt := zeroTime, lj_LeaseToken := []\<rparr>)
          in (Inr (), storeFinishedJob e (clk 1) key job s))"

definition emptyLifecycleStore :: lifecycle_store where
  "emptyLifecycleStore = webhook_store.extend emptyWebhookStore \<lparr>lifecycleJobs = [], lifecycleCreatedAt = zeroTime\<rparr>"

end
