(* ===== verification/LifecycleRuntime.thy ===== *)
theory LifecycleRuntime
  imports Lifecycle
begin

text \<open>
  The runtime that executes lifecycle jobs (\<^verbatim>\<open>internal/lifecycle/runtime.go\<close>) over any implementation
  of its \<^verbatim>\<open>Store\<close> interface: it claims jobs format by format within a limit, runs a handler under a
  lease heartbeat and records the outcome.
\<close>

text \<open>The messages of the store's errors, which the runtime writes into failed jobs.\<close>

fun errorText :: "error \<Rightarrow> string" where
  "errorText ErrNotFound = ''group not found''"
| "errorText ErrDisabled = ''group is disabled''"
| "errorText ErrNameExists = ''group name already exists''"
| "errorText ErrIdempotencyConflict = ''idempotency key conflicts with request''"
| "errorText ErrVersionConflict = ''resource version conflicts with current state''"
| "errorText ErrQuotaExceeded = ''repository capacity quota exceeded''"
| "errorText ErrUpstreamChanged = ''upstream immutable artifact metadata changed''"
| "errorText ErrArtifactTombstoned = ''artifact is tombstoned''"
| "errorText ErrWebhookSubscriptionNameExists = ''webhook subscription name already exists''"
| "errorText ErrInvalidWebhookDeliveryState = ''webhook delivery state is invalid''"
| "errorText ErrPreconditionFailed = ''write precondition failed''"
| "errorText ErrMavenSnapshotImportRetention = ''snapshot_import_retention_enabled''"
| "errorText ErrQuotaAlertConflict = ''repository already has a quota alert rule''"
| "errorText ErrQuotaAlertLimit = ''quota alert rule limit reached''"
| "errorText ErrQuotaAlertDeleted = ''quota alert rule is deleted''"
| "errorText ErrQuotaAlertScopeImmutable = ''quota alert repository scope is immutable''"
| "errorText ErrEmailTargetDisabled = ''email target is disabled''"
| "errorText ErrEmailRateLimited = ''email test rate limit exceeded''"
| "errorText ErrEmailQueueFull = ''email queue is full''"
| "errorText ErrEmailIdempotencyConflict = ''email idempotency conflict''"
| "errorText ErrEmailInvalidState = ''email delivery cannot be replayed''"
| "errorText ErrInvalidArtifactQuarantine = ''artifact quarantine is invalid''"
| "errorText ErrArtifactQuarantined = ''artifact_quarantined''"
| "errorText ErrObjectNotFound = ''object not found''"
| "errorText (ErrText t) = t"

text \<open>The store interface as operations on a state.\<close>

record 's job_store =
  st_Claim :: "LifecycleJobKind \<Rightarrow> Format \<Rightarrow> int \<Rightarrow> 's \<Rightarrow> LifecycleJob list result \<times> 's"
  st_Progress :: "string \<Rightarrow> string \<Rightarrow> int \<Rightarrow> int \<Rightarrow> string \<Rightarrow> 's \<Rightarrow> unit result \<times> 's"
  st_Complete :: "string \<Rightarrow> string \<Rightarrow> 's \<Rightarrow> unit result \<times> 's"
  st_Fail :: "string \<Rightarrow> string \<Rightarrow> string \<Rightarrow> 's \<Rightarrow> unit result \<times> 's"

record 's Runtime =
  rt_Store :: "'s job_store option"
  rt_Kind :: LifecycleJobKind
  rt_Formats :: "Format list"
  rt_Name :: string
  rt_LeaseProgressMessage :: string

text \<open>
  \<open>work job\<close> is what happens from the start of the heartbeat until it is stopped: the handler's
  error, the error \<^verbatim>\<open>stopHeartbeat\<close> returns when a renewal failed, and the state in which the
  handler and the renewals leave the store.
\<close>

type_synonym 's work = "LifecycleJob \<Rightarrow> 's \<Rightarrow> (error option \<times> error option) \<times> 's"

definition leaseRenewalFailed :: "string \<Rightarrow> error \<Rightarrow> error" where
  "leaseRenewalFailed n e = ErrText (n @ '' lease renewal failed: '' @ errorText e)"

definition failJob :: "'s job_store \<Rightarrow> LifecycleJob \<Rightarrow> error \<Rightarrow> 's \<Rightarrow> error option \<times> 's" where
  "failJob st job cause s = (Some cause, snd (st_Fail st (lj_ID job) (lj_LeaseToken job) (errorText cause) s))"

definition runJob :: "'s Runtime \<Rightarrow> 's job_store \<Rightarrow> 's work \<Rightarrow> LifecycleJob \<Rightarrow> 's \<Rightarrow> error option \<times> 's" where
  "runJob r st work job s =
     (let (renewed, s) =
            (if rt_LeaseProgressMessage r \<noteq> []
             then st_Progress st (lj_ID job) (lj_LeaseToken job) (lj_ProgressCurrent job) (lj_ProgressTotal job)
                    (rt_LeaseProgressMessage r) s
             else (Inr (), s))
      in case renewed of
           Inl e \<Rightarrow> failJob st job (leaseRenewalFailed (rt_Name r) e) s
         | Inr _ \<Rightarrow>
             (let ((handlerErr, leaseErr), s) = work job s
              in case (handlerErr, leaseErr) of
                   (_, Some le) \<Rightarrow> failJob st job (leaseRenewalFailed (rt_Name r) le) s
                 | (Some e, None) \<Rightarrow> failJob st job e s
                 | (None, None) \<Rightarrow>
                     (case st_Complete st (lj_ID job) (lj_LeaseToken job) s of
                        (Inl e, s) \<Rightarrow> (Some e, s)
                      | (Inr _, s) \<Rightarrow> (None, s))))"

fun runEach :: "'s Runtime \<Rightarrow> 's job_store \<Rightarrow> 's work \<Rightarrow> LifecycleJob list \<Rightarrow> error option \<Rightarrow> 's \<Rightarrow> error option \<times> 's" where
  "runEach r st work [] firstErr s = (firstErr, s)"
| "runEach r st work (job # jobs) firstErr s =
     (let (err, s) = runJob r st work job s
      in runEach r st work jobs (if err \<noteq> None \<and> firstErr = None then err else firstErr) s)"

text \<open>The loop over the formats; the last component lists every job it claimed, in order.\<close>

fun runFormats ::
  "'s Runtime \<Rightarrow> 's job_store \<Rightarrow> 's work \<Rightarrow> Format list \<Rightarrow> int \<Rightarrow> error option \<Rightarrow> 's
     \<Rightarrow> error option \<times> 's \<times> LifecycleJob list" where
  "runFormats r st work [] remaining firstErr s = (firstErr, s, [])"
| "runFormats r st work (fmt # fmts) remaining firstErr s =
     (if remaining = 0 then (firstErr, s, [])
      else case st_Claim st (rt_Kind r) fmt remaining s of
             (Inl e, s) \<Rightarrow> runFormats r st work fmts remaining (if firstErr = None then Some e else firstErr) s
           | (Inr jobs, s) \<Rightarrow>
               (let (firstErr, s) = runEach r st work jobs firstErr s;
                    (err, s, claimed) = runFormats r st work fmts (remaining - int (length jobs)) firstErr s
                in (err, s, jobs @ claimed)))"

definition RunJobs :: "'s Runtime \<Rightarrow> 's work option \<Rightarrow> int \<Rightarrow> 's \<Rightarrow> error option \<times> 's \<times> LifecycleJob list" where
  "RunJobs r handler limit s =
     (case (rt_Store r, handler) of
        (Some st, Some work) \<Rightarrow>
          runFormats r st work (rt_Formats r) (if limit \<le> 0 then 100 else limit) None s
      | _ \<Rightarrow> (Some (ErrText ''lifecycle job runtime is not configured''), s, []))"

section \<open>The in-memory store as the runtime's store\<close>

text \<open>Its operations at a clock that reads \<open>now\<close> for the duration of a batch.\<close>

definition memoryJobStore :: "env \<Rightarrow> gotime \<Rightarrow> ('z lifecycle_store_scheme) job_store" where
  "memoryJobStore e now =
     \<lparr>st_Claim = (\<lambda>kind fmt limit s. let (jobs, s) = ClaimLifecycleJobsByKindAndFormat e now kind fmt limit s in (Inr jobs, s)),
      st_Progress = UpdateLifecycleJobProgress now,
      st_Complete = CompleteLifecycleJob e (\<lambda>_. now),
      st_Fail = FailLifecycleJob e (\<lambda>_. now)\<rparr>"

end
