(* ===== verification/WebhookLaws.thy ===== *)
theory WebhookLaws
  imports Webhooks Contracts
begin

text \<open>
  Laws of webhook delivery: the delivery state machine and its bound of eight attempts over every
  interleaving of producers and workers, the exclusiveness of leases, the fan-out of an event, and
  the version contract of subscriptions.
\<close>

section \<open>The invariant\<close>

definition delivery_ok :: "(nat \<Rightarrow> string) \<Rightarrow> nat \<Rightarrow> WebhookDelivery \<Rightarrow> bool" where
  "delivery_ok newUUID n v \<longleftrightarrow> wd_ID v \<in> newUUID ` {..<n} \<and> 0 \<le> wd_Attempts v \<and> wd_Attempts v \<le> 8 \<and>
     (wd_State v \<in> {WebhookDeliveryPending, WebhookDeliveryRetrying} \<longrightarrow> wd_Attempts v < 8) \<and>
     (wd_State v = WebhookDeliveryDelivering \<longrightarrow> 1 \<le> wd_Attempts v \<and> wd_LeaseToken v \<in> newUUID ` {..<n}) \<and>
     (wd_State v \<noteq> WebhookDeliveryDelivering \<longrightarrow>
        wd_LeaseToken v = [] \<and> wd_LeaseOwner v = [] \<and> wd_LeaseExpiresAt v = zeroTime)"

definition webhook_ok :: "(nat \<Rightarrow> string) \<Rightarrow> 'z webhook_store_scheme \<Rightarrow> bool" where
  "webhook_ok newUUID s \<longleftrightarrow> gm_ok (webhookDeliveries s) \<and>
     (\<forall>k v. gm_get (webhookDeliveries s) k = Some v \<longrightarrow> wd_ID v = k \<and> delivery_ok newUUID (uuidsDrawn s) v) \<and>
     (\<forall>k k' v v'. gm_get (webhookDeliveries s) k = Some v \<longrightarrow> gm_get (webhookDeliveries s) k' = Some v' \<longrightarrow>
        wd_State v = WebhookDeliveryDelivering \<longrightarrow> wd_State v' = WebhookDeliveryDelivering \<longrightarrow>
        wd_LeaseToken v = wd_LeaseToken v' \<longrightarrow> k = k')"

lemma webhook_okD:
  assumes "webhook_ok newUUID s"
  shows "gm_ok (webhookDeliveries s)"
    and "gm_get (webhookDeliveries s) k = Some v \<Longrightarrow> wd_ID v = k"
    and "gm_get (webhookDeliveries s) k = Some v \<Longrightarrow> delivery_ok newUUID (uuidsDrawn s) v"
    and "gm_get (webhookDeliveries s) k = Some v \<Longrightarrow> gm_get (webhookDeliveries s) k' = Some v' \<Longrightarrow>
        wd_State v = WebhookDeliveryDelivering \<Longrightarrow> wd_State v' = WebhookDeliveryDelivering \<Longrightarrow>
        wd_LeaseToken v = wd_LeaseToken v' \<Longrightarrow> k = k'"
  using assms unfolding webhook_ok_def by blast+

lemma delivery_ok_mono: "delivery_ok newUUID n v \<Longrightarrow> n \<le> n' \<Longrightarrow> delivery_ok newUUID n' v"
  by (auto simp: delivery_ok_def)

text \<open>
  The two ways a delivery is written: with no lease, or under a token drawn for it.
\<close>

lemma webhook_ok_put_free:
  assumes "webhook_ok newUUID s" and "wd_ID v = k" and "delivery_ok newUUID (uuidsDrawn s) v"
    and "wd_State v \<noteq> WebhookDeliveryDelivering"
  shows "webhook_ok newUUID (s\<lparr>webhookDeliveries := gm_put k v (webhookDeliveries s)\<rparr>)"
  unfolding webhook_ok_def using assms(2-4)
  by (auto dest: webhook_okD(2-4) [OF assms(1)] simp: webhook_okD(1) [OF assms(1)] split: if_splits)

lemma webhook_ok_put_leased:
  assumes "webhook_ok newUUID s" and "fresh_uuids newUUID" and "wd_ID v = k"
    and "delivery_ok newUUID (Suc (uuidsDrawn s)) v" and "wd_LeaseToken v = newUUID (uuidsDrawn s)"
  shows "webhook_ok newUUID (s\<lparr>uuidsDrawn := Suc (uuidsDrawn s),
    webhookDeliveries := gm_put k v (webhookDeliveries s)\<rparr>)"
proof -
  have unused: "wd_LeaseToken w \<noteq> newUUID (uuidsDrawn s)"
    if "gm_get (webhookDeliveries s) i = Some w" "wd_State w = WebhookDeliveryDelivering" for i w
  proof -
    have "wd_LeaseToken w \<in> newUUID ` {..<uuidsDrawn s}"
      using webhook_okD(3) [OF assms(1) that(1)] that(2) by (simp add: delivery_ok_def)
    then show ?thesis
      using assms(2) by (auto simp: fresh_uuids_def dest: injD)
  qed
  show ?thesis
    unfolding webhook_ok_def
  proof (intro conjI allI impI)
    fix i j x y
    let ?m = "webhookDeliveries (s\<lparr>uuidsDrawn := Suc (uuidsDrawn s), webhookDeliveries := gm_put k v (webhookDeliveries s)\<rparr>)"
    assume "gm_get ?m i = Some x" "gm_get ?m j = Some y" "wd_State x = WebhookDeliveryDelivering"
      "wd_State y = WebhookDeliveryDelivering" "wd_LeaseToken x = wd_LeaseToken y"
    then show "i = j"
      using assms(5) webhook_okD(4) [OF assms(1)] unused by (auto split: if_splits)
  qed (use assms(3,4) in \<open>auto dest: webhook_okD(2-4) [OF assms(1)] simp: webhook_okD(1) [OF assms(1)] intro: delivery_ok_mono split: if_splits\<close>)
qed

section \<open>Steps\<close>

inductive webhook_step :: "(nat \<Rightarrow> string) \<Rightarrow> 'z webhook_store_scheme \<Rightarrow> 'z webhook_store_scheme \<Rightarrow> bool" for newUUID where
  subscribe: "CreateWebhookSubscription now sub s = (r, s') \<Longrightarrow> webhook_step newUUID s s'"
| resubscribe: "UpdateWebhookSubscription now sub ver s = (r, s') \<Longrightarrow> webhook_step newUUID s s'"
| enqueue: "EnqueueWebhookEvent newUUID now event s = (e, s') \<Longrightarrow> webhook_step newUUID s s'"
| claim: "ClaimWebhookDeliveries newUUID owner now lease limit s = (cs, s') \<Longrightarrow> webhook_step newUUID s s'"
| complete: "CompleteWebhookDelivery i token status now s = (u, s') \<Longrightarrow> webhook_step newUUID s s'"
| fail: "FailWebhookDelivery i token now retryAt status msg dead s = (u, s') \<Longrightarrow> webhook_step newUUID s s'"
| replay: "ReplayWebhookDelivery i now s = (d, s') \<Longrightarrow> webhook_step newUUID s s'"

subsection \<open>Enqueueing\<close>

lemma newDelivery_ok [simp]: "delivery_ok newUUID (Suc n) (newDelivery event v (newUUID n))"
  by (simp add: delivery_ok_def newDelivery_def)

lemma newDelivery_fields [simp]:
  "wd_ID (newDelivery event v i) = i" "wd_State (newDelivery event v i) = WebhookDeliveryPending"
  "wd_EventID (newDelivery event v i) = we_ID event" "wd_SubscriptionID (newDelivery event v i) = ws_ID v"
  by (simp_all add: newDelivery_def)

lemma webhook_ok_more_uuids: "webhook_ok newUUID s \<Longrightarrow> uuidsDrawn s \<le> n \<Longrightarrow> webhook_ok newUUID (s\<lparr>uuidsDrawn := n\<rparr>)"
  unfolding webhook_ok_def by (auto intro: delivery_ok_mono)

lemma fanOut_ok: "webhook_ok newUUID s \<Longrightarrow> webhook_ok newUUID (fanOut newUUID event vs s)"
proof (induction newUUID event vs s rule: fanOut.induct)
  case (2 newUUID event v vs s)
  have "webhook_ok newUUID (s\<lparr>uuidsDrawn := Suc (uuidsDrawn s), webhookDeliveries :=
      gm_put (newUUID (uuidsDrawn s)) (newDelivery event v (newUUID (uuidsDrawn s))) (webhookDeliveries s)\<rparr>)"
    using webhook_ok_put_free [of newUUID "s\<lparr>uuidsDrawn := Suc (uuidsDrawn s)\<rparr>"
        "newDelivery event v (newUUID (uuidsDrawn s))"]
      webhook_ok_more_uuids [OF "2.prems", of "Suc (uuidsDrawn s)"] by simp
  then show ?case
    using 2 by (simp add: Let_def)
qed simp

lemma webhook_ok_frame [simp]:
  "webhook_ok newUUID (s\<lparr>webhookEvents := es\<rparr>) = webhook_ok newUUID s"
  "webhook_ok newUUID (s\<lparr>webhookSubscriptions := ss\<rparr>) = webhook_ok newUUID s"
  by (simp_all add: webhook_ok_def)

lemma enqueue_ok:
  assumes "webhook_ok newUUID s"
  shows "webhook_ok newUUID (snd (enqueueWebhookEventLocked newUUID now event s))"
  using assms webhook_ok_more_uuids [OF assms, of "Suc (uuidsDrawn s)"]
  by (simp add: enqueueWebhookEventLocked_def Let_def fanOut_ok)

text \<open>Raising an event only draws further identifiers.\<close>

lemma fanOut_draws: "uuidsDrawn s \<le> uuidsDrawn (fanOut uuid event vs s)"
proof (induction vs arbitrary: s)
  case (Cons v vs)
  show ?case
    using Cons.IH [of s] Cons.IH [of "s\<lparr>uuidsDrawn := Suc (uuidsDrawn s), webhookDeliveries :=
        gm_put (uuid (uuidsDrawn s)) (newDelivery event v (uuid (uuidsDrawn s))) (webhookDeliveries s)\<rparr>"]
    by (auto simp: Let_def dest: Suc_leD)
qed simp

lemma enqueue_draws: "uuidsDrawn s \<le> uuidsDrawn (snd (enqueueWebhookEventLocked uuid now event s))"
proof -
  have "uuidsDrawn s \<le> uuidsDrawn (fanOut uuid ev vs (s\<lparr>uuidsDrawn := Suc (uuidsDrawn s), webhookEvents := es\<rparr>))"
    and "uuidsDrawn s \<le> uuidsDrawn (fanOut uuid ev vs (s\<lparr>webhookEvents := es\<rparr>))" for ev vs es
    using fanOut_draws [of "s\<lparr>uuidsDrawn := Suc (uuidsDrawn s), webhookEvents := es\<rparr>" uuid ev vs]
      fanOut_draws [of "s\<lparr>webhookEvents := es\<rparr>" uuid ev vs] by simp_all
  then show ?thesis
    by (simp add: enqueueWebhookEventLocked_def Let_def)
qed

subsection \<open>Claiming\<close>

lemma buried_ok: "delivery_ok newUUID n v \<Longrightarrow> delivery_ok newUUID n (buryDelivery now v)"
  by (auto simp: delivery_ok_def buryDelivery_def)

lemma bury_fields [simp]: "wd_ID (buryDelivery now v) = wd_ID v" "wd_State (buryDelivery now v) = WebhookDeliveryDead"
  by (simp_all add: buryDelivery_def)

lemma bury_all_ok:
  assumes "webhook_ok newUUID s" and "\<forall>v \<in> set vs. delivery_ok newUUID (uuidsDrawn s) v"
  shows "webhook_ok newUUID (s\<lparr>webhookDeliveries :=
    fold (\<lambda>v m. if exhausted now v then gm_put (wd_ID v) (buryDelivery now v) m else m) vs (webhookDeliveries s)\<rparr>)"
  using assms
proof (induction vs arbitrary: s)
  case (Cons v vs)
  let ?s = "s\<lparr>webhookDeliveries := gm_put (wd_ID v) (buryDelivery now v) (webhookDeliveries s)\<rparr>"
  have "webhook_ok newUUID ?s"
    using Cons.prems by (intro webhook_ok_put_free) (simp_all add: buried_ok)
  then show ?case
    using Cons.IH [of s] Cons.IH [of ?s] Cons.prems by simp
qed simp

lemma leaseDelivery_fields [simp]:
  "wd_ID (leaseDelivery owner now lease token v) = wd_ID v"
  "wd_State (leaseDelivery owner now lease token v) = WebhookDeliveryDelivering"
  "wd_LeaseToken (leaseDelivery owner now lease token v) = token"
  "wd_EventID (leaseDelivery owner now lease token v) = wd_EventID v"
  "wd_SubscriptionID (leaseDelivery owner now lease token v) = wd_SubscriptionID v"
  "wd_LeaseExpiresAt (leaseDelivery owner now lease token v) = now + lease"
  by (simp_all add: leaseDelivery_def)

lemma leased_ok:
  "delivery_ok newUUID n v \<Longrightarrow> wd_Attempts v < 8 \<Longrightarrow>
     delivery_ok newUUID (Suc n) (leaseDelivery owner now lease (newUUID n) v)"
  by (auto simp: delivery_ok_def leaseDelivery_def)

lemma claimEach_ok:
  assumes "fresh_uuids newUUID" and "webhook_ok newUUID s"
    and "\<forall>v \<in> set vs. delivery_ok newUUID (uuidsDrawn s) v \<and> wd_Attempts v < 8"
  shows "webhook_ok newUUID (snd (claimEach newUUID owner now lease vs s))"
  using assms(2,3)
proof (induction vs arbitrary: s)
  case (Cons v vs)
  let ?d = "leaseDelivery owner now lease (newUUID (uuidsDrawn s)) v"
  let ?s = "s\<lparr>uuidsDrawn := Suc (uuidsDrawn s), webhookDeliveries := gm_put (wd_ID ?d) ?d (webhookDeliveries s)\<rparr>"
  have "webhook_ok newUUID ?s"
    using Cons.prems assms(1) by (intro webhook_ok_put_leased) (simp_all add: leased_ok)
  moreover have "\<forall>v \<in> set vs. delivery_ok newUUID (uuidsDrawn ?s) v \<and> wd_Attempts v < 8"
    using Cons.prems(2) delivery_ok_mono [of newUUID "uuidsDrawn s" _ "Suc (uuidsDrawn s)"] by simp
  ultimately show ?case
    using Cons.IH [of ?s] by (simp add: Let_def case_prod_beta)
qed simp

lemma vals_ok: "webhook_ok newUUID s \<Longrightarrow> v \<in> set (gm_vals (webhookDeliveries s)) \<Longrightarrow>
    delivery_ok newUUID (uuidsDrawn s) v \<and> gm_get (webhookDeliveries s) (wd_ID v) = Some v"
  using gm_vals_iff [OF webhook_okD(1)] webhook_okD(2,3) by metis

lemma claimCandidates_ok:
  assumes "webhook_ok newUUID s" and "v \<in> set (claimCandidates now (gm_vals (webhookDeliveries s)))"
  shows "delivery_ok newUUID (uuidsDrawn s) v \<and> wd_Attempts v < 8 \<and> (due now v \<or> leaseExpired now v) \<and>
    gm_get (webhookDeliveries s) (wd_ID v) = Some v"
proof -
  have v: "v \<in> set (gm_vals (webhookDeliveries s))" "due now v \<or> leaseExpired now v" "\<not> exhausted now v"
    using assms(2) by (auto simp: claimCandidates_def)
  then show ?thesis
    using vals_ok [OF assms(1) v(1)] by (auto simp: delivery_ok_def due_def exhausted_def leaseExpired_def)
qed

lemma claim_ok:
  assumes "fresh_uuids newUUID" and "webhook_ok newUUID s"
  shows "webhook_ok newUUID (snd (ClaimWebhookDeliveries newUUID owner now lease limit s))"
proof -
  have "\<forall>v \<in> set (gm_vals (webhookDeliveries s)). delivery_ok newUUID (uuidsDrawn s) v"
    using vals_ok [OF assms(2)] by blast
  then show ?thesis
    unfolding ClaimWebhookDeliveries_def Let_def
    by (intro claimEach_ok [OF assms(1)] bury_all_ok [OF assms(2)])
      (auto dest!: in_set_takeD claimCandidates_ok [OF assms(2)])
qed

subsection \<open>Finishing\<close>

lemma finish_ok:
  assumes "webhook_ok newUUID s"
    and "CompleteWebhookDelivery i token status now s = (u, s') \<or>
      FailWebhookDelivery i token now retryAt status msg dead s = (u, s') \<or> ReplayWebhookDelivery i now s = (d, s')"
  shows "webhook_ok newUUID s'"
  using assms(2) webhook_okD(2,3) [OF assms(1), of i] assms(1)
  by (auto simp: CompleteWebhookDelivery_def FailWebhookDelivery_def ReplayWebhookDelivery_def Let_def delivery_ok_def
      intro!: webhook_ok_put_free split: option.splits if_splits)

lemma webhook_step_ok:
  assumes "fresh_uuids newUUID" and "webhook_step newUUID s t" and "webhook_ok newUUID s"
  shows "webhook_ok newUUID t"
  using assms(2,3)
proof (induction rule: webhook_step.induct)
  case (subscribe now sub s r s')
  then show ?case by (auto simp: CreateWebhookSubscription_def Let_def split: if_splits)
next
  case (resubscribe now sub ver s r s')
  then show ?case by (auto simp: UpdateWebhookSubscription_def Let_def split: if_splits option.splits)
next
  case (enqueue now event s e s')
  then show ?case using enqueue_ok [of newUUID s now event] by (simp add: EnqueueWebhookEvent_def)
next
  case (claim owner now lease limit s cs s')
  then show ?case using claim_ok [OF assms(1), of s owner now lease limit] by simp
qed (use finish_ok in blast)+

section \<open>What a claim and a fan-out write\<close>

lemma claimEach_get:
  assumes "distinct (map wd_ID vs)"
  shows "(\<forall>v \<in> set vs. \<exists>j \<ge> uuidsDrawn s. gm_get (webhookDeliveries (snd (claimEach newUUID owner now lease vs s))) (wd_ID v) =
        Some (leaseDelivery owner now lease (newUUID j) v)) \<and>
    (\<forall>k. k \<notin> wd_ID ` set vs \<longrightarrow>
        gm_get (webhookDeliveries (snd (claimEach newUUID owner now lease vs s))) k = gm_get (webhookDeliveries s) k)"
  using assms
proof (induction vs arbitrary: s)
  case (Cons v vs)
  let ?d = "leaseDelivery owner now lease (newUUID (uuidsDrawn s)) v"
  let ?s = "s\<lparr>uuidsDrawn := Suc (uuidsDrawn s), webhookDeliveries := gm_put (wd_ID v) ?d (webhookDeliveries s)\<rparr>"
  have tail: "snd (claimEach newUUID owner now lease (v # vs) s) = snd (claimEach newUUID owner now lease vs ?s)"
    by (simp add: Let_def case_prod_beta)
  have IH: "(\<forall>w \<in> set vs. \<exists>j \<ge> Suc (uuidsDrawn s). gm_get (webhookDeliveries (snd (claimEach newUUID owner now lease vs ?s))) (wd_ID w) =
        Some (leaseDelivery owner now lease (newUUID j) w)) \<and>
    (\<forall>k. k \<notin> wd_ID ` set vs \<longrightarrow>
        gm_get (webhookDeliveries (snd (claimEach newUUID owner now lease vs ?s))) k = gm_get (webhookDeliveries ?s) k)"
    using Cons.IH [of ?s] Cons.prems by simp
  have "wd_ID v \<notin> wd_ID ` set vs"
    using Cons.prems by auto
  with IH show ?case
    unfolding tail by auto (meson Suc_leD)
qed simp

lemma claimEach_claims:
  assumes "distinct (map wd_ID vs)" and "c \<in> set (fst (claimEach newUUID owner now lease vs s))"
  shows "wd_ID (wc_Delivery c) \<in> wd_ID ` set vs \<and>
    gm_get (webhookDeliveries (snd (claimEach newUUID owner now lease vs s))) (wd_ID (wc_Delivery c)) = Some (wc_Delivery c)"
  using assms
proof (induction vs arbitrary: s)
  case (Cons v vs)
  let ?d = "leaseDelivery owner now lease (newUUID (uuidsDrawn s)) v"
  let ?s = "s\<lparr>uuidsDrawn := Suc (uuidsDrawn s), webhookDeliveries := gm_put (wd_ID v) ?d (webhookDeliveries s)\<rparr>"
  have tail: "snd (claimEach newUUID owner now lease (v # vs) s) = snd (claimEach newUUID owner now lease vs ?s)"
    by (simp add: Let_def case_prod_beta)
  have "wc_Delivery c = ?d \<or> c \<in> set (fst (claimEach newUUID owner now lease vs ?s))"
    using Cons.prems(2) by (auto simp: Let_def case_prod_beta split: option.splits)
  then show ?case
  proof
    assume "wc_Delivery c = ?d"
    moreover have "wd_ID v \<notin> wd_ID ` set vs"
      using Cons.prems(1) by auto
    ultimately show ?thesis
      unfolding tail using Cons.prems(1) claimEach_get [where vs = vs and s = ?s] by simp
  next
    assume "c \<in> set (fst (claimEach newUUID owner now lease vs ?s))"
    then show ?thesis
      unfolding tail using Cons.IH [of ?s] Cons.prems(1) by simp
  qed
qed simp

lemma claimEach_length: "length (fst (claimEach newUUID owner now lease vs s)) \<le> length vs"
proof (induction vs arbitrary: s)
  case (Cons v vs)
  then show ?case
    by (auto simp: Let_def case_prod_beta split: option.splits intro: le_SucI)
qed simp

lemma distinct_claimCandidates:
  assumes "webhook_ok newUUID s"
  shows "distinct (map wd_ID (take n (claimCandidates now (gm_vals (webhookDeliveries s)))))"
proof -
  have "distinct (map wd_ID (gm_vals (webhookDeliveries s)))"
    by (rule distinct_vals_by) (use webhook_okD [OF assms] in auto)
  then have "distinct (map wd_ID (claimCandidates now (gm_vals (webhookDeliveries s))))"
    unfolding claimCandidates_def by (rule distinct_map_sort_filter)
  then show ?thesis
    by (simp add: take_map [symmetric])
qed

lemma buried_get:
  assumes "webhook_ok newUUID s" and "gm_get (webhookDeliveries s) k = Some v"
  shows "gm_get (fold (\<lambda>v m. if exhausted now v then gm_put (wd_ID v) (buryDelivery now v) m else m)
      (gm_vals (webhookDeliveries s)) (webhookDeliveries s)) k =
    Some (if exhausted now v then buryDelivery now v else v)"
proof -
  have mem: "v \<in> set (gm_vals (webhookDeliveries s))" and idv: "wd_ID v = k"
    using gm_get_vals [OF assms(2)] webhook_okD(2) [OF assms] by auto
  have same: "w = v" if "w \<in> set (gm_vals (webhookDeliveries s))" "wd_ID w = k" for w
    using vals_ok [OF assms(1) that(1)] that(2) assms(2) by simp
  show ?thesis
  proof (cases "find (\<lambda>w. exhausted now w \<and> wd_ID w = k) (rev (gm_vals (webhookDeliveries s)))")
    case None
    then have "\<not> exhausted now v"
      using mem idv by (auto simp: find_None_iff)
    with None assms(2) show ?thesis
      by (simp add: gm_get_fold_put)
  next
    case (Some w)
    then have "w \<in> set (gm_vals (webhookDeliveries s)) \<and> exhausted now w \<and> wd_ID w = k"
      by (auto dest!: find_SomeD)
    with Some same show ?thesis
      by (auto simp: gm_get_fold_put)
  qed
qed

lemma claim_get:
  assumes "webhook_ok newUUID s" and "gm_get (webhookDeliveries s) k = Some v"
    and "\<not> due now v" and "\<not> leaseExpired now v"
  shows "gm_get (webhookDeliveries (snd (ClaimWebhookDeliveries newUUID owner now lease limit s))) k = Some v"
proof -
  let ?vs = "take (if limit \<le> 0 \<or> limit > 100 then 20 else nat limit) (claimCandidates now (gm_vals (webhookDeliveries s)))"
  have unclaimed: "k \<notin> wd_ID ` set ?vs"
  proof
    assume "k \<in> wd_ID ` set ?vs"
    then obtain w where "w \<in> set ?vs" and "wd_ID w = k" by blast
    then show False
      using claimCandidates_ok [OF assms(1), of w now] assms(2-4) by (auto dest: in_set_takeD)
  qed
  have "\<not> exhausted now v"
    using assms(4) by (simp add: exhausted_def)
  then show ?thesis
    unfolding ClaimWebhookDeliveries_def Let_def
    using buried_get [OF assms(1,2), of now]
    by (simp add: claimEach_get [OF distinct_claimCandidates [OF assms(1)], THEN conjunct2, rule_format, OF unclaimed]
        split del: if_split)
qed

lemma ok_unused: "webhook_ok newUUID s \<Longrightarrow> fresh_uuids newUUID \<Longrightarrow> uuidsDrawn s \<le> n \<Longrightarrow> gm_get (webhookDeliveries s) (newUUID n) = None"
  using webhook_okD(2,3) [of newUUID s "newUUID n"]
  by (cases "gm_get (webhookDeliveries s) (newUUID n)") (fastforce simp: delivery_ok_def fresh_uuids_def dest: injD)+

lemma fanOut_eq:
  assumes "fresh_uuids newUUID" and "\<forall>n \<ge> uuidsDrawn s. gm_get (webhookDeliveries s) (newUUID n) = None"
  shows "webhookDeliveries (fanOut newUUID event vs s) = webhookDeliveries s @
    map (\<lambda>(n, v). (newUUID n, newDelivery event v (newUUID n)))
      (enumerate (uuidsDrawn s) (filter (\<lambda>v. webhookSubscriptionAccepts v (we_Type event)) vs))"
  using assms(2)
proof (induction vs arbitrary: s)
  case (Cons v vs)
  show ?case
  proof (cases "webhookSubscriptionAccepts v (we_Type event)")
    case True
    let ?s = "s\<lparr>uuidsDrawn := Suc (uuidsDrawn s), webhookDeliveries := gm_put (newUUID (uuidsDrawn s))
      (newDelivery event v (newUUID (uuidsDrawn s))) (webhookDeliveries s)\<rparr>"
    have "\<forall>n \<ge> uuidsDrawn ?s. gm_get (webhookDeliveries ?s) (newUUID n) = None"
      using Cons.prems assms(1) by (auto simp: fresh_uuids_def inj_eq)
    then show ?thesis
      using True Cons.IH [of ?s] Cons.prems by (simp add: Let_def update_absent)
  qed (use Cons in simp)
qed simp

lemma enqueue_get:
  assumes "fresh_uuids newUUID" and "webhook_ok newUUID s" and "gm_get (webhookDeliveries s) k = Some v"
  shows "gm_get (webhookDeliveries (snd (enqueueWebhookEventLocked newUUID now event s))) k = Some v"
  using assms(3) ok_unused [OF assms(2,1)]
  by (simp add: enqueueWebhookEventLocked_def Let_def fanOut_eq [OF assms(1)])

lemma webhook_step_succeeded:
  assumes "fresh_uuids newUUID" and "webhook_step newUUID s t" and "webhook_ok newUUID s"
    and "gm_get (webhookDeliveries s) k = Some v" and "wd_State v = WebhookDeliverySucceeded"
  shows "gm_get (webhookDeliveries t) k = Some v"
  using assms(2-)
proof (induction rule: webhook_step.induct)
  case (subscribe now sub s r s')
  then show ?case by (auto simp: CreateWebhookSubscription_def Let_def split: if_splits)
next
  case (resubscribe now sub ver s r s')
  then show ?case by (auto simp: UpdateWebhookSubscription_def Let_def split: if_splits option.splits)
next
  case (enqueue now event s e s')
  then show ?case using enqueue_get [OF assms(1), of s k v now event] by (simp add: EnqueueWebhookEvent_def)
next
  case (claim owner now lease limit s cs s')
  then show ?case
    using claim_get [of newUUID s k v now owner lease limit] by (simp add: due_def leaseExpired_def)
qed (auto simp: CompleteWebhookDelivery_def FailWebhookDelivery_def ReplayWebhookDelivery_def Let_def
    split: option.splits if_splits)

section \<open>Leases\<close>

definition deliveryHolder :: "'z webhook_store_scheme \<Rightarrow> string \<Rightarrow> string option" where
  "deliveryHolder s i =
     (case gm_get (webhookDeliveries s) i of
        Some v \<Rightarrow> if wd_State v = WebhookDeliveryDelivering then Some (wd_LeaseToken v) else None
      | None \<Rightarrow> None)"

text \<open>The two reports of a worker as one operation, to interpret the lease contract on.\<close>

datatype report = Delivered int gotime | Failed gotime gotime int string bool

fun reportDelivery :: "report \<Rightarrow> string \<Rightarrow> string \<Rightarrow> 'z webhook_store_scheme \<Rightarrow> unit result \<times> 'z webhook_store_scheme" where
  "reportDelivery (Delivered status at) i token s = CompleteWebhookDelivery i token status at s"
| "reportDelivery (Failed at retryAt status msg dead) i token s = FailWebhookDelivery i token at retryAt status msg dead s"

interpretation delivery_lease: lease_fence
  "deliveryHolder :: 'z webhook_store_scheme \<Rightarrow> string \<Rightarrow> string option" reportDelivery "\<lambda>_. True"
proof unfold_locales
  show "deliveryHolder s i = Some t \<and> deliveryHolder s' i = None" if "reportDelivery c i t s = (Inr r, s')"
    for s :: "'z webhook_store_scheme" and s' c i t r
    using that by (cases c) (auto simp: CompleteWebhookDelivery_def FailWebhookDelivery_def deliveryHolder_def Let_def
        split: option.splits if_splits)
  show "s' = s" if "reportDelivery c i t s = (Inl e, s')" for s :: "'z webhook_store_scheme" and s' c i t e
    using that by (cases c) (auto simp: CompleteWebhookDelivery_def FailWebhookDelivery_def Let_def
        split: option.splits if_splits)
qed simp

interpretation subscription_cas: cas_update
  "\<lambda>s :: 'z webhook_store_scheme. map_option ws_Version (gm_get (webhookSubscriptions s) i)"
  "\<lambda>sub. UpdateWebhookSubscription now (sub\<lparr>ws_ID := i\<rparr>)" for i now
  by unfold_locales
    (auto simp: UpdateWebhookSubscription_def Let_def split: option.splits if_splits)

section \<open>The properties of webhook delivery\<close>

inductive webhook_reach :: "(nat \<Rightarrow> string) \<Rightarrow> webhook_store \<Rightarrow> bool" for newUUID where
  start: "webhook_reach newUUID emptyWebhookStore"
| step: "webhook_reach newUUID s \<Longrightarrow> webhook_step newUUID s t \<Longrightarrow> webhook_reach newUUID t"

lemma webhook_reach_ok: "fresh_uuids newUUID \<Longrightarrow> webhook_reach newUUID s \<Longrightarrow> webhook_ok newUUID s"
proof (rotate_tac, induction rule: webhook_reach.induct)
  case start
  then show ?case
    by (simp add: webhook_ok_def emptyWebhookStore_def hosted_store.defs)
next
  case (step s t)
  then show ?case using webhook_step_ok by blast
qed

text \<open>
  C22. The delivery state machine. With identifiers that never repeat, in every reachable state each
  delivery has between zero and eight attempts, a waiting one has attempts left, a delivery carries a
  lease exactly while it is being delivered, and no two deliveries are held under one token.
\<close>

theorem webhook_invariant:
  assumes "fresh_uuids newUUID" and "webhook_reach newUUID s"
    and "gm_get (webhookDeliveries s) k = Some v"
  shows "0 \<le> wd_Attempts v \<and> wd_Attempts v \<le> 8 \<and>
    (wd_State v \<in> {WebhookDeliveryPending, WebhookDeliveryRetrying} \<longrightarrow> wd_Attempts v < 8) \<and>
    (wd_State v = WebhookDeliveryDelivering \<longleftrightarrow> wd_LeaseToken v \<noteq> []) \<and>
    (wd_State v = WebhookDeliveryDelivering \<longrightarrow>
      (\<forall>k' v'. gm_get (webhookDeliveries s) k' = Some v' \<longrightarrow> wd_LeaseToken v' = wd_LeaseToken v \<longrightarrow> k' = k))"
proof -
  note ok = webhook_reach_ok [OF assms(1,2)]
  have nonempty: "[] \<notin> newUUID ` {..<n}" for n
    using assms(1) unfolding fresh_uuids_def by (metis imageE)
  have tokens: "wd_State w = WebhookDeliveryDelivering \<longleftrightarrow> wd_LeaseToken w \<noteq> []"
    if "gm_get (webhookDeliveries s) i = Some w" for i w
    using webhook_okD(3) [OF ok that] nonempty unfolding delivery_ok_def by metis
  show ?thesis
    using webhook_okD(3) [OF ok assms(3)] tokens webhook_okD(4) [OF ok _ assms(3)] assms(3)
    by (auto simp: delivery_ok_def)
qed

text \<open>
  C10. A claim is exclusive and useful. A claim hands out at most the requested number of deliveries,
  only ones that were due or whose lease had expired; it leaves every delivery under a running lease
  as it was; each claimed delivery is stored as handed out; and when the candidates fit the limit,
  every due delivery with attempts left is leased until \<open>now + lease\<close>.
\<close>

theorem webhook_claim_exclusive:
  assumes "fresh_uuids newUUID" and "webhook_reach newUUID s" and "0 < limit" and "limit \<le> 100"
    and "ClaimWebhookDeliveries newUUID owner now lease limit s = (claims, t)"
  shows "length claims \<le> nat limit \<and>
    (\<forall>c \<in> set claims. gm_get (webhookDeliveries t) (wd_ID (wc_Delivery c)) = Some (wc_Delivery c) \<and>
       (\<exists>v. gm_get (webhookDeliveries s) (wd_ID (wc_Delivery c)) = Some v \<and> (due now v \<or> leaseExpired now v))) \<and>
    (\<forall>k v. gm_get (webhookDeliveries s) k = Some v \<longrightarrow> wd_State v = WebhookDeliveryDelivering \<longrightarrow>
       now < wd_LeaseExpiresAt v \<longrightarrow> gm_get (webhookDeliveries t) k = Some v) \<and>
    (length (claimCandidates now (gm_vals (webhookDeliveries s))) \<le> nat limit \<longrightarrow>
       (\<forall>k v. gm_get (webhookDeliveries s) k = Some v \<longrightarrow> due now v \<longrightarrow>
          (\<exists>w. gm_get (webhookDeliveries t) k = Some w \<and> wd_State w = WebhookDeliveryDelivering \<and>
             wd_LeaseExpiresAt w = now + lease)))"
proof -
  let ?vs = "take (nat limit) (claimCandidates now (gm_vals (webhookDeliveries s)))"
  let ?s = "s\<lparr>webhookDeliveries := fold (\<lambda>v m. if exhausted now v then gm_put (wd_ID v) (buryDelivery now v) m else m)
    (gm_vals (webhookDeliveries s)) (webhookDeliveries s)\<rparr>"
  note ok = webhook_reach_ok [OF assms(1,2)]
  have dist: "distinct (map wd_ID ?vs)"
    by (rule distinct_claimCandidates [OF ok])
  have eq: "claimEach newUUID owner now lease ?vs ?s = (claims, t)"
    using assms(3-5) by (simp add: ClaimWebhookDeliveries_def Let_def)
  have claims: "gm_get (webhookDeliveries t) (wd_ID (wc_Delivery c)) = Some (wc_Delivery c) \<and>
      wd_ID (wc_Delivery c) \<in> wd_ID ` set ?vs" if "c \<in> set claims" for c
    using claimEach_claims [OF dist, of c newUUID owner now lease ?s] that eq by simp
  have "length claims \<le> nat limit"
    using claimEach_length [of newUUID owner now lease ?vs ?s] eq by simp
  moreover have "\<forall>c \<in> set claims. gm_get (webhookDeliveries t) (wd_ID (wc_Delivery c)) = Some (wc_Delivery c) \<and>
       (\<exists>v. gm_get (webhookDeliveries s) (wd_ID (wc_Delivery c)) = Some v \<and> (due now v \<or> leaseExpired now v))"
  proof
    fix c
    assume "c \<in> set claims"
    note c = claims [OF this]
    then obtain w where "w \<in> set ?vs" and "wd_ID w = wd_ID (wc_Delivery c)" by auto
    then show "gm_get (webhookDeliveries t) (wd_ID (wc_Delivery c)) = Some (wc_Delivery c) \<and>
       (\<exists>v. gm_get (webhookDeliveries s) (wd_ID (wc_Delivery c)) = Some v \<and> (due now v \<or> leaseExpired now v))"
      using c claimCandidates_ok [OF ok, of w now] by (auto dest: in_set_takeD)
  qed
  moreover have "\<forall>k v. gm_get (webhookDeliveries s) k = Some v \<longrightarrow> wd_State v = WebhookDeliveryDelivering \<longrightarrow>
       now < wd_LeaseExpiresAt v \<longrightarrow> gm_get (webhookDeliveries t) k = Some v"
    using claim_get [OF ok, of _ _ now owner lease limit] assms(5) by (simp add: due_def leaseExpired_def)
  moreover have "\<exists>w. gm_get (webhookDeliveries t) k = Some w \<and> wd_State w = WebhookDeliveryDelivering \<and>
       wd_LeaseExpiresAt w = now + lease"
    if "length (claimCandidates now (gm_vals (webhookDeliveries s))) \<le> nat limit"
      "gm_get (webhookDeliveries s) k = Some v" "due now v" for k v
  proof -
    have "v \<in> set ?vs"
      using that gm_get_vals [OF that(2)] by (auto simp: claimCandidates_def exhausted_def leaseExpired_def due_def)
    then show ?thesis
      using claimEach_get [OF dist, of ?s newUUID owner now lease] eq webhook_okD(2) [OF ok that(2)]
      by (fastforce simp: eq)
  qed
  ultimately show ?thesis by blast
qed

text \<open>
  C23. A lease is used at most once. A worker's report is accepted only with the token of the current
  lease; once a report, success or failure, has been accepted, every further report on that delivery
  is refused and changes nothing until it is claimed again.
\<close>

theorem webhook_report_fenced:
  "(deliveryHolder s i \<noteq> Some token \<longrightarrow> (\<exists>e. reportDelivery rep i token s = (Inl e, s))) \<and>
   (reportDelivery rep i token s = (Inr u, s') \<longrightarrow> (\<exists>e. reportDelivery rep' i token' s' = (Inl e, s')))"
  using delivery_lease.stale_token_refused [OF TrueI] delivery_lease.finish_once [OF TrueI] by blast

text \<open>
  C24. Fan-out and finality. Enqueueing an event adds exactly one pending delivery, under a fresh
  identifier, for each enabled subscription that lists the event's type and touches no other
  delivery; and a delivery that succeeded stays as it is through every later operation.
\<close>

theorem webhook_fanout_final:
  assumes "fresh_uuids newUUID" and "webhook_reach newUUID s" and "we_ID event \<noteq> []" and "\<not> isZero (we_OccurredAt event)"
  shows "webhookDeliveries (snd (EnqueueWebhookEvent newUUID now event s)) = webhookDeliveries s @
      map (\<lambda>(n, v). (newUUID n, newDelivery event v (newUUID n)))
        (enumerate (uuidsDrawn s) (filter (\<lambda>v. webhookSubscriptionAccepts v (we_Type event)) (gm_vals (webhookSubscriptions s)))) \<and>
    ((webhook_step newUUID)\<^sup>*\<^sup>* s t \<longrightarrow> gm_get (webhookDeliveries s) k = Some v \<longrightarrow>
      wd_State v = WebhookDeliverySucceeded \<longrightarrow> gm_get (webhookDeliveries t) k = Some v)"
proof (intro conjI impI)
  note ok = webhook_reach_ok [OF assms(1,2)]
  show "webhookDeliveries (snd (EnqueueWebhookEvent newUUID now event s)) = webhookDeliveries s @
      map (\<lambda>(n, v). (newUUID n, newDelivery event v (newUUID n)))
        (enumerate (uuidsDrawn s) (filter (\<lambda>v. webhookSubscriptionAccepts v (we_Type event)) (gm_vals (webhookSubscriptions s))))"
    using ok_unused [OF ok assms(1)] assms(3,4)
    by (simp add: EnqueueWebhookEvent_def enqueueWebhookEventLocked_def Let_def fanOut_eq [OF assms(1)])
  assume "(webhook_step newUUID)\<^sup>*\<^sup>* s t" and v: "gm_get (webhookDeliveries s) k = Some v" "wd_State v = WebhookDeliverySucceeded"
  from this(1) have "webhook_ok newUUID t \<and> gm_get (webhookDeliveries t) k = Some v"
  proof (induction rule: rtranclp_induct)
    case (step y z)
    then show ?case
      using webhook_step_ok [OF assms(1)] webhook_step_succeeded [OF assms(1) _ _ _ v(2)] by blast
  qed (use ok v in simp)
  then show "gm_get (webhookDeliveries t) k = Some v" ..
qed

section \<open>Instances\<close>

definition exampleUUID :: "nat \<Rightarrow> string" where
  "exampleUUID n = CHR ''u'' # formatNat n"

lemma formatNat_inj: "formatNat m = formatNat n \<Longrightarrow> m = n"
  using digits_val_format by (metis option.inject)

lemma exampleUUID_fresh: "fresh_uuids exampleUUID"
  by (auto simp: fresh_uuids_def exampleUUID_def inj_def dest: formatNat_inj)

definition exampleSubscription :: WebhookSubscription where
  "exampleSubscription = \<lparr>ws_ID = ''w1'', ws_Name = ''ci'', ws_EndpointURL = [], ws_SecretCiphertext = [],
     ws_EventTypes = [''pushed''], ws_Enabled = True, ws_Version = [], ws_CreatedAt = 0, ws_UpdatedAt = 0\<rparr>"

definition exampleEvent :: WebhookEvent where
  "exampleEvent = \<lparr>we_ID = ''e1'', we_Type = ''pushed'', we_OccurredAt = 10, we_Data = []\<rparr>"

definition exampleSubscribed :: webhook_store where
  "exampleSubscribed = snd (CreateWebhookSubscription 5 exampleSubscription emptyWebhookStore)"

definition exampleQueued :: webhook_store where
  "exampleQueued = snd (EnqueueWebhookEvent exampleUUID 11 exampleEvent exampleSubscribed)"

lemma exampleSubscribed_reach: "webhook_reach exampleUUID exampleSubscribed"
  unfolding exampleSubscribed_def
  by (rule webhook_reach.step [OF webhook_reach.start webhook_step.subscribe]) (rule prod.collapse [symmetric])

lemma exampleQueued_reach: "webhook_reach exampleUUID exampleQueued"
  unfolding exampleQueued_def
  by (rule webhook_reach.step [OF exampleSubscribed_reach webhook_step.enqueue]) (rule prod.collapse [symmetric])

lemmas webhook_example_defs = exampleQueued_def exampleSubscribed_def exampleSubscription_def exampleEvent_def
  EnqueueWebhookEvent_def enqueueWebhookEventLocked_def CreateWebhookSubscription_def emptyWebhookStore_def
  emptyHostedStore_def hosted_store.defs newDelivery_def webhookSubscriptionAccepts_def isZero_def Let_def

theorem webhook_invariant_witness:
  "\<exists>k v. gm_get (webhookDeliveries exampleQueued) k = Some v \<and> wd_Attempts v \<le> 8"
proof -
  obtain v where "gm_get (webhookDeliveries exampleQueued) (exampleUUID 0) = Some v"
    by (simp add: webhook_example_defs)
  with webhook_invariant [OF exampleUUID_fresh exampleQueued_reach this] show ?thesis by blast
qed

theorem webhook_claim_exclusive_witness:
  "length (fst (ClaimWebhookDeliveries exampleUUID ''worker'' 20 30 5 exampleQueued)) \<le> 5"
  using webhook_claim_exclusive [OF exampleUUID_fresh exampleQueued_reach _ _ prod.collapse [symmetric],
      of 5 "''worker''" 20 30] by simp

theorem webhook_report_fenced_witness:
  "\<exists>e. reportDelivery (Delivered 200 25) (exampleUUID 0) ''stale'' exampleQueued = (Inl e, exampleQueued)"
  using webhook_report_fenced [of exampleQueued "exampleUUID 0" "''stale''" "Delivered 200 25"]
  by (simp add: deliveryHolder_def webhook_example_defs)

theorem webhook_fanout_final_witness:
  "length (webhookDeliveries (snd (EnqueueWebhookEvent exampleUUID 11 exampleEvent exampleSubscribed))) = 1"
proof -
  have "we_ID exampleEvent \<noteq> []" "\<not> isZero (we_OccurredAt exampleEvent)"
    by (simp_all add: exampleEvent_def isZero_def)
  note eq = conjunct1 [OF webhook_fanout_final [OF exampleUUID_fresh exampleSubscribed_reach this, of 11]]
  show ?thesis
    unfolding eq by (simp add: webhook_example_defs)
qed

end
