(* ===== verification/LifecycleLaws.thy ===== *)
theory LifecycleLaws
  imports LifecycleRuntime WebhookLaws
begin

text \<open>
  Laws of the lifecycle queue: its invariant over every interleaving of producers, workers and
  operators (at most one running job per repository, bounded attempts, unshared leases, distinct
  creation times), fenced completion, fair claiming, back-off bounds, idempotent enqueueing, and
  that the runtime respects its limit and leaves no job behind.
\<close>

section \<open>The invariant\<close>

definition waiting :: "LifecycleJob \<Rightarrow> bool" where
  "waiting j \<longleftrightarrow> lj_State j = LifecycleJobPending \<or> lj_State j = LifecycleJobRetrying"

definition job_ok :: "(nat \<Rightarrow> string) \<Rightarrow> nat \<Rightarrow> LifecycleJob \<Rightarrow> bool" where
  "job_ok uuid n j \<longleftrightarrow> 1 \<le> lj_MaxAttempts j \<and> 0 \<le> lj_Attempts j \<and> lj_Attempts j \<le> lj_MaxAttempts j \<and>
     (waiting j \<longrightarrow> lj_Attempts j < lj_MaxAttempts j) \<and>
     (lj_State j = LifecycleJobRunning \<longrightarrow> 1 \<le> lj_Attempts j \<and> lj_LeaseToken j \<in> uuid ` {..<n} \<and> 0 < lj_LeaseExpiresAt j) \<and>
     (lj_State j \<noteq> LifecycleJobRunning \<longrightarrow> lj_LeaseToken j = [])"

text \<open>Two jobs that may not both be in the queue under different keys.\<close>

definition clash :: "LifecycleJob \<Rightarrow> LifecycleJob \<Rightarrow> bool" where
  "clash j j' \<longleftrightarrow> lj_ID j = lj_ID j' \<or> lj_CreatedAt j = lj_CreatedAt j' \<or>
     lj_State j = LifecycleJobRunning \<and> lj_State j' = LifecycleJobRunning \<and>
     (lj_RepositoryID j = lj_RepositoryID j' \<or> lj_LeaseToken j = lj_LeaseToken j')"

definition jobKey :: "LifecycleJob \<Rightarrow> string" where
  "jobKey j = lifecycleJobKey (lj_RepositoryID j) (lj_Kind j) (lj_IdempotencyKey j)"

definition jobs_ok :: "(nat \<Rightarrow> string) \<Rightarrow> nat \<Rightarrow> gotime \<Rightarrow> LifecycleJob gomap \<Rightarrow> bool" where
  "jobs_ok uuid n latest m \<longleftrightarrow> gm_ok m \<and>
     (\<forall>k j. gm_get m k = Some j \<longrightarrow> jobKey j = k \<and> job_ok uuid n j \<and> lj_CreatedAt j \<le> latest) \<and>
     (\<forall>k k' j j'. gm_get m k = Some j \<longrightarrow> gm_get m k' = Some j' \<longrightarrow> clash j j' \<longrightarrow> k = k')"

definition lifecycle_ok :: "(nat \<Rightarrow> string) \<Rightarrow> 'z lifecycle_store_scheme \<Rightarrow> bool" where
  "lifecycle_ok uuid s \<longleftrightarrow> jobs_ok uuid (uuidsDrawn s) (lifecycleCreatedAt s) (lifecycleJobs s)"

lemma jobs_okD:
  assumes "jobs_ok uuid n latest m"
  shows "gm_ok m" and "gm_get m k = Some j \<Longrightarrow> jobKey j = k" and "gm_get m k = Some j \<Longrightarrow> job_ok uuid n j"
    and "gm_get m k = Some j \<Longrightarrow> lj_CreatedAt j \<le> latest"
    and "gm_get m k = Some j \<Longrightarrow> gm_get m k' = Some j' \<Longrightarrow> clash j j' \<Longrightarrow> k = k'"
  using assms unfolding jobs_ok_def by blast+

lemma clash_sym: "clash j j' \<Longrightarrow> clash j' j"
  by (auto simp: clash_def)

lemma job_ok_mono: "job_ok uuid n j \<Longrightarrow> n \<le> n' \<Longrightarrow> job_ok uuid n' j"
  by (auto simp: job_ok_def)

lemma jobs_ok_mono: "jobs_ok uuid n latest m \<Longrightarrow> n \<le> n' \<Longrightarrow> latest \<le> latest' \<Longrightarrow> jobs_ok uuid n' latest' m"
  unfolding jobs_ok_def by (auto intro: job_ok_mono order_trans)

lemma jobs_ok_put:
  assumes "jobs_ok uuid n latest m" and "jobKey j = k" and "job_ok uuid n' j" and "lj_CreatedAt j \<le> latest'"
    and "n \<le> n'" and "latest \<le> latest'" and "\<And>k' j'. gm_get m k' = Some j' \<Longrightarrow> clash j j' \<Longrightarrow> k' = k"
  shows "jobs_ok uuid n' latest' (gm_put k j m)"
proof -
  note ok = jobs_ok_mono [OF assms(1,5,6)]
  show ?thesis
    unfolding jobs_ok_def
  proof (intro conjI allI impI)
    fix a b x y
    assume "gm_get (gm_put k j m) a = Some x" "gm_get (gm_put k j m) b = Some y" "clash x y"
    then show "a = b"
      using assms(7) jobs_okD(5) [OF ok] clash_sym by (auto split: if_splits)
  qed (use assms(2-4) jobs_okD(2-4) [OF ok] in \<open>auto simp: jobs_okD(1) [OF ok] split: if_splits\<close>)
qed

text \<open>Rewriting a stored job without starting it, and without touching its lease.\<close>

lemma jobs_ok_rewrite:
  assumes "jobs_ok uuid n latest m" and "gm_get m k = Some old" and "jobKey j = jobKey old" and "lj_ID j = lj_ID old"
    and "lj_CreatedAt j = lj_CreatedAt old" and "job_ok uuid n j"
    and "lj_State j = LifecycleJobRunning \<Longrightarrow> lj_State old = LifecycleJobRunning \<and>
      lj_LeaseToken j = lj_LeaseToken old \<and> lj_RepositoryID j = lj_RepositoryID old"
  shows "jobs_ok uuid n latest (gm_put k j m)"
proof (rule jobs_ok_put [OF assms(1)])
  show "jobKey j = k" using assms(3) jobs_okD(2) [OF assms(1,2)] by simp
  show "lj_CreatedAt j \<le> latest" using assms(5) jobs_okD(4) [OF assms(1,2)] by simp
  show "k' = k" if "gm_get m k' = Some j'" "clash j j'" for k' j'
    using that jobs_okD(5) [OF assms(1,2) that(1)] assms(4,5,7) by (fastforce simp: clash_def)
qed (use assms(6) in simp_all)

section \<open>Frames\<close>

lemma fanOut_frame [simp]:
  "lifecycleJobs (fanOut uuid event vs s) = lifecycleJobs s"
  "lifecycleCreatedAt (fanOut uuid event vs s) = lifecycleCreatedAt s"
  for s :: "'z lifecycle_store_scheme"
  by (induction vs arbitrary: s) (simp_all add: Let_def)

lemma enqueue_frame [simp]:
  "lifecycleJobs (snd (enqueueWebhookEventLocked uuid now event s)) = lifecycleJobs s"
  "lifecycleCreatedAt (snd (enqueueWebhookEventLocked uuid now event s)) = lifecycleCreatedAt s"
  for s :: "'z lifecycle_store_scheme"
  by (simp_all add: enqueueWebhookEventLocked_def Let_def)

lemma storeFinishedJob_frame [simp]:
  "lifecycleJobs (storeFinishedJob e now k j s) = gm_put k j (lifecycleJobs s)"
  "lifecycleCreatedAt (storeFinishedJob e now k j s) = lifecycleCreatedAt s"
  by (simp_all add: storeFinishedJob_def Let_def split: option.splits)

lemma storeFinishedJob_draws: "uuidsDrawn s \<le> uuidsDrawn (storeFinishedJob e now k j s)"
proof -
  have "uuidsDrawn s \<le> uuidsDrawn (snd (enqueueWebhookEventLocked (env_UUID e) now ev
      (s\<lparr>lifecycleJobs := m, uuidsDrawn := Suc (uuidsDrawn s)\<rparr>)))" for ev m
    using enqueue_draws [of "s\<lparr>lifecycleJobs := m, uuidsDrawn := Suc (uuidsDrawn s)\<rparr>"] by (auto dest: Suc_leD)
  then show ?thesis
    by (simp add: storeFinishedJob_def Let_def split: option.splits)
qed

lemma storeFinishedJob_ok:
  assumes "lifecycle_ok uuid s" and "gm_get (lifecycleJobs s) k = Some old" and "jobKey j = jobKey old"
    and "lj_ID j = lj_ID old" and "lj_CreatedAt j = lj_CreatedAt old" and "job_ok uuid (uuidsDrawn s) j"
    and "lj_State j \<noteq> LifecycleJobRunning"
  shows "lifecycle_ok uuid (storeFinishedJob e now k j s)"
  using jobs_ok_rewrite [OF assms(1) [unfolded lifecycle_ok_def] assms(2-6)] assms(7)
    jobs_ok_mono storeFinishedJob_draws [of s e now k j]
  by (fastforce simp: lifecycle_ok_def)

lemma webhook_ok_jobs [simp]:
  "webhook_ok uuid (s\<lparr>lifecycleJobs := m\<rparr>) = webhook_ok uuid s"
  "webhook_ok uuid (s\<lparr>lifecycleCreatedAt := t\<rparr>) = webhook_ok uuid s"
  by (simp_all add: webhook_ok_def)

lemma storeFinishedJob_webhooks:
  "webhook_ok (env_UUID e) s \<Longrightarrow> webhook_ok (env_UUID e) (storeFinishedJob e now k j s)"
  by (auto simp: storeFinishedJob_def Let_def split: option.splits intro!: enqueue_ok webhook_ok_more_uuids)

section \<open>Transitions of one job\<close>

lemma failOrRetry_fields [simp]:
  "lj_ID (failOrRetry now j) = lj_ID j" "lj_CreatedAt (failOrRetry now j) = lj_CreatedAt j"
  "jobKey (failOrRetry now j) = jobKey j" "lj_LeaseToken (failOrRetry now j) = lj_LeaseToken j"
  "lj_State (failOrRetry now j) \<noteq> LifecycleJobRunning"
  by (simp_all add: failOrRetry_def jobKey_def)

lemma failOrRetry_ok:
  "1 \<le> lj_MaxAttempts j \<Longrightarrow> 0 \<le> lj_Attempts j \<Longrightarrow> lj_Attempts j \<le> lj_MaxAttempts j \<Longrightarrow> lj_LeaseToken j = [] \<Longrightarrow>
     job_ok uuid n (failOrRetry now j)"
  by (auto simp: job_ok_def failOrRetry_def waiting_def)

lemma expireJob_ok: "job_ok uuid n j \<Longrightarrow> job_ok uuid n (expireJob before j)"
  unfolding expireJob_def by (rule failOrRetry_ok) (auto simp: job_ok_def)

lemma expireJob_fields [simp]:
  "lj_ID (expireJob before j) = lj_ID j" "lj_CreatedAt (expireJob before j) = lj_CreatedAt j"
  "jobKey (expireJob before j) = jobKey j" "lj_State (expireJob before j) \<noteq> LifecycleJobRunning"
  "lj_LeaseToken (expireJob before j) = []"
  by (simp_all add: expireJob_def) (simp add: jobKey_def)

lemma startJob_ok:
  "job_ok uuid n j \<Longrightarrow> waiting j \<Longrightarrow> 0 \<le> now \<Longrightarrow> job_ok uuid (Suc n) (startJob now (uuid n) j)"
  by (auto simp: job_ok_def startJob_def waiting_def lifecycleJobLeaseDuration_def)

lemma startJob_fields [simp]:
  "lj_ID (startJob now t j) = lj_ID j" "lj_CreatedAt (startJob now t j) = lj_CreatedAt j"
  "jobKey (startJob now t j) = jobKey j" "lj_RepositoryID (startJob now t j) = lj_RepositoryID j"
  "lj_State (startJob now t j) = LifecycleJobRunning" "lj_LeaseToken (startJob now t j) = t"
  by (simp_all add: startJob_def jobKey_def)

lemma resetLifecycleJobForRetry_ok: "job_ok uuid n j \<Longrightarrow> job_ok uuid n (resetLifecycleJobForRetry now j)"
  by (auto simp: job_ok_def resetLifecycleJobForRetry_def waiting_def)

lemma resetLifecycleJobForRetry_fields [simp]:
  "lj_ID (resetLifecycleJobForRetry now j) = lj_ID j" "lj_CreatedAt (resetLifecycleJobForRetry now j) = lj_CreatedAt j"
  "jobKey (resetLifecycleJobForRetry now j) = jobKey j" "lj_State (resetLifecycleJobForRetry now j) = LifecycleJobPending"
  by (simp_all add: resetLifecycleJobForRetry_def jobKey_def)

lemma renewed_pos: "0 < current \<Longrightarrow> 0 < renewedLifecycleLeaseExpiry current now"
  by (simp add: renewedLifecycleLeaseExpiry_def Let_def)

lemma find_entry:
  "gm_ok m \<Longrightarrow> find P m = Some (k, j) \<Longrightarrow> gm_get m k = Some j \<and> P (k, j)"
  by (auto simp: gm_get_iff dest!: find_SomeD)

section \<open>Recovery\<close>

text \<open>The loop of the recovery over the entries it still has to visit.\<close>

definition recoverStep :: "env \<Rightarrow> gotime \<Rightarrow> string \<times> LifecycleJob \<Rightarrow> nat \<times> 'z lifecycle_store_scheme
    \<Rightarrow> nat \<times> 'z lifecycle_store_scheme" where
  "recoverStep e before = (\<lambda>(key, job) (recovered, s).
     if leaseRanOut before job
     then (Suc recovered, storeFinishedJob e before key (expireJob before job) s) else (recovered, s))"

lemma recover_fold: "recoverExpiredLifecycleJobsLocked e before s = fold (recoverStep e before) (lifecycleJobs s) (0, s)"
  by (simp add: recoverExpiredLifecycleJobsLocked_def recoverStep_def)

lemma recover_entries:
  assumes "lifecycle_ok (env_UUID e) s" and "distinct (map fst es)"
    and "\<forall>(k, j) \<in> set es. gm_get (lifecycleJobs s) k = Some j"
  shows "lifecycle_ok (env_UUID e) (snd (fold (recoverStep e before) es (c, s))) \<and>
    uuidsDrawn s \<le> uuidsDrawn (snd (fold (recoverStep e before) es (c, s))) \<and>
    lifecycleCreatedAt (snd (fold (recoverStep e before) es (c, s))) = lifecycleCreatedAt s \<and>
    (webhook_ok (env_UUID e) s \<longrightarrow> webhook_ok (env_UUID e) (snd (fold (recoverStep e before) es (c, s)))) \<and>
    (\<forall>k. gm_get (lifecycleJobs (snd (fold (recoverStep e before) es (c, s)))) k =
       (case map_of es k of
          Some j \<Rightarrow> Some (if leaseRanOut before j then expireJob before j else j)
        | None \<Rightarrow> gm_get (lifecycleJobs s) k))"
  using assms
proof (induction es arbitrary: s c)
  case (Cons p es)
  obtain k j where p: "p = (k, j)" by force
  have get: "gm_get (lifecycleJobs s) k = Some j" and new: "k \<notin> fst ` set es" and absent: "map_of es k = None"
    using Cons.prems(2,3) p by (auto simp: map_of_eq_None_iff)
  show ?case
  proof (cases "leaseRanOut before j")
    case True
    let ?s = "storeFinishedJob e before k (expireJob before j) s"
    have ok: "lifecycle_ok (env_UUID e) ?s"
      using Cons.prems(1) get jobs_okD(3) [of _ _ _ _ k j]
      by (intro storeFinishedJob_ok) (auto simp: lifecycle_ok_def expireJob_ok)
    have rest: "\<forall>(k, j) \<in> set es. gm_get (lifecycleJobs ?s) k = Some j"
      using Cons.prems(3) new by (auto simp: p rev_image_eqI)
    have "distinct (map fst es)"
      using Cons.prems(2) by simp
    note IH = Cons.IH [OF ok this rest, of "Suc c"]
    have step: "recoverStep e before p (c, s) = (Suc c, ?s)"
      using True by (simp add: recoverStep_def p)
    show ?thesis
      unfolding fold_simps step
      using IH absent True storeFinishedJob_draws [of s e before k "expireJob before j"] storeFinishedJob_webhooks [of e s]
      by (auto simp: p intro: order_trans split: option.splits)
  next
    case False
    then have step: "recoverStep e before p (c, s) = (c, s)"
      by (simp add: recoverStep_def p)
    show ?thesis
      unfolding fold_simps step using Cons.IH [of s c] Cons.prems False absent get
      by (auto simp: p split: option.splits)
  qed
qed simp

lemma recover_ok:
  assumes "lifecycle_ok (env_UUID e) s" and t_def: "t = snd (recoverExpiredLifecycleJobsLocked e before s)"
  shows "lifecycle_ok (env_UUID e) t" and "uuidsDrawn s \<le> uuidsDrawn t" and "lifecycleCreatedAt t = lifecycleCreatedAt s"
    and "webhook_ok (env_UUID e) s \<Longrightarrow> webhook_ok (env_UUID e) t"
    and "gm_get (lifecycleJobs t) k =
      map_option (\<lambda>j. if leaseRanOut before j then expireJob before j else j) (gm_get (lifecycleJobs s) k)"
proof -
  have gm: "gm_ok (lifecycleJobs s)"
    using assms(1) jobs_okD(1) by (auto simp: lifecycle_ok_def)
  then have "distinct (map fst (lifecycleJobs s))" and "\<forall>(k, j) \<in> set (lifecycleJobs s). gm_get (lifecycleJobs s) k = Some j"
    by (auto simp: gm_get_iff) (simp add: gm_ok_def)
  note all = recover_entries [OF assms(1) this, of before 0]
  show "lifecycle_ok (env_UUID e) t" "uuidsDrawn s \<le> uuidsDrawn t" "lifecycleCreatedAt t = lifecycleCreatedAt s"
    "webhook_ok (env_UUID e) s \<Longrightarrow> webhook_ok (env_UUID e) t"
    using all by (simp_all add: t_def recover_fold)
  show "gm_get (lifecycleJobs t) k =
      map_option (\<lambda>j. if leaseRanOut before j then expireJob before j else j) (gm_get (lifecycleJobs s) k)"
    using all by (auto simp: t_def recover_fold split: option.splits)
qed

section \<open>Claiming\<close>

lemma unused_token:
  assumes "fresh_uuids uuid" and "jobs_ok uuid n latest m" and "gm_get m k = Some j" and "lj_State j = LifecycleJobRunning"
    and "n \<le> i"
  shows "lj_LeaseToken j \<noteq> uuid i"
proof
  assume eq: "lj_LeaseToken j = uuid i"
  have "lj_LeaseToken j \<in> uuid ` {..<n}"
    using jobs_okD(3) [OF assms(2,3)] assms(4) by (simp add: job_ok_def)
  with eq assms(1,5) show False
    by (auto simp: fresh_uuids_def dest!: injD)
qed

text \<open>Starting one waiting job of an idle repository.\<close>

lemma start_one_ok:
  assumes "fresh_uuids uuid" and "0 \<le> now" and "lifecycle_ok uuid s" and "gm_get (lifecycleJobs s) k = Some j"
    and "waiting j"
    and "\<And>k' j'. gm_get (lifecycleJobs s) k' = Some j' \<Longrightarrow> lj_State j' = LifecycleJobRunning \<Longrightarrow>
      lj_RepositoryID j' \<noteq> lj_RepositoryID j"
  shows "lifecycle_ok uuid (s\<lparr>uuidsDrawn := Suc (uuidsDrawn s),
    lifecycleJobs := gm_put k (startJob now (uuid (uuidsDrawn s)) j) (lifecycleJobs s)\<rparr>)"
proof -
  note ok = assms(3) [unfolded lifecycle_ok_def]
  have "k' = k" if "gm_get (lifecycleJobs s) k' = Some j'" "clash (startJob now (uuid (uuidsDrawn s)) j) j'" for k' j'
    using that jobs_okD(5) [OF ok that(1) assms(4)] assms(6) [OF that(1)] unused_token [OF assms(1) ok that(1)]
    by (fastforce simp: clash_def)
  then show ?thesis
    using jobs_okD(2-4) [OF ok assms(4)] ok assms(2,5)
    by (auto simp: lifecycle_ok_def intro!: jobs_ok_put startJob_ok)
qed

text \<open>
  What the claim loop returns and writes: \<open>claimed_from\<close> relates a returned job to its candidate.
\<close>

definition claimed_from :: "(nat \<Rightarrow> string) \<Rightarrow> gotime \<Rightarrow> nat \<Rightarrow> nat \<Rightarrow> (string \<times> LifecycleJob) list \<Rightarrow> LifecycleJob \<Rightarrow> bool" where
  "claimed_from uuid now lo hi ks j \<longleftrightarrow>
     (\<exists>i j0. lo \<le> i \<and> i < hi \<and> (jobKey j, j0) \<in> set ks \<and> j = startJob now (uuid i) j0)"

lemma claimed_from_mono:
  assumes "claimed_from uuid now lo hi ks j" and "lo' \<le> lo" and "set ks \<subseteq> set ks'"
  shows "claimed_from uuid now lo' hi ks' j"
proof -
  obtain i j0 where "lo \<le> i" "i < hi" "(jobKey j, j0) \<in> set ks" "j = startJob now (uuid i) j0"
    using assms(1) unfolding claimed_from_def by blast
  with assms(2,3) have "lo' \<le> i" "i < hi" "(jobKey j, j0) \<in> set ks'" "j = startJob now (uuid i) j0"
    by auto
  then show ?thesis
    unfolding claimed_from_def by blast
qed

lemma claimed_from_here: "lo < hi \<Longrightarrow> claimed_from uuid now lo hi ((jobKey j, j) # ks) (startJob now (uuid lo) j)"
  by (auto simp: claimed_from_def)

definition claim_result ::
  "(nat \<Rightarrow> string) \<Rightarrow> gotime \<Rightarrow> (string \<times> LifecycleJob) list \<Rightarrow> string list \<Rightarrow> nat \<Rightarrow> 'z lifecycle_store_scheme
     \<Rightarrow> LifecycleJob list \<Rightarrow> 'z lifecycle_store_scheme \<Rightarrow> bool" where
  "claim_result uuid now ks busy room s jobs t \<longleftrightarrow>
     lifecycle_ok uuid t \<and> length jobs \<le> room \<and> uuidsDrawn s \<le> uuidsDrawn t \<and>
     (\<forall>j \<in> set jobs. gm_get (lifecycleJobs t) (jobKey j) = Some j \<and> claimed_from uuid now (uuidsDrawn s) (uuidsDrawn t) ks j) \<and>
     (\<forall>k. k \<notin> jobKey ` set jobs \<longrightarrow> gm_get (lifecycleJobs t) k = gm_get (lifecycleJobs s) k) \<and>
     (length jobs < room \<longrightarrow> (\<forall>(k, j) \<in> set ks. lj_RepositoryID j \<in> set busy \<union> lj_RepositoryID ` set jobs)) \<and>
     webhookDeliveries t = webhookDeliveries s \<and> lifecycleCreatedAt t = lifecycleCreatedAt s"

lemma claim_result_skip:
  "claim_result uuid now ks busy room s jobs t \<Longrightarrow> lj_RepositoryID j \<in> set busy \<Longrightarrow>
     claim_result uuid now ((k, j) # ks) busy room s jobs t"
  by (auto simp: claim_result_def intro: claimed_from_mono)

lemma claim_result_take:
  assumes "claim_result uuid now ks (lj_RepositoryID j # busy) (room - 1) (s\<lparr>uuidsDrawn := Suc (uuidsDrawn s),
      lifecycleJobs := gm_put k (startJob now (uuid (uuidsDrawn s)) j) (lifecycleJobs s)\<rparr>) js t"
    and "0 < room" and "jobKey j = k" and "k \<notin> fst ` set ks"
  shows "claim_result uuid now ((k, j) # ks) busy room s (startJob now (uuid (uuidsDrawn s)) j # js) t"
proof -
  have "k \<notin> jobKey ` set js"
    using assms(1,4) by (fastforce simp: claim_result_def claimed_from_def image_iff)
  then have "gm_get (lifecycleJobs t) k = Some (startJob now (uuid (uuidsDrawn s)) j)"
    using assms(1) by (simp add: claim_result_def)
  then show ?thesis
    using assms by (auto simp: claim_result_def intro: claimed_from_here elim!: claimed_from_mono)
qed

lemma claimKeys_result:
  assumes "fresh_uuids uuid" and "0 \<le> now"
    and "lifecycle_ok uuid s" and "distinct (map fst ks)"
    and "\<forall>(k, j) \<in> set ks. gm_get (lifecycleJobs s) k = Some j \<and> waiting j"
    and "\<forall>k j. gm_get (lifecycleJobs s) k = Some j \<longrightarrow> lj_State j = LifecycleJobRunning \<longrightarrow> lj_RepositoryID j \<in> set busy"
  shows "claim_result uuid now ks busy room s (fst (claimKeys uuid now ks busy room s)) (snd (claimKeys uuid now ks busy room s))"
  using assms(3-)
proof (induction ks arbitrary: busy room s)
  case Nil
  then show ?case by (simp add: claim_result_def)
next
  case (Cons p ks)
  obtain k j where p: "p = (k, j)" by force
  have get: "gm_get (lifecycleJobs s) k = Some j" and wait: "waiting j" and new: "k \<notin> fst ` set ks"
    and dist: "distinct (map fst ks)" and tail: "\<forall>(k, j) \<in> set ks. gm_get (lifecycleJobs s) k = Some j \<and> waiting j"
    using Cons.prems(2,3) p by auto
  consider "room = 0" | "room \<noteq> 0" "lj_RepositoryID j \<in> set busy" | "0 < room" "lj_RepositoryID j \<notin> set busy"
    by blast
  then show ?case
  proof cases
    case 1
    with Cons.prems show ?thesis by (simp add: p claim_result_def)
  next
    case 2
    then show ?thesis
      using claim_result_skip [OF Cons.IH [OF Cons.prems(1) dist tail Cons.prems(4)]] by (simp add: p)
  next
    case 3
    let ?s = "s\<lparr>uuidsDrawn := Suc (uuidsDrawn s),
      lifecycleJobs := gm_put k (startJob now (uuid (uuidsDrawn s)) j) (lifecycleJobs s)\<rparr>"
    have "lifecycle_ok uuid ?s"
      using start_one_ok [OF assms(1,2) Cons.prems(1) get wait] Cons.prems(4) 3 by metis
    moreover have "\<forall>(k', j') \<in> set ks. gm_get (lifecycleJobs ?s) k' = Some j' \<and> waiting j'"
      using tail new by (auto simp: rev_image_eqI)
    moreover have "\<forall>k' j'. gm_get (lifecycleJobs ?s) k' = Some j' \<longrightarrow> lj_State j' = LifecycleJobRunning \<longrightarrow>
        lj_RepositoryID j' \<in> set (lj_RepositoryID j # busy)"
      using Cons.prems(4) by auto
    moreover have "jobKey j = k"
      using get jobs_okD(2) Cons.prems(1) by (auto simp: lifecycle_ok_def)
    ultimately show ?thesis
      using claim_result_take [OF Cons.IH [OF _ dist] 3(1) _ new] 3 by (simp add: p Let_def case_prod_beta)
  qed
qed

lemma claimLifecycleJobs_result:
  assumes "fresh_uuids (env_UUID e)" and "0 \<le> now" and "lifecycle_ok (env_UUID e) s"
    and "claimLifecycleJobs e now kind fmt limit s = (jobs, t)"
  defines "r \<equiv> snd (recoverExpiredLifecycleJobsLocked e now s)"
  shows "claim_result (env_UUID e) now
    (sort_key (\<lambda>(k, j). lj_CreatedAt j) (filter (\<lambda>(k, j). claimable now kind fmt j) (lifecycleJobs r)))
    (runningRepositories r) (if limit \<le> 0 then 100 else nat limit) r jobs t"
proof -
  note ok = recover_ok(1) [OF assms(3) refl, of now, folded r_def]
  have gm: "gm_ok (lifecycleJobs r)"
    using ok jobs_okD(1) by (auto simp: lifecycle_ok_def)
  have "distinct (map fst (sort_key (\<lambda>(k, j). lj_CreatedAt j) (filter (\<lambda>(k, j). claimable now kind fmt j) (lifecycleJobs r))))"
    using gm by (intro distinct_map_sort_filter) (simp add: gm_ok_def)
  note spec = claimKeys_result [OF assms(1,2) ok this, of "runningRepositories r" "if limit \<le> 0 then 100 else nat limit"]
  show ?thesis
    using spec gm assms(4)
    by (auto simp: claimLifecycleJobs_def Let_def r_def [symmetric] gm_get_iff claimable_def waiting_def runningRepositories_def
        image_iff split del: if_split) force+
qed

section \<open>Steps\<close>

text \<open>
  One rule per operation. Producers enqueue jobs they have not run yet, under an identifier no job
  carries; clocks read non-negative times.
\<close>

inductive lifecycle_step :: "env \<Rightarrow> 'z lifecycle_store_scheme \<Rightarrow> 'z lifecycle_store_scheme \<Rightarrow> bool" for e where
  enqueue: "EnqueueLifecycleJob now job s = (r, s') \<Longrightarrow> lj_Attempts job = 0 \<Longrightarrow> lj_LeaseToken job = [] \<Longrightarrow>
     \<forall>j \<in> set (gm_vals (lifecycleJobs s)). lj_ID j \<noteq> lj_ID job \<Longrightarrow> lifecycle_step e s s'"
| claim: "claimLifecycleJobs e now kind fmt limit s = (js, s') \<Longrightarrow> 0 \<le> now \<Longrightarrow> lifecycle_step e s s'"
| recover: "RecoverExpiredLifecycleJobs e before s = (n, s') \<Longrightarrow> lifecycle_step e s s'"
| run_now: "RunLifecycleJobNow now rid i s = (j, s') \<Longrightarrow> lifecycle_step e s s'"
| retry: "RetryLifecycleJob now rid i s = (j, s') \<Longrightarrow> lifecycle_step e s s'"
| cancel: "CancelLifecycleJob now rid i s = (j, s') \<Longrightarrow> lifecycle_step e s s'"
| requeue: "RequeueFailedLifecycleJobs now rid kind limit s = (js, s') \<Longrightarrow> lifecycle_step e s s'"
| progress: "UpdateLifecycleJobProgress now i token current tot msg s = (u, s') \<Longrightarrow> lifecycle_step e s s'"
| renew: "RenewLifecycleJobLease now i token s = (u, s') \<Longrightarrow> lifecycle_step e s s'"
| complete: "CompleteLifecycleJob e clk i token s = (u, s') \<Longrightarrow> lifecycle_step e s s'"
| fail: "FailLifecycleJob e clk i token msg s = (u, s') \<Longrightarrow> lifecycle_step e s s'"

lemma EnqueueLifecycleJob_cases:
  assumes "EnqueueLifecycleJob now job s = (r, s')"
  shows "s' = s \<or> (\<exists>job'. r = Inr (job', False) \<and> lj_ID job' = lj_ID job \<and> lj_State job' = LifecycleJobPending \<and>
    lj_Attempts job' = lj_Attempts job \<and> lj_LeaseToken job' = lj_LeaseToken job \<and> 1 \<le> lj_MaxAttempts job' \<and>
    lj_CreatedAt job' = (if \<not> now > lifecycleCreatedAt s then lifecycleCreatedAt s + 1 else now) \<and>
    s' = s\<lparr>lifecycleCreatedAt := lj_CreatedAt job', lifecycleJobs := gm_put (jobKey job') job' (lifecycleJobs s)\<rparr>)"
  using assms
  by (auto simp: EnqueueLifecycleJob_def Let_def jobKey_def DefaultLifecycleJobMaxAttempts_def split: option.splits if_splits)

lemma EnqueueLifecycleJob_ok:
  assumes "lifecycle_ok uuid s" and "EnqueueLifecycleJob now job s = (r, s')" and "lj_Attempts job = 0"
    and "lj_LeaseToken job = []" and "\<forall>j \<in> set (gm_vals (lifecycleJobs s)). lj_ID j \<noteq> lj_ID job"
  shows "lifecycle_ok uuid s'"
proof -
  note ok = assms(1) [unfolded lifecycle_ok_def]
  let ?at = "if \<not> now > lifecycleCreatedAt s then lifecycleCreatedAt s + 1 else now"
  have later: "lifecycleCreatedAt s < ?at" by simp
  have free: False if "gm_get (lifecycleJobs s) k = Some j'" "clash j j'" "lj_ID j = lj_ID job" "lj_CreatedAt j = ?at"
      "lj_State j = LifecycleJobPending" for j j' k
    using that assms(5) later jobs_okD(4) [OF ok that(1)] gm_get_vals [OF that(1)] by (fastforce simp: clash_def)
  from EnqueueLifecycleJob_cases [OF assms(2)] consider "s' = s" | job' where "lj_ID job' = lj_ID job"
    "lj_State job' = LifecycleJobPending" "job_ok uuid (uuidsDrawn s) job'" "lj_CreatedAt job' = ?at"
    "s' = s\<lparr>lifecycleCreatedAt := lj_CreatedAt job', lifecycleJobs := gm_put (jobKey job') job' (lifecycleJobs s)\<rparr>"
    using assms(3,4) by (fastforce simp: job_ok_def waiting_def)
  then show ?thesis
  proof cases
    case (2 job')
    have "jobs_ok uuid (uuidsDrawn s) (lj_CreatedAt job') (gm_put (jobKey job') job' (lifecycleJobs s))"
      using later 2(4) free [OF _ _ 2(1) 2(4) 2(2)] by (intro jobs_ok_put [OF ok refl 2(3)]) auto
    then show ?thesis
      by (simp add: 2(5) lifecycle_ok_def)
  qed (use assms(1) in simp)
qed

lemma rewrite_ok:
  assumes "lifecycle_ok uuid s" and "find P (lifecycleJobs s) = Some (k, old)" and "lj_ID j = lj_ID old"
    and "lj_CreatedAt j = lj_CreatedAt old" and "jobKey j = jobKey old"
    and "job_ok uuid (uuidsDrawn s) old \<Longrightarrow> job_ok uuid (uuidsDrawn s) j"
    and "lj_State j = LifecycleJobRunning \<Longrightarrow> lj_State old = LifecycleJobRunning \<and>
      lj_LeaseToken j = lj_LeaseToken old \<and> lj_RepositoryID j = lj_RepositoryID old"
  shows "lifecycle_ok uuid (s\<lparr>lifecycleJobs := gm_put k j (lifecycleJobs s)\<rparr>)"
proof -
  note ok = assms(1) [unfolded lifecycle_ok_def]
  have get: "gm_get (lifecycleJobs s) k = Some old"
    using find_entry [OF jobs_okD(1) [OF ok] assms(2)] by simp
  show ?thesis
    using jobs_ok_rewrite [OF ok get assms(5,3,4) _ assms(7)] assms(6) jobs_okD(3) [OF ok get]
    by (simp add: lifecycle_ok_def)
qed

lemma control_ok:
  assumes "lifecycle_ok uuid s" and "updateLifecycleJobControl rid i upd s = (r, s')"
    and "\<And>j j'. upd j = Inr j' \<Longrightarrow> lj_ID j' = lj_ID j \<and> lj_CreatedAt j' = lj_CreatedAt j \<and> jobKey j' = jobKey j \<and>
      (job_ok uuid (uuidsDrawn s) j \<longrightarrow> job_ok uuid (uuidsDrawn s) j') \<and> lj_State j' \<noteq> LifecycleJobRunning"
  shows "lifecycle_ok uuid s'"
  using assms by (auto simp: updateLifecycleJobControl_def split: option.splits sum.splits intro!: rewrite_ok)

lemma controls_ok:
  assumes "lifecycle_ok uuid s" and "RunLifecycleJobNow now rid i s = (r, s') \<or> RetryLifecycleJob now rid i s = (r, s') \<or>
      CancelLifecycleJob now rid i s = (r, s')"
  shows "lifecycle_ok uuid s'"
  using assms(2)
proof (elim disjE)
  assume "RunLifecycleJobNow now rid i s = (r, s')"
  then show ?thesis
    unfolding RunLifecycleJobNow_def
    by (rule control_ok [OF assms(1)]) (auto simp: job_ok_def waiting_def jobKey_def split: if_splits)
next
  assume "RetryLifecycleJob now rid i s = (r, s')"
  then show ?thesis
    unfolding RetryLifecycleJob_def
    by (rule control_ok [OF assms(1)]) (auto simp: resetLifecycleJobForRetry_ok split: if_splits)
next
  assume "CancelLifecycleJob now rid i s = (r, s')"
  then show ?thesis
    unfolding CancelLifecycleJob_def
    by (rule control_ok [OF assms(1)]) (auto simp: job_ok_def waiting_def jobKey_def split: if_splits)
qed

lemma reset_entries_ok:
  assumes "jobs_ok uuid n latest m" and "distinct (map fst es)" and "\<forall>(k, j) \<in> set es. gm_get m k = Some j"
  shows "jobs_ok uuid n latest (fold (\<lambda>(k, j) m. gm_put k (resetLifecycleJobForRetry now j) m) es m)"
  using assms
proof (induction es arbitrary: m)
  case (Cons p es)
  obtain k j where p: "p = (k, j)" by force
  have "gm_get m k = Some j" using Cons.prems(3) p by auto
  then have "jobs_ok uuid n latest (gm_put k (resetLifecycleJobForRetry now j) m)"
    using jobs_okD(3) [OF Cons.prems(1)] Cons.prems(1) by (auto intro!: jobs_ok_rewrite simp: resetLifecycleJobForRetry_ok)
  moreover have "\<forall>(k', j') \<in> set es. gm_get (gm_put k (resetLifecycleJobForRetry now j) m) k' = Some j'"
    using Cons.prems(2,3) by (auto simp: p rev_image_eqI)
  ultimately show ?case
    using Cons.IH Cons.prems(2) by (simp add: p)
qed simp

lemma requeue_ok:
  assumes "lifecycle_ok uuid s" and "RequeueFailedLifecycleJobs now rid kind limit s = (js, s')"
  shows "lifecycle_ok uuid s'"
proof -
  note ok = assms(1) [unfolded lifecycle_ok_def]
  let ?P = "\<lambda>(k, j). lj_RepositoryID j = rid \<and> lj_Kind j = kind \<and>
    (lj_State j = LifecycleJobFailed \<or> lj_State j = LifecycleJobCancelled)"
  let ?all = "sort_key (\<lambda>(k, j). lj_CreatedAt j) (filter ?P (lifecycleJobs s))"
  have "distinct (map fst ?all)"
    using jobs_okD(1) [OF ok] by (intro distinct_map_sort_filter) (simp add: gm_ok_def)
  then have "distinct (map fst (take n ?all))" for n
    by (simp add: take_map [symmetric])
  moreover have "\<forall>(k, j) \<in> set (take n ?all). gm_get (lifecycleJobs s) k = Some j" for n
    using jobs_okD(1) [OF ok] by (auto simp: gm_get_iff dest!: in_set_takeD)
  ultimately show ?thesis
    using reset_entries_ok [OF ok] assms(2) by (auto simp: RequeueFailedLifecycleJobs_def Let_def lifecycle_ok_def)
qed

lemma lease_ops_ok:
  assumes "lifecycle_ok uuid s" and "UpdateLifecycleJobProgress now i token current tot msg s = (u, s') \<or>
      RenewLifecycleJobLease now i token s = (u, s')"
  shows "lifecycle_ok uuid s'"
  using assms
  by (auto simp: UpdateLifecycleJobProgress_def RenewLifecycleJobLease_def Let_def jobKey_def job_ok_def waiting_def
      intro!: rewrite_ok renewed_pos split: if_splits option.splits)

text \<open>An accepted completion or failure: the job it found, and what it stored.\<close>

lemma finish_cases:
  assumes "lifecycle_ok uuid s"
    and "CompleteLifecycleJob e clk i token s = (Inr u, s') \<or> FailLifecycleJob e clk i token msg s = (Inr u, s')"
  shows "\<exists>k j j' at. gm_get (lifecycleJobs s) k = Some j \<and> lj_ID j = i \<and> lj_State j = LifecycleJobRunning \<and>
    lj_LeaseToken j = token \<and> s' = storeFinishedJob e at k j' s \<and> lj_ID j' = lj_ID j \<and>
    lj_CreatedAt j' = lj_CreatedAt j \<and> jobKey j' = jobKey j \<and> job_ok uuid (uuidsDrawn s) j' \<and>
    lj_State j' \<noteq> LifecycleJobRunning"
proof -
  note ok = assms(1) [unfolded lifecycle_ok_def]
  note entry = find_entry [OF jobs_okD(1) [OF ok]]
  from assms(2) show ?thesis
  proof
    assume "CompleteLifecycleJob e clk i token s = (Inr u, s')"
    then show ?thesis
      using jobs_okD(3) [OF ok]
      by (fastforce simp: CompleteLifecycleJob_def finishLifecycleJob_def Let_def job_ok_def waiting_def jobKey_def
          dest!: entry split: option.splits if_splits)
  next
    assume "FailLifecycleJob e clk i token msg s = (Inr u, s')"
    then obtain k j where kj: "gm_get (lifecycleJobs s) k = Some j" "lj_ID j = i" "lj_State j = LifecycleJobRunning"
        "lj_LeaseToken j = token" and
      s': "s' = storeFinishedJob e (clk 1) k (failOrRetry (clk 0)
        (j\<lparr>lj_LastError := msg, lj_LeaseExpiresAt := zeroTime, lj_LeaseToken := []\<rparr>)) s"
      by (auto simp: FailLifecycleJob_def Let_def dest!: entry split: option.splits)
    moreover have "job_ok uuid (uuidsDrawn s) (failOrRetry (clk 0)
        (j\<lparr>lj_LastError := msg, lj_LeaseExpiresAt := zeroTime, lj_LeaseToken := []\<rparr>))"
      using jobs_okD(3) [OF ok kj(1)] by (intro failOrRetry_ok) (auto simp: job_ok_def)
    moreover have "jobKey (failOrRetry (clk 0) (j\<lparr>lj_LastError := msg, lj_LeaseExpiresAt := zeroTime, lj_LeaseToken := []\<rparr>)) = jobKey j"
      by (simp, simp add: jobKey_def)
    ultimately show ?thesis
      by (intro exI [of _ k] exI [of _ j] exI conjI) (assumption | simp)+
  qed
qed

lemma finish_err:
  "CompleteLifecycleJob e clk i token s = (Inl err, s') \<Longrightarrow> s' = s"
  "FailLifecycleJob e clk i token msg s = (Inl err, s') \<Longrightarrow> s' = s"
  by (auto simp: CompleteLifecycleJob_def finishLifecycleJob_def FailLifecycleJob_def Let_def
      split: option.splits if_splits)

lemma finish_jobs_ok:
  assumes "lifecycle_ok uuid s"
    and "CompleteLifecycleJob e clk i token s = (u, s') \<or> FailLifecycleJob e clk i token msg s = (u, s')"
  shows "lifecycle_ok uuid s'"
proof (cases u)
  case (Inl err)
  with assms finish_err show ?thesis by metis
next
  case (Inr x)
  then obtain k j j' at where "gm_get (lifecycleJobs s) k = Some j" "s' = storeFinishedJob e at k j' s"
    "lj_ID j' = lj_ID j" "lj_CreatedAt j' = lj_CreatedAt j" "jobKey j' = jobKey j" "job_ok uuid (uuidsDrawn s) j'"
    "lj_State j' \<noteq> LifecycleJobRunning"
    using finish_cases [OF assms(1)] assms(2) by blast
  then show ?thesis
    using storeFinishedJob_ok [OF assms(1)] by simp
qed

lemma lifecycle_step_ok:
  assumes "fresh_uuids (env_UUID e)" and "lifecycle_step e s t" and "lifecycle_ok (env_UUID e) s"
  shows "lifecycle_ok (env_UUID e) t"
  using assms(2,3)
proof (induction rule: lifecycle_step.induct)
  case (enqueue now job s r s')
  then show ?case using EnqueueLifecycleJob_ok by blast
next
  case (claim now kind fmt limit s js s')
  from claimLifecycleJobs_result [OF assms(1) claim(2,3,1)] show ?case by (simp add: claim_result_def)
next
  case (recover before s n s')
  then show ?case using recover_ok(1) by (metis RecoverExpiredLifecycleJobs_def snd_conv)
next
  case (requeue now rid kind limit s js s')
  then show ?case using requeue_ok by blast
next
  case (run_now now rid i s j s')
  from run_now(1) show ?case by (rule controls_ok [OF run_now(2) disjI1])
next
  case (retry now rid i s j s')
  from retry(1) show ?case by (rule controls_ok [OF retry(2) disjI2 [OF disjI1]])
next
  case (cancel now rid i s j s')
  from cancel(1) show ?case by (rule controls_ok [OF cancel(2) disjI2 [OF disjI2]])
next
  case (progress now i token current tot msg s u s')
  from progress(1) show ?case by (rule lease_ops_ok [OF progress(2) disjI1])
next
  case (renew now i token s u s')
  from renew(1) show ?case by (rule lease_ops_ok [OF renew(2) disjI2])
next
  case (complete clk i token s u s')
  from complete(1) show ?case by (rule finish_jobs_ok [OF complete(2) disjI1])
next
  case (fail clk i token msg s u s')
  from fail(1) show ?case by (rule finish_jobs_ok [OF fail(2) disjI2])
qed

end
