(* ===== verification/LifecycleProps.thy ===== *)
theory LifecycleProps
  imports LifecycleLaws
begin

text \<open>
  The properties of the lifecycle queue and of its runtime, over the invariant and the outcome
  lemmas of \<^verbatim>\<open>LifecycleLaws\<close>: the lease contract, idempotent enqueueing, and the contract between
  the runtime and any store it executes against.
\<close>

section \<open>Leases of jobs\<close>

definition jobHolder :: "'z lifecycle_store_scheme \<Rightarrow> string \<Rightarrow> string option" where
  "jobHolder s i =
     (case find (\<lambda>(k, j). lj_ID j = i) (lifecycleJobs s) of
        Some (k, j) \<Rightarrow> if lj_State j = LifecycleJobRunning then Some (lj_LeaseToken j) else None
      | None \<Rightarrow> None)"

datatype job_report = JobDone "nat \<Rightarrow> gotime" | JobBroke "nat \<Rightarrow> gotime" string

fun reportJob :: "env \<Rightarrow> job_report \<Rightarrow> string \<Rightarrow> string \<Rightarrow> 'z lifecycle_store_scheme \<Rightarrow> unit result \<times> 'z lifecycle_store_scheme" where
  "reportJob e (JobDone clk) i token s = CompleteLifecycleJob e clk i token s"
| "reportJob e (JobBroke clk msg) i token s = FailLifecycleJob e clk i token msg s"

lemma find_by_id:
  assumes "jobs_ok uuid n latest m" and "gm_get m k = Some j"
  shows "find (\<lambda>(k', j'). lj_ID j' = lj_ID j) m = Some (k, j)"
proof (cases "find (\<lambda>(k', j'). lj_ID j' = lj_ID j) m")
  case None
  with gm_get_in [OF assms(2)] show ?thesis
    by (force simp: find_None_iff)
next
  case (Some p)
  obtain k' j' where p: "p = (k', j')" by force
  with Some have "gm_get m k' = Some j'" and "lj_ID j' = lj_ID j"
    using find_entry [OF jobs_okD(1) [OF assms(1)]] by auto
  moreover from this have "k' = k"
    using jobs_okD(5) [OF assms(1) _ assms(2)] by (auto simp: clash_def)
  ultimately show ?thesis
    using Some p assms(2) by simp
qed

lemma reportJob_cases:
  assumes "lifecycle_ok uuid s" and "reportJob e r i token s = (Inr u, s')"
  shows "jobHolder s i = Some token \<and> jobHolder s' i = None \<and> lifecycle_ok uuid s'"
proof -
  have rep: "CompleteLifecycleJob e (case r of JobDone c \<Rightarrow> c | JobBroke c m \<Rightarrow> c) i token s = (Inr u, s') \<or>
      FailLifecycleJob e (case r of JobDone c \<Rightarrow> c | JobBroke c m \<Rightarrow> c) i token (case r of JobDone c \<Rightarrow> [] | JobBroke c m \<Rightarrow> m) s = (Inr u, s')"
    using assms(2) by (cases r) auto
  note ok' = finish_jobs_ok [OF assms(1) rep]
  obtain k j j' at where kj: "gm_get (lifecycleJobs s) k = Some j" "lj_ID j = i" "lj_State j = LifecycleJobRunning"
      "lj_LeaseToken j = token" and s': "s' = storeFinishedJob e at k j' s" "lj_ID j' = lj_ID j" "lj_State j' \<noteq> LifecycleJobRunning"
    using finish_cases [OF assms(1) rep] by blast
  have "gm_get (lifecycleJobs s') k = Some j'"
    by (simp add: s')
  note find_by_id [OF ok' [unfolded lifecycle_ok_def] this]
  then have "jobHolder s' i = None"
    using s'(2,3) kj(2) by (simp add: jobHolder_def)
  moreover have "jobHolder s i = Some token"
    using find_by_id [OF assms(1) [unfolded lifecycle_ok_def] kj(1)] kj by (simp add: jobHolder_def)
  ultimately show ?thesis
    using ok' by simp
qed

lemma reportJob_err: "reportJob e r i token s = (Inl err, s') \<Longrightarrow> s' = s"
  by (cases r) (auto dest: finish_err)

interpretation job_lease: lease_fence
  "jobHolder :: 'z lifecycle_store_scheme \<Rightarrow> string \<Rightarrow> string option" "reportJob e" "lifecycle_ok (env_UUID e)" for e
proof unfold_locales
  show "jobHolder s i = Some t \<and> jobHolder s' i = None"
    if "lifecycle_ok (env_UUID e) s" "reportJob e c i t s = (Inr r, s')" for s :: "'z lifecycle_store_scheme" and s' c i t r
    using reportJob_cases [OF that] by blast
  show "s' = s" if "reportJob e c i t s = (Inl err, s')" for s :: "'z lifecycle_store_scheme" and s' c i t err
    using that by (rule reportJob_err)
  show "lifecycle_ok (env_UUID e) s'"
    if "lifecycle_ok (env_UUID e) s" "reportJob e c i t s = (Inr r, s')" for s :: "'z lifecycle_store_scheme" and s' c i t r
    using reportJob_cases [OF that] by blast
qed

section \<open>Idempotent enqueueing\<close>

definition keyedJob :: "LifecycleJob \<Rightarrow> string \<times> LifecycleJobKind \<times> string \<Rightarrow> document \<Rightarrow> LifecycleJob" where
  "keyedJob job key payload =
     job\<lparr>lj_RepositoryID := fst key, lj_Kind := fst (snd key), lj_IdempotencyKey := snd (snd key), lj_Payload := payload\<rparr>"

definition enqueuedAt :: "'z lifecycle_store_scheme \<Rightarrow> string \<times> LifecycleJobKind \<times> string \<Rightarrow> LifecycleJob option" where
  "enqueuedAt s key = gm_get (lifecycleJobs s) (lifecycleJobKey (fst key) (fst (snd key)) (snd (snd key)))"

lemma equivalent_refl [simp]: "equivalentLifecyclePayload p p"
  by (cases p) (simp_all add: equivalentLifecyclePayload_def)

lemma EnqueueLifecycleJob_new:
  assumes "EnqueueLifecycleJob now job s = (Inr (j, b), s')" and "gm_get (lifecycleJobs s) (jobKey job) = None"
  shows "\<not> b \<and> gm_get (lifecycleJobs s') (jobKey job) = Some j \<and> lj_Payload j = lj_Payload job"
  using assms by (auto simp: EnqueueLifecycleJob_def jobKey_def Let_def split: if_splits)

lemma keyedJob_key [simp]: "jobKey (keyedJob job key payload) = lifecycleJobKey (fst key) (fst (snd key)) (snd (snd key))"
  "lj_Payload (keyedJob job key payload) = payload"
  by (simp_all add: keyedJob_def jobKey_def)

interpretation job_once: idempotent_create
  "\<lambda>now job key payload. EnqueueLifecycleJob now (keyedJob job key payload)"
  "\<lambda>(now :: gotime) (s :: 'z lifecycle_store_scheme) key. map_option (\<lambda>j. (lj_Payload j, key)) (enqueuedAt s key)"
  equivalentLifecyclePayload "\<lambda>s key. the (enqueuedAt s key)"
proof unfold_locales
  fix now job and s :: "'z lifecycle_store_scheme" and key q r b s'
  assume none: "map_option (\<lambda>j. (lj_Payload j, key)) (enqueuedAt s key) = None"
    and "EnqueueLifecycleJob now (keyedJob job key q) s = (Inr (r, b), s')"
  then have "\<not> b \<and> enqueuedAt s' key = Some r \<and> lj_Payload r = q"
    using EnqueueLifecycleJob_new [of now "keyedJob job key q" s r b s'] by (simp add: enqueuedAt_def)
  then show "\<not> b \<and> (\<exists>i. (\<forall>c'. map_option (\<lambda>j. (lj_Payload j, key)) (enqueuedAt s' key) = None \<or>
      map_option (\<lambda>j. (lj_Payload j, key)) (enqueuedAt s' key) = Some (q, i)) \<and> the (enqueuedAt s' i) = r)"
    by (intro conjI exI [of _ key]) simp_all
qed (auto simp: EnqueueLifecycleJob_def enqueuedAt_def keyedJob_def Let_def)

text \<open>What is filed under a key stays filed under it: the identifier and the payload of a job never change.\<close>

definition labels :: "LifecycleJob gomap \<Rightarrow> string \<Rightarrow> (string \<times> document) option" where
  "labels m k = map_option (\<lambda>j. (lj_ID j, lj_Payload j)) (gm_get m k)"

definition relabels :: "LifecycleJob gomap \<Rightarrow> LifecycleJob gomap \<Rightarrow> bool" where
  "relabels m m' \<longleftrightarrow> gm_ok m' \<and> labels m' = labels m"

lemma relabels_put:
  "gm_ok m \<Longrightarrow> labels m k = Some (lj_ID j, lj_Payload j) \<Longrightarrow> relabels m (gm_put k j m)"
  by (auto simp: relabels_def labels_def fun_eq_iff)

lemma relabels_trans: "relabels m m' \<Longrightarrow> relabels m' m'' \<Longrightarrow> relabels m m''"
  by (simp add: relabels_def)

lemma relabels_same: "gm_ok m \<Longrightarrow> relabels m m"
  by (simp add: relabels_def)

definition labelled :: "LifecycleJob gomap \<Rightarrow> (string \<times> LifecycleJob) list \<Rightarrow> bool" where
  "labelled m es \<longleftrightarrow> (\<forall>(k, j) \<in> set es. labels m k = Some (lj_ID j, lj_Payload j))"

lemma labelled_entries: "gm_ok m \<Longrightarrow> set es \<subseteq> set m \<Longrightarrow> labelled m es"
  by (fastforce simp: labelled_def labels_def gm_get_iff)

lemma labelled_Cons [simp]: "labelled m ((k, j) # es) \<longleftrightarrow> labels m k = Some (lj_ID j, lj_Payload j) \<and> labelled m es"
  by (simp add: labelled_def)

lemma labelled_cong: "relabels m m' \<Longrightarrow> labelled m' es = labelled m es"
  by (simp add: labelled_def relabels_def)

lemma find_relabels:
  assumes "gm_ok m" "find P m = Some (k, j0)" "lj_ID j = lj_ID j0" "lj_Payload j = lj_Payload j0"
  shows "relabels m (gm_put k j m)"
  by (rule relabels_put) (use assms find_entry [OF assms(1,2)] in \<open>simp_all add: labels_def\<close>)

lemma failOrRetry_label [simp]: "lj_ID (failOrRetry now j) = lj_ID j" "lj_Payload (failOrRetry now j) = lj_Payload j"
  "lj_ID (expireJob now j) = lj_ID j" "lj_Payload (expireJob now j) = lj_Payload j"
  "lj_ID (startJob now t j) = lj_ID j" "lj_Payload (startJob now t j) = lj_Payload j"
  "lj_Payload (resetLifecycleJobForRetry now j) = lj_Payload j"
  by (simp_all add: failOrRetry_def expireJob_def startJob_def resetLifecycleJobForRetry_def)

lemma recover_relabels:
  "gm_ok (lifecycleJobs s) \<Longrightarrow> labelled (lifecycleJobs s) es \<Longrightarrow>
     relabels (lifecycleJobs s) (lifecycleJobs (snd (fold (recoverStep e before) es (c, s))))"
proof (induction es arbitrary: c s)
  case (Cons p es)
  obtain k j where p: "p = (k, j)" by force
  obtain c1 s1 where step: "recoverStep e before p (c, s) = (c1, s1)" by force
  have "relabels (lifecycleJobs s) (lifecycleJobs s1)"
    using step Cons.prems relabels_put [of "lifecycleJobs s" k "expireJob before j"]
    by (auto simp: recoverStep_def p relabels_same split: if_splits)
  with Cons.IH [of s1 c1] Cons.prems show ?case
    using labelled_cong [of "lifecycleJobs s" "lifecycleJobs s1" es] step
    by (auto simp: p relabels_def)
qed (simp add: relabels_same)

lemma claim_relabels:
  "gm_ok (lifecycleJobs s) \<Longrightarrow> labelled (lifecycleJobs s) es \<Longrightarrow>
     relabels (lifecycleJobs s) (lifecycleJobs (snd (claimKeys uuid now es busy room s)))"
proof (induction uuid now es busy room s rule: claimKeys.induct)
  case (2 uuid now k j es busy room s)
  let ?j = "startJob now (uuid (uuidsDrawn s)) j"
  have put: "relabels (lifecycleJobs s) (gm_put k ?j (lifecycleJobs s))"
    by (rule relabels_put) (use "2.prems" in simp_all)
  then have "gm_ok (gm_put k ?j (lifecycleJobs s))" "labelled (gm_put k ?j (lifecycleJobs s)) es"
    using "2.prems" labelled_cong [OF put] by (simp_all add: relabels_def)
  then show ?case
    using 2 put by (auto simp: Let_def case_prod_beta relabels_same intro: relabels_trans)
qed (simp add: relabels_same)

lemma recovered_relabels:
  "gm_ok (lifecycleJobs s) \<Longrightarrow> relabels (lifecycleJobs s) (lifecycleJobs (snd (recoverExpiredLifecycleJobsLocked e before s)))"
  unfolding recover_fold by (rule recover_relabels) (simp_all add: labelled_entries)

lemma claimed_relabels:
  assumes "gm_ok (lifecycleJobs s)"
  shows "relabels (lifecycleJobs s) (lifecycleJobs (snd (claimLifecycleJobs e now kind fmt limit s)))"
proof -
  let ?r = "snd (recoverExpiredLifecycleJobsLocked e now s)"
  note r = recovered_relabels [OF assms, of e now]
  then have "gm_ok (lifecycleJobs ?r)" by (simp add: relabels_def)
  then show ?thesis
    unfolding claimLifecycleJobs_def Let_def by (intro relabels_trans [OF r] claim_relabels labelled_entries) auto
qed

lemma requeued_relabels:
  assumes "gm_ok m" "labelled m es"
  shows "relabels m (fold (\<lambda>(k, j) m. gm_put k (resetLifecycleJobForRetry now j) m) es m)"
  using assms
proof (induction es arbitrary: m)
  case (Cons p es)
  obtain k j where p: "p = (k, j)" by force
  have put: "relabels m (gm_put k (resetLifecycleJobForRetry now j) m)"
    by (rule relabels_put) (use Cons.prems p in simp_all)
  from Cons.IH [of "gm_put k (resetLifecycleJobForRetry now j) m"] show ?case
    using put Cons.prems labelled_cong [OF put, of es] p relabels_trans [OF put] by simp
qed (simp add: relabels_same)

lemma control_relabels:
  assumes "gm_ok (lifecycleJobs s)" "\<And>j j'. upd j = Inr j' \<Longrightarrow> lj_ID j' = lj_ID j \<and> lj_Payload j' = lj_Payload j"
  shows "relabels (lifecycleJobs s) (lifecycleJobs (snd (updateLifecycleJobControl rid i upd s)))"
  using find_relabels [OF assms(1)] assms(2)
  by (auto simp: updateLifecycleJobControl_def relabels_same assms(1) split: option.splits sum.splits)

lemma enqueue_labels:
  "gm_ok (lifecycleJobs s) \<Longrightarrow> gm_ok (lifecycleJobs (snd (EnqueueLifecycleJob now job s))) \<and>
     labels (lifecycleJobs s) \<subseteq>\<^sub>m labels (lifecycleJobs (snd (EnqueueLifecycleJob now job s)))"
  by (auto simp: EnqueueLifecycleJob_def Let_def map_le_def labels_def dom_def split: option.splits)

text \<open>The steps other than enqueueing keep every label.\<close>

lemma step_labels:
  assumes "lifecycle_step e s s'" "gm_ok (lifecycleJobs s)"
  shows "gm_ok (lifecycleJobs s') \<and> labels (lifecycleJobs s) \<subseteq>\<^sub>m labels (lifecycleJobs s')"
proof -
  have keep: ?thesis if "relabels (lifecycleJobs s) (lifecycleJobs s')" using that by (simp add: relabels_def)
  note gm = assms(2)
  from assms(1) show ?thesis
  proof cases
    case (enqueue now job r)
    then show ?thesis using enqueue_labels [OF gm, of now job] by simp
  next
    case (claim now kind fmt limit js)
    then show ?thesis using claimed_relabels [OF gm, of e now kind fmt limit] by (intro keep) simp
  next
    case (recover before n)
    then show ?thesis using recovered_relabels [OF gm, of e before] by (intro keep) (simp add: RecoverExpiredLifecycleJobs_def)
  next
    case (run_now now rid i j)
    have "relabels (lifecycleJobs s) (lifecycleJobs (snd (RunLifecycleJobNow now rid i s)))"
      unfolding RunLifecycleJobNow_def by (rule control_relabels [OF gm]) (auto split: if_splits)
    then show ?thesis using run_now by (intro keep) simp
  next
    case (retry now rid i j)
    have "relabels (lifecycleJobs s) (lifecycleJobs (snd (RetryLifecycleJob now rid i s)))"
      unfolding RetryLifecycleJob_def by (rule control_relabels [OF gm]) (auto split: if_splits)
    then show ?thesis using retry by (intro keep) simp
  next
    case (cancel now rid i j)
    have "relabels (lifecycleJobs s) (lifecycleJobs (snd (CancelLifecycleJob now rid i s)))"
      unfolding CancelLifecycleJob_def by (rule control_relabels [OF gm]) (auto split: if_splits)
    then show ?thesis using cancel by (intro keep) simp
  next
    case (requeue now rid kind limit js)
    have sub: "set (take n (sort_key f (filter P xs))) \<subseteq> set xs" for n f P and xs :: "(string \<times> LifecycleJob) list"
      using set_take_subset [of n "sort_key f (filter P xs)"] by auto
    show ?thesis
      using requeue requeued_relabels [OF gm labelled_entries [OF gm sub]] by (intro keep) (auto simp: RequeueFailedLifecycleJobs_def Let_def)
  next
    case (progress now i token current tot msg u)
    then show ?thesis
      using gm by (intro keep) (auto simp: UpdateLifecycleJobProgress_def Let_def relabels_same labels_def intro!: relabels_put dest!: find_entry [OF gm] split: if_splits option.splits)
  next
    case (renew now i token u)
    then show ?thesis
      using gm by (intro keep) (auto simp: RenewLifecycleJobLease_def Let_def relabels_same labels_def intro!: relabels_put dest!: find_entry [OF gm] split: option.splits)
  next
    case (complete clk i token u)
    then show ?thesis
      using gm by (intro keep) (auto simp: CompleteLifecycleJob_def finishLifecycleJob_def Let_def relabels_same labels_def intro!: relabels_put dest!: find_entry [OF gm] split: option.splits if_splits)
  next
    case (fail clk i token msg u)
    then show ?thesis
      using gm by (intro keep) (auto simp: FailLifecycleJob_def Let_def relabels_same labels_def intro!: relabels_put dest!: find_entry [OF gm] split: option.splits)
  qed
qed

lemma steps_labels:
  assumes "(lifecycle_step e)\<^sup>*\<^sup>* s t" "gm_ok (lifecycleJobs s)"
  shows "gm_ok (lifecycleJobs t) \<and> labels (lifecycleJobs s) \<subseteq>\<^sub>m labels (lifecycleJobs t)"
  using assms by induction (auto dest: step_labels intro: map_le_trans)

section \<open>The contract between the runtime and its store\<close>

text \<open>
  \<open>held s j\<close>: the store still has job \<open>j\<close> running under the token it was claimed with; \<open>issued s j\<close>: that
  token has been handed out, so the store will not draw it again. Every operation keeps the store's
  invariant and never brings back a lease that was issued and lost.
\<close>

definition keeps :: "('s \<Rightarrow> bool) \<Rightarrow> ('s \<Rightarrow> LifecycleJob \<Rightarrow> bool) \<Rightarrow> ('s \<Rightarrow> LifecycleJob \<Rightarrow> bool) \<Rightarrow> 's \<Rightarrow> 's \<Rightarrow> bool" where
  "keeps safe issued held s t \<longleftrightarrow> safe t \<and> (\<forall>j. issued s j \<longrightarrow> issued t j \<and> (held t j \<longrightarrow> held s j))"

locale job_executor =
  fixes st :: "'s job_store" and safe :: "'s \<Rightarrow> bool" and issued held :: "'s \<Rightarrow> LifecycleJob \<Rightarrow> bool"
  assumes claim_keeps: "safe s \<Longrightarrow> st_Claim st kind fmt limit s = (res, t) \<Longrightarrow> keeps safe issued held s t"
    and claim_jobs: "safe s \<Longrightarrow> 0 < limit \<Longrightarrow> st_Claim st kind fmt limit s = (Inr jobs, t) \<Longrightarrow>
      int (length jobs) \<le> limit \<and> (\<forall>j \<in> set jobs. issued t j)"
    and progress_keeps: "safe s \<Longrightarrow> st_Progress st i tok cur tot msg s = (res', t) \<Longrightarrow> keeps safe issued held s t"
    and complete_keeps: "safe s \<Longrightarrow> st_Complete st i tok s = (res', t) \<Longrightarrow> keeps safe issued held s t"
    and fail_keeps: "safe s \<Longrightarrow> st_Fail st i tok msg s = (res', t) \<Longrightarrow> keeps safe issued held s t"
    and complete_releases: "safe s \<Longrightarrow> issued s j \<Longrightarrow> st_Complete st (lj_ID j) (lj_LeaseToken j) s = (Inr u, t) \<Longrightarrow> \<not> held t j"
    and fail_releases: "safe s \<Longrightarrow> issued s j \<Longrightarrow> st_Fail st (lj_ID j) (lj_LeaseToken j) msg s = (res', t) \<Longrightarrow> \<not> held t j"
begin

lemma kept_refl: "safe s \<Longrightarrow> keeps safe issued held s s"
  by (simp add: keeps_def)

lemma kept_trans: "keeps safe issued held s t \<Longrightarrow> keeps safe issued held t u \<Longrightarrow> keeps safe issued held s u"
  by (auto simp: keeps_def)

lemma kept_safe: "keeps safe issued held s t \<Longrightarrow> safe t"
  by (simp add: keeps_def)

lemma kept_lost: "keeps safe issued held s t \<Longrightarrow> issued s j \<Longrightarrow> \<not> held s j \<Longrightarrow> issued t j \<and> \<not> held t j"
  by (auto simp: keeps_def)

lemma failJob_kept:
  assumes "safe s" and "issued s job"
  shows "keeps safe issued held s (snd (failJob st job cause s)) \<and> \<not> held (snd (failJob st job cause s)) job"
  unfolding failJob_def snd_conv
  using fail_keeps [OF assms(1) prod.collapse [symmetric]] fail_releases [OF assms prod.collapse [symmetric]] by blast

text \<open>One job: whatever happens the invariant is kept, and without an error its lease is given back.\<close>

lemma runJob_kept:
  assumes work: "\<And>j s. safe s \<Longrightarrow> keeps safe issued held s (snd (work j s))" and "safe s" and "issued s job"
    and "runJob r st work job s = (err, t)"
  shows "keeps safe issued held s t \<and> (err = None \<longrightarrow> \<not> held t job)"
proof -
  obtain renewed s1 where p: "(if rt_LeaseProgressMessage r \<noteq> []
      then st_Progress st (lj_ID job) (lj_LeaseToken job) (lj_ProgressCurrent job) (lj_ProgressTotal job) (rt_LeaseProgressMessage r) s
      else (Inr (), s)) = (renewed, s1)" by force
  have s1: "keeps safe issued held s s1"
    using p progress_keeps [OF assms(2)] kept_refl [OF assms(2)] by (auto split: if_splits)
  have is1: "safe s1" "issued s1 job"
    using s1 assms(3) by (auto simp: keeps_def)
  obtain he le s2 where w: "work job s1 = ((he, le), s2)" by (metis prod.exhaust)
  have s2: "keeps safe issued held s1 s2"
    using work [OF is1(1), of job] w by simp
  have is2: "safe s2" "issued s2 job"
    using s2 is1 by (auto simp: keeps_def)
  note run = assms(4) [unfolded runJob_def p Let_def split_conv w]
  consider e where "renewed = Inl e" | "renewed = Inr ()" "he \<noteq> None \<or> le \<noteq> None" | "renewed = Inr ()" "he = None" "le = None"
    by (cases renewed) auto
  then show ?thesis
  proof cases
    case (1 e)
    then show ?thesis
      using run failJob_kept [OF is1] kept_trans [OF s1] by (auto simp: failJob_def)
  next
    case 2
    then show ?thesis
      using run failJob_kept [OF is2] kept_trans [OF kept_trans [OF s1 s2]]
      by (cases he; cases le) (auto simp: failJob_def)
  next
    case 3
    obtain res s3 where c: "st_Complete st (lj_ID job) (lj_LeaseToken job) s2 = (res, s3)" by force
    then show ?thesis
      using 3 run complete_keeps [OF is2(1) c] complete_releases [OF is2] kept_trans [OF kept_trans [OF s1 s2]]
      by (cases res) auto
  qed
qed

lemma runEach_kept:
  assumes work: "\<And>j s. safe s \<Longrightarrow> keeps safe issued held s (snd (work j s))"
    and "safe s" and "\<forall>j \<in> set jobs. issued s j" and "runEach r st work jobs firstErr s = (err, t)"
  shows "keeps safe issued held s t \<and> (err = None \<longrightarrow> firstErr = None \<and> (\<forall>j \<in> set jobs. \<not> held t j))"
  using assms(2-)
proof (induction jobs arbitrary: firstErr s)
  case Nil
  then show ?case by (auto intro: kept_refl)
next
  case (Cons job jobs)
  obtain e1 s1 where run: "runJob r st work job s = (e1, s1)" by force
  have "issued s job" using Cons.prems(2) by simp
  note one = runJob_kept [OF work Cons.prems(1) this run]
  have "safe s1" and "\<forall>j \<in> set jobs. issued s1 j"
    using one Cons.prems(2) by (auto simp: keeps_def)
  moreover have "runEach r st work jobs (if e1 \<noteq> None \<and> firstErr = None then e1 else firstErr) s1 = (err, t)"
    using Cons.prems(3) by (simp add: run)
  ultimately have rest: "keeps safe issued held s1 t \<and> (err = None \<longrightarrow>
      (if e1 \<noteq> None \<and> firstErr = None then e1 else firstErr) = None \<and> (\<forall>j \<in> set jobs. \<not> held t j))"
    by (rule Cons.IH)
  have "issued s1 job"
    using one \<open>issued s job\<close> by (auto simp: keeps_def)
  then have "\<not> held t job" if "err = None"
    using that one rest kept_lost [of s1 t job] by (auto split: if_splits)
  then show ?case
    using one rest kept_trans by (auto split: if_splits)
qed

lemma runFormats_kept:
  assumes work: "\<And>j s. safe s \<Longrightarrow> keeps safe issued held s (snd (work j s))"
    and "safe s" and "0 \<le> remaining" and "runFormats r st work fmts remaining firstErr s = (err, t, claimed)"
  shows "keeps safe issued held s t \<and> int (length claimed) \<le> remaining \<and>
    (\<forall>j \<in> set claimed. issued t j) \<and> (err = None \<longrightarrow> firstErr = None \<and> (\<forall>j \<in> set claimed. \<not> held t j))"
  using assms(2-)
proof (induction fmts arbitrary: remaining firstErr s err t claimed)
  case Nil
  then show ?case by (auto intro: kept_refl)
next
  case (Cons fmt fmts)
  obtain res s1 where c: "st_Claim st (rt_Kind r) fmt remaining s = (res, s1)" by force
  consider "remaining = 0" | e where "remaining \<noteq> 0" "res = Inl e" | jobs where "0 < remaining" "res = Inr jobs"
    using Cons.prems(2) by (cases res) force+
  then show ?case
  proof cases
    case 1
    with Cons.prems show ?thesis by (auto intro: kept_refl)
  next
    case (2 e)
    note s1 = claim_keeps [OF Cons.prems(1) c]
    then show ?thesis
      using Cons.IH [OF kept_safe [OF s1] Cons.prems(2), of "if firstErr = None then Some e else firstErr" err t claimed]
        Cons.prems(3) 2 c kept_trans [OF s1] by (auto split: if_splits)
  next
    case (3 jobs)
    note s1 = claim_keeps [OF Cons.prems(1) c]
    have jobs: "int (length jobs) \<le> remaining" "\<forall>j \<in> set jobs. issued s1 j"
      using claim_jobs [OF Cons.prems(1) 3(1)] c 3(2) by auto
    obtain e2 s2 where each: "runEach r st work jobs firstErr s1 = (e2, s2)" by force
    note s2 = runEach_kept [OF work kept_safe [OF s1] jobs(2) each]
    obtain more where more: "runFormats r st work fmts (remaining - int (length jobs)) e2 s2 = (err, t, more)"
      "claimed = jobs @ more"
      using Cons.prems(3) 3 c each by (auto split: prod.splits)
    have rest: "keeps safe issued held s2 t \<and> int (length more) \<le> remaining - int (length jobs) \<and>
      (\<forall>j \<in> set more. issued t j) \<and> (err = None \<longrightarrow> e2 = None \<and> (\<forall>j \<in> set more. \<not> held t j))"
      using Cons.IH [OF _ _ more(1)] s2 jobs(1) kept_safe by auto
    have "issued t j \<and> (err = None \<longrightarrow> \<not> held t j)" if "j \<in> set jobs" for j
      using that jobs(2) s2 rest kept_lost [of s2 t j] by (auto simp: keeps_def)
    then show ?thesis
      using rest s2 more(2) kept_trans [OF kept_trans [OF s1]] by auto
  qed
qed

end

section \<open>The in-memory store meets the contract\<close>

definition tokenIssued :: "env \<Rightarrow> 'z lifecycle_store_scheme \<Rightarrow> LifecycleJob \<Rightarrow> bool" where
  "tokenIssued e s j \<longleftrightarrow> lj_LeaseToken j \<in> env_UUID e ` {..<uuidsDrawn s}"

definition leaseHeld :: "'z lifecycle_store_scheme \<Rightarrow> LifecycleJob \<Rightarrow> bool" where
  "leaseHeld s j \<longleftrightarrow> (\<exists>k v. gm_get (lifecycleJobs s) k = Some v \<and> lj_ID v = lj_ID j \<and>
     lj_State v = LifecycleJobRunning \<and> lj_LeaseToken v = lj_LeaseToken j)"

definition executable_at :: "env \<Rightarrow> gotime \<Rightarrow> 'z lifecycle_store_scheme \<Rightarrow> bool" where
  "executable_at e now s \<longleftrightarrow> fresh_uuids (env_UUID e) \<and> 0 \<le> now \<and> lifecycle_ok (env_UUID e) s"

lemma keepsI:
  assumes "safe t" and "uuidsDrawn s \<le> uuidsDrawn t"
    and "\<And>k v. gm_get (lifecycleJobs t) k = Some v \<Longrightarrow> lj_State v = LifecycleJobRunning \<Longrightarrow>
      lj_LeaseToken v \<in> env_UUID e ` {..<uuidsDrawn s} \<Longrightarrow>
      \<exists>w. gm_get (lifecycleJobs s) k = Some w \<and> lj_ID w = lj_ID v \<and> lj_State w = LifecycleJobRunning \<and>
        lj_LeaseToken w = lj_LeaseToken v"
  shows "keeps safe (tokenIssued e) leaseHeld s t"
  using assms by (fastforce simp: keeps_def tokenIssued_def leaseHeld_def)

lemma claim_keeps_leases:
  assumes "executable_at e now s" and "claimLifecycleJobs e now kind fmt limit s = (jobs, t)"
  shows "keeps (executable_at e now) (tokenIssued e) leaseHeld s t"
proof (rule keepsI)
  have A: "fresh_uuids (env_UUID e)" "0 \<le> now" "lifecycle_ok (env_UUID e) s"
    using assms(1) by (auto simp: executable_at_def)
  let ?r = "snd (recoverExpiredLifecycleJobsLocked e now s)"
  note res = claimLifecycleJobs_result [OF A assms(2), unfolded claim_result_def]
  show "executable_at e now t"
    using res A by (simp add: executable_at_def)
  show draws: "uuidsDrawn s \<le> uuidsDrawn t"
    using res recover_ok(2) [OF A(3) refl, of now] by simp
  fix k v
  assume v: "gm_get (lifecycleJobs t) k = Some v" "lj_State v = LifecycleJobRunning"
    and old: "lj_LeaseToken v \<in> env_UUID e ` {..<uuidsDrawn s}"
  have "k \<notin> jobKey ` set jobs"
  proof
    assume "k \<in> jobKey ` set jobs"
    then obtain j where "j \<in> set jobs" "jobKey j = k" by blast
    then have "v = j" and "claimed_from (env_UUID e) now (uuidsDrawn ?r) (uuidsDrawn t)
        (sort_key (\<lambda>(k, j). lj_CreatedAt j) (filter (\<lambda>(k, j). claimable now kind fmt j) (lifecycleJobs ?r))) j"
      using res v(1) by auto
    then obtain i where "uuidsDrawn ?r \<le> i" "lj_LeaseToken v = env_UUID e i"
      by (auto simp: claimed_from_def)
    with old recover_ok(2) [OF A(3) refl, of now] A(1) show False
      by (auto simp: fresh_uuids_def dest!: injD)
  qed
  then have "gm_get (lifecycleJobs ?r) k = Some v"
    using res v(1) by simp
  then show "\<exists>w. gm_get (lifecycleJobs s) k = Some w \<and> lj_ID w = lj_ID v \<and> lj_State w = LifecycleJobRunning \<and>
      lj_LeaseToken w = lj_LeaseToken v"
    using v(2) recover_ok(5) [OF A(3) refl, of now k] by (auto split: if_splits)
qed

lemma progress_keeps_leases:
  assumes "executable_at e now s" and "UpdateLifecycleJobProgress at i tok cur tot msg s = (res, t)"
  shows "keeps (executable_at e now) (tokenIssued e) leaseHeld s t"
proof (rule keepsI)
  have ok: "lifecycle_ok (env_UUID e) s"
    using assms(1) by (simp add: executable_at_def)
  then show "executable_at e now t"
    using assms lease_ops_ok by (fastforce simp: executable_at_def)
  show "uuidsDrawn s \<le> uuidsDrawn t"
    using assms(2) by (auto simp: UpdateLifecycleJobProgress_def Let_def split: if_splits option.splits)
  show "\<exists>w. gm_get (lifecycleJobs s) k = Some w \<and> lj_ID w = lj_ID v \<and> lj_State w = LifecycleJobRunning \<and>
      lj_LeaseToken w = lj_LeaseToken v"
    if "gm_get (lifecycleJobs t) k = Some v" "lj_State v = LifecycleJobRunning" for k v
    using assms(2) that
    by (auto simp: UpdateLifecycleJobProgress_def Let_def split: if_splits option.splits
        dest!: find_entry [OF jobs_okD(1) [OF ok [unfolded lifecycle_ok_def]]])
qed

lemma report_keeps_leases:
  assumes "executable_at e now s" and "reportJob e r i tok s = (res, t)"
  shows "keeps (executable_at e now) (tokenIssued e) leaseHeld s t"
proof (cases res)
  case (Inl err)
  then have "t = s" using assms(2) reportJob_err by metis
  then show ?thesis using assms(1) by (simp add: keeps_def)
next
  case (Inr u)
  have ok: "lifecycle_ok (env_UUID e) s"
    using assms(1) by (simp add: executable_at_def)
  have rep: "CompleteLifecycleJob e (case r of JobDone c \<Rightarrow> c | JobBroke c m \<Rightarrow> c) i tok s = (Inr u, t) \<or>
      FailLifecycleJob e (case r of JobDone c \<Rightarrow> c | JobBroke c m \<Rightarrow> c) i tok (case r of JobDone c \<Rightarrow> [] | JobBroke c m \<Rightarrow> m) s = (Inr u, t)"
    using assms(2) Inr by (cases r) auto
  obtain k j j' at where f: "t = storeFinishedJob e at k j' s" "lj_State j' \<noteq> LifecycleJobRunning"
    using finish_cases [OF ok rep] by blast
  show ?thesis
  proof (rule keepsI)
    show "executable_at e now t"
      using assms(1) finish_jobs_ok [OF ok rep] by (simp add: executable_at_def)
    show "uuidsDrawn s \<le> uuidsDrawn t"
      using storeFinishedJob_draws f(1) by blast
    show "\<exists>w. gm_get (lifecycleJobs s) k = Some w \<and> lj_ID w = lj_ID v \<and> lj_State w = LifecycleJobRunning \<and>
        lj_LeaseToken w = lj_LeaseToken v"
      if "gm_get (lifecycleJobs t) k = Some v" "lj_State v = LifecycleJobRunning" for k v
      using that f by (auto split: if_splits)
  qed
qed

lemma leaseHeld_holder: "lifecycle_ok uuid s \<Longrightarrow> leaseHeld s j \<Longrightarrow> jobHolder s (lj_ID j) = Some (lj_LeaseToken j)"
  using find_by_id [of uuid _ _ "lifecycleJobs s"]
  by (fastforce simp: leaseHeld_def jobHolder_def lifecycle_ok_def)

lemma report_releases:
  assumes "executable_at e now s" and "reportJob e r (lj_ID j) (lj_LeaseToken j) s = (Inr u, t)"
  shows "\<not> leaseHeld t j"
proof -
  have "lifecycle_ok (env_UUID e) s"
    using assms(1) by (simp add: executable_at_def)
  from reportJob_cases [OF this assms(2)] leaseHeld_holder [of "env_UUID e" t j] show ?thesis by auto
qed

lemma fail_unheld:
  assumes "lifecycle_ok uuid s" and "FailLifecycleJob e clk (lj_ID j) (lj_LeaseToken j) msg s = (Inl err, t)"
  shows "\<not> leaseHeld t j"
proof -
  have "t = s" using assms(2) finish_err(2) by metis
  moreover have "find (\<lambda>(k, v). lj_ID v = lj_ID j \<and> lj_State v = LifecycleJobRunning \<and> lj_LeaseToken v = lj_LeaseToken j)
      (lifecycleJobs s) = None"
    using assms(2) by (auto simp: FailLifecycleJob_def Let_def split: option.splits)
  ultimately show ?thesis
    by (auto simp: leaseHeld_def find_None_iff dest: gm_get_in)
qed

lemma claim_jobs_issued:
  assumes "executable_at e now s" and "0 < limit" and "claimLifecycleJobs e now kind fmt limit s = (jobs, t)"
  shows "int (length jobs) \<le> limit \<and> (\<forall>j \<in> set jobs. tokenIssued e t j)"
proof -
  have A: "fresh_uuids (env_UUID e)" "0 \<le> now" "lifecycle_ok (env_UUID e) s"
    using assms(1) by (auto simp: executable_at_def)
  show ?thesis
    using claimLifecycleJobs_result [OF A assms(3)] assms(2)
    by (force simp: claim_result_def claimed_from_def tokenIssued_def)
qed

lemma memory_report:
  "st_Complete (memoryJobStore e now) i tok s = reportJob e (JobDone (\<lambda>_. now)) i tok s"
  "st_Fail (memoryJobStore e now) i tok msg s = reportJob e (JobBroke (\<lambda>_. now) msg) i tok s"
  by (simp_all add: memoryJobStore_def)

interpretation memory_executor: job_executor
  "memoryJobStore e now :: 'z lifecycle_store_scheme job_store" "executable_at e now" "tokenIssued e" leaseHeld for e now
proof unfold_locales
  fix s t :: "'z lifecycle_store_scheme" and kind fmt limit res
  assume ok: "executable_at e now s" and c: "st_Claim (memoryJobStore e now) kind fmt limit s = (res, t)"
  then obtain jobs where "claimLifecycleJobs e now kind fmt limit s = (jobs, t)"
    by (auto simp: memoryJobStore_def ClaimLifecycleJobsByKindAndFormat_def split: prod.splits)
  then show "keeps (executable_at e now) (tokenIssued e) leaseHeld s t"
    by (rule claim_keeps_leases [OF ok])
next
  fix s t :: "'z lifecycle_store_scheme" and kind fmt limit jobs
  assume ok: "executable_at e now s" "0 < limit" and c: "st_Claim (memoryJobStore e now) kind fmt limit s = (Inr jobs, t)"
  then have "claimLifecycleJobs e now kind fmt limit s = (jobs, t)"
    by (auto simp: memoryJobStore_def ClaimLifecycleJobsByKindAndFormat_def split: prod.splits)
  then show "int (length jobs) \<le> limit \<and> (\<forall>j \<in> set jobs. tokenIssued e t j)"
    by (rule claim_jobs_issued [OF ok])
next
  fix s t :: "'z lifecycle_store_scheme" and i tok cur tot msg res
  assume "executable_at e now s" "st_Progress (memoryJobStore e now) i tok cur tot msg s = (res, t)"
  then show "keeps (executable_at e now) (tokenIssued e) leaseHeld s t"
    using progress_keeps_leases by (fastforce simp: memoryJobStore_def)
next
  fix s t :: "'z lifecycle_store_scheme" and i tok res
  assume "executable_at e now s" "st_Complete (memoryJobStore e now) i tok s = (res, t)"
  then show "keeps (executable_at e now) (tokenIssued e) leaseHeld s t"
    unfolding memory_report by (rule report_keeps_leases)
next
  fix s t :: "'z lifecycle_store_scheme" and i tok msg res
  assume "executable_at e now s" "st_Fail (memoryJobStore e now) i tok msg s = (res, t)"
  then show "keeps (executable_at e now) (tokenIssued e) leaseHeld s t"
    unfolding memory_report by (rule report_keeps_leases)
next
  fix s t :: "'z lifecycle_store_scheme" and j :: LifecycleJob and u
  assume "executable_at e now s" "st_Complete (memoryJobStore e now) (lj_ID j) (lj_LeaseToken j) s = (Inr u, t)"
  then show "\<not> leaseHeld t j"
    unfolding memory_report by (rule report_releases)
next
  fix s t :: "'z lifecycle_store_scheme" and j :: LifecycleJob and msg res
  assume ok: "executable_at e now s" and f: "st_Fail (memoryJobStore e now) (lj_ID j) (lj_LeaseToken j) msg s = (res, t)"
  show "\<not> leaseHeld t j"
  proof (cases res)
    case (Inl err)
    with f ok fail_unheld show ?thesis
      by (fastforce simp: memoryJobStore_def executable_at_def)
  next
    case (Inr u)
    with f ok report_releases show ?thesis
      unfolding memory_report by blast
  qed
qed

section \<open>The properties of the lifecycle queue\<close>

inductive lifecycle_reach :: "env \<Rightarrow> lifecycle_store \<Rightarrow> bool" for e where
  start: "lifecycle_reach e emptyLifecycleStore"
| step: "lifecycle_reach e s \<Longrightarrow> lifecycle_step e s t \<Longrightarrow> lifecycle_reach e t"

lemma lifecycle_reach_ok:
  assumes "fresh_uuids (env_UUID e)" and "lifecycle_reach e s"
  shows "lifecycle_ok (env_UUID e) s"
  using assms(2)
proof (induction rule: lifecycle_reach.induct)
  case start
  then show ?case
    by (simp add: lifecycle_ok_def jobs_ok_def emptyLifecycleStore_def webhook_store.defs)
next
  case (step s t)
  then show ?case using lifecycle_step_ok [OF assms(1)] by blast
qed

text \<open>
  C13. The queue invariant. In every state that enqueueing, claiming, recovery, progress, renewal,
  completion, failure and operator controls can reach, a job's attempts stay within its maximum and a
  waiting job has attempts left, a job carries a lease token exactly while it runs, no repository has
  two running jobs, and creation times are distinct, so the order of claims is determined.
\<close>

theorem lifecycle_queue_invariant:
  assumes "fresh_uuids (env_UUID e)" and "lifecycle_reach e s" and "gm_get (lifecycleJobs s) k = Some j"
  shows "0 \<le> lj_Attempts j \<and> lj_Attempts j \<le> lj_MaxAttempts j \<and>
    (lj_State j \<in> {LifecycleJobPending, LifecycleJobRetrying} \<longrightarrow> lj_Attempts j < lj_MaxAttempts j) \<and>
    (lj_State j \<noteq> LifecycleJobRunning \<longrightarrow> lj_LeaseToken j = []) \<and>
    (lj_State j = LifecycleJobRunning \<longrightarrow> lj_LeaseToken j \<in> range (env_UUID e) \<and> 0 < lj_LeaseExpiresAt j) \<and>
    (\<forall>k' j'. gm_get (lifecycleJobs s) k' = Some j' \<longrightarrow>
      (lj_CreatedAt j' = lj_CreatedAt j \<or>
       lj_State j = LifecycleJobRunning \<and> lj_State j' = LifecycleJobRunning \<and> lj_RepositoryID j' = lj_RepositoryID j) \<longrightarrow>
      k' = k)"
proof -
  note ok = lifecycle_reach_ok [OF assms(1,2), unfolded lifecycle_ok_def]
  show ?thesis
    using jobs_okD(3) [OF ok assms(3)] jobs_okD(5) [OF ok _ assms(3)]
    by (auto simp: job_ok_def waiting_def clash_def)
qed

text \<open>
  C26. Completion is fenced. In a reachable queue a worker can complete or fail a job only with the
  token of its current lease; after one report has been accepted every other report on that job,
  under any token, is refused and leaves the queue unchanged, until the job is claimed again.
\<close>

theorem lifecycle_report_fenced:
  assumes "fresh_uuids (env_UUID e)" and "lifecycle_reach e s"
  shows "(jobHolder s i \<noteq> Some token \<longrightarrow> (\<exists>err. reportJob e r i token s = (Inl err, s))) \<and>
    (reportJob e r i token s = (Inr u, t) \<longrightarrow> (\<exists>err. reportJob e r' i token' t = (Inl err, t)))"
  using job_lease.stale_token_refused [OF lifecycle_reach_ok [OF assms]]
    job_lease.finish_once [OF lifecycle_reach_ok [OF assms]] by blast

text \<open>The jobs of a claim, and the repositories of the candidates it left.\<close>

lemma claimed_jobs:
  assumes res: "claim_result uuid now
      (sort_key (\<lambda>(k, j). lj_CreatedAt j) (filter (\<lambda>(k, j). claimable now kind fmt j) (lifecycleJobs r))) busy room r jobs t"
    and gm: "gm_ok (lifecycleJobs r)"
  shows "\<forall>j \<in> set jobs. gm_get (lifecycleJobs t) (jobKey j) = Some j \<and> lj_State j = LifecycleJobRunning \<and>
    (\<exists>j0. gm_get (lifecycleJobs r) (jobKey j) = Some j0 \<and> claimable now kind fmt j0 \<and> lj_Attempts j = lj_Attempts j0 + 1)"
proof
  fix j
  assume "j \<in> set jobs"
  then have "gm_get (lifecycleJobs t) (jobKey j) = Some j" and "claimed_from uuid now (uuidsDrawn r) (uuidsDrawn t)
      (sort_key (\<lambda>(k, j). lj_CreatedAt j) (filter (\<lambda>(k, j). claimable now kind fmt j) (lifecycleJobs r))) j"
    using res unfolding claim_result_def by blast+
  then show "gm_get (lifecycleJobs t) (jobKey j) = Some j \<and> lj_State j = LifecycleJobRunning \<and>
      (\<exists>j0. gm_get (lifecycleJobs r) (jobKey j) = Some j0 \<and> claimable now kind fmt j0 \<and> lj_Attempts j = lj_Attempts j0 + 1)"
    using gm by (auto simp: claimed_from_def gm_get_iff startJob_def)
qed

lemma claimed_alone:
  assumes res: "claim_result uuid now
      (sort_key (\<lambda>(k, j). lj_CreatedAt j) (filter (\<lambda>(k, j). claimable now kind fmt j) (lifecycleJobs r))) busy room r jobs t"
    and gm: "gm_ok (lifecycleJobs r)" and j: "j \<in> set jobs" "lj_RepositoryID j' = lj_RepositoryID j"
  shows "gm_get (lifecycleJobs t) k = Some j' \<Longrightarrow> lj_State j' = LifecycleJobRunning \<Longrightarrow> j' = j"
    and "gm_get (lifecycleJobs r) k = Some j' \<Longrightarrow> lj_State j' \<noteq> LifecycleJobRunning"
proof -
  note jobs = claimed_jobs [OF res gm]
  have ok: "jobs_ok uuid (uuidsDrawn t) (lifecycleCreatedAt t) (lifecycleJobs t)"
    using res unfolding claim_result_def lifecycle_ok_def by blast
  have mine: "gm_get (lifecycleJobs t) (jobKey j) = Some j" "lj_State j = LifecycleJobRunning" using jobs j(1) by blast+
  show alone: "gm_get (lifecycleJobs t) k = Some j' \<Longrightarrow> lj_State j' = LifecycleJobRunning \<Longrightarrow> j' = j"
    using jobs_okD(5) [OF ok mine(1), of k j'] mine j(2) by (auto simp: clash_def)
  show "lj_State j' \<noteq> LifecycleJobRunning" if r: "gm_get (lifecycleJobs r) k = Some j'"
  proof
    assume run: "lj_State j' = LifecycleJobRunning"
    then have k: "k \<notin> jobKey ` set jobs" using jobs r by (auto simp: claimable_def)
    then have "gm_get (lifecycleJobs t) k = Some j'" using res r unfolding claim_result_def by metis
    with alone run jobs_okD(2) [OF ok this] k j(1) show False by blast
  qed
qed

lemma claim_leftover:
  assumes res: "claim_result uuid now
      (sort_key (\<lambda>(k, j). lj_CreatedAt j) (filter (\<lambda>(k, j). claimable now kind fmt j) (lifecycleJobs r)))
      (runningRepositories r) room r jobs t"
    and gm: "gm_ok (lifecycleJobs r)" and "length jobs < room"
    and j: "gm_get (lifecycleJobs t) k = Some j" "claimable now kind fmt j"
  shows "\<exists>k' j'. gm_get (lifecycleJobs t) k' = Some j' \<and> lj_State j' = LifecycleJobRunning \<and> lj_RepositoryID j' = lj_RepositoryID j"
proof -
  note jobs = claimed_jobs [OF res gm]
  have same: "gm_get (lifecycleJobs t) i = gm_get (lifecycleJobs r) i" if "i \<notin> jobKey ` set jobs" for i
    using res that unfolding claim_result_def by blast
  have "k \<notin> jobKey ` set jobs"
    using j jobs by (auto simp: claimable_def)
  then have "(k, j) \<in> set (lifecycleJobs r)"
    using same j(1) gm by (simp add: gm_get_iff)
  then have "lj_RepositoryID j \<in> set (runningRepositories r) \<or> lj_RepositoryID j \<in> lj_RepositoryID ` set jobs"
    using res assms(3) j(2) unfolding claim_result_def by auto
  then show ?thesis
  proof
    assume "lj_RepositoryID j \<in> set (runningRepositories r)"
    then obtain k' j' where run: "gm_get (lifecycleJobs r) k' = Some j'" "lj_State j' = LifecycleJobRunning"
        "lj_RepositoryID j' = lj_RepositoryID j"
      using gm by (auto simp: runningRepositories_def gm_get_iff)
    then have "k' \<notin> jobKey ` set jobs"
      using jobs by (auto simp: claimable_def)
    then show ?thesis
      using run same by metis
  next
    assume "lj_RepositoryID j \<in> lj_RepositoryID ` set jobs"
    then obtain j' where "j' \<in> set jobs" "lj_RepositoryID j' = lj_RepositoryID j" by auto
    then show ?thesis
      using jobs by blast
  qed
qed

text \<open>
  C6. Claims are fair. A claim returns at most the requested number of jobs; each was waiting, due and
  of the requested kind and format, is now running with one more attempt, its repository had no running job after expired leases were
  recovered, and it is now the only running job of its repository. When the claim returns fewer jobs than requested, every repository
  that still has a due matching job is busy with a running one, so no work is left behind.
\<close>

theorem lifecycle_claim_fair:
  assumes "fresh_uuids (env_UUID e)" and "lifecycle_reach e s" and "0 \<le> now" and "0 < limit"
    and "claimLifecycleJobs e now kind fmt limit s = (jobs, t)"
  shows "length jobs \<le> nat limit \<and>
    (\<forall>j \<in> set jobs. gm_get (lifecycleJobs t) (jobKey j) = Some j \<and> lj_State j = LifecycleJobRunning \<and>
       (\<exists>j0. gm_get (lifecycleJobs (snd (recoverExpiredLifecycleJobsLocked e now s))) (jobKey j) = Some j0 \<and>
          claimable now kind fmt j0 \<and> lj_Attempts j = lj_Attempts j0 + 1) \<and>
       (\<forall>k j'. gm_get (lifecycleJobs (snd (recoverExpiredLifecycleJobsLocked e now s))) k = Some j' \<longrightarrow>
          lj_RepositoryID j' = lj_RepositoryID j \<longrightarrow> lj_State j' \<noteq> LifecycleJobRunning) \<and>
       (\<forall>k j'. gm_get (lifecycleJobs t) k = Some j' \<longrightarrow> lj_RepositoryID j' = lj_RepositoryID j \<longrightarrow>
          lj_State j' = LifecycleJobRunning \<longrightarrow> j' = j)) \<and>
    (length jobs < nat limit \<longrightarrow>
       (\<forall>k j. gm_get (lifecycleJobs t) k = Some j \<longrightarrow> claimable now kind fmt j \<longrightarrow>
          (\<exists>k' j'. gm_get (lifecycleJobs t) k' = Some j' \<and> lj_State j' = LifecycleJobRunning \<and>
             lj_RepositoryID j' = lj_RepositoryID j)))"
proof -
  let ?r = "snd (recoverExpiredLifecycleJobsLocked e now s)"
  note ok = lifecycle_reach_ok [OF assms(1,2)]
  note res = claimLifecycleJobs_result [OF assms(1,3) ok assms(5)]
  have gm: "gm_ok (lifecycleJobs ?r)"
    using recover_ok(1) [OF ok refl, of now] jobs_okD(1) by (auto simp: lifecycle_ok_def)
  have "length jobs \<le> nat limit"
    using res assms(4) by (simp add: claim_result_def)
  then show ?thesis
    using claimed_jobs [OF res gm] claimed_alone [OF res gm] claim_leftover [OF res gm] assms(4) by simp
qed

text \<open>The back-off between attempts: thirty seconds doubled per attempt, up to half an hour.\<close>

lemma lifecycleRetryDelay_bounds: "30 * second \<le> lifecycleRetryDelay a \<and> lifecycleRetryDelay a \<le> 30 * minute"
proof -
  have "(1 :: int) \<le> 2 ^ nat (min ((if a < 1 then 1 else a) - 1) 6)"
    by simp
  then show ?thesis
    by (auto simp: lifecycleRetryDelay_def Let_def)
qed

lemma lifecycleRetryDelay_doubles:
  assumes "1 \<le> a" and "a \<le> 6"
  shows "lifecycleRetryDelay a = 30 * second * 2 ^ nat (a - 1)"
proof -
  have "(2 :: int) ^ nat (a - 1) \<le> 2 ^ 5"
    using assms by (intro power_increasing) auto
  moreover have "min (a - 1) 6 = a - 1"
    using assms by simp
  ultimately show ?thesis
    using assms by (simp add: lifecycleRetryDelay_def Let_def)
qed

lemma FailLifecycleJob_hits:
  assumes "lifecycle_ok uuid s" and "gm_get (lifecycleJobs s) k = Some j" and "lj_State j = LifecycleJobRunning"
  shows "FailLifecycleJob e clk (lj_ID j) (lj_LeaseToken j) msg s =
    (Inr (), storeFinishedJob e (clk 1) k (failOrRetry (clk 0)
       (j\<lparr>lj_LastError := msg, lj_LeaseExpiresAt := zeroTime, lj_LeaseToken := []\<rparr>)) s)"
proof -
  note ok = assms(1) [unfolded lifecycle_ok_def]
  let ?P = "\<lambda>(k, v). lj_ID v = lj_ID j \<and> lj_State v = LifecycleJobRunning \<and> lj_LeaseToken v = lj_LeaseToken j"
  have "find ?P (lifecycleJobs s) \<noteq> None"
    using gm_get_in [OF assms(2)] assms(3) unfolding find_None_iff by auto
  then obtain k' j' where f: "find ?P (lifecycleJobs s) = Some (k', j')" by auto
  then have j': "gm_get (lifecycleJobs s) k' = Some j'" "lj_ID j' = lj_ID j"
    using find_entry [OF jobs_okD(1) [OF ok] f] by auto
  then have "k' = k"
    using jobs_okD(5) [OF ok j'(1) assms(2)] by (simp add: clash_def)
  with j' assms(2) f show ?thesis
    by (simp add: FailLifecycleJob_def Let_def)
qed

text \<open>
  Failed attempts back off and end. When a worker fails its running job in a reachable queue, the
  report is accepted; a job with attempts left is retried after a delay between thirty seconds and
  half an hour, doubling with each attempt while below the cap; a job at its maximum becomes failed
  and is not scheduled again.
\<close>

theorem lifecycle_fail_backoff:
  assumes "fresh_uuids (env_UUID e)" and "lifecycle_reach e s" and "gm_get (lifecycleJobs s) k = Some j"
    and "lj_State j = LifecycleJobRunning"
  shows "\<exists>t j'. FailLifecycleJob e clk (lj_ID j) (lj_LeaseToken j) msg s = (Inr (), t) \<and>
    gm_get (lifecycleJobs t) k = Some j' \<and> lj_LeaseToken j' = [] \<and> lj_LastError j' = msg \<and>
    (if lj_Attempts j < lj_MaxAttempts j
     then lj_State j' = LifecycleJobRetrying \<and> clk 0 + 30 * second \<le> lj_NextAttemptAt j' \<and>
          lj_NextAttemptAt j' \<le> clk 0 + 30 * minute \<and>
          (lj_Attempts j \<le> 6 \<longrightarrow> lj_NextAttemptAt j' = clk 0 + 30 * second * 2 ^ nat (lj_Attempts j - 1))
     else lj_State j' = LifecycleJobFailed \<and> lj_CompletedAt j' = clk 0)"
proof -
  note ok = lifecycle_reach_ok [OF assms(1,2)]
  have "1 \<le> lj_Attempts j"
    using jobs_okD(3) [OF ok [unfolded lifecycle_ok_def] assms(3)] assms(4) by (simp add: job_ok_def)
  then show ?thesis
    using FailLifecycleJob_hits [OF ok assms(3,4), of e clk msg] lifecycleRetryDelay_bounds [of "lj_Attempts j"]
      lifecycleRetryDelay_doubles [of "lj_Attempts j"]
    by (auto simp: failOrRetry_def)
qed

text \<open>Payloads that both parse are the same when they denote the same JSON value, any others when their bytes are.\<close>

definition same_payload :: "document \<Rightarrow> document \<Rightarrow> bool" where
  "same_payload p q \<longleftrightarrow> (\<exists>l r. p = Document l \<and> q = Document r \<and> same_value l r) \<or> (\<exists>b. p = Malformed b \<and> q = Malformed b)"

lemma equivalent_iff: "equivalentLifecyclePayload p q \<longleftrightarrow> same_payload p q"
  by (cases p; cases q) (auto simp: equivalentLifecyclePayload_def same_payload_def decodeAny_iff)

text \<open>
  C27. Enqueueing is idempotent up to JSON equality, for good. Once a job has been enqueued under a repository, kind
  and key, then after any further operations on the queue a request under the same key changes nothing. It returns the job that was
  first enqueued, in its present state, when the payload denotes the same JSON value (arrays element by element, objects as maps
  in which the last member of a name counts; bytes that do not parse only match themselves), and is refused as a conflict otherwise.
\<close>

theorem lifecycle_enqueue_idempotent:
  assumes "gm_ok (lifecycleJobs s)" and "enqueuedAt s key = None" and "EnqueueLifecycleJob now (keyedJob job key p) s = (Inr (j, b), t)"
    and "(lifecycle_step e)\<^sup>*\<^sup>* t u"
  shows "\<not> b \<and> lj_ID j = lj_ID job \<and>
    (\<exists>j'. enqueuedAt u key = Some j' \<and> lj_ID j' = lj_ID j \<and> lj_Payload j' = p \<and>
       (\<forall>now' job' q. EnqueueLifecycleJob now' (keyedJob job' key q) u =
          (if same_payload p q then Inr (j', True) else Inl ErrIdempotencyConflict, u)))"
proof -
  let ?k = "lifecycleJobKey (fst key) (fst (snd key)) (snd (snd key))"
  have new: "\<not> b \<and> gm_get (lifecycleJobs t) ?k = Some j \<and> lj_Payload j = p"
    using EnqueueLifecycleJob_new [OF assms(3)] assms(2) by (simp add: enqueuedAt_def)
  have i: "lj_ID j = lj_ID job"
    using assms(2,3) by (auto simp: EnqueueLifecycleJob_def enqueuedAt_def keyedJob_def Let_def split: if_splits)
  have "gm_ok (lifecycleJobs t)" using enqueue_labels [OF assms(1), of now "keyedJob job key p"] assms(3) by simp
  then have "labels (lifecycleJobs t) \<subseteq>\<^sub>m labels (lifecycleJobs u)" using steps_labels [OF assms(4)] by blast
  moreover have at: "labels (lifecycleJobs t) ?k = Some (lj_ID j, p)" using new by (simp add: labels_def)
  ultimately have "labels (lifecycleJobs u) ?k = Some (lj_ID j, p)" by (metis domI map_le_def)
  then obtain j' where j': "enqueuedAt u key = Some j'" "lj_ID j' = lj_ID j" "lj_Payload j' = p"
    by (auto simp: labels_def enqueuedAt_def)
  have held: "map_option (\<lambda>j. (lj_Payload j, key)) (enqueuedAt u key) = Some (p, key)" using j' by simp
  have "EnqueueLifecycleJob now' (keyedJob job' key q) u = (if same_payload p q then Inr (j', True) else Inl ErrIdempotencyConflict, u)" for now' job' q
    using job_once.replay [OF held, of q] job_once.conflict [OF held, of q] j'(1) by (simp add: equivalent_iff)
  with new i j' show ?thesis by blast
qed

text \<open>
  C25. The runtime respects its limit and leaves no job behind. Executing a batch against the store, with
  a handler that keeps the queue's invariant and does not forge leases, claims at most the limit over
  all formats, keeps the invariant, and if it reports no error, none of the jobs it claimed is still
  running under its lease.
\<close>

theorem runtime_batch_complete:
  assumes "executable_at e now s" and "0 < limit" and "rt_Store r = Some (memoryJobStore e now)"
    and "\<And>j s. executable_at e now s \<Longrightarrow> keeps (executable_at e now) (tokenIssued e) leaseHeld s (snd (work j s))"
    and "RunJobs r (Some work) limit s = (err, t, claimed)"
  shows "int (length claimed) \<le> limit \<and> lifecycle_ok (env_UUID e) t \<and> (err = None \<longrightarrow> (\<forall>j \<in> set claimed. \<not> leaseHeld t j))"
proof -
  have "0 \<le> limit" using assms(2) by simp
  moreover have "runFormats r (memoryJobStore e now) work (rt_Formats r) limit None s = (err, t, claimed)"
    using assms(2,3,5) by (simp add: RunJobs_def)
  ultimately show ?thesis
    using memory_executor.runFormats_kept [OF assms(4,1)] by (auto simp: keeps_def executable_at_def)
qed

section \<open>Instances\<close>

definition exampleEnv :: env where
  "exampleEnv = \<lparr>env_UUID = exampleUUID, env_marshalCargo = (\<lambda>_. [])\<rparr>"

definition exampleJob :: LifecycleJob where
  "exampleJob = zeroLifecycleJob\<lparr>lj_ID := ''j1'', lj_RepositoryID := ''r1'', lj_Kind := LifecycleJobScan,
     lj_IdempotencyKey := ''k'', lj_Payload := Document (JObj [(''format'', JStr ''raw'')])\<rparr>"

definition exampleQueue :: lifecycle_store where
  "exampleQueue = snd (EnqueueLifecycleJob 5 exampleJob emptyLifecycleStore)"

definition exampleRunning :: lifecycle_store where
  "exampleRunning = snd (claimLifecycleJobs exampleEnv 10 [] [] 1 exampleQueue)"

lemma exampleEnv_fresh: "fresh_uuids (env_UUID exampleEnv)"
  by (simp add: exampleEnv_def exampleUUID_fresh)

lemmas lifecycle_example_defs = exampleQueue_def exampleJob_def zeroLifecycleJob_def EnqueueLifecycleJob_def
  emptyLifecycleStore_def emptyWebhookStore_def emptyHostedStore_def hosted_store.defs webhook_store.defs
  exampleEnv_def DefaultLifecycleJobMaxAttempts_def LifecycleJobScan_def LifecycleJobRetention_def Let_def

lemma exampleQueue_reach: "lifecycle_reach exampleEnv exampleQueue"
  unfolding exampleQueue_def
  by (rule lifecycle_reach.step [OF lifecycle_reach.start lifecycle_step.enqueue [OF prod.collapse [symmetric]]])
    (simp_all add: exampleJob_def zeroLifecycleJob_def emptyLifecycleStore_def webhook_store.defs)

lemma exampleRunning_reach: "lifecycle_reach exampleEnv exampleRunning"
  unfolding exampleRunning_def
  by (rule lifecycle_reach.step [OF exampleQueue_reach lifecycle_step.claim [OF prod.collapse [symmetric]]]) simp

lemma exampleRunning_job:
  "\<exists>k j. gm_get (lifecycleJobs exampleRunning) k = Some j \<and> lj_State j = LifecycleJobRunning \<and> lj_ID j = ''j1''"
  by (simp add: exampleRunning_def claimLifecycleJobs_def recoverExpiredLifecycleJobsLocked_def leaseRanOut_def
      claimable_def lifecycleJobMatchesFormat_def runningRepositories_def startJob_def lifecycle_example_defs isZero_def)

theorem lifecycle_queue_invariant_witness:
  "\<exists>k j. gm_get (lifecycleJobs exampleRunning) k = Some j \<and> lj_Attempts j \<le> lj_MaxAttempts j"
proof -
  obtain k j where "gm_get (lifecycleJobs exampleRunning) k = Some j" using exampleRunning_job by blast
  with lifecycle_queue_invariant [OF exampleEnv_fresh exampleRunning_reach this] show ?thesis by blast
qed

theorem lifecycle_report_fenced_witness:
  "\<exists>err. reportJob exampleEnv (JobDone (\<lambda>_. 20)) ''j1'' ''stale'' exampleQueue = (Inl err, exampleQueue)"
  using lifecycle_report_fenced [OF exampleEnv_fresh exampleQueue_reach, of "''j1''" "''stale''" "JobDone (\<lambda>_. 20)"]
  by (simp add: jobHolder_def lifecycle_example_defs)

theorem lifecycle_claim_fair_witness: "length (fst (claimLifecycleJobs exampleEnv 10 [] [] 1 exampleQueue)) \<le> 1"
  using lifecycle_claim_fair [OF exampleEnv_fresh exampleQueue_reach _ _ prod.collapse [symmetric], of 10 1 "[]" "[]"] by simp

theorem lifecycle_fail_backoff_witness:
  "\<exists>k j t j'. gm_get (lifecycleJobs exampleRunning) k = Some j \<and>
     FailLifecycleJob exampleEnv (\<lambda>_. 20) (lj_ID j) (lj_LeaseToken j) ''boom'' exampleRunning = (Inr (), t) \<and>
     gm_get (lifecycleJobs t) k = Some j' \<and> lj_LastError j' = ''boom''"
proof -
  obtain k j where "gm_get (lifecycleJobs exampleRunning) k = Some j" "lj_State j = LifecycleJobRunning"
    using exampleRunning_job by blast
  with lifecycle_fail_backoff [OF exampleEnv_fresh exampleRunning_reach this, of "\<lambda>_. 20" "''boom''"] show ?thesis by blast
qed

theorem lifecycle_enqueue_idempotent_witness:
  "\<exists>j. EnqueueLifecycleJob 9 (keyedJob exampleJob (''r1'', LifecycleJobScan, ''k'') (Document (JObj [(''a'', JNull), (''format'', JStr ''raw''), (''a'', JNum 1)])))
       exampleRunning = (Inl ErrIdempotencyConflict, exampleRunning) \<and>
     EnqueueLifecycleJob 9 (keyedJob exampleJob (''r1'', LifecycleJobScan, ''k'') (Document (JObj [(''format'', JNull), (''format'', JStr ''raw'')])))
       exampleRunning = (Inr (j, True), exampleRunning)"
proof -
  let ?key = "(''r1'', LifecycleJobScan, ''k'')" and ?p = "Document (JObj [(''format'', JStr ''raw'')])"
  have job: "keyedJob exampleJob ?key ?p = exampleJob" by (simp add: keyedJob_def exampleJob_def zeroLifecycleJob_def)
  have none: "gm_ok (lifecycleJobs emptyLifecycleStore)" "enqueuedAt emptyLifecycleStore ?key = None"
    by (simp_all add: enqueuedAt_def emptyLifecycleStore_def webhook_store.defs)
  obtain j b where e: "EnqueueLifecycleJob 5 (keyedJob exampleJob ?key ?p) emptyLifecycleStore = (Inr (j, b), exampleQueue)"
    unfolding job exampleQueue_def by (auto simp: EnqueueLifecycleJob_def emptyLifecycleStore_def webhook_store.defs Let_def)
  have "lifecycle_step exampleEnv exampleQueue exampleRunning"
    unfolding exampleRunning_def by (rule lifecycle_step.claim [OF prod.collapse [symmetric]]) simp
  then have steps: "(lifecycle_step exampleEnv)\<^sup>*\<^sup>* exampleQueue exampleRunning" by (rule r_into_rtranclp)
  have "same_payload ?p (Document (JObj [(''format'', JNull), (''format'', JStr ''raw'')]))"
    "\<not> same_payload ?p (Document (JObj [(''a'', JNull), (''format'', JStr ''raw''), (''a'', JNum 1)]))"
    unfolding equivalent_iff [symmetric] by (simp_all add: equivalentLifecyclePayload_def lastMembers_def)
  with lifecycle_enqueue_idempotent [OF none e steps] show ?thesis by auto
qed

theorem runtime_batch_complete_witness:
  "let r = \<lparr>rt_Store = Some (memoryJobStore exampleEnv 10), rt_Kind = LifecycleJobScan, rt_Formats = [''raw''],
            rt_Name = ''scan'', rt_LeaseProgressMessage = []\<rparr>;
       (err, t, claimed) = RunJobs r (Some (\<lambda>j s. ((None, None), s))) 2 exampleQueue
   in int (length claimed) \<le> 2 \<and> lifecycle_ok exampleUUID t"
proof -
  let ?r = "\<lparr>rt_Store = Some (memoryJobStore exampleEnv 10), rt_Kind = LifecycleJobScan, rt_Formats = [''raw''],
    rt_Name = ''scan'', rt_LeaseProgressMessage = []\<rparr>"
  obtain err t claimed where run: "RunJobs ?r (Some (\<lambda>j s. ((None, None), s))) 2 exampleQueue = (err, t, claimed)"
    by (metis prod.exhaust)
  have "executable_at exampleEnv 10 exampleQueue"
    using exampleEnv_fresh lifecycle_reach_ok [OF exampleEnv_fresh exampleQueue_reach] by (simp add: executable_at_def)
  note batch = runtime_batch_complete [OF this _ _ _ run]
  show ?thesis
    unfolding Let_def run prod.case using batch by (simp add: keeps_def exampleEnv_def)
qed

end
