(* ===== verification/Raw.thy ===== *)
theory Raw
  imports Lifecycle
begin

text \<open>
  Raw assets of \<^verbatim>\<open>MemoryStore\<close> (\<^verbatim>\<open>internal/repository/memory_raw.go\<close>): resumable uploads, path references
  with conditional replacement (\<^verbatim>\<open>raw_condition.go\<close>), content objects shared by digest, deletion with
  tombstones and restoration, and the marking of unreferenced objects for collection.
\<close>

section \<open>Data\<close>

record RawAsset =
  ra_RepositoryID :: string
  ra_Path :: string
  ra_Digest :: string
  ra_ObjectKey :: string
  ra_ContentType :: string
  ra_Size :: int
  ra_UpdatedAt :: gotime

record RawObject =
  ro_RepositoryID :: string
  ro_Digest :: string
  ro_ObjectKey :: string
  ro_Size :: int
  ro_CreatedAt :: gotime
  ro_CollectedAt :: gotime

datatype UploadState = UploadOpen | UploadCompleted | UploadCancelled | UploadOther string

record RawUpload =
  ru_ID :: string
  ru_RepositoryID :: string
  ru_Path :: string
  ru_ObjectKey :: string
  ru_State :: UploadState
  ru_Offset :: int
  ru_ExpiresAt :: gotime
  ru_CollectedAt :: gotime

record ArtifactTombstone =
  at_RepositoryID :: string
  at_Format :: Format
  at_Coordinate :: string
  at_Digest :: string
  at_TombstonedAt :: gotime

record RawWriteCondition =
  wr_RequireAbsent :: bool
  wr_RequirePresent :: bool
  wr_MatchDigests :: "string list"
  wr_NoneMatchDigests :: "string list"

definition zeroRawAsset :: RawAsset where
  "zeroRawAsset =
     \<lparr>ra_RepositoryID = [], ra_Path = [], ra_Digest = [], ra_ObjectKey = [], ra_ContentType = [],
      ra_Size = 0, ra_UpdatedAt = zeroTime\<rparr>"

definition noCondition :: RawWriteCondition where
  "noCondition = \<lparr>wr_RequireAbsent = False, wr_RequirePresent = False, wr_MatchDigests = [], wr_NoneMatchDigests = []\<rparr>"

record raw_store = lifecycle_store +
  rawAssets :: "RawAsset gomap"
  rawObjects :: "RawObject gomap"
  rawAssetTombstones :: "RawAsset gomap"
  artifactTombstones :: "ArtifactTombstone gomap"
  rawUploads :: "RawUpload gomap"

definition emptyRawStore :: raw_store where
  "emptyRawStore = lifecycle_store.extend emptyLifecycleStore
     \<lparr>rawAssets = [], rawObjects = [], rawAssetTombstones = [], artifactTombstones = [], rawUploads = []\<rparr>"

definition rawAssetKey :: "string \<Rightarrow> string \<Rightarrow> string" where
  "rawAssetKey repositoryID path = repositoryID @ nul # path"

definition tombstoneKey :: "string \<Rightarrow> string \<Rightarrow> string" where
  "tombstoneKey repositoryID path = repositoryID @ nul # FormatRaw @ nul # path"

section \<open>Conditions\<close>

definition Unconditional :: "RawWriteCondition \<Rightarrow> bool" where
  "Unconditional c \<longleftrightarrow> \<not> wr_RequireAbsent c \<and> \<not> wr_RequirePresent c \<and> wr_MatchDigests c = [] \<and> wr_NoneMatchDigests c = []"

text \<open>The current reference is \<^const>\<open>None\<close> when it does not exist.\<close>

definition Allows :: "RawWriteCondition \<Rightarrow> RawAsset option \<Rightarrow> bool" where
  "Allows c current =
     (case current of
        None \<Rightarrow> \<not> wr_RequirePresent c \<and> wr_MatchDigests c = []
      | Some a \<Rightarrow>
          if wr_RequireAbsent c then False
          else if wr_MatchDigests c \<noteq> [] \<and> ra_Digest a \<notin> set (wr_MatchDigests c) then False
          else ra_Digest a \<notin> set (wr_NoneMatchDigests c))"

section \<open>Uploads\<close>

definition CreateRawUpload :: "RawUpload \<Rightarrow> 'z raw_store_scheme \<Rightarrow> RawUpload \<times> 'z raw_store_scheme" where
  "CreateRawUpload upload s = (upload, s\<lparr>rawUploads := gm_put (ru_ID upload) upload (rawUploads s)\<rparr>)"

definition GetRawUpload :: "string \<Rightarrow> 'z raw_store_scheme \<Rightarrow> RawUpload result" where
  "GetRawUpload i s = (case gm_get (rawUploads s) i of None \<Rightarrow> Inl ErrNotFound | Some v \<Rightarrow> Inr v)"

definition UpdateRawUpload ::
  "gotime \<Rightarrow> string \<Rightarrow> int \<Rightarrow> 'z raw_store_scheme \<Rightarrow> RawUpload result \<times> 'z raw_store_scheme" where
  "UpdateRawUpload now i offset s =
     (case gm_get (rawUploads s) i of
        None \<Rightarrow> (Inl ErrNotFound, s)
      | Some v \<Rightarrow>
          if ru_State v \<noteq> UploadOpen \<or> now > ru_ExpiresAt v then (Inl ErrNotFound, s)
          else let v = v\<lparr>ru_Offset := offset\<rparr>
               in (Inr v, s\<lparr>rawUploads := gm_put i v (rawUploads s)\<rparr>))"

definition CancelRawUpload :: "string \<Rightarrow> 'z raw_store_scheme \<Rightarrow> RawUpload result \<times> 'z raw_store_scheme" where
  "CancelRawUpload i s =
     (case gm_get (rawUploads s) i of
        None \<Rightarrow> (Inl ErrNotFound, s)
      | Some v \<Rightarrow>
          if ru_State v \<noteq> UploadOpen then (Inl ErrNotFound, s)
          else let v = v\<lparr>ru_State := UploadCancelled\<rparr>
               in (Inr v, s\<lparr>rawUploads := gm_put i v (rawUploads s)\<rparr>))"

text \<open>The conditional writes return an asset together with an error, so a failed condition reports the current one.\<close>

definition CompleteRawUploadIf ::
  "(nat \<Rightarrow> gotime) \<Rightarrow> string \<Rightarrow> RawAsset \<Rightarrow> RawWriteCondition \<Rightarrow> 'z raw_store_scheme
     \<Rightarrow> (RawAsset \<times> error option) \<times> 'z raw_store_scheme" where
  "CompleteRawUploadIf clk i asset condition s =
     (case gm_get (rawUploads s) i of
        None \<Rightarrow> ((zeroRawAsset, Some ErrNotFound), s)
      | Some v \<Rightarrow>
          if ru_State v \<noteq> UploadOpen \<or> clk 0 > ru_ExpiresAt v \<or> ru_RepositoryID v \<noteq> ra_RepositoryID asset \<or>
             ru_Path v \<noteq> ra_Path asset
          then ((zeroRawAsset, Some ErrNotFound), s)
          else
            let key = rawAssetKey (ra_RepositoryID asset) (ra_Path asset);
                current = gm_get (rawAssets s) key
            in if \<not> Allows condition current
               then ((case current of Some a \<Rightarrow> a | None \<Rightarrow> zeroRawAsset, Some ErrPreconditionFailed), s)
               else
                 let asset = asset\<lparr>ra_UpdatedAt := clk 1\<rparr>;
                     object = \<lparr>ro_RepositoryID = ra_RepositoryID asset, ro_Digest = ra_Digest asset,
                               ro_ObjectKey = ra_ObjectKey asset, ro_Size = ra_Size asset,
                               ro_CreatedAt = clk 1, ro_CollectedAt = zeroTime\<rparr>
                 in ((asset, None),
                     s\<lparr>rawObjects := gm_put (ra_Digest asset) object (rawObjects s),
                       rawAssets := gm_put key asset (rawAssets s),
                       rawUploads := gm_put i (v\<lparr>ru_State := UploadCompleted\<rparr>) (rawUploads s)\<rparr>))"

definition CompleteRawUpload ::
  "(nat \<Rightarrow> gotime) \<Rightarrow> string \<Rightarrow> RawAsset \<Rightarrow> 'z raw_store_scheme \<Rightarrow> (RawAsset \<times> error option) \<times> 'z raw_store_scheme" where
  "CompleteRawUpload clk i asset s = CompleteRawUploadIf clk i asset noCondition s"

fun expireEach ::
  "nat \<Rightarrow> gotime \<Rightarrow> (string \<times> RawUpload) list \<Rightarrow> RawUpload list \<Rightarrow> RawUpload gomap \<Rightarrow> RawUpload list \<times> RawUpload gomap" where
  "expireEach limit before [] uploads m = (uploads, m)"
| "expireEach limit before ((i, u) # us) uploads m =
     (if length uploads \<ge> limit \<or> ru_State u \<noteq> UploadOpen \<or> \<not> ru_ExpiresAt u < before
      then expireEach limit before us uploads m
      else let u = u\<lparr>ru_State := UploadCancelled\<rparr>
           in expireEach limit before us (uploads @ [u]) (gm_put i u m))"

definition rawLimit :: "int \<Rightarrow> nat" where
  "rawLimit limit = (if limit \<le> 0 then 100 else nat limit)"

definition ExpireRawUploads ::
  "gotime \<Rightarrow> int \<Rightarrow> 'z raw_store_scheme \<Rightarrow> RawUpload list \<times> 'z raw_store_scheme" where
  "ExpireRawUploads before limit s =
     (let (uploads, m) = expireEach (rawLimit limit) before (rawUploads s) [] (rawUploads s)
      in (uploads, s\<lparr>rawUploads := m\<rparr>))"

definition uploadSettled :: "RawUpload \<Rightarrow> bool" where
  "uploadSettled u \<longleftrightarrow> (ru_State u = UploadCompleted \<or> ru_State u = UploadCancelled) \<and> isZero (ru_CollectedAt u)"

definition ListUncollectedRawUploads :: "int \<Rightarrow> 'z raw_store_scheme \<Rightarrow> RawUpload list" where
  "ListUncollectedRawUploads limit s = take (rawLimit limit) (filter uploadSettled (gm_vals (rawUploads s)))"

definition MarkRawUploadCollected ::
  "gotime \<Rightarrow> string \<Rightarrow> 'z raw_store_scheme \<Rightarrow> unit result \<times> 'z raw_store_scheme" where
  "MarkRawUploadCollected now i s =
     (case gm_get (rawUploads s) i of
        None \<Rightarrow> (Inl ErrNotFound, s)
      | Some u \<Rightarrow>
          if \<not> uploadSettled u then (Inl ErrNotFound, s)
          else (Inr (), s\<lparr>rawUploads := gm_put i (u\<lparr>ru_CollectedAt := now\<rparr>) (rawUploads s)\<rparr>))"

section \<open>Assets and objects\<close>

definition StageRawObject :: "gotime \<Rightarrow> RawObject \<Rightarrow> 'z raw_store_scheme \<Rightarrow> 'z raw_store_scheme" where
  "StageRawObject now object s =
     (let new = (case gm_get (rawObjects s) (ro_Digest object) of
                   Some existing \<Rightarrow> existing\<lparr>ro_CollectedAt := zeroTime\<rparr>
                 | None \<Rightarrow> object\<lparr>ro_CreatedAt := now\<rparr>)
      in s\<lparr>rawObjects := gm_put (ro_Digest object) new (rawObjects s)\<rparr>)"

definition PutRawAssetIf ::
  "(nat \<Rightarrow> gotime) \<Rightarrow> RawAsset \<Rightarrow> RawWriteCondition \<Rightarrow> 'z raw_store_scheme
     \<Rightarrow> (RawAsset \<times> error option) \<times> 'z raw_store_scheme" where
  "PutRawAssetIf clk asset condition s =
     (let key = rawAssetKey (ra_RepositoryID asset) (ra_Path asset);
          current = gm_get (rawAssets s) key
      in if \<not> Allows condition current
         then ((case current of Some a \<Rightarrow> a | None \<Rightarrow> zeroRawAsset, Some ErrPreconditionFailed), s)
         else
           let asset = asset\<lparr>ra_UpdatedAt := clk 0\<rparr>;
               (asset, object) =
                 (case gm_get (rawObjects s) (ra_Digest asset) of
                    Some ob \<Rightarrow>
                      (asset\<lparr>ra_ObjectKey := ro_ObjectKey ob, ra_Size := ro_Size ob\<rparr>,
                       ob\<lparr>ro_RepositoryID := ra_RepositoryID asset, ro_CollectedAt := zeroTime\<rparr>)
                  | None \<Rightarrow>
                      (asset,
                       \<lparr>ro_RepositoryID = ra_RepositoryID asset, ro_Digest = ra_Digest asset,
                        ro_ObjectKey = ra_ObjectKey asset, ro_Size = ra_Size asset,
                        ro_CreatedAt = clk 1, ro_CollectedAt = zeroTime\<rparr>))
           in ((asset, None),
               s\<lparr>rawObjects := gm_put (ra_Digest asset) object (rawObjects s),
                 rawAssets := gm_put key asset (rawAssets s)\<rparr>))"

definition PutRawAsset ::
  "(nat \<Rightarrow> gotime) \<Rightarrow> RawAsset \<Rightarrow> 'z raw_store_scheme \<Rightarrow> (RawAsset \<times> error option) \<times> 'z raw_store_scheme" where
  "PutRawAsset clk asset s = PutRawAssetIf clk asset noCondition s"

definition GetRawAsset :: "string \<Rightarrow> string \<Rightarrow> 'z raw_store_scheme \<Rightarrow> RawAsset result" where
  "GetRawAsset repositoryID path s =
     (case gm_get (rawAssets s) (rawAssetKey repositoryID path) of None \<Rightarrow> Inl ErrNotFound | Some a \<Rightarrow> Inr a)"

text \<open>
  \<open>lower\<close> stands for \<^verbatim>\<open>strings.ToLower\<close>; the search mode is the first of the optional arguments.
\<close>

type_synonym ArtifactSearchMatch = string

definition searchMatch :: "ArtifactSearchMatch list \<Rightarrow> ArtifactSearchMatch \<Rightarrow> ArtifactSearchMatch" where
  "searchMatch ms legacy = (case ms of m # _ \<Rightarrow> if m \<noteq> [] then m else legacy | [] \<Rightarrow> legacy)"

definition searchTextMatches ::
  "(string \<Rightarrow> string) \<Rightarrow> string \<Rightarrow> string \<Rightarrow> ArtifactSearchMatch list \<Rightarrow> bool" where
  "searchTextMatches lower val keyword ms =
     (if searchMatch ms ''prefix'' = ''contains'' then containsSub (lower val) (lower keyword)
      else hasPrefix val keyword)"

definition ListRawAssets ::
  "(string \<Rightarrow> string) \<Rightarrow> string \<Rightarrow> string \<Rightarrow> int \<Rightarrow> string \<Rightarrow> ArtifactSearchMatch list \<Rightarrow> 'z raw_store_scheme
     \<Rightarrow> RawAsset list" where
  "ListRawAssets lower repositoryID pfx limit after ms s =
     take (rawLimit limit) (sort_key ra_Path
       (filter (\<lambda>a. ra_RepositoryID a = repositoryID \<and> searchTextMatches lower (ra_Path a) pfx ms \<and> ra_Path a > after)
         (gm_vals (rawAssets s))))"

definition DeleteRawAsset ::
  "gotime \<Rightarrow> string \<Rightarrow> string \<Rightarrow> 'z raw_store_scheme \<Rightarrow> unit result \<times> 'z raw_store_scheme" where
  "DeleteRawAsset now repositoryID path s =
     (let key = rawAssetKey repositoryID path
      in case gm_get (rawAssets s) key of
           None \<Rightarrow> (Inl ErrNotFound, s)
         | Some asset \<Rightarrow>
             let s = s\<lparr>rawAssetTombstones := gm_put key asset (rawAssetTombstones s),
                       artifactTombstones := gm_put (tombstoneKey repositoryID path)
                         \<lparr>at_RepositoryID = repositoryID, at_Format = FormatRaw, at_Coordinate = path,
                          at_Digest = ra_Digest asset, at_TombstonedAt = now\<rparr> (artifactTombstones s)\<rparr>;
                 s = (case gm_get (rawObjects s) (ra_Digest asset) of
                        Some ob \<Rightarrow>
                          s\<lparr>rawObjects := gm_put (ra_Digest asset)
                              (ob\<lparr>ro_CreatedAt := now, ro_CollectedAt := zeroTime\<rparr>) (rawObjects s)\<rparr>
                      | None \<Rightarrow> s)
             in (Inr (), s\<lparr>rawAssets := gm_del key (rawAssets s)\<rparr>))"

definition RestoreRawAsset ::
  "gotime \<Rightarrow> string \<Rightarrow> string \<Rightarrow> 'z raw_store_scheme \<Rightarrow> RawAsset result \<times> 'z raw_store_scheme" where
  "RestoreRawAsset now repositoryID path s =
     (let key = rawAssetKey repositoryID path
      in case gm_get (rawAssetTombstones s) key of
           None \<Rightarrow> (Inl ErrNotFound, s)
         | Some asset \<Rightarrow>
             if gm_get (rawAssets s) key \<noteq> None then (Inl ErrNameExists, s)
             else case gm_get (rawObjects s) (ra_Digest asset) of
                    None \<Rightarrow> (Inl ErrNotFound, s)
                  | Some ob \<Rightarrow>
                      if \<not> isZero (ro_CollectedAt ob) then (Inl ErrNotFound, s)
                      else let asset = asset\<lparr>ra_ObjectKey := ro_ObjectKey ob, ra_Size := ro_Size ob, ra_UpdatedAt := now\<rparr>
                           in (Inr asset,
                               s\<lparr>rawAssets := gm_put key asset (rawAssets s),
                                 rawAssetTombstones := gm_del key (rawAssetTombstones s),
                                 artifactTombstones := gm_del (tombstoneKey repositoryID path) (artifactTombstones s)\<rparr>))"

section \<open>Collection\<close>

definition rawReferenced :: "string \<Rightarrow> 'z raw_store_scheme \<Rightarrow> bool" where
  "rawReferenced digest s \<longleftrightarrow> list_ex (\<lambda>a. ra_Digest a = digest) (gm_vals (rawAssets s))"

definition ListUnreferencedRawObjects :: "gotime \<Rightarrow> int \<Rightarrow> 'z raw_store_scheme \<Rightarrow> RawObject list" where
  "ListUnreferencedRawObjects before limit s =
     take (rawLimit limit) (map snd (filter (\<lambda>(digest, ob).
       \<not> (ro_RepositoryID ob = [] \<or> \<not> isZero (ro_CollectedAt ob) \<or> \<not> ro_CreatedAt ob < before) \<and>
       \<not> rawReferenced digest s) (rawObjects s)))"

definition RawObjectIsUnreferenced :: "string \<Rightarrow> 'z raw_store_scheme \<Rightarrow> bool" where
  "RawObjectIsUnreferenced digest s =
     (case gm_get (rawObjects s) digest of
        None \<Rightarrow> False
      | Some ob \<Rightarrow> if \<not> isZero (ro_CollectedAt ob) then False else \<not> rawReferenced digest s)"

definition MarkRawObjectCollected ::
  "gotime \<Rightarrow> string \<Rightarrow> 'z raw_store_scheme \<Rightarrow> unit result \<times> 'z raw_store_scheme" where
  "MarkRawObjectCollected now digest s =
     (case gm_get (rawObjects s) digest of
        None \<Rightarrow> (Inl ErrNotFound, s)
      | Some ob \<Rightarrow>
          if \<not> isZero (ro_CollectedAt ob) then (Inl ErrNotFound, s)
          else if rawReferenced digest s then (Inl ErrNotFound, s)
          else (Inr (), s\<lparr>rawObjects := gm_put digest (ob\<lparr>ro_CollectedAt := now\<rparr>) (rawObjects s)\<rparr>))"

end
