(* ===== verification/RawLaws.thy ===== *)
theory RawLaws
  imports Raw Contracts
begin

text \<open>
  What the raw component promises: content that a path refers to is never collected, conditional
  writers cannot overwrite each other's work, and a deleted path can be restored until its content
  has been collected. The invariant is kept by every operation, by rule induction over the runs of
  the store.
\<close>

section \<open>The invariant\<close>

definition contentLive :: "string \<Rightarrow> 'z raw_store_scheme \<Rightarrow> bool" where
  "contentLive digest s \<longleftrightarrow>
     (case gm_get (rawObjects s) digest of None \<Rightarrow> False | Some ob \<Rightarrow> isZero (ro_CollectedAt ob))"

definition raw_ok :: "'z raw_store_scheme \<Rightarrow> bool" where
  "raw_ok s \<longleftrightarrow>
     gm_ok (rawAssets s) \<and> gm_ok (rawObjects s) \<and>
     (\<forall>k a. gm_get (rawAssets s) k = Some a \<longrightarrow>
        k = rawAssetKey (ra_RepositoryID a) (ra_Path a) \<and> contentLive (ra_Digest a) s) \<and>
     (\<forall>k a. gm_get (rawAssetTombstones s) k = Some a \<longrightarrow> k = rawAssetKey (ra_RepositoryID a) (ra_Path a)) \<and>
     (\<forall>d ob. gm_get (rawObjects s) d = Some ob \<longrightarrow> ro_Digest ob = d)"

inductive raw_step :: "'z raw_store_scheme \<Rightarrow> 'z raw_store_scheme \<Rightarrow> bool" where
  create_upload: "raw_step s (snd (CreateRawUpload upload s))"
| update_upload: "raw_step s (snd (UpdateRawUpload now i offset s))"
| cancel_upload: "raw_step s (snd (CancelRawUpload i s))"
| complete_upload: "raw_step s (snd (CompleteRawUploadIf clk i asset condition s))"
| expire_uploads: "raw_step s (snd (ExpireRawUploads before limit s))"
| upload_collected: "raw_step s (snd (MarkRawUploadCollected now i s))"
| stage: "raw_step s (StageRawObject now object s)"
| put: "raw_step s (snd (PutRawAssetIf clk asset condition s))"
| delete: "raw_step s (snd (DeleteRawAsset now repositoryID path s))"
| restore: "raw_step s (snd (RestoreRawAsset now repositoryID path s))"
| collected: "raw_step s (snd (MarkRawObjectCollected now digest s))"

inductive raw_reach :: "'z raw_store_scheme \<Rightarrow> 'z raw_store_scheme \<Rightarrow> bool" for s0 where
  start: "raw_reach s0 s0"
| step: "raw_reach s0 s \<Longrightarrow> raw_step s s' \<Longrightarrow> raw_reach s0 s'"

section \<open>Every operation keeps the invariant\<close>

lemma raw_ok_uploads [simp]: "raw_ok (s\<lparr>rawUploads := us\<rparr>) = raw_ok s"
  by (simp add: raw_ok_def contentLive_def)

lemma raw_okD:
  assumes "raw_ok s" and "gm_get (rawAssets s) k = Some a"
  shows "k = rawAssetKey (ra_RepositoryID a) (ra_Path a)" "contentLive (ra_Digest a) s"
  using assms by (auto simp: raw_ok_def)

lemma rawReferenced_iff:
  "raw_ok s \<Longrightarrow> rawReferenced digest s \<longleftrightarrow> (\<exists>k a. gm_get (rawAssets s) k = Some a \<and> ra_Digest a = digest)"
  using gm_vals_iff [of "rawAssets s"] unfolding raw_ok_def rawReferenced_def list_ex_iff by metis

lemma contentLive_put:
  "contentLive d (s\<lparr>rawObjects := gm_put d' ob (rawObjects s)\<rparr>) =
     (if d = d' then isZero (ro_CollectedAt ob) else contentLive d s)"
  by (simp add: contentLive_def)

text \<open>Publishing a path writes a live object first and then the reference to it.\<close>

lemma raw_ok_publish:
  assumes "raw_ok s" and "ro_Digest ob = ra_Digest a" and "isZero (ro_CollectedAt ob)"
  shows "raw_ok (s\<lparr>rawObjects := gm_put (ra_Digest a) ob (rawObjects s),
      rawAssets := gm_put (rawAssetKey (ra_RepositoryID a) (ra_Path a)) a (rawAssets s)\<rparr>)"
  using assms by (auto simp: raw_ok_def contentLive_def)

lemma raw_ok_object:
  assumes "raw_ok s" and "ro_Digest ob = d" and "isZero (ro_CollectedAt ob) \<or> \<not> rawReferenced d s"
  shows "raw_ok (s\<lparr>rawObjects := gm_put d ob (rawObjects s)\<rparr>)"
  using assms rawReferenced_iff [OF assms(1)] by (auto simp: raw_ok_def contentLive_def)

lemma raw_ok_complete:
  assumes "raw_ok s"
  shows "raw_ok (snd (CompleteRawUploadIf clk i asset condition s))"
  using assms raw_ok_publish [OF assms, of
      "\<lparr>ro_RepositoryID = ra_RepositoryID asset, ro_Digest = ra_Digest asset, ro_ObjectKey = ra_ObjectKey asset,
        ro_Size = ra_Size asset, ro_CreatedAt = clk 1, ro_CollectedAt = zeroTime\<rparr>" "asset\<lparr>ra_UpdatedAt := clk 1\<rparr>"]
  by (auto simp: CompleteRawUploadIf_def Let_def split: option.splits)

lemma raw_ok_put:
  assumes "raw_ok s"
  shows "raw_ok (snd (PutRawAssetIf clk asset condition s))"
proof (cases "gm_get (rawObjects s) (ra_Digest asset)")
  case None
  show ?thesis
    using assms None raw_ok_publish [OF assms, of
      "\<lparr>ro_RepositoryID = ra_RepositoryID asset, ro_Digest = ra_Digest asset, ro_ObjectKey = ra_ObjectKey asset,
        ro_Size = ra_Size asset, ro_CreatedAt = clk 1, ro_CollectedAt = zeroTime\<rparr>" "asset\<lparr>ra_UpdatedAt := clk 0\<rparr>"]
    by (simp add: PutRawAssetIf_def Let_def)
next
  case (Some ob)
  moreover from this assms have "ro_Digest ob = ra_Digest asset"
    by (simp add: raw_ok_def)
  ultimately show ?thesis
    using assms raw_ok_publish [OF assms, of
      "ob\<lparr>ro_RepositoryID := ra_RepositoryID asset, ro_CollectedAt := zeroTime\<rparr>"
      "asset\<lparr>ra_UpdatedAt := clk 0, ra_ObjectKey := ro_ObjectKey ob, ra_Size := ro_Size ob\<rparr>"]
    by (simp add: PutRawAssetIf_def Let_def)
qed

lemma raw_ok_delete:
  assumes ok: "raw_ok s"
  shows "raw_ok (snd (DeleteRawAsset now repositoryID path s))"
proof (cases "gm_get (rawAssets s) (rawAssetKey repositoryID path)")
  case None
  with ok show ?thesis by (simp add: DeleteRawAsset_def)
next
  case (Some a)
  obtain ob where "gm_get (rawObjects s) (ra_Digest a) = Some ob" "ro_Digest ob = ra_Digest a"
    using raw_okD(2) [OF ok Some] ok by (auto simp: contentLive_def raw_ok_def split: option.splits)
  with ok Some show ?thesis
    by (auto simp: DeleteRawAsset_def raw_ok_def contentLive_def Let_def)
qed

lemma raw_ok_restore:
  assumes "raw_ok s"
  shows "raw_ok (snd (RestoreRawAsset now repositoryID path s))"
  using assms
  by (auto simp: RestoreRawAsset_def raw_ok_def contentLive_def Let_def split: option.splits)

lemma raw_ok_expire: "raw_ok s \<Longrightarrow> raw_ok (snd (ExpireRawUploads before limit s))"
  by (simp add: ExpireRawUploads_def case_prod_beta)

lemma raw_ok_stage:
  assumes "raw_ok s"
  shows "raw_ok (StageRawObject now object s)"
proof (cases "gm_get (rawObjects s) (ro_Digest object)")
  case None
  with assms have "\<not> rawReferenced (ro_Digest object) s"
    by (auto simp: rawReferenced_iff dest!: raw_okD(2) [OF assms] simp: contentLive_def)
  with assms None show ?thesis
    by (auto simp: StageRawObject_def intro: raw_ok_object)
next
  case (Some ob)
  moreover from this assms have "ro_Digest ob = ro_Digest object"
    by (simp add: raw_ok_def)
  ultimately show ?thesis
    using assms by (auto simp: StageRawObject_def intro: raw_ok_object)
qed

lemma raw_ok_collect:
  assumes "raw_ok s"
  shows "raw_ok (snd (MarkRawObjectCollected now digest s))"
proof (cases "gm_get (rawObjects s) digest")
  case None
  with assms show ?thesis by (simp add: MarkRawObjectCollected_def)
next
  case (Some ob)
  with assms have "ro_Digest ob = digest"
    by (simp add: raw_ok_def)
  with assms Some show ?thesis
    by (auto simp: MarkRawObjectCollected_def intro: raw_ok_object)
qed

lemmas raw_ok_ops = raw_ok_complete raw_ok_put raw_ok_delete raw_ok_restore raw_ok_expire raw_ok_stage raw_ok_collect

lemma raw_step_ok:
  assumes "raw_step s s'" and "raw_ok s"
  shows "raw_ok s'"
  using assms
  by cases (auto simp: raw_ok_ops CreateRawUpload_def UpdateRawUpload_def CancelRawUpload_def MarkRawUploadCollected_def
      Let_def split: option.splits)

lemma raw_reach_ok: "raw_reach s0 s \<Longrightarrow> raw_ok s0 \<Longrightarrow> raw_ok s"
  by (induction rule: raw_reach.induct) (auto intro: raw_step_ok)

section \<open>Conditional writers\<close>

text \<open>
  Writers of one path, direct or by completing an upload, that all carry the same condition: that the
  path does not exist yet, or that it still has the digest they read.
\<close>

datatype raw_write = PutWrite RawAsset | CompleteWrite string RawAsset

fun writtenAsset :: "raw_write \<Rightarrow> RawAsset" where
  "writtenAsset (PutWrite a) = a"
| "writtenAsset (CompleteWrite i a) = a"

fun rawWrite ::
  "(nat \<Rightarrow> gotime) \<Rightarrow> RawWriteCondition \<Rightarrow> raw_write \<Rightarrow> 'z raw_store_scheme
     \<Rightarrow> (RawAsset \<times> error option) \<times> 'z raw_store_scheme" where
  "rawWrite clk condition (PutWrite a) s = PutRawAssetIf clk a condition s"
| "rawWrite clk condition (CompleteWrite i a) s = CompleteRawUploadIf clk i a condition s"

definition ifAbsent :: RawWriteCondition where
  "ifAbsent = noCondition\<lparr>wr_RequireAbsent := True\<rparr>"

definition ifDigest :: "string \<Rightarrow> RawWriteCondition" where
  "ifDigest d = noCondition\<lparr>wr_MatchDigests := [d]\<rparr>"

definition writeKey :: "raw_write \<Rightarrow> string" where
  "writeKey w = rawAssetKey (ra_RepositoryID (writtenAsset w)) (ra_Path (writtenAsset w))"

lemma rawWrite_won:
  assumes "rawWrite clk condition w s = ((a, None), s')"
  shows "Allows condition (gm_get (rawAssets s) (writeKey w))"
    and "gm_get (rawAssets s') k = (if k = writeKey w then Some a else gm_get (rawAssets s) k)"
    and "ra_Digest a = ra_Digest (writtenAsset w)"
  using assms
  by (cases w; force simp: PutRawAssetIf_def CompleteRawUploadIf_def writeKey_def Let_def
      split: option.splits if_splits)+

lemma rawWrite_lost:
  assumes "rawWrite clk condition w s = ((a, Some e), s')"
  shows "s' = s"
  using assms
  by (cases w) (auto simp: PutRawAssetIf_def CompleteRawUploadIf_def Let_def split: option.splits if_splits)

interpretation create_race: one_shot
  "\<lambda>s :: 'z raw_store_scheme. gm_get (rawAssets s) key = None" "rawWrite clk ifAbsent" "\<lambda>(a, e). e = None"
  "\<lambda>w. writeKey w = key" for key clk
proof unfold_locales
  fix w and s s' :: "'z raw_store_scheme" and r :: "RawAsset \<times> error option"
  assume w: "writeKey w = key" and f: "rawWrite clk ifAbsent w s = (r, s')"
  show "gm_get (rawAssets s) key = None \<and> gm_get (rawAssets s') key \<noteq> None" if "case r of (a, e) \<Rightarrow> e = None"
  proof -
    from that f have f: "rawWrite clk ifAbsent w s = ((fst r, None), s')"
      by (cases r) simp
    show ?thesis
      using rawWrite_won(1,2) [OF f] w by (auto simp: Allows_def ifAbsent_def split: option.splits)
  qed
  show "gm_get (rawAssets s') key \<noteq> None" if "\<not> (case r of (a, e) \<Rightarrow> e = None)" "gm_get (rawAssets s) key \<noteq> None"
    using that f by (cases r) (auto dest: rawWrite_lost)
qed

interpretation replace_race: one_shot
  "\<lambda>s :: 'z raw_store_scheme. map_option ra_Digest (gm_get (rawAssets s) key) = Some d" "rawWrite clk (ifDigest d)"
  "\<lambda>(a, e). e = None \<and> ra_Digest a \<noteq> d" "\<lambda>w. writeKey w = key" for key clk d
proof unfold_locales
  fix w and s s' :: "'z raw_store_scheme" and r :: "RawAsset \<times> error option"
  assume w: "writeKey w = key" and f: "rawWrite clk (ifDigest d) w s = (r, s')"
  have ok: "map_option ra_Digest (gm_get (rawAssets s) key) = Some d" "gm_get (rawAssets s') key = Some (fst r)" if "snd r = None"
  proof -
    from that f have f: "rawWrite clk (ifDigest d) w s = ((fst r, None), s')"
      by (cases r) simp
    show "map_option ra_Digest (gm_get (rawAssets s) key) = Some d" "gm_get (rawAssets s') key = Some (fst r)"
      using rawWrite_won [OF f] w by (auto simp: Allows_def ifDigest_def noCondition_def split: option.splits if_splits)
  qed
  show "map_option ra_Digest (gm_get (rawAssets s) key) = Some d \<and>
      map_option ra_Digest (gm_get (rawAssets s') key) \<noteq> Some d" if "case r of (a, e) \<Rightarrow> e = None \<and> ra_Digest a \<noteq> d"
    using that ok by (cases r) simp
  show "map_option ra_Digest (gm_get (rawAssets s') key) \<noteq> Some d"
    if "map_option ra_Digest (gm_get (rawAssets s) key) \<noteq> Some d"
  proof (cases "snd r")
    case None
    then show ?thesis using ok(1) that by simp
  next
    case (Some e)
    then have "rawWrite clk (ifDigest d) w s = ((fst r, Some e), s')" using f by (cases r) simp
    then show ?thesis using rawWrite_lost that by blast
  qed
qed

section \<open>The properties of raw assets\<close>

lemma emptyRawStore_ok: "raw_ok emptyRawStore"
  by (simp add: raw_ok_def emptyRawStore_def lifecycle_store.defs)

lemma GetRawAsset_get: "GetRawAsset repositoryID path s = Inr a \<longleftrightarrow> gm_get (rawAssets s) (rawAssetKey repositoryID path) = Some a"
  by (auto simp: GetRawAsset_def split: option.splits)

lemma listed_unreferenced:
  assumes "raw_ok s" and "ob \<in> set (ListUnreferencedRawObjects before limit s)"
  shows "gm_get (rawObjects s) (ro_Digest ob) = Some ob" "isZero (ro_CollectedAt ob)" "\<not> rawReferenced (ro_Digest ob) s"
    "ro_CreatedAt ob < before"
proof -
  obtain d where d: "(d, ob) \<in> set (rawObjects s)" "isZero (ro_CollectedAt ob)" "\<not> rawReferenced d s" "ro_CreatedAt ob < before"
    using assms(2) unfolding ListUnreferencedRawObjects_def by (auto dest!: in_set_takeD)
  moreover have "gm_get (rawObjects s) d = Some ob" and "ro_Digest ob = d"
    using d(1) assms(1) by (auto simp: raw_ok_def gm_get_iff)
  ultimately show "gm_get (rawObjects s) (ro_Digest ob) = Some ob" "isZero (ro_CollectedAt ob)"
    "\<not> rawReferenced (ro_Digest ob) s" "ro_CreatedAt ob < before"
    by auto
qed

text \<open>
  C5. Collection never takes content in use. In every state the store can reach, an asset a read finds has
  its content object, uncollected; the collector's questions answer that it is in use, the listing of
  collectable objects does not name it and marking it collected is refused without a change. And the
  collector makes progress: an object the listing names is older than the cut-off and can be marked.
\<close>

theorem raw_content_safe:
  assumes "raw_reach emptyRawStore s"
  shows "(\<forall>repositoryID path a. GetRawAsset repositoryID path s = Inr a \<longrightarrow>
           (\<exists>ob. gm_get (rawObjects s) (ra_Digest a) = Some ob \<and> ro_Digest ob = ra_Digest a \<and> isZero (ro_CollectedAt ob)) \<and>
           \<not> RawObjectIsUnreferenced (ra_Digest a) s \<and>
           (\<forall>before limit. \<forall>ob \<in> set (ListUnreferencedRawObjects before limit s). ro_Digest ob \<noteq> ra_Digest a) \<and>
           (\<forall>now. MarkRawObjectCollected now (ra_Digest a) s = (Inl ErrNotFound, s))) \<and>
         (\<forall>before limit. \<forall>ob \<in> set (ListUnreferencedRawObjects before limit s).
           ro_CreatedAt ob < before \<and> (\<forall>now. fst (MarkRawObjectCollected now (ro_Digest ob) s) = Inr ()))"
proof (intro conjI allI impI ballI)
  have ok: "raw_ok s"
    using raw_reach_ok [OF assms emptyRawStore_ok] .
  {
    fix repositoryID path a
    assume "GetRawAsset repositoryID path s = Inr a"
    then have get: "gm_get (rawAssets s) (rawAssetKey repositoryID path) = Some a"
      by (simp add: GetRawAsset_get)
    then have ref: "rawReferenced (ra_Digest a) s"
      using rawReferenced_iff [OF ok] by blast
    show "\<exists>ob. gm_get (rawObjects s) (ra_Digest a) = Some ob \<and> ro_Digest ob = ra_Digest a \<and> isZero (ro_CollectedAt ob)"
      using raw_okD(2) [OF ok get] ok by (auto simp: contentLive_def raw_ok_def split: option.splits)
    show "\<not> RawObjectIsUnreferenced (ra_Digest a) s"
      using ref by (simp add: RawObjectIsUnreferenced_def split: option.splits)
    show "ro_Digest ob \<noteq> ra_Digest a" if "ob \<in> set (ListUnreferencedRawObjects before limit s)" for before limit ob
      using listed_unreferenced(3) [OF ok that] ref by auto
    show "MarkRawObjectCollected now (ra_Digest a) s = (Inl ErrNotFound, s)" for now
      using ref by (simp add: MarkRawObjectCollected_def split: option.splits)
  }
  fix before limit ob
  assume listed: "ob \<in> set (ListUnreferencedRawObjects before limit s)"
  show "ro_CreatedAt ob < before" and "fst (MarkRawObjectCollected now (ro_Digest ob) s) = Inr ()" for now
    using listed_unreferenced [OF ok listed] by (simp_all add: MarkRawObjectCollected_def)
qed

lemma raw_conditional_write_parts:
  shows "rawWrite clk condition w s = ((a, None), s') \<Longrightarrow>
      Allows condition (gm_get (rawAssets s) (writeKey w)) \<and> ra_Digest a = ra_Digest (writtenAsset w) \<and>
      GetRawAsset (ra_RepositoryID (writtenAsset w)) (ra_Path (writtenAsset w)) s' = Inr a \<and>
      (\<forall>k. k \<noteq> writeKey w \<longrightarrow> gm_get (rawAssets s') k = gm_get (rawAssets s) k)"
    and "rawWrite clk condition w s = ((a, Some e), s') \<Longrightarrow> s' = s"
    and "\<not> Allows condition current \<Longrightarrow> gm_get (rawAssets s) (writeKey (PutWrite new)) = current \<Longrightarrow>
      PutRawAssetIf clk new condition s = ((case current of Some a \<Rightarrow> a | None \<Rightarrow> zeroRawAsset, Some ErrPreconditionFailed), s)"
    and "\<forall>w \<in> set ws. writeKey w = key \<Longrightarrow>
      length (filter (\<lambda>(a, e). e = None) (fst (run_writes (rawWrite clk ifAbsent) ws s))) \<le> 1"
    and "\<forall>w \<in> set ws. writeKey w = key \<Longrightarrow>
      length (filter (\<lambda>(a, e). e = None \<and> ra_Digest a \<noteq> d) (fst (run_writes (rawWrite clk (ifDigest d)) ws s))) \<le> 1"
    and "Allows (ifDigest d) (gm_get (rawAssets s) (writeKey (PutWrite new))) \<Longrightarrow> ra_Digest new = d \<Longrightarrow>
      \<forall>(a, e) \<in> set (fst (run_writes (rawWrite clk (ifDigest d)) (replicate n (PutWrite new)) s)). e = None"
proof -
  show "Allows condition (gm_get (rawAssets s) (writeKey w)) \<and> ra_Digest a = ra_Digest (writtenAsset w) \<and>
      GetRawAsset (ra_RepositoryID (writtenAsset w)) (ra_Path (writtenAsset w)) s' = Inr a \<and>
      (\<forall>k. k \<noteq> writeKey w \<longrightarrow> gm_get (rawAssets s') k = gm_get (rawAssets s) k)"
    if "rawWrite clk condition w s = ((a, None), s')"
    using rawWrite_won [OF that] by (simp add: GetRawAsset_get writeKey_def)
  show "s' = s" if "rawWrite clk condition w s = ((a, Some e), s')"
    using that by (rule rawWrite_lost)
  show "PutRawAssetIf clk new condition s = ((case current of Some a \<Rightarrow> a | None \<Rightarrow> zeroRawAsset, Some ErrPreconditionFailed), s)"
    if "\<not> Allows condition current" "gm_get (rawAssets s) (writeKey (PutWrite new)) = current"
    using that by (simp add: PutRawAssetIf_def writeKey_def)
  show "\<forall>(a, e) \<in> set (fst (run_writes (rawWrite clk (ifDigest d)) (replicate n (PutWrite new)) s)). e = None"
    if "Allows (ifDigest d) (gm_get (rawAssets s) (writeKey (PutWrite new)))" "ra_Digest new = d"
    using that
  proof (induction n arbitrary: s)
    case (Suc n)
    obtain a e s' where f: "rawWrite clk (ifDigest d) (PutWrite new) s = ((a, e), s')" by (metis prod.exhaust)
    have won: "e = None" using f Suc.prems(1) by (auto simp: PutRawAssetIf_def writeKey_def Let_def split: option.splits prod.splits)
    note w = rawWrite_won [OF f [unfolded won]]
    have "Allows (ifDigest d) (gm_get (rawAssets s') (writeKey (PutWrite new)))"
      using w(2) [of "writeKey (PutWrite new)"] w(3) Suc.prems(2) by (simp add: Allows_def ifDigest_def noCondition_def)
    with Suc.IH [of s'] Suc.prems(2) f won show ?case by (simp add: case_prod_beta)
  qed simp
qed (rule create_race.at_most_one replace_race.at_most_one; assumption)+

text \<open>
  C28. Conditional publication. A direct write or the completion of an upload succeeds only when the
  condition allows the current reference, then exactly that path is replaced and reads back with the
  digest that was written; a failed one changes nothing, and a direct one reports the current asset. Of
  any number of writers that require the path to be absent at most one succeeds. Of any number of writers that require the digest
  they read at most one succeeds with another digest; those that write the required digest again
  all succeed, since the path still satisfies their condition.
\<close>

theorem raw_conditional_write:
  "(\<forall>w a s'. rawWrite clk condition w s = ((a, None), s') \<longrightarrow>
      Allows condition (gm_get (rawAssets s) (writeKey w)) \<and> ra_Digest a = ra_Digest (writtenAsset w) \<and>
      GetRawAsset (ra_RepositoryID (writtenAsset w)) (ra_Path (writtenAsset w)) s' = Inr a \<and>
      (\<forall>k. k \<noteq> writeKey w \<longrightarrow> gm_get (rawAssets s') k = gm_get (rawAssets s) k)) \<and>
   (\<forall>w a e s'. rawWrite clk condition w s = ((a, Some e), s') \<longrightarrow> s' = s) \<and>
   (\<forall>current new. \<not> Allows condition current \<longrightarrow> gm_get (rawAssets s) (writeKey (PutWrite new)) = current \<longrightarrow>
      PutRawAssetIf clk new condition s = ((case current of Some a \<Rightarrow> a | None \<Rightarrow> zeroRawAsset, Some ErrPreconditionFailed), s)) \<and>
   (\<forall>ws key. (\<forall>w \<in> set ws. writeKey w = key) \<longrightarrow>
      length (filter (\<lambda>(a, e). e = None) (fst (run_writes (rawWrite clk ifAbsent) ws s))) \<le> 1) \<and>
   (\<forall>ws key d. (\<forall>w \<in> set ws. writeKey w = key) \<longrightarrow>
      length (filter (\<lambda>(a, e). e = None \<and> ra_Digest a \<noteq> d) (fst (run_writes (rawWrite clk (ifDigest d)) ws s))) \<le> 1) \<and>
   (\<forall>new d n. Allows (ifDigest d) (gm_get (rawAssets s) (writeKey (PutWrite new))) \<longrightarrow> ra_Digest new = d \<longrightarrow>
      (\<forall>(a, e) \<in> set (fst (run_writes (rawWrite clk (ifDigest d)) (replicate n (PutWrite new)) s)). e = None))"
  by (intro conjI allI impI raw_conditional_write_parts)

text \<open>
  C29. Deletion can be undone. After a deletion the path is gone and the age of its content starts over, so a
  collection with an earlier cut-off does not list it; a restoration brings the path back with the same
  digest and content type, pointing at the stored object, clears the tombstone and leaves the other paths alone. Once
  the content has been collected the restoration is refused and changes nothing.
\<close>

theorem raw_delete_restore:
  assumes "raw_reach emptyRawStore s" and "GetRawAsset repositoryID path s = Inr a"
  shows "\<exists>s1. DeleteRawAsset now repositoryID path s = (Inr (), s1) \<and>
     GetRawAsset repositoryID path s1 = Inl ErrNotFound \<and>
     (\<forall>before limit. before \<le> now \<longrightarrow> (\<forall>ob \<in> set (ListUnreferencedRawObjects before limit s1). ro_Digest ob \<noteq> ra_Digest a)) \<and>
     (\<exists>b s2. RestoreRawAsset later repositoryID path s1 = (Inr b, s2) \<and> GetRawAsset repositoryID path s2 = Inr b \<and>
        ra_Digest b = ra_Digest a \<and> ra_Path b = ra_Path a \<and> ra_ContentType b = ra_ContentType a \<and>
        map_option ro_ObjectKey (gm_get (rawObjects s2) (ra_Digest a)) = Some (ra_ObjectKey b) \<and>
        gm_get (artifactTombstones s2) (tombstoneKey repositoryID path) = None \<and>
        (\<forall>k. k \<noteq> rawAssetKey repositoryID path \<longrightarrow> gm_get (rawAssets s2) k = gm_get (rawAssets s) k)) \<and>
     (\<forall>at s3. at \<noteq> zeroTime \<longrightarrow> MarkRawObjectCollected at (ra_Digest a) s1 = (Inr (), s3) \<longrightarrow>
        RestoreRawAsset later repositoryID path s3 = (Inl ErrNotFound, s3))"
proof -
  let ?k = "rawAssetKey repositoryID path"
  have ok: "raw_ok s"
    using raw_reach_ok [OF assms(1) emptyRawStore_ok] .
  have get: "gm_get (rawAssets s) ?k = Some a"
    using assms(2) by (simp add: GetRawAsset_get)
  obtain ob where ob: "gm_get (rawObjects s) (ra_Digest a) = Some ob"
    using raw_okD(2) [OF ok get] by (auto simp: contentLive_def split: option.splits)
  obtain s1 where s1: "DeleteRawAsset now repositoryID path s = (Inr (), s1)"
    "gm_get (rawAssets s1) ?k = None" "gm_get (rawAssetTombstones s1) ?k = Some a"
    "gm_get (rawObjects s1) (ra_Digest a) = Some (ob\<lparr>ro_CreatedAt := now, ro_CollectedAt := zeroTime\<rparr>)"
    "\<And>k. k \<noteq> ?k \<Longrightarrow> gm_get (rawAssets s1) k = gm_get (rawAssets s) k"
    using get ob by (simp add: DeleteRawAsset_def Let_def)
  have ok1: "raw_ok s1"
    using raw_ok_delete [OF ok, of now repositoryID path] s1(1) by simp
  have young: "ro_Digest ob' \<noteq> ra_Digest a"
    if "before \<le> now" "ob' \<in> set (ListUnreferencedRawObjects before limit s1)" for before limit ob'
    using listed_unreferenced(1,4) [OF ok1 that(2)] that(1) s1(4) by auto
  have "RestoreRawAsset later repositoryID path s3 = (Inl ErrNotFound, s3)"
    if "at \<noteq> zeroTime" "MarkRawObjectCollected at (ra_Digest a) s1 = (Inr (), s3)" for at s3
    using that s1(2,3,4)
    by (auto simp: MarkRawObjectCollected_def RestoreRawAsset_def isZero_def Let_def split: if_splits)
  moreover have "\<exists>b s2. RestoreRawAsset later repositoryID path s1 = (Inr b, s2) \<and> GetRawAsset repositoryID path s2 = Inr b \<and>
        ra_Digest b = ra_Digest a \<and> ra_Path b = ra_Path a \<and> ra_ContentType b = ra_ContentType a \<and>
        map_option ro_ObjectKey (gm_get (rawObjects s2) (ra_Digest a)) = Some (ra_ObjectKey b) \<and>
        gm_get (artifactTombstones s2) (tombstoneKey repositoryID path) = None \<and>
        (\<forall>k. k \<noteq> ?k \<longrightarrow> gm_get (rawAssets s2) k = gm_get (rawAssets s) k)"
    using s1(2-5) by (simp add: RestoreRawAsset_def GetRawAsset_get Let_def)
  ultimately show ?thesis
    using s1(1,2) young by (auto simp: GetRawAsset_def)
qed

section \<open>Witnesses\<close>

definition exampleAsset :: RawAsset where
  "exampleAsset = \<lparr>ra_RepositoryID = ''r1'', ra_Path = ''a.bin'', ra_Digest = ''d1'', ra_ObjectKey = ''k1'',
     ra_ContentType = ''text'', ra_Size = 3, ra_UpdatedAt = zeroTime\<rparr>"

definition exampleRawStore :: raw_store where
  "exampleRawStore = snd (PutRawAssetIf (\<lambda>_. 5) exampleAsset noCondition emptyRawStore)"

lemma exampleRawStore_reach: "raw_reach emptyRawStore exampleRawStore"
  unfolding exampleRawStore_def by (rule raw_reach.step [OF raw_reach.start raw_step.put])

lemmas raw_example_defs = exampleRawStore_def exampleAsset_def PutRawAssetIf_def Allows_def noCondition_def
  emptyRawStore_def lifecycle_store.defs GetRawAsset_def Let_def

lemma exampleRawStore_get: "GetRawAsset ''r1'' ''a.bin'' exampleRawStore = Inr (exampleAsset\<lparr>ra_UpdatedAt := 5\<rparr>)"
  by (simp add: raw_example_defs)

theorem raw_content_safe_witness: "MarkRawObjectCollected 9 ''d1'' exampleRawStore = (Inl ErrNotFound, exampleRawStore)"
  using raw_content_safe [OF exampleRawStore_reach] exampleRawStore_get by (fastforce simp: exampleAsset_def)

theorem raw_conditional_write_witness:
  "length (filter (\<lambda>(a, e). e = None \<and> ra_Digest a \<noteq> ''d1'') (fst (run_writes (rawWrite (\<lambda>_. 6) (ifDigest ''d1''))
     [PutWrite (exampleAsset\<lparr>ra_Digest := ''d2''\<rparr>), PutWrite (exampleAsset\<lparr>ra_Digest := ''d3''\<rparr>)] exampleRawStore))) \<le> 1"
  by (rule raw_conditional_write [THEN conjunct2, THEN conjunct2, THEN conjunct2, THEN conjunct2, THEN conjunct1, rule_format,
        of _ "rawAssetKey ''r1'' ''a.bin''"]) (auto simp: writeKey_def exampleAsset_def)

theorem raw_delete_restore_witness:
  "\<exists>s1 b s2. DeleteRawAsset 7 ''r1'' ''a.bin'' exampleRawStore = (Inr (), s1) \<and>
     RestoreRawAsset 8 ''r1'' ''a.bin'' s1 = (Inr b, s2) \<and> ra_Digest b = ''d1''"
  using raw_delete_restore [OF exampleRawStore_reach exampleRawStore_get, of 7 8] by (auto simp: exampleAsset_def)

end
