(* ===== verification/GoStrings.thy ===== *)
theory GoStrings
  imports Prelude
begin

text \<open>
  More of package \<^verbatim>\<open>strings\<close>, on byte lists: splitting, cutting, trimming of white space and comparison,
  as the protocol and planning packages use them.
\<close>

section \<open>Splitting\<close>

fun splitOn :: "char \<Rightarrow> string \<Rightarrow> string list" where
  "splitOn sep [] = [[]]"
| "splitOn sep (c # cs) =
     (if c = sep then [] # splitOn sep cs
      else case splitOn sep cs of [] \<Rightarrow> [[c]] | p # ps \<Rightarrow> (c # p) # ps)"

text \<open>
  \<^verbatim>\<open>strings.Cut\<close> at a one-byte separator, which is also \<^verbatim>\<open>strings.SplitN\<close> with a bound of two: the text before,
  and the text after when the separator occurs.
\<close>

fun cutAt :: "char \<Rightarrow> string \<Rightarrow> string \<times> string option" where
  "cutAt sep [] = ([], None)"
| "cutAt sep (c # cs) = (if c = sep then ([], Some cs) else let (a, b) = cutAt sep cs in (c # a, b))"

definition countChar :: "char \<Rightarrow> string \<Rightarrow> nat" where
  "countChar c s = length (filter (\<lambda>x. x = c) s)"

definition containsAny :: "string \<Rightarrow> char list \<Rightarrow> bool" where
  "containsAny s cs \<longleftrightarrow> list_ex (\<lambda>c. c \<in> set cs) s"

lemma splitOn_nonempty [simp]: "splitOn sep s \<noteq> []"
  by (induction s) (auto split: list.splits)

lemma splitOn_no_sep: "p \<in> set (splitOn sep s) \<Longrightarrow> sep \<notin> set p"
proof (induction s arbitrary: p)
  case (Cons c cs)
  obtain q qs where q: "splitOn sep cs = q # qs"
    using splitOn_nonempty by (meson neq_Nil_conv)
  have ih: "sep \<notin> set q" "\<And>p. p \<in> set qs \<Longrightarrow> sep \<notin> set p"
    using Cons.IH q by auto
  have "p = [] \<or> p = q \<or> p \<in> set qs \<or> p = c # q \<and> c \<noteq> sep"
    using Cons.prems q by (auto split: if_splits)
  then show ?case using ih by auto
qed simp

lemma length_splitOn: "length (splitOn sep s) = countChar sep s + 1"
proof (induction s)
  case (Cons c cs)
  obtain q qs where "splitOn sep cs = q # qs"
    using splitOn_nonempty by (meson neq_Nil_conv)
  with Cons show ?case by (simp add: countChar_def)
qed (simp add: countChar_def)

lemma cutAt_Some: "cutAt sep s = (a, Some b) \<Longrightarrow> s = a @ sep # b \<and> sep \<notin> set a"
proof (induction s arbitrary: a)
  case (Cons c cs)
  then show ?case by (cases "cutAt sep cs") (auto split: if_splits)
qed simp

lemma cutAt_None: "cutAt sep s = (a, None) \<Longrightarrow> a = s \<and> sep \<notin> set s"
proof (induction s arbitrary: a)
  case (Cons c cs)
  then show ?case by (cases "cutAt sep cs") (auto split: if_splits)
qed simp

lemma cutAt_append: "sep \<notin> set a \<Longrightarrow> cutAt sep (a @ sep # b) = (a, Some b)"
  by (induction a) auto

lemma cutAt_absent: "sep \<notin> set a \<Longrightarrow> cutAt sep a = (a, None)"
  by (induction a) auto

section \<open>White space\<close>

text \<open>
  \<^verbatim>\<open>strings.TrimSpace\<close> removes the runes of \<^verbatim>\<open>unicode.IsSpace\<close> at both ends: the six ASCII ones, and
  \<^verbatim>\<open>U+0085 U+00A0 U+1680 U+2000-U+200A U+2028 U+2029 U+202F U+205F U+3000\<close> in their UTF-8 encoding. Bytes that are not
  valid UTF-8 are never part of such a rune.
\<close>

definition spaceRunes :: "string list" where
  "spaceRunes =
     [[CHR 0x20], [CHR 0x09], [CHR 0x0A], [CHR 0x0B], [CHR 0x0C], [CHR 0x0D],
      [CHR 0xC2, CHR 0x85], [CHR 0xC2, CHR 0xA0], [CHR 0xE1, CHR 0x9A, CHR 0x80]]
     @ map (\<lambda>n. [CHR 0xE2, CHR 0x80, char_of (0x80 + n)]) [0..<11]
     @ [[CHR 0xE2, CHR 0x80, CHR 0xA8], [CHR 0xE2, CHR 0x80, CHR 0xA9], [CHR 0xE2, CHR 0x80, CHR 0xAF],
        [CHR 0xE2, CHR 0x81, CHR 0x9F], [CHR 0xE3, CHR 0x80, CHR 0x80]]"

lemma spaceRunes_nonempty: "r \<in> set spaceRunes \<Longrightarrow> r \<noteq> []"
  by (auto simp: spaceRunes_def)

function trimLeftSpace :: "string \<Rightarrow> string" where
  "trimLeftSpace s =
     (case find (hasPrefix s) spaceRunes of None \<Rightarrow> s | Some r \<Rightarrow> trimLeftSpace (drop (length r) s))"
  by pat_completeness auto
termination
proof (relation "measure length")
  fix s r
  assume "find (hasPrefix s) spaceRunes = Some r"
  from find_SomeD [OF this] have "hasPrefix s r" and "0 < length r"
    using spaceRunes_nonempty by auto
  then have "length s - length r < length s"
    by (intro diff_less) (auto simp: hasPrefix_iff)
  then show "(drop (length r) s, s) \<in> measure length"
    by simp
qed simp

function trimRightSpace :: "string \<Rightarrow> string" where
  "trimRightSpace s =
     (case find (hasSuffix s) spaceRunes of None \<Rightarrow> s | Some r \<Rightarrow> trimRightSpace (take (length s - length r) s))"
  by pat_completeness auto
termination
proof (relation "measure length")
  fix s r
  assume "find (hasSuffix s) spaceRunes = Some r"
  from find_SomeD [OF this] have "hasSuffix s r" and "0 < length r"
    using spaceRunes_nonempty by auto
  then have "length s - length r < length s"
    by (intro diff_less) (auto simp: hasSuffix_iff)
  then show "(take (length s - length r) s, s) \<in> measure length"
    by simp
qed simp

declare trimLeftSpace.simps [simp del] trimRightSpace.simps [simp del]

definition trimSpace :: "string \<Rightarrow> string" where
  "trimSpace s = trimRightSpace (trimLeftSpace s)"

lemma trimLeftSpace_suffix: "\<exists>p. s = p @ trimLeftSpace s"
proof (induction s rule: trimLeftSpace.induct)
  case (1 s)
  show ?case
  proof (cases "find (hasPrefix s) spaceRunes")
    case None
    then show ?thesis by (subst trimLeftSpace.simps) simp
  next
    case (Some r)
    with 1 obtain p where "drop (length r) s = p @ trimLeftSpace (drop (length r) s)" by blast
    then have "s = (take (length r) s @ p) @ trimLeftSpace (drop (length r) s)"
      by (metis append_assoc append_take_drop_id)
    moreover from Some have "trimLeftSpace s = trimLeftSpace (drop (length r) s)"
      by (subst trimLeftSpace.simps) simp
    ultimately show ?thesis by metis
  qed
qed

lemma trimRightSpace_prefix: "\<exists>p. s = trimRightSpace s @ p"
proof (induction s rule: trimRightSpace.induct)
  case (1 s)
  show ?case
  proof (cases "find (hasSuffix s) spaceRunes")
    case None
    then show ?thesis by (subst trimRightSpace.simps) simp
  next
    case (Some r)
    let ?t = "take (length s - length r) s"
    from 1 Some obtain p where "?t = trimRightSpace ?t @ p" by blast
    then have "s = trimRightSpace ?t @ (p @ drop (length s - length r) s)"
      by (metis append_assoc append_take_drop_id)
    moreover from Some have "trimRightSpace s = trimRightSpace ?t"
      by (subst trimRightSpace.simps) simp
    ultimately show ?thesis by metis
  qed
qed

lemma set_trimSpace: "set (trimSpace s) \<subseteq> set s"
  using trimLeftSpace_suffix [of s] trimRightSpace_prefix [of "trimLeftSpace s"]
  unfolding trimSpace_def by (metis Un_iff set_append subsetI)

section \<open>Comparison\<close>

text \<open>\<^verbatim>\<open>strings.Compare\<close> and the numeric comparisons of the sources: minus one, zero or one.\<close>

definition compare3 :: "'a :: linorder \<Rightarrow> 'a \<Rightarrow> int" where
  "compare3 a b = (if a < b then -1 else if a > b then 1 else 0)"

lemma compare3_simps [simp]:
  "compare3 a b = 0 \<longleftrightarrow> a = b" "compare3 a b = -1 \<longleftrightarrow> a < b" "compare3 a b = 1 \<longleftrightarrow> b < a" "compare3 a a = 0"
  by (auto simp: compare3_def)

lemma compare3_sym: "compare3 b a = - compare3 a b"
  by (auto simp: compare3_def)

end
