(* ===== verification/RawHttp.thy ===== *)
theory RawHttp
  imports GoStrings
begin

text \<open>
  Delivery of raw content over HTTP (\<^verbatim>\<open>internal/protocol/raw/range.go\<close> and \<^verbatim>\<open>http.go\<close>): the grammar of byte ranges, the
  merging of intervals, and the response with its conditional, single-range, multipart and complete forms.
\<close>

section \<open>Byte ranges\<close>

definition maxRangeHeaderBytes :: nat where
  "maxRangeHeaderBytes = 8192"

definition maxRangeCount :: nat where
  "maxRangeCount = 16"

definition maxMultipartBytes :: int where
  "maxMultipartBytes = 64 * 1048576"

type_synonym byteInterval = "int \<times> int"

text \<open>
  The accumulation of \<^verbatim>\<open>parseRangeByte\<close> with its overflow test; the quotient of the test is not negative.
\<close>

fun rangeDigits :: "int \<Rightarrow> string \<Rightarrow> int option" where
  "rangeDigits result [] = Some result"
| "rangeDigits result (c # cs) =
     (if \<not> is_digit c then None
      else
        let digit = int (digit_val c)
        in if result > (2 ^ 63 - 1 - digit) div 10 then None else rangeDigits (result * 10 + digit) cs)"

definition parseRangeByte :: "string \<Rightarrow> int option" where
  "parseRangeByte v = (if v = [] then None else rangeDigits 0 v)"

definition bytesPrefix :: string where
  "bytesPrefix = ''bytes=''"

definition parseRange :: "string \<Rightarrow> int \<Rightarrow> byteInterval option" where
  "parseRange v sz =
     (if sz < 0 \<or> \<not> hasPrefix v bytesPrefix then None
      else case cutAt (CHR ''-'') (trimPrefix v bytesPrefix) of
        (_, None) \<Rightarrow> None
      | (low, Some high) \<Rightarrow>
          if CHR '','' \<in> set v then None
          else if low = [] then
            (case parseRangeByte high of
               None \<Rightarrow> None
             | Some wanted \<Rightarrow>
                 if wanted \<le> 0 \<or> sz = 0 then None
                 else Some (if wanted < sz then sz - wanted else 0, sz - 1))
          else
            (case parseRangeByte low of
               None \<Rightarrow> None
             | Some start \<Rightarrow>
                 if start \<ge> sz then None
                 else if high = [] then Some (start, sz - 1)
                 else
                   (case parseRangeByte high of
                      None \<Rightarrow> None
                    | Some stop \<Rightarrow>
                        if stop < start then None else Some (start, if stop \<ge> sz then sz - 1 else stop))))"

text \<open>One member of the header: refused, skipped because it lies behind the content, or an interval.\<close>

datatype member_result = Refused | Skipped | Taken byteInterval

definition parseMember :: "string \<Rightarrow> int \<Rightarrow> member_result" where
  "parseMember member sz =
     (case cutAt (CHR ''-'') member of
        (_, None) \<Rightarrow> Refused
      | (low, Some high) \<Rightarrow>
          (let checked =
             (if low = [] then Taken (0, 0)
              else
                (case parseRangeByte low of
                   None \<Rightarrow> Refused
                 | Some start \<Rightarrow>
                     if high \<noteq> [] \<and> (case parseRangeByte high of None \<Rightarrow> True | Some stop \<Rightarrow> stop < start) then Refused
                     else if start \<ge> sz then Skipped
                     else Taken (0, 0)))
           in case checked of
                Taken _ \<Rightarrow> (case parseRange (bytesPrefix @ member) sz of None \<Rightarrow> Refused | Some i \<Rightarrow> Taken i)
              | r \<Rightarrow> r))"

fun parseMembers :: "int \<Rightarrow> string list \<Rightarrow> byteInterval list option" where
  "parseMembers sz [] = Some []"
| "parseMembers sz (m # ms) =
     (case parseMember (trimSpace m) sz of
        Refused \<Rightarrow> None
      | Skipped \<Rightarrow> parseMembers sz ms
      | Taken i \<Rightarrow> map_option (\<lambda>is. i # is) (parseMembers sz ms))"

fun mergeIntervals :: "byteInterval \<Rightarrow> byteInterval list \<Rightarrow> byteInterval list" where
  "mergeIntervals prev [] = [prev]"
| "mergeIntervals prev (i # is) =
     (if fst i \<le> snd prev + 1 then mergeIntervals (fst prev, max (snd prev) (snd i)) is
      else prev # mergeIntervals i is)"

fun withinMultipart :: "int \<Rightarrow> byteInterval list \<Rightarrow> bool" where
  "withinMultipart sofar [] = True"
| "withinMultipart sofar (i # is) =
     (let n = snd i - fst i + 1 in if n > maxMultipartBytes - sofar then False else withinMultipart (sofar + n) is)"

definition parseRanges :: "string \<Rightarrow> int \<Rightarrow> byteInterval list option" where
  "parseRanges v sz =
     (if sz \<le> 0 \<or> length v > maxRangeHeaderBytes \<or> \<not> hasPrefix v bytesPrefix \<or> countChar (CHR '','') v \<ge> maxRangeCount
      then None
      else case parseMembers sz (splitOn (CHR '','') (trimPrefix v bytesPrefix)) of
        None \<Rightarrow> None
      | Some is \<Rightarrow>
          (case sort_key fst is of
             [] \<Rightarrow> None
           | i # rest \<Rightarrow>
               let merged = mergeIntervals i rest
               in if length merged > 1 \<and> \<not> withinMultipart 0 merged then None else Some merged))"

definition ifRangeMatches :: "string \<Rightarrow> string \<Rightarrow> bool" where
  "ifRangeMatches v etag =
     (if v = [] then True
      else let v = trimSpace v in etag \<noteq> [] \<and> v = etag \<and> \<not> hasPrefix v ''W/'' \<and> \<not> hasPrefix etag ''W/'')"

section \<open>Content and responses\<close>

text \<open>
  A reader is the bytes it delivers before it ends or fails. A source opens readers together with the size
  of the whole object; \<^const>\<open>None\<close> is an error.
\<close>

record ContentSource =
  so_Open :: "(string \<times> int) option"
  so_OpenRange :: "int \<Rightarrow> int \<Rightarrow> (string \<times> int) option"

record Content =
  ct_Body :: string
  ct_Digest :: string
  ct_ContentType :: string
  ct_Size :: int
  ct_Source :: "ContentSource option"

record HttpRequest =
  rq_Method :: string
  rq_Range :: "string list"
  rq_IfRange :: "string list"
  rq_IfNoneMatch :: string

record statusWriter =
  sw_headers :: "string gomap"
  sw_status :: int
  sw_body :: string
  sw_bytes :: int

record ServeResult =
  se_Status :: int
  se_Bytes :: int

definition setHeader :: "string \<Rightarrow> string \<Rightarrow> statusWriter \<Rightarrow> statusWriter" where
  "setHeader k v w = w\<lparr>sw_headers := gm_put k v (sw_headers w)\<rparr>"

definition delHeader :: "string \<Rightarrow> statusWriter \<Rightarrow> statusWriter" where
  "delHeader k w = w\<lparr>sw_headers := gm_del k (sw_headers w)\<rparr>"

definition WriteHeader :: "int \<Rightarrow> statusWriter \<Rightarrow> statusWriter" where
  "WriteHeader st w = w\<lparr>sw_status := st\<rparr>"

definition Write :: "string \<Rightarrow> statusWriter \<Rightarrow> statusWriter" where
  "Write body w =
     (let w = (if sw_status w = 0 then WriteHeader 200 w else w)
      in w\<lparr>sw_body := sw_body w @ body, sw_bytes := sw_bytes w + int (length body)\<rparr>)"

definition resultOf :: "statusWriter \<Rightarrow> ServeResult" where
  "resultOf w =
     (let st = (if sw_status w = 0 then 200 else sw_status w)
      in if st < 200 \<or> st \<ge> 300 then \<lparr>se_Status = st, se_Bytes = 0\<rparr> else \<lparr>se_Status = st, se_Bytes = sw_bytes w\<rparr>)"

definition httpError :: "string \<Rightarrow> int \<Rightarrow> statusWriter \<Rightarrow> statusWriter" where
  "httpError msg st w =
     Write (msg @ [CHR 0x0A])
       (WriteHeader st (setHeader ''X-Content-Type-Options'' ''nosniff''
         (setHeader ''Content-Type'' ''text/plain; charset=utf-8'' (delHeader ''Content-Length'' w))))"

text \<open>\<^verbatim>\<open>utoa\<close> fills its buffer of 20 bytes from the right; every 64-bit number has at most 20 digits.\<close>

definition utoa :: "int \<Rightarrow> string" where
  "utoa n = formatNat (nat (n mod 2 ^ 64))"

definition openContent :: "Content \<Rightarrow> (string \<times> int) option" where
  "openContent content =
     (case ct_Source content of
        Some source \<Rightarrow> so_Open source
      | None \<Rightarrow> Some (ct_Body content, int (length (ct_Body content))))"

definition openContentRange :: "Content \<Rightarrow> int \<Rightarrow> int \<Rightarrow> (string \<times> int) option" where
  "openContentRange content offset len =
     (case ct_Source content of
        Some source \<Rightarrow> so_OpenRange source offset len
      | None \<Rightarrow>
          if offset < 0 \<or> len < 0 \<or> offset > int (length (ct_Body content)) \<or> len > int (length (ct_Body content)) - offset
          then None
          else Some (take (nat len) (drop (nat offset) (ct_Body content)), int (length (ct_Body content))))"

section \<open>Serving\<close>

definition crlf :: string where
  "crlf = [CHR 0x0D, CHR 0x0A]"

definition partType :: "string \<Rightarrow> string" where
  "partType contentType =
     (if contentType = [] \<or> length contentType > 1024 \<or> containsAny contentType crlf then ''application/octet-stream'' else contentType)"

definition partPrefix :: "string \<Rightarrow> string \<Rightarrow> int \<Rightarrow> nat \<Rightarrow> byteInterval \<Rightarrow> string" where
  "partPrefix boundary contentType sz k i =
     (if k > 0 then crlf else []) @ ''--'' @ boundary @ crlf @ ''Content-Range: bytes '' @ utoa (fst i) @ ''-'' @ utoa (snd i) @ ''/'' @
     utoa sz @ crlf @ ''Content-Type: '' @ contentType @ crlf @ crlf"

definition intervalLength :: "byteInterval \<Rightarrow> int" where
  "intervalLength i = snd i - fst i + 1"

text \<open>The loop over the parts after the headers; the first interval has been opened before them.\<close>

fun writeParts ::
  "Content \<Rightarrow> int \<Rightarrow> string \<Rightarrow> string \<Rightarrow> nat \<Rightarrow> (string \<times> int) option \<Rightarrow> byteInterval list \<Rightarrow> statusWriter \<Rightarrow> statusWriter" where
  "writeParts content sz boundary contentType k reader [] w = Write (crlf @ ''--'' @ boundary @ ''--'' @ crlf) w"
| "writeParts content sz boundary contentType k reader (i # is) w =
     (case reader of
        None \<Rightarrow> w
      | Some (bytes, sourceSize) \<Rightarrow>
          if sourceSize \<noteq> sz then w
          else
            let w = Write (partPrefix boundary contentType sz k i) w;
                copied = take (nat (intervalLength i)) bytes;
                w = Write copied w
            in if int (length copied) < intervalLength i then w
               else writeParts content sz boundary contentType (Suc k)
                      (case is of [] \<Rightarrow> None | j # _ \<Rightarrow> openContentRange content (fst j) (intervalLength j)) is w)"

fun partLengths :: "string \<Rightarrow> string \<Rightarrow> int \<Rightarrow> nat \<Rightarrow> byteInterval list \<Rightarrow> int" where
  "partLengths boundary contentType sz k [] = 0"
| "partLengths boundary contentType sz k (i # is) =
     int (length (partPrefix boundary contentType sz k i)) + intervalLength i + partLengths boundary contentType sz (Suc k) is"

definition serveMultipart ::
  "string \<Rightarrow> statusWriter \<Rightarrow> Content \<Rightarrow> int \<Rightarrow> byteInterval list \<Rightarrow> statusWriter" where
  "serveMultipart boundary w content sz is =
     (let contentType = partType (ct_ContentType content);
          len = partLengths boundary contentType sz 0 is + int (length (crlf @ ''--'' @ boundary @ ''--'' @ crlf));
          reader = openContentRange content (fst (hd is)) (intervalLength (hd is))
      in case reader of
           None \<Rightarrow> httpError ''Raw object unavailable'' 500 w
         | Some (_, sourceSize) \<Rightarrow>
             if sourceSize \<noteq> sz then httpError ''Raw object unavailable'' 500 w
             else
               let w = setHeader ''Content-Type'' (''multipart/byteranges; boundary='' @ boundary) w;
                   w = setHeader ''Accept-Ranges'' ''bytes'' w;
                   w = setHeader ''Content-Length'' (utoa len) w;
                   w = delHeader ''Content-Range'' w;
                   w = WriteHeader 206 w
               in writeParts content sz boundary contentType 0 reader is w)"

definition unsatisfiable :: "int \<Rightarrow> statusWriter \<Rightarrow> statusWriter" where
  "unsatisfiable sz w = WriteHeader 416 (setHeader ''Content-Range'' (''bytes */'' @ utoa sz) w)"

definition etagOf :: "Content \<Rightarrow> string" where
  "etagOf content = [CHR 0x22] @ ''sha256-'' @ ct_Digest content @ [CHR 0x22]"

definition contentSize :: "Content \<Rightarrow> int" where
  "contentSize content = (if ct_Source content = None then int (length (ct_Body content)) else ct_Size content)"

text \<open>
  \<open>disposition\<close> is the value of \<^verbatim>\<open>ContentDisposition(name)\<close>, \<open>digestHeader\<close> the encoding of the digest header, and
  \<open>boundary\<close> the random boundary of the multipart writer. Writes to the connection succeed and the request is not cancelled.
\<close>

definition serveRange :: "HttpRequest \<Rightarrow> Content \<Rightarrow> int \<Rightarrow> byteInterval \<Rightarrow> statusWriter \<Rightarrow> statusWriter" where
  "serveRange r content sz i w =
     (let start = fst i; stop = snd i; len = stop - start + 1;
          reader = (if rq_Method r \<noteq> ''HEAD'' then openContentRange content start len else Some ([], 0))
      in case reader of
           None \<Rightarrow> httpError ''Raw object unavailable'' 500 w
         | Some (bytes, _) \<Rightarrow>
             let w = setHeader ''Accept-Ranges'' ''bytes'' w;
                 w = setHeader ''Content-Range'' (''bytes '' @ utoa start @ ''-'' @ utoa stop @ ''/'' @ utoa sz) w;
                 w = setHeader ''Content-Length'' (utoa len) w;
                 w = WriteHeader 206 w
             in if rq_Method r \<noteq> ''HEAD'' then Write (take (nat len) bytes) w else w)"

definition serveWhole :: "HttpRequest \<Rightarrow> Content \<Rightarrow> int \<Rightarrow> statusWriter \<Rightarrow> statusWriter" where
  "serveWhole r content sz w =
     (let reader = (if rq_Method r \<noteq> ''HEAD'' then openContent content else Some ([], 0))
      in case reader of
           None \<Rightarrow> httpError ''Raw object unavailable'' 500 w
         | Some (bytes, _) \<Rightarrow>
             let w = setHeader ''Accept-Ranges'' ''bytes'' w;
                 w = setHeader ''Content-Length'' (utoa sz) w;
                 w = WriteHeader 200 w
             in if rq_Method r \<noteq> ''HEAD'' then Write bytes w else w)"

definition rangesOf :: "HttpRequest \<Rightarrow> string \<Rightarrow> string list" where
  "rangesOf r etag =
     (let ranges = (if rq_Method r \<noteq> ''GET'' then [] else rq_Range r)
      in if ranges \<noteq> [] \<and> (length (rq_IfRange r) > 1 \<or> \<not> ifRangeMatches (case rq_IfRange r of [] \<Rightarrow> [] | v # _ \<Rightarrow> v) etag)
         then [] else ranges)"

definition ServeContent ::
  "string \<Rightarrow> string \<Rightarrow> string \<Rightarrow> statusWriter \<Rightarrow> HttpRequest \<Rightarrow> Content \<Rightarrow> statusWriter" where
  "ServeContent disposition digestHeader boundary w r content =
     (let w = setHeader ''Content-Type'' (ct_ContentType content) w;
          w = (if disposition \<noteq> [] then setHeader ''Content-Disposition'' disposition w else w);
          etag = etagOf content;
          w = setHeader ''ETag'' etag w;
          w = setHeader ''Digest'' digestHeader w
      in if rq_IfNoneMatch r = etag then WriteHeader 304 w
         else
           let sz = contentSize content; ranges = rangesOf r etag
           in if ranges \<noteq> [] then
                (if length ranges \<noteq> 1 then unsatisfiable sz w
                 else case parseRanges (hd ranges) sz of
                   None \<Rightarrow> unsatisfiable sz w
                 | Some is \<Rightarrow>
                     if length is > 1 then serveMultipart boundary w content sz is
                     else serveRange r content sz (hd is) w)
              else serveWhole r content sz w)"

end
