(* ===== verification/RawHttpLaws.thy ===== *)
theory RawHttpLaws
  imports RawHttp
begin

text \<open>
  A range header denotes a set of byte positions. The intervals the parser returns are exactly that set in
  normal form, and the response delivers exactly these bytes under a correct length.
\<close>

section \<open>Numbers\<close>

lemma digits_val_mono: "digits_val a s = Some k \<Longrightarrow> a \<le> k"
proof (induction a s rule: digits_val.induct)
  case (2 a c cs)
  then have "a * 10 + digit_val c \<le> k" by (auto split: if_splits)
  then show ?case by simp
qed simp

lemma rangeDigits_value:
  "a < 2 ^ 63 \<Longrightarrow> rangeDigits (int a) s =
     (case digits_val a s of None \<Rightarrow> None | Some k \<Rightarrow> if k < 2 ^ 63 then Some (int k) else None)"
proof (induction a s rule: digits_val.induct)
  case (1 a)
  then show ?case by simp
next
  case (2 a c cs)
  let ?d = "int (digit_val c)" and ?b = "a * 10 + digit_val c"
  have test: "int a > (2 ^ 63 - 1 - ?d) div 10 \<longleftrightarrow> \<not> ?b < 2 ^ 63"
  proof -
    have "int a > (2 ^ 63 - 1 - ?d) div 10 \<longleftrightarrow> int a * 10 + ?d > 2 ^ 63 - 1"
      by presburger
    also have "\<dots> \<longleftrightarrow> \<not> int ?b < int (2 ^ 63)"
      by simp presburger
    finally show ?thesis by (simp only: of_nat_less_iff)
  qed
  show ?case
  proof (cases "is_digit c \<and> ?b < 2 ^ 63")
    case True
    with 2 test show ?thesis by (simp add: Let_def)
  next
    case False
    show ?thesis
    proof (cases "is_digit c")
      case True
      with False have big: "\<not> ?b < 2 ^ 63" by simp
      then have "k \<ge> 2 ^ 63" if "digits_val ?b cs = Some k" for k
        using digits_val_mono [OF that] by simp
      with True big test show ?thesis
        by (auto simp: Let_def split: option.splits)
    next
      case False
      then show ?thesis by simp
    qed
  qed
qed

definition numberOf :: "string \<Rightarrow> int" where
  "numberOf s = (case digits_val 0 s of None \<Rightarrow> 0 | Some k \<Rightarrow> int k)"

lemma parseRangeByte_Some: "parseRangeByte s = Some n \<Longrightarrow> n = numberOf s \<and> 0 \<le> n \<and> n < 2 ^ 63 \<and> s \<noteq> []"
  using rangeDigits_value [of 0 s] by (auto simp: parseRangeByte_def numberOf_def split: option.splits if_splits)

section \<open>What a member denotes\<close>

definition memberBytes :: "int \<Rightarrow> string \<Rightarrow> int set" where
  "memberBytes sz m =
     (case cutAt (CHR ''-'') m of
        (_, None) \<Rightarrow> {}
      | (low, Some high) \<Rightarrow>
          if low = [] then {i. 0 \<le> i \<and> sz - numberOf high \<le> i \<and> i < sz}
          else {i. numberOf low \<le> i \<and> (high \<noteq> [] \<longrightarrow> i \<le> numberOf high) \<and> i < sz})"

definition interval_ok :: "int \<Rightarrow> byteInterval \<Rightarrow> bool" where
  "interval_ok sz i \<longleftrightarrow> 0 \<le> fst i \<and> fst i \<le> snd i \<and> snd i < sz"

definition positions :: "byteInterval list \<Rightarrow> int set" where
  "positions is = (\<Union>i \<in> set is. {fst i..snd i})"

lemma parseRange_taken:
  assumes "0 < sz" and "parseRange (bytesPrefix @ m) sz = Some i"
  shows "interval_ok sz i \<and> {fst i..snd i} = memberBytes sz m"
proof -
  obtain low high where cut: "cutAt (CHR ''-'') m = (low, Some high)"
    using assms(2) by (auto simp: parseRange_def split: if_splits prod.splits option.splits)
  show ?thesis
  proof (cases "low = []")
    case True
    with assms cut obtain n where "parseRangeByte high = Some n" "0 < n" "i = (if n < sz then sz - n else 0, sz - 1)"
      by (auto simp: parseRange_def split: if_splits option.splits)
    with parseRangeByte_Some [of high n] assms(1) cut True show ?thesis
      by (auto simp: interval_ok_def memberBytes_def)
  next
    case False
    with assms cut obtain a where a: "parseRangeByte low = Some a" "a < sz"
      and i: "high = [] \<and> i = (a, sz - 1) \<or>
        (\<exists>b. parseRangeByte high = Some b \<and> a \<le> b \<and> high \<noteq> [] \<and> i = (a, if b \<ge> sz then sz - 1 else b))"
      by (auto simp: parseRange_def split: if_splits option.splits)
    from parseRangeByte_Some [OF a(1)] i a(2) cut False show ?thesis
      by (auto simp: interval_ok_def memberBytes_def dest!: parseRangeByte_Some split: if_splits)
  qed
qed

lemma parseMember_result:
  assumes "0 < sz"
  shows "parseMember m sz = Taken i \<Longrightarrow> interval_ok sz i \<and> {fst i..snd i} = memberBytes sz m"
    and "parseMember m sz = Skipped \<Longrightarrow> memberBytes sz m = {}"
proof -
  show "interval_ok sz i \<and> {fst i..snd i} = memberBytes sz m" if "parseMember m sz = Taken i"
  proof -
    have "parseRange (bytesPrefix @ m) sz = Some i"
      using that by (auto simp: parseMember_def Let_def split: option.splits prod.splits if_splits member_result.splits)
    with assms show ?thesis by (rule parseRange_taken)
  qed
  show "memberBytes sz m = {}" if skipped: "parseMember m sz = Skipped"
  proof -
    obtain low high a where "cutAt (CHR ''-'') m = (low, Some high)" "low \<noteq> []" "parseRangeByte low = Some a" "sz \<le> a"
      using skipped by (auto simp: parseMember_def Let_def split: option.splits prod.splits if_splits member_result.splits)
    then show ?thesis
      using parseRangeByte_Some by (fastforce simp: memberBytes_def)
  qed
qed

lemma parseMembers_result:
  assumes "0 < sz" and "parseMembers sz ms = Some is"
  shows "(\<forall>i \<in> set is. interval_ok sz i) \<and> positions is = (\<Union>m \<in> set ms. memberBytes sz (trimSpace m)) \<and> length is \<le> length ms"
  using assms(2)
proof (induction ms arbitrary: "is")
  case Nil
  then show ?case by (simp add: positions_def)
next
  case (Cons m ms)
  show ?case
  proof (cases "parseMember (trimSpace m) sz")
    case Refused
    with Cons.prems show ?thesis by simp
  next
    case Skipped
    with Cons parseMember_result(2) [OF assms(1) Skipped] show ?thesis by auto
  next
    case (Taken i)
    then obtain js where "is = i # js" "parseMembers sz ms = Some js"
      using Cons.prems by auto
    with Cons.IH parseMember_result(1) [OF assms(1) Taken] show ?thesis
      by (auto simp: positions_def)
  qed
qed

section \<open>Normal form\<close>

definition apart :: "byteInterval \<Rightarrow> byteInterval \<Rightarrow> bool" where
  "apart a b \<longleftrightarrow> snd a + 1 < fst b"

lemma merge_result:
  assumes "interval_ok sz prev" and "\<forall>i \<in> set is. interval_ok sz i \<and> fst prev \<le> fst i" and "sorted (map fst is)"
  shows "(\<forall>i \<in> set (mergeIntervals prev is). interval_ok sz i) \<and> positions (mergeIntervals prev is) = positions (prev # is) \<and>
     successively apart (mergeIntervals prev is) \<and> length (mergeIntervals prev is) \<le> Suc (length is) \<and>
     mergeIntervals prev is \<noteq> [] \<and> fst (hd (mergeIntervals prev is)) = fst prev"
  using assms
proof (induction prev "is" rule: mergeIntervals.induct)
  case (1 prev)
  then show ?case by simp
next
  case (2 prev i "is")
  show ?case
  proof (cases "fst i \<le> snd prev + 1")
    case True
    let ?new = "(fst prev, max (snd prev) (snd i))"
    have "interval_ok sz ?new" "\<forall>j \<in> set is. interval_ok sz j \<and> fst ?new \<le> fst j"
      using "2.prems" by (auto simp: interval_ok_def)
    with "2.IH"(1) [OF True] "2.prems"(3) have ih: "(\<forall>i \<in> set (mergeIntervals ?new is). interval_ok sz i) \<and>
        positions (mergeIntervals ?new is) = positions (?new # is) \<and> successively apart (mergeIntervals ?new is) \<and>
        length (mergeIntervals ?new is) \<le> Suc (length is) \<and> mergeIntervals ?new is \<noteq> [] \<and>
        fst (hd (mergeIntervals ?new is)) = fst prev"
      by simp
    moreover have "{fst prev..max (snd prev) (snd i)} = {fst prev..snd prev} \<union> {fst i..snd i}"
      using True "2.prems" by (auto simp: interval_ok_def max_def)
    then have "positions (?new # is) = positions (prev # i # is)"
      by (auto simp: positions_def)
    ultimately show ?thesis using True by auto
  next
    case False
    have "\<forall>j \<in> set is. interval_ok sz j \<and> fst i \<le> fst j" "interval_ok sz i"
      using "2.prems" by auto
    with "2.IH"(2) [OF False] "2.prems"(3) have ih: "(\<forall>j \<in> set (mergeIntervals i is). interval_ok sz j) \<and>
        positions (mergeIntervals i is) = positions (i # is) \<and> successively apart (mergeIntervals i is) \<and>
        length (mergeIntervals i is) \<le> Suc (length is) \<and> mergeIntervals i is \<noteq> [] \<and> fst (hd (mergeIntervals i is)) = fst i"
      by simp
    then have "successively apart (prev # mergeIntervals i is)"
      using False by (cases "mergeIntervals i is") (auto simp: apart_def)
    with ih False "2.prems"(1) show ?thesis
      by (auto simp: positions_def)
  qed
qed

lemma withinMultipart_sum: "is \<noteq> [] \<Longrightarrow> withinMultipart sofar is \<Longrightarrow> sofar + (\<Sum>i\<leftarrow>is. intervalLength i) \<le> maxMultipartBytes"
proof (induction sofar "is" rule: withinMultipart.induct)
  case (2 sofar i "is")
  then show ?case by (cases "is = []") (auto simp: Let_def intervalLength_def split: if_splits)
qed simp

lemma positions_sort: "positions (sort_key f is) = positions is"
  by (simp add: positions_def)

lemma parseRanges_result:
  assumes "parseRanges v sz = Some merged"
  shows "0 < sz" "hasPrefix v bytesPrefix" "merged \<noteq> []" "length merged \<le> maxRangeCount" "\<forall>i \<in> set merged. interval_ok sz i"
    "successively apart merged"
    "positions merged = (\<Union>m \<in> set (splitOn (CHR '','') (trimPrefix v bytesPrefix)). memberBytes sz (trimSpace m))"
    "1 < length merged \<Longrightarrow> (\<Sum>i\<leftarrow>merged. intervalLength i) \<le> maxMultipartBytes"
proof -
  let ?ms = "splitOn (CHR '','') (trimPrefix v bytesPrefix)"
  show sz: "0 < sz" and pre: "hasPrefix v bytesPrefix"
    using assms by (auto simp: parseRanges_def split: if_splits)
  have commas: "countChar (CHR '','') v < maxRangeCount"
    using assms by (auto simp: parseRanges_def not_le split: if_splits)
  obtain "is" i rest where members: "parseMembers sz ?ms = Some is" and sorted: "sort_key fst is = i # rest"
    and merged: "merged = mergeIntervals i rest" and limit: "1 < length merged \<Longrightarrow> withinMultipart 0 merged"
    using assms by (auto simp: parseRanges_def Let_def split: if_splits option.splits list.splits)
  note ms = parseMembers_result [OF sz members]
  have set_is: "set is = insert i (set rest)" and len: "length is = Suc (length rest)"
    using sorted by (metis list.simps(15) set_sort, metis length_Cons length_sort)
  have "sorted (map fst (i # rest))"
    using sorted sorted_sort_key [of fst "is"] by metis
  then have ok: "interval_ok sz i" "\<forall>j \<in> set rest. interval_ok sz j \<and> fst i \<le> fst j" "sorted (map fst rest)"
    using ms set_is by auto
  note m = merge_result [OF ok, folded merged]
  have "countChar (CHR '','') (trimPrefix v bytesPrefix) \<le> countChar (CHR '','') v"
    using pre by (auto simp: countChar_def hasPrefix_iff)
  then have "length ?ms \<le> maxRangeCount"
    using commas by (simp add: length_splitOn)
  then show "length merged \<le> maxRangeCount"
    using m ms len by linarith
  show "merged \<noteq> []" "\<forall>i \<in> set merged. interval_ok sz i" "successively apart merged"
    using m by auto
  have "positions (i # rest) = positions is"
    using sorted positions_sort [of fst "is"] by metis
  then show "positions merged = (\<Union>m \<in> set ?ms. memberBytes sz (trimSpace m))"
    using m ms by simp
  show "(\<Sum>i\<leftarrow>merged. intervalLength i) \<le> maxMultipartBytes" if "1 < length merged"
    using withinMultipart_sum [of merged 0] limit [OF that] m by simp
qed

section \<open>Responses\<close>

text \<open>Content whose sources deliver the given bytes.\<close>

definition slice :: "string \<Rightarrow> byteInterval \<Rightarrow> string" where
  "slice bytes i = take (nat (intervalLength i)) (drop (nat (fst i)) bytes)"

definition delivers :: "Content \<Rightarrow> string \<Rightarrow> bool" where
  "delivers content bytes \<longleftrightarrow> length bytes < 2 ^ 63 \<and>
     (case ct_Source content of
        None \<Rightarrow> ct_Body content = bytes
      | Some source \<Rightarrow>
          ct_Size content = int (length bytes) \<and> so_Open source = Some (bytes, int (length bytes)) \<and>
          (\<forall>i. interval_ok (int (length bytes)) i \<longrightarrow>
             so_OpenRange source (fst i) (intervalLength i) = Some (slice bytes i, int (length bytes))))"

lemma delivers_open:
  assumes "delivers content bytes"
  shows "contentSize content = int (length bytes)" "openContent content = Some (bytes, int (length bytes))"
    and "interval_ok (int (length bytes)) i \<Longrightarrow>
      openContentRange content (fst i) (intervalLength i) = Some (slice bytes i, int (length bytes))"
  using assms
  by (auto simp: delivers_def contentSize_def openContent_def openContentRange_def slice_def interval_ok_def intervalLength_def
      split: option.splits)

lemma slice_length: "interval_ok (int (length bytes)) i \<Longrightarrow> int (length (slice bytes i)) = intervalLength i"
  by (auto simp: slice_def interval_ok_def intervalLength_def)

lemma slice_take [simp]: "take (nat (intervalLength i)) (slice bytes i) = slice bytes i"
  by (simp add: slice_def)

definition closingOf :: "string \<Rightarrow> string" where
  "closingOf boundary = crlf @ ''--'' @ boundary @ ''--'' @ crlf"

fun partsOf :: "string \<Rightarrow> string \<Rightarrow> string \<Rightarrow> nat \<Rightarrow> byteInterval list \<Rightarrow> string" where
  "partsOf bytes boundary contentType k [] = []"
| "partsOf bytes boundary contentType k (i # is) =
     partPrefix boundary contentType (int (length bytes)) k i @ slice bytes i @ partsOf bytes boundary contentType (Suc k) is"

lemma Write_fields [simp]:
  "sw_body (Write b w) = sw_body w @ b" "sw_headers (Write b w) = sw_headers w"
  "sw_bytes (Write b w) = sw_bytes w + int (length b)" "sw_status (Write b w) = (if sw_status w = 0 then 200 else sw_status w)"
  by (simp_all add: Write_def WriteHeader_def Let_def)

lemma header_fields [simp]:
  "sw_body (setHeader k v w) = sw_body w" "sw_bytes (setHeader k v w) = sw_bytes w" "sw_status (setHeader k v w) = sw_status w"
  "gm_get (sw_headers (setHeader k v w)) k' = (if k' = k then Some v else gm_get (sw_headers w) k')"
  "sw_body (delHeader k w) = sw_body w" "sw_bytes (delHeader k w) = sw_bytes w" "sw_status (delHeader k w) = sw_status w"
  "gm_get (sw_headers (delHeader k w)) k' = (if k' = k then None else gm_get (sw_headers w) k')"
  "sw_body (WriteHeader st w) = sw_body w" "sw_bytes (WriteHeader st w) = sw_bytes w" "sw_status (WriteHeader st w) = st"
  "sw_headers (WriteHeader st w) = sw_headers w"
  by (simp_all add: setHeader_def delHeader_def WriteHeader_def)

lemma writeParts_result:
  assumes "delivers content bytes" and "\<forall>i \<in> set is. interval_ok (int (length bytes)) i"
    and "is \<noteq> [] \<Longrightarrow> reader = openContentRange content (fst (hd is)) (intervalLength (hd is))"
    and "sw_status w \<noteq> 0" and "sw_bytes w = int (length (sw_body w))"
  shows "sw_body (writeParts content (int (length bytes)) boundary contentType k reader is w) =
      sw_body w @ partsOf bytes boundary contentType k is @ closingOf boundary \<and>
    sw_headers (writeParts content (int (length bytes)) boundary contentType k reader is w) = sw_headers w \<and>
    sw_status (writeParts content (int (length bytes)) boundary contentType k reader is w) = sw_status w \<and>
    sw_bytes (writeParts content (int (length bytes)) boundary contentType k reader is w) =
      int (length (sw_body w @ partsOf bytes boundary contentType k is @ closingOf boundary))"
  using assms(2-)
proof (induction "is" arbitrary: k reader w)
  case Nil
  then show ?case by (simp add: closingOf_def)
next
  case (Cons i "is")
  have i: "interval_ok (int (length bytes)) i"
    using Cons.prems by simp
  let ?w = "Write (slice bytes i) (Write (partPrefix boundary contentType (int (length bytes)) k i) w)"
  let ?reader = "case is of [] \<Rightarrow> None | j # _ \<Rightarrow> openContentRange content (fst j) (intervalLength j)"
  have reader: "reader = Some (slice bytes i, int (length bytes))"
    using Cons.prems(2) delivers_open(3) [OF assms(1) i] by simp
  have step: "writeParts content (int (length bytes)) boundary contentType k reader (i # is) w =
      writeParts content (int (length bytes)) boundary contentType (Suc k) ?reader is ?w"
    using reader slice_length [OF i] by (simp add: Let_def)
  have "is \<noteq> [] \<Longrightarrow> ?reader = openContentRange content (fst (hd is)) (intervalLength (hd is))"
    by (cases "is") auto
  with Cons.IH [of ?reader ?w "Suc k"] Cons.prems show ?case
    unfolding step by simp
qed

lemma partLengths_sum:
  "\<forall>i \<in> set is. interval_ok (int (length bytes)) i \<Longrightarrow>
     partLengths boundary contentType (int (length bytes)) k is = int (length (partsOf bytes boundary contentType k is))"
  by (induction "is" arbitrary: k) (auto simp: slice_length)

text \<open>
  C30. Range headers are read exactly. When a header is accepted, the content is not empty and the result is a
  non-empty list of at most 16 intervals within it, in ascending order with a gap between any two, so no byte is
  sent twice; together they are exactly the positions the members of the header ask for: those behind the
  end of the content are left out, a suffix counts from the end, and numbers are read without
  overflow. More than one interval never adds up to more than 64 MiB.
\<close>

theorem raw_ranges_exact:
  assumes "parseRanges v sz = Some merged"
  shows "merged \<noteq> [] \<and> length merged \<le> 16 \<and> (\<forall>(a, b) \<in> set merged. 0 \<le> a \<and> a \<le> b \<and> b < sz) \<and>
     successively (\<lambda>i j. snd i + 1 < fst j) merged \<and>
     (\<exists>members. v = ''bytes='' @ members \<and>
        (\<Union>(a, b) \<in> set merged. {a..b}) = (\<Union>m \<in> set (splitOn (CHR '','') members). memberBytes sz (trimSpace m))) \<and>
     (1 < length merged \<longrightarrow> (\<Sum>(a, b)\<leftarrow>merged. b - a + 1) \<le> 67108864)"
proof -
  note r = parseRanges_result [OF assms]
  obtain members where v: "v = bytesPrefix @ members"
    using r(2) by (auto simp: hasPrefix_iff)
  have union: "(\<Union>(a, b) \<in> set merged. {a..b}) = positions merged"
    by (auto simp: positions_def)
  have total: "(\<Sum>(a, b)\<leftarrow>merged. b - a + 1) = (\<Sum>i\<leftarrow>merged. intervalLength i)"
    by (intro arg_cong [where f = sum_list] map_cong) (auto simp: intervalLength_def)
  have gaps: "(\<lambda>i j. snd i + 1 < fst j) = apart"
    by (simp add: apart_def fun_eq_iff)
  have bytes: "trimPrefix v bytesPrefix = members" "v = ''bytes='' @ members"
    by (simp_all add: v trimPrefix_def hasPrefix_iff) (simp add: bytesPrefix_def)
  have inside: "\<forall>(a, b) \<in> set merged. 0 \<le> a \<and> a \<le> b \<and> b < sz"
    using r(5) by (auto simp: interval_ok_def)
  show ?thesis
    unfolding union total gaps
    using r(3,4,6,7,8) bytes inside by (simp add: maxRangeCount_def maxMultipartBytes_def)
qed

definition blank :: "statusWriter \<Rightarrow> bool" where
  "blank w \<longleftrightarrow> sw_status w = 0 \<and> sw_body w = [] \<and> sw_bytes w = 0"

text \<open>A response with a correct length and byte count.\<close>

definition announced :: "statusWriter \<Rightarrow> bool" where
  "announced w \<longleftrightarrow> gm_get (sw_headers w) ''Content-Length'' = Some (utoa (int (length (sw_body w)))) \<and>
     se_Bytes (resultOf w) = int (length (sw_body w))"

lemma serveWhole_get:
  assumes "delivers content bytes" and "blank w" and "rq_Method r = ''GET''"
  shows "sw_status (serveWhole r content (int (length bytes)) w) = 200 \<and>
    sw_body (serveWhole r content (int (length bytes)) w) = bytes \<and> announced (serveWhole r content (int (length bytes)) w)"
  using assms delivers_open(2) [OF assms(1)]
  by (simp add: serveWhole_def blank_def announced_def resultOf_def Let_def)

lemma serveRange_get:
  assumes d: "delivers content bytes" and "blank w" and "rq_Method r = ''GET''" and i: "interval_ok (int (length bytes)) i"
  shows "sw_status (serveRange r content (int (length bytes)) i w) = 206 \<and>
    sw_body (serveRange r content (int (length bytes)) i w) = slice bytes i \<and>
    gm_get (sw_headers (serveRange r content (int (length bytes)) i w)) ''Content-Range'' =
      Some (''bytes '' @ utoa (fst i) @ ''-'' @ utoa (snd i) @ ''/'' @ utoa (int (length bytes))) \<and>
    announced (serveRange r content (int (length bytes)) i w)"
  using assms delivers_open(3) [OF d i] slice_length [OF i] slice_take [of i bytes]
  by (simp add: serveRange_def blank_def announced_def resultOf_def Let_def intervalLength_def)

lemma serveMultipart_get:
  assumes d: "delivers content bytes" and "blank w" and ok: "\<forall>i \<in> set is. interval_ok (int (length bytes)) i" and "is \<noteq> []"
  shows "sw_status (serveMultipart boundary w content (int (length bytes)) is) = 206 \<and>
    sw_body (serveMultipart boundary w content (int (length bytes)) is) =
      partsOf bytes boundary (partType (ct_ContentType content)) 0 is @ closingOf boundary \<and>
    announced (serveMultipart boundary w content (int (length bytes)) is)"
proof -
  let ?ct = "partType (ct_ContentType content)" and ?sz = "int (length bytes)"
  let ?reader = "openContentRange content (fst (hd is)) (intervalLength (hd is))"
  let ?w = "WriteHeader 206 (delHeader ''Content-Range'' (setHeader ''Content-Length''
    (utoa (partLengths boundary ?ct ?sz 0 is + int (length (crlf @ ''--'' @ boundary @ ''--'' @ crlf))))
    (setHeader ''Accept-Ranges'' ''bytes'' (setHeader ''Content-Type'' (''multipart/byteranges; boundary='' @ boundary) w))))"
  have "?reader = Some (slice bytes (hd is), ?sz)"
    using delivers_open(3) [OF d] ok assms(4) by simp
  then have run: "serveMultipart boundary w content ?sz is = writeParts content ?sz boundary ?ct 0 ?reader is ?w"
    by (simp add: serveMultipart_def Let_def)
  have body: "sw_body ?w = []" "sw_bytes ?w = 0" "sw_status ?w = 206"
    using assms(2) by (simp_all add: blank_def)
  note parts = writeParts_result [OF d ok, of ?reader ?w boundary ?ct 0, unfolded body]
  have "gm_get (sw_headers ?w) ''Content-Length'' =
      Some (utoa (int (length (partsOf bytes boundary ?ct 0 is @ closingOf boundary))))"
    using partLengths_sum [OF ok] by (simp add: closingOf_def algebra_simps)
  with parts show ?thesis
    unfolding run by (simp add: announced_def resultOf_def Let_def)
qed

lemma raw_response_cases:
  fixes disposition digestHeader boundary :: string and r :: HttpRequest
  assumes d: "delivers content bytes" and w: "blank w"
  defines "resp \<equiv> ServeContent disposition digestHeader boundary w r content"
    and "len \<equiv> int (length bytes)"
  shows "rq_Method r = ''GET'' \<Longrightarrow>
      sw_status resp \<in> {304, 416} \<and> sw_body resp = [] \<or>
      announced resp \<and>
      (sw_status resp = 200 \<and> sw_body resp = bytes \<or>
       sw_status resp = 206 \<and>
       (\<exists>v is. rq_Range r = [v] \<and> parseRanges v len = Some is \<and>
          (if length is = 1
           then sw_body resp = slice bytes (hd is) \<and>
             gm_get (sw_headers resp) ''Content-Range'' =
               Some (''bytes '' @ utoa (fst (hd is)) @ ''-'' @ utoa (snd (hd is)) @ ''/'' @ utoa len)
           else sw_body resp = partsOf bytes boundary (partType (ct_ContentType content)) 0 is @ closingOf boundary)))"
    and "rq_Method r = ''HEAD'' \<Longrightarrow>
      sw_body resp = [] \<and> (sw_status resp = 304 \<or>
        sw_status resp = 200 \<and> gm_get (sw_headers resp) ''Content-Length'' = Some (utoa len))"
proof -
  note opened = delivers_open [OF d]
  let ?etag = "etagOf content"
  let ?w1 = "setHeader ''Content-Type'' (ct_ContentType content) w"
  let ?w = "setHeader ''Digest'' digestHeader (setHeader ''ETag'' ?etag
    (if disposition \<noteq> [] then setHeader ''Content-Disposition'' disposition ?w1 else ?w1))"
  have blank: "blank ?w"
    using w by (simp add: blank_def)
  have resp: "resp = (if rq_IfNoneMatch r = ?etag then WriteHeader 304 ?w
      else if rangesOf r ?etag \<noteq> [] then
        (if length (rangesOf r ?etag) \<noteq> 1 then unsatisfiable len ?w
         else case parseRanges (hd (rangesOf r ?etag)) len of None \<Rightarrow> unsatisfiable len ?w
           | Some is \<Rightarrow> if length is > 1 then serveMultipart boundary ?w content len is
               else serveRange r content len (hd is) ?w)
      else serveWhole r content len ?w)"
    unfolding resp_def len_def ServeContent_def Let_def opened(1) by (rule refl)
  show "sw_body resp = [] \<and> (sw_status resp = 304 \<or>
      sw_status resp = 200 \<and> gm_get (sw_headers resp) ''Content-Length'' = Some (utoa len))" if "rq_Method r = ''HEAD''"
    using that blank unfolding resp by (simp add: rangesOf_def serveWhole_def blank_def Let_def)
  assume get: "rq_Method r = ''GET''"
  consider (cached) "resp = WriteHeader 304 ?w" | (bad) "resp = unsatisfiable len ?w" | (whole) "resp = serveWhole r content len ?w"
    | (part) v "is" where "rangesOf r ?etag = [v]" "parseRanges v len = Some is"
        "resp = (if length is > 1 then serveMultipart boundary ?w content len is else serveRange r content len (hd is) ?w)"
    supply cases = that
  proof (cases "rq_IfNoneMatch r = ?etag \<or> rangesOf r ?etag = [] \<or> length (rangesOf r ?etag) \<noteq> 1")
    case True
    then show thesis using that(1-3) resp by argo
  next
    case False
    then obtain v where v: "rangesOf r ?etag = [v]" and tag: "rq_IfNoneMatch r \<noteq> ?etag"
      by (cases "rangesOf r ?etag") auto
    show thesis
    proof (cases "parseRanges v len")
      case None
      show thesis by (rule cases(2)) (simp only: resp v tag None list.sel list.size option.case simp_thms if_True if_False list.distinct One_nat_def add_0)
    next
      case (Some "is")
      show thesis by (rule cases(4) [OF v Some]) (simp only: resp v tag Some list.sel list.size option.case simp_thms if_True if_False list.distinct One_nat_def add_0)
    qed
  qed
  then show "sw_status resp \<in> {304, 416} \<and> sw_body resp = [] \<or>
      announced resp \<and>
      (sw_status resp = 200 \<and> sw_body resp = bytes \<or>
       sw_status resp = 206 \<and>
       (\<exists>v is. rq_Range r = [v] \<and> parseRanges v len = Some is \<and>
          (if length is = 1
           then sw_body resp = slice bytes (hd is) \<and>
             gm_get (sw_headers resp) ''Content-Range'' =
               Some (''bytes '' @ utoa (fst (hd is)) @ ''-'' @ utoa (snd (hd is)) @ ''/'' @ utoa len)
           else sw_body resp = partsOf bytes boundary (partType (ct_ContentType content)) 0 is @ closingOf boundary)))"
  proof cases
    case cached
    with blank show ?thesis by (simp add: blank_def)
  next
    case bad
    with blank show ?thesis by (simp add: blank_def unsatisfiable_def)
  next
    case whole
    with serveWhole_get [OF d blank get] show ?thesis by (simp add: len_def)
  next
    case part
    have v: "rq_Range r = [v]"
      using part(1) get by (auto simp: rangesOf_def Let_def split: if_splits)
    note res = parseRanges_result [OF part(2)]
    have ok: "\<forall>i \<in> set is. interval_ok (int (length bytes)) i"
      using res(5) by (simp add: len_def)
    show ?thesis
    proof (cases "length is = 1")
      case True
      then have "interval_ok (int (length bytes)) (hd is)"
        using ok res(3) by simp
      from serveRange_get [OF d blank get this] True part v show ?thesis
        by (auto simp: len_def)
    next
      case False
      then have "length is > 1"
        using res(3) by (cases "is") auto
      with serveMultipart_get [OF d blank ok res(3)] False part v show ?thesis
        by (auto simp: len_def)
    qed
  qed
qed

text \<open>
  C8. Responses deliver what they announce. For content whose source delivers its bytes, a GET is answered by not modified
  when the entity tag matches, by unsatisfiable when a range header is not acceptable, by the complete
  bytes, or by partial content: one requested interval with its content range, or the multipart
  form of all of them, each part followed by exactly its bytes. The announced length is always the length of
  the body, and the byte count of the result equals it. A HEAD request is answered without a body.
\<close>

theorem raw_response_exact:
  assumes "delivers content bytes" and "blank w"
  shows "let resp = ServeContent disposition digestHeader boundary w r content; len = int (length bytes) in
    (rq_Method r = ''GET'' \<longrightarrow>
      sw_status resp \<in> {304, 416} \<and> sw_body resp = [] \<or>
      announced resp \<and>
      (sw_status resp = 200 \<and> sw_body resp = bytes \<or>
       sw_status resp = 206 \<and>
       (\<exists>v is. rq_Range r = [v] \<and> parseRanges v len = Some is \<and>
          (if length is = 1
           then sw_body resp = slice bytes (hd is) \<and>
             gm_get (sw_headers resp) ''Content-Range'' =
               Some (''bytes '' @ utoa (fst (hd is)) @ ''-'' @ utoa (snd (hd is)) @ ''/'' @ utoa len)
           else sw_body resp = partsOf bytes boundary (partType (ct_ContentType content)) 0 is @ closingOf boundary)))) \<and>
    (rq_Method r = ''HEAD'' \<longrightarrow>
      sw_body resp = [] \<and> (sw_status resp = 304 \<or>
        sw_status resp = 200 \<and> gm_get (sw_headers resp) ''Content-Length'' = Some (utoa len)))"
  unfolding Let_def
  by (intro conjI impI raw_response_cases [OF assms])

section \<open>Witnesses\<close>

definition exampleContent :: Content where
  "exampleContent = \<lparr>ct_Body = ''hello'', ct_Digest = ''ab'', ct_ContentType = ''text/plain'', ct_Size = 5, ct_Source = None\<rparr>"

definition exampleRequest :: HttpRequest where
  "exampleRequest = \<lparr>rq_Method = ''GET'', rq_Range = [''bytes=1-2,2-3''], rq_IfRange = [], rq_IfNoneMatch = []\<rparr>"

definition blankWriter :: statusWriter where
  "blankWriter = \<lparr>sw_headers = [], sw_status = 0, sw_body = [], sw_bytes = 0\<rparr>"

lemma example_ranges: "parseRanges ''bytes=1-2,2-3'' 5 = Some [(1, 3)]"
  by code_simp

theorem raw_ranges_exact_witness:
  "{1..3} = (\<Union>m \<in> set (splitOn (CHR '','') ''1-2,2-3''). memberBytes 5 (trimSpace m))"
  using raw_ranges_exact [OF example_ranges] by auto

lemma example_delivers: "delivers exampleContent ''hello''" and example_blank: "blank blankWriter"
  by (simp_all add: delivers_def exampleContent_def blank_def blankWriter_def)

lemma example_status: "sw_status (ServeContent [] [] ''b'' blankWriter exampleRequest exampleContent) = 206"
  by code_simp

lemma example_request: "rq_Method exampleRequest = ''GET''" "rq_Range exampleRequest = [''bytes=1-2,2-3'']"
  by (simp_all add: exampleRequest_def)

theorem raw_response_exact_witness:
  "sw_body (ServeContent [] [] ''b'' blankWriter exampleRequest exampleContent) = ''ell''"
  using raw_response_exact [OF example_delivers example_blank, of "[]" "[]" "''b''" exampleRequest]
  by (auto simp: Let_def example_status example_request example_ranges slice_def intervalLength_def split: if_splits)

end
