(* ===== verification/QuotaAlert.thy ===== *)
theory QuotaAlert
  imports Prelude
begin

text \<open>
  Package \<^verbatim>\<open>quotaalert\<close>: the life of a quota alert of one repository (\<^verbatim>\<open>state.go\<close>) and the
  validation of the events it sends (\<^verbatim>\<open>event.go\<close>, \<^verbatim>\<open>event_validation.go\<close>). An alert moves between normal,
  warning and critical; it moves only on evidence that has held without interruption for a configured
  time, and returns to normal below a lower threshold.
\<close>

section \<open>Times\<close>

text \<open>
  \<^verbatim>\<open>Time.Sub\<close> saturates at the ends of the 64-bit range of nanoseconds; \<^verbatim>\<open>time.Duration(n) * time.Second\<close>
  multiplies with wrap-around.
\<close>

definition timeSub :: "gotime \<Rightarrow> gotime \<Rightarrow> duration" where
  "timeSub a b = max (- (2 ^ 63)) (min (2 ^ 63 - 1) (a - b))"

definition secondsDuration :: "int \<Rightarrow> duration" where
  "secondsDuration n = wrap64 (n * second)"

section \<open>Policies\<close>

record Policy =
  po_WarningBasisPoints :: int
  po_CriticalBasisPoints :: int
  po_RecoveryBelowBasisPoints :: int
  po_WarningForSeconds :: int
  po_CriticalForSeconds :: int
  po_RecoveryForSeconds :: int
  po_MaxSampleAgeSeconds :: int

text \<open>The result is the error, \<^const>\<open>None\<close> for a valid policy.\<close>

definition PolicyValidate :: "Policy \<Rightarrow> error option" where
  "PolicyValidate p =
     (if po_RecoveryBelowBasisPoints p \<le> 0 \<or> po_RecoveryBelowBasisPoints p \<ge> po_WarningBasisPoints p
         \<or> po_WarningBasisPoints p \<ge> po_CriticalBasisPoints p \<or> po_CriticalBasisPoints p > 10000
      then Some (ErrText ''quota thresholds must be explicitly ordered'')
      else if list_ex (\<lambda>seconds. seconds < 1 \<or> seconds > 86400)
                [po_WarningForSeconds p, po_CriticalForSeconds p, po_RecoveryForSeconds p]
      then Some (ErrText ''quota duration must be explicit and bounded'')
      else if po_MaxSampleAgeSeconds p < 30 \<or> po_MaxSampleAgeSeconds p > 3600
      then Some (ErrText ''quota freshness must be explicit and bounded'')
      else None)"

section \<open>The state of an alert\<close>

record State =
  st_Severity :: string
  st_DataState :: string
  st_UsedBytes :: int
  st_QuotaBytes :: int
  st_LastSampleAt :: gotime
  st_WarningSince :: gotime
  st_CriticalSince :: gotime
  st_RecoverySince :: gotime

definition zeroState :: State where
  "zeroState = \<lparr>st_Severity = [], st_DataState = [], st_UsedBytes = 0, st_QuotaBytes = 0, st_LastSampleAt = zeroTime,
     st_WarningSince = zeroTime, st_CriticalSince = zeroTime, st_RecoverySince = zeroTime\<rparr>"

record Observation =
  ob_DataState :: string
  ob_UsedBytes :: int
  ob_QuotaBytes :: int
  ob_SampleAt :: gotime

text \<open>The sign of the comparison \<^verbatim>\<open>big.Int.Cmp\<close> makes.\<close>

definition ratioCompare :: "int \<Rightarrow> int \<Rightarrow> int \<Rightarrow> int" where
  "ratioCompare used quota basisPoints = sgn (used * 10000 - quota * basisPoints)"

definition matured :: "gotime \<Rightarrow> gotime \<Rightarrow> int \<Rightarrow> bool" where
  "matured since at seconds \<longleftrightarrow> \<not> isZero since \<and> timeSub at since \<ge> secondsDuration seconds"

definition continuousSince :: "gotime \<Rightarrow> bool \<Rightarrow> gotime \<Rightarrow> gotime" where
  "continuousSince since condition at = (if \<not> condition then zeroTime else if isZero since then at else since)"

definition Reset :: "State \<Rightarrow> string \<Rightarrow> State" where
  "Reset s dataState =
     (if st_Severity s = [] then s\<lparr>st_Severity := ''normal''\<rparr> else s)
       \<lparr>st_DataState := dataState, st_WarningSince := zeroTime, st_CriticalSince := zeroTime, st_RecoverySince := zeroTime\<rparr>"

text \<open>The evidence of one accepted sample: the three continuous intervals after it.\<close>

definition observe :: "Policy \<Rightarrow> State \<Rightarrow> Observation \<Rightarrow> State" where
  "observe p s o' =
     (let used = ob_UsedBytes o'; quota = ob_QuotaBytes o'; at = ob_SampleAt o'
      in s\<lparr>st_UsedBytes := used, st_QuotaBytes := quota, st_LastSampleAt := at,
           st_WarningSince := continuousSince (st_WarningSince s) (ratioCompare used quota (po_WarningBasisPoints p) \<ge> 0) at,
           st_CriticalSince := continuousSince (st_CriticalSince s) (ratioCompare used quota (po_CriticalBasisPoints p) \<ge> 0) at,
           st_RecoverySince := continuousSince (st_RecoverySince s)
             (st_Severity s \<noteq> ''normal'' \<and> ratioCompare used quota (po_RecoveryBelowBasisPoints p) < 0) at\<rparr>)"

definition escalate :: "Policy \<Rightarrow> State \<Rightarrow> gotime \<Rightarrow> State \<times> string" where
  "escalate p s at =
     (if st_Severity s \<noteq> ''critical'' \<and> matured (st_CriticalSince s) at (po_CriticalForSeconds p)
      then (s\<lparr>st_Severity := ''critical''\<rparr>, ''critical'')
      else if st_Severity s = ''normal'' \<and> matured (st_WarningSince s) at (po_WarningForSeconds p)
      then (s\<lparr>st_Severity := ''warning''\<rparr>, ''warning'')
      else if st_Severity s \<noteq> ''normal'' \<and> matured (st_RecoverySince s) at (po_RecoveryForSeconds p)
      then (Reset (s\<lparr>st_Severity := ''normal''\<rparr>) ''available'', ''resolved'')
      else (s, []))"

definition Advance :: "Policy \<Rightarrow> State \<Rightarrow> Observation \<Rightarrow> gotime \<Rightarrow> State \<times> string" where
  "Advance p s o' now =
     (let s = (if st_Severity s = [] then s\<lparr>st_Severity := ''normal''\<rparr> else s); at = ob_SampleAt o'
      in if ob_DataState o' \<noteq> ''available'' then (Reset s (ob_DataState o'), [])
         else if ob_QuotaBytes o' \<le> 0 then (Reset s ''not_configured'', [])
         else if ob_UsedBytes o' < 0 \<or> isZero at \<or> at > now then (Reset s ''unknown'', [])
         else if timeSub now at > secondsDuration (po_MaxSampleAgeSeconds p) then (Reset s ''stale'', [])
         else if \<not> isZero (st_LastSampleAt s) \<and> at < st_LastSampleAt s then (Reset s ''unknown'', [])
         else if \<not> isZero (st_LastSampleAt s) \<and> at = st_LastSampleAt s then (s, [])
         else
           let s = (if \<not> isZero (st_LastSampleAt s) \<and> timeSub at (st_LastSampleAt s) > 30 * second
                    then Reset s ''available'' else s);
               s = s\<lparr>st_DataState := ob_DataState o'\<rparr>;
               s = (if st_QuotaBytes s \<noteq> 0 \<and> st_QuotaBytes s \<noteq> ob_QuotaBytes o' then Reset s ''available'' else s)
           in escalate p (observe p s o') at)"

section \<open>Events\<close>

definition TemplateVersion :: string where
  "TemplateVersion = ''quota-1''"

record Event =
  ev_ID :: string
  ev_RuleID :: string
  ev_RuleVersion :: string
  ev_RepositoryID :: string
  ev_RepositoryName :: string
  ev_EpisodeID :: string
  ev_PreviousEventID :: string
  ev_Sequence :: int
  ev_Scenario :: string
  ev_UsedBytes :: int
  ev_QuotaBytes :: int
  ev_Policy :: Policy
  ev_OccurredAt :: gotime
  ev_SampleAt :: gotime
  ev_EvidenceSince :: gotime

text \<open>
  The runes of a UTF-8 string, \<^const>\<open>None\<close> where \<^verbatim>\<open>utf8.ValidString\<close> fails: the shortest form of every code
  point, without surrogates and nothing above U+10FFFF.
\<close>

definition continuation :: "nat \<Rightarrow> bool" where
  "continuation b \<longleftrightarrow> 0x80 \<le> b \<and> b \<le> 0xBF"

fun utf8Runes :: "nat list \<Rightarrow> nat list option" where
  "utf8Runes [] = Some []"
| "utf8Runes (b # bs) =
     (if b < 0x80 then map_option (Cons b) (utf8Runes bs)
      else case bs of
        [] \<Rightarrow> None
      | c # cs \<Rightarrow>
          if 0xC2 \<le> b \<and> b \<le> 0xDF then
            (if continuation c then map_option (Cons ((b - 0xC0) * 64 + (c - 0x80))) (utf8Runes cs) else None)
          else case cs of
            [] \<Rightarrow> None
          | d # ds \<Rightarrow>
              if 0xE0 \<le> b \<and> b \<le> 0xEF then
                (if (if b = 0xE0 then 0xA0 else 0x80) \<le> c \<and> c \<le> (if b = 0xED then 0x9F else 0xBF) \<and> continuation d
                 then map_option (Cons ((b - 0xE0) * 4096 + (c - 0x80) * 64 + (d - 0x80))) (utf8Runes ds) else None)
              else case ds of
                [] \<Rightarrow> None
              | e # es \<Rightarrow>
                  if 0xF0 \<le> b \<and> b \<le> 0xF4 \<and> (if b = 0xF0 then 0x90 else 0x80) \<le> c
                     \<and> c \<le> (if b = 0xF4 then 0x8F else 0xBF) \<and> continuation d \<and> continuation e
                  then map_option (Cons ((b - 0xF0) * 262144 + (c - 0x80) * 4096 + (d - 0x80) * 64 + (e - 0x80))) (utf8Runes es)
                  else None)"

text \<open>\<^verbatim>\<open>unicode.IsControl\<close>: the category Cc, all of it in the first 256 code points.\<close>

definition isControl :: "nat \<Rightarrow> bool" where
  "isControl r \<longleftrightarrow> r < 0x20 \<or> 0x7F \<le> r \<and> r < 0xA0"

definition nameOk :: "string \<Rightarrow> bool" where
  "nameOk name =
     (case utf8Runes (map of_char name) of
        None \<Rightarrow> False
      | Some runes \<Rightarrow> \<not> (length name < 1 \<or> length name > 512 \<or> length runes > 128) \<and> \<not> list_ex isControl runes)"

text \<open>
  \<open>uuidOk\<close> says that \<^verbatim>\<open>uuid.Parse\<close> accepts a string and does not return the nil UUID. The result is whether the event
  is valid.
\<close>

definition EventValidate :: "(string \<Rightarrow> bool) \<Rightarrow> Event \<Rightarrow> bool" where
  "EventValidate uuidOk e =
     (let p = ev_Policy e; used = ev_UsedBytes e; quota = ev_QuotaBytes e
      in if list_ex (\<lambda>i. \<not> uuidOk i) [ev_ID e, ev_RuleID e, ev_RepositoryID e, ev_EpisodeID e] then False
         else if ev_PreviousEventID e \<noteq> [] \<and> \<not> uuidOk (ev_PreviousEventID e) then False
         else if (case parseInt64 (ev_RuleVersion e) of None \<Rightarrow> True | Some version \<Rightarrow> version < 1)
                 \<or> ev_Sequence e < 1 \<or> PolicyValidate p \<noteq> None then False
         else if \<not> nameOk (ev_RepositoryName e) then False
         else if used < 0 \<or> quota \<le> 0 \<or> isZero (ev_EvidenceSince e) \<or> isZero (ev_SampleAt e) \<or> isZero (ev_OccurredAt e)
                 \<or> ev_EvidenceSince e > ev_SampleAt e \<or> ev_SampleAt e > ev_OccurredAt e
                 \<or> timeSub (ev_OccurredAt e) (ev_SampleAt e) > secondsDuration (po_MaxSampleAgeSeconds p) then False
         else
           let checked =
             (if ev_Scenario e = ''warning'' then
                (if ratioCompare used quota (po_WarningBasisPoints p) < 0 then None else Some (po_WarningForSeconds p))
              else if ev_Scenario e = ''critical'' then
                (if ratioCompare used quota (po_CriticalBasisPoints p) < 0 then None else Some (po_CriticalForSeconds p))
              else if ev_Scenario e = ''resolved'' then
                (if ratioCompare used quota (po_RecoveryBelowBasisPoints p) \<ge> 0 then None else Some (po_RecoveryForSeconds p))
              else None)
           in case checked of
                None \<Rightarrow> False
              | Some seconds \<Rightarrow> \<not> timeSub (ev_SampleAt e) (ev_EvidenceSince e) < secondsDuration seconds)"

end
