(* ===== verification/Email.thy ===== *)
theory Email
  imports QuotaAlert Hosted
begin

text \<open>
  Email targets and the queue of email deliveries of the in-memory store (\<^verbatim>\<open>email.go\<close>, \<^verbatim>\<open>memory_email.go\<close>,
  \<^verbatim>\<open>quota_delivery_cancel.go\<close>). A delivery is pending, delivering under a lease, retrying, accepted or dead. Deliveries of one
  quota rule are handed out in the order of their events.
\<close>

section \<open>Records\<close>

definition EmailMaxAttempts :: int where
  "EmailMaxAttempts = 8"

definition EmailLease :: duration where
  "EmailLease = 30 * second"

record EmailTarget =
  et_ID :: string
  et_Name :: string
  et_Locale :: string
  et_RecipientCiphertext :: string
  et_Version :: string
  et_Enabled :: bool
  et_CreatedAt :: gotime
  et_UpdatedAt :: gotime

record EmailDelivery =
  ed_AutomaticCancellationCode :: string
  ed_Kind :: string
  ed_QuotaRuleID :: string
  ed_EpisodeID :: string
  ed_EventSequence :: int
  ed_QuotaEvent :: "Event option"
  ed_ID :: string
  ed_EventID :: string
  ed_TargetID :: string
  ed_TargetVersion :: string
  ed_RequestKey :: string
  ed_Scenario :: string
  ed_Locale :: string
  ed_TemplateVersion :: string
  ed_RecipientCiphertext :: string
  ed_From :: string
  ed_ConsoleOrigin :: string
  ed_State :: string
  ed_Version :: string
  ed_ErrorCode :: string
  ed_LeaseOwner :: string
  ed_LeaseToken :: string
  ed_Attempts :: int
  ed_PossibleDuplicate :: bool
  ed_CreatedAt :: gotime
  ed_UpdatedAt :: gotime
  ed_NextAttemptAt :: gotime
  ed_AcceptedAt :: gotime
  ed_LeaseExpiresAt :: gotime

record EmailTestRequest =
  er_ID :: string
  er_EventID :: string
  er_RequestKey :: string
  er_TargetID :: string
  er_TargetVersion :: string
  er_Scenario :: string
  er_TemplateVersion :: string
  er_From :: string
  er_ConsoleOrigin :: string

record EmailAttemptResult =
  ar_Code :: string
  ar_Permanent :: bool
  ar_OutcomeUnknown :: bool

record email_store = hosted_store +
  emailTargets :: "EmailTarget gomap"
  emailDeliveries :: "EmailDelivery gomap"
  emailRequestTimes :: "gotime list"

text \<open>The zero values Go starts from; a \<^const>\<open>None\<close> quota event is the zero event.\<close>

definition zeroEmailTarget :: EmailTarget where
  "zeroEmailTarget = \<lparr>et_ID = [], et_Name = [], et_Locale = [], et_RecipientCiphertext = [], et_Version = [], et_Enabled = False,
     et_CreatedAt = zeroTime, et_UpdatedAt = zeroTime\<rparr>"

definition zeroEmailDelivery :: EmailDelivery where
  "zeroEmailDelivery = \<lparr>ed_AutomaticCancellationCode = [], ed_Kind = [], ed_QuotaRuleID = [], ed_EpisodeID = [],
     ed_EventSequence = 0, ed_QuotaEvent = None, ed_ID = [], ed_EventID = [], ed_TargetID = [], ed_TargetVersion = [],
     ed_RequestKey = [], ed_Scenario = [], ed_Locale = [], ed_TemplateVersion = [], ed_RecipientCiphertext = [],
     ed_From = [], ed_ConsoleOrigin = [], ed_State = [], ed_Version = [], ed_ErrorCode = [], ed_LeaseOwner = [],
     ed_LeaseToken = [], ed_Attempts = 0, ed_PossibleDuplicate = False, ed_CreatedAt = zeroTime, ed_UpdatedAt = zeroTime,
     ed_NextAttemptAt = zeroTime, ed_AcceptedAt = zeroTime, ed_LeaseExpiresAt = zeroTime\<rparr>"

section \<open>Helpers\<close>

definition emailSameRequest :: "EmailDelivery \<Rightarrow> EmailTestRequest \<Rightarrow> bool" where
  "emailSameRequest v r \<longleftrightarrow> (ed_Kind v = [] \<or> ed_Kind v = ''test'') \<and> ed_TargetID v = er_TargetID r \<and>
     ed_TargetVersion v = er_TargetVersion r \<and> ed_Scenario v = er_Scenario r"

definition emailRetryDelay :: "int \<Rightarrow> duration" where
  "emailRetryDelay attempts =
     (let attempts = (if attempts < 1 then 1 else attempts)
      in if attempts > 10 then hour
         else let delay = 2 ^ nat (attempts - 1) * 5 * second in if delay > hour then hour else delay)"

definition emailSafeErrorCode :: "string \<Rightarrow> string" where
  "emailSafeErrorCode code =
     (if code \<in> set [''queue_full'', ''rule_changed'', ''rule_disabled'', ''rule_deleted'', [], ''email_disabled'', ''invalid_message'',
        ''relay_resolution_failed'', ''relay_address_denied'', ''relay_connect_failed'', ''tls_configuration_failed'',
        ''tls_verification_failed'', ''tls_required'', ''authentication_configuration_failed'', ''authentication_failed'',
        ''smtp_permanent_rejection'', ''smtp_temporary_rejection'', ''outcome_unknown'', ''smtp_transport_failed'',
        ''target_changed'', ''target_disabled'', ''encryption_key_unavailable'', ''attempts_exhausted'']
      then code else ''invalid_message'')"

definition settled :: "EmailDelivery \<Rightarrow> bool" where
  "settled v \<longleftrightarrow> ed_State v = ''accepted'' \<or> ed_State v = ''dead''"

definition activeDeliveries :: "EmailDelivery gomap \<Rightarrow> nat" where
  "activeDeliveries m = length (filter (\<lambda>v. \<not> settled v) (gm_vals m))"

section \<open>Targets\<close>

definition CreateEmailTarget :: "gotime \<Rightarrow> EmailTarget \<Rightarrow> 'z email_store_scheme \<Rightarrow> EmailTarget result \<times> 'z email_store_scheme" where
  "CreateEmailTarget now v s =
     (let v = v\<lparr>et_Version := ''1'', et_CreatedAt := now, et_UpdatedAt := now\<rparr>
      in (Inr v, s\<lparr>emailTargets := gm_put (et_ID v) v (emailTargets s)\<rparr>))"

definition ListEmailTargets :: "'z email_store_scheme \<Rightarrow> EmailTarget list" where
  "ListEmailTargets s = sort_key et_ID (gm_vals (emailTargets s))"

definition GetEmailTarget :: "string \<Rightarrow> 'z email_store_scheme \<Rightarrow> EmailTarget result" where
  "GetEmailTarget i s = (case gm_get (emailTargets s) i of None \<Rightarrow> Inl ErrNotFound | Some v \<Rightarrow> Inr v)"

definition UpdateEmailTarget ::
  "gotime \<Rightarrow> EmailTarget \<Rightarrow> string \<Rightarrow> 'z email_store_scheme \<Rightarrow> EmailTarget result \<times> 'z email_store_scheme" where
  "UpdateEmailTarget now v version s =
     (case gm_get (emailTargets s) (et_ID v) of
        None \<Rightarrow> (Inl ErrNotFound, s)
      | Some old \<Rightarrow>
          if et_Version old \<noteq> version then (Inl ErrVersionConflict, s)
          else let v = v\<lparr>et_Version := nextHostedGroupVersion (et_Version old), et_CreatedAt := et_CreatedAt old, et_UpdatedAt := now\<rparr>
               in (Inr v, s\<lparr>emailTargets := gm_put (et_ID v) v (emailTargets s)\<rparr>))"

section \<open>Test messages\<close>

text \<open>The request times older than a minute are dropped even when the request is refused.\<close>

definition emailRate :: "gotime \<Rightarrow> 'z email_store_scheme \<Rightarrow> error option \<times> 'z email_store_scheme" where
  "emailRate now s =
     (let times = filter (\<lambda>at. at > now - minute) (emailRequestTimes s); s = s\<lparr>emailRequestTimes := times\<rparr>
      in if length times \<ge> 5 then (Some ErrEmailRateLimited, s)
         else if activeDeliveries (emailDeliveries s) \<ge> 1000 then (Some ErrEmailQueueFull, s)
         else (None, s))"

definition EnqueueEmailTest ::
  "gotime \<Rightarrow> EmailTestRequest \<Rightarrow> 'z email_store_scheme \<Rightarrow> EmailDelivery result \<times> 'z email_store_scheme" where
  "EnqueueEmailTest now r s =
     (case find (\<lambda>v. ed_RequestKey v = er_RequestKey r) (gm_vals (emailDeliveries s)) of
        Some v \<Rightarrow> (if \<not> emailSameRequest v r then (Inl ErrEmailIdempotencyConflict, s) else (Inr v, s))
      | None \<Rightarrow>
          (case gm_get (emailTargets s) (er_TargetID r) of
             None \<Rightarrow> (Inl ErrNotFound, s)
           | Some target \<Rightarrow>
               if et_Version target \<noteq> er_TargetVersion r then (Inl ErrVersionConflict, s)
               else if \<not> et_Enabled target then (Inl ErrEmailTargetDisabled, s)
               else
                 (case emailRate now s of
                    (Some e, s) \<Rightarrow> (Inl e, s)
                  | (None, s) \<Rightarrow>
                      let v = zeroEmailDelivery\<lparr>ed_ID := er_ID r, ed_EventID := er_EventID r, ed_RequestKey := er_RequestKey r,
                                ed_TargetID := et_ID target, ed_TargetVersion := et_Version target, ed_Scenario := er_Scenario r,
                                ed_Locale := et_Locale target, ed_TemplateVersion := er_TemplateVersion r,
                                ed_RecipientCiphertext := et_RecipientCiphertext target, ed_From := er_From r,
                                ed_ConsoleOrigin := er_ConsoleOrigin r, ed_State := ''pending'', ed_Version := ''1'',
                                ed_CreatedAt := now, ed_UpdatedAt := now, ed_NextAttemptAt := now\<rparr>
                      in (Inr v, s\<lparr>emailDeliveries := gm_put (ed_ID v) v (emailDeliveries s),
                                   emailRequestTimes := emailRequestTimes s @ [now]\<rparr>))))"

section \<open>Deliveries\<close>

definition ListEmailDeliveries :: "int \<Rightarrow> 'z email_store_scheme \<Rightarrow> EmailDelivery list" where
  "ListEmailDeliveries limit s =
     (let limit = (if limit \<le> 0 \<or> limit > 100 then 50 else limit)
      in take (nat limit) (sort_key (\<lambda>v. - ed_CreatedAt v) (gm_vals (emailDeliveries s))))"

definition GetEmailDelivery :: "string \<Rightarrow> 'z email_store_scheme \<Rightarrow> EmailDelivery result" where
  "GetEmailDelivery i s = (case gm_get (emailDeliveries s) i of None \<Rightarrow> Inl ErrNotFound | Some v \<Rightarrow> Inr v)"

definition precedes :: "EmailDelivery \<Rightarrow> EmailDelivery \<Rightarrow> bool" where
  "precedes prior v \<longleftrightarrow> ed_Kind prior = ''repository_quota'' \<and> ed_QuotaRuleID prior = ed_QuotaRuleID v \<and>
     ed_EventSequence prior < ed_EventSequence v \<and> \<not> settled prior"

definition blocked :: "EmailDelivery gomap \<Rightarrow> EmailDelivery \<Rightarrow> bool" where
  "blocked m v \<longleftrightarrow> ed_Kind v = ''repository_quota'' \<and> list_ex (\<lambda>prior. precedes prior v) (gm_vals m)"

definition claimableEmail :: "gotime \<Rightarrow> EmailDelivery \<Rightarrow> bool" where
  "claimableEmail now v \<longleftrightarrow> \<not> (ed_State v = ''accepted'' \<or> ed_State v = ''dead'' \<or> ed_NextAttemptAt v > now
     \<or> ed_State v = ''delivering'' \<and> ed_LeaseExpiresAt v > now)"

definition leaseEmail :: "string \<Rightarrow> gotime \<Rightarrow> string \<Rightarrow> EmailDelivery \<Rightarrow> EmailDelivery" where
  "leaseEmail owner now token v = v\<lparr>ed_State := ''delivering'', ed_Attempts := ed_Attempts v + 1, ed_LeaseOwner := owner,
     ed_LeaseToken := token, ed_LeaseExpiresAt := now + EmailLease, ed_Version := nextHostedGroupVersion (ed_Version v),
     ed_UpdatedAt := now\<rparr>"

text \<open>
  The loop over the map: it visits every entry once, reading the map as the rounds before have left it, and returns with
  the first delivery it can lease.
\<close>

fun claimEmail ::
  "(nat \<Rightarrow> string) \<Rightarrow> string \<Rightarrow> gotime \<Rightarrow> (string \<times> EmailDelivery) list \<Rightarrow> 'z email_store_scheme
     \<Rightarrow> EmailDelivery result \<times> 'z email_store_scheme" where
  "claimEmail newUUID owner now [] s = (Inl ErrNotFound, s)"
| "claimEmail newUUID owner now ((i, v) # vs) s =
     (if blocked (emailDeliveries s) v then claimEmail newUUID owner now vs s
      else if \<not> claimableEmail now v then claimEmail newUUID owner now vs s
      else
        let v = (if ed_State v = ''delivering'' then v\<lparr>ed_PossibleDuplicate := True\<rparr> else v)
        in if ed_AutomaticCancellationCode v \<noteq> [] then
             let v = v\<lparr>ed_State := ''dead'', ed_ErrorCode := ed_AutomaticCancellationCode v,
                       ed_Version := nextHostedGroupVersion (ed_Version v), ed_UpdatedAt := now,
                       ed_LeaseToken := [], ed_LeaseOwner := [], ed_LeaseExpiresAt := zeroTime\<rparr>
             in claimEmail newUUID owner now vs (s\<lparr>emailDeliveries := gm_put i v (emailDeliveries s)\<rparr>)
           else if ed_Attempts v \<ge> EmailMaxAttempts then
             let v = v\<lparr>ed_State := ''dead'', ed_ErrorCode := ''attempts_exhausted'',
                       ed_Version := nextHostedGroupVersion (ed_Version v), ed_UpdatedAt := now\<rparr>
             in claimEmail newUUID owner now vs (s\<lparr>emailDeliveries := gm_put i v (emailDeliveries s)\<rparr>)
           else
             let v = leaseEmail owner now (newUUID (uuidsDrawn s)) v
             in (Inr v, s\<lparr>uuidsDrawn := Suc (uuidsDrawn s), emailDeliveries := gm_put i v (emailDeliveries s)\<rparr>))"

definition ClaimEmailDelivery ::
  "(nat \<Rightarrow> string) \<Rightarrow> gotime \<Rightarrow> string \<Rightarrow> 'z email_store_scheme \<Rightarrow> EmailDelivery result \<times> 'z email_store_scheme" where
  "ClaimEmailDelivery newUUID now owner s = claimEmail newUUID owner now (emailDeliveries s) s"

definition finishEmail :: "gotime \<Rightarrow> EmailAttemptResult \<Rightarrow> EmailDelivery \<Rightarrow> EmailDelivery" where
  "finishEmail now result v =
     (let code = emailSafeErrorCode (ar_Code result);
          v = v\<lparr>ed_ErrorCode := code, ed_PossibleDuplicate := ed_PossibleDuplicate v \<or> ar_OutcomeUnknown result\<rparr>;
          v = (if code = [] then v\<lparr>ed_State := ''accepted'', ed_AcceptedAt := now\<rparr>
               else if ed_AutomaticCancellationCode v \<noteq> []
               then v\<lparr>ed_State := ''dead'', ed_ErrorCode := ed_AutomaticCancellationCode v\<rparr>
               else if ar_Permanent result \<or> ed_Attempts v \<ge> EmailMaxAttempts then v\<lparr>ed_State := ''dead''\<rparr>
               else v\<lparr>ed_State := ''retrying'', ed_NextAttemptAt := now + emailRetryDelay (ed_Attempts v)\<rparr>)
      in v\<lparr>ed_LeaseToken := [], ed_LeaseOwner := [], ed_LeaseExpiresAt := zeroTime, ed_UpdatedAt := now,
           ed_Version := nextHostedGroupVersion (ed_Version v)\<rparr>)"

definition FinishEmailDelivery ::
  "gotime \<Rightarrow> string \<Rightarrow> string \<Rightarrow> EmailAttemptResult \<Rightarrow> 'z email_store_scheme \<Rightarrow> unit result \<times> 'z email_store_scheme" where
  "FinishEmailDelivery now i token result s =
     (case gm_get (emailDeliveries s) i of
        None \<Rightarrow> (Inl ErrNotFound, s)
      | Some v \<Rightarrow>
          if ed_State v \<noteq> ''delivering'' \<or> ed_LeaseToken v \<noteq> token \<or> \<not> ed_LeaseExpiresAt v > now
          then (Inl ErrVersionConflict, s)
          else (Inr (), s\<lparr>emailDeliveries := gm_put i (finishEmail now result v) (emailDeliveries s)\<rparr>))"

definition ReplayEmailDelivery ::
  "gotime \<Rightarrow> string \<Rightarrow> string \<Rightarrow> 'z email_store_scheme \<Rightarrow> EmailDelivery result \<times> 'z email_store_scheme" where
  "ReplayEmailDelivery now i version s =
     (case gm_get (emailDeliveries s) i of
        None \<Rightarrow> (Inl ErrNotFound, s)
      | Some v \<Rightarrow>
          if ed_Version v \<noteq> version then (Inl ErrVersionConflict, s)
          else if ed_State v \<noteq> ''dead'' then (Inl ErrEmailInvalidState, s)
          else
            let target = (case gm_get (emailTargets s) (ed_TargetID v) of None \<Rightarrow> zeroEmailTarget | Some t \<Rightarrow> t)
            in if et_Version target \<noteq> ed_TargetVersion v then (Inl ErrVersionConflict, s)
               else if \<not> et_Enabled target then (Inl ErrEmailTargetDisabled, s)
               else
                 (case emailRate now s of
                    (Some e, s) \<Rightarrow> (Inl e, s)
                  | (None, s) \<Rightarrow>
                      let v = v\<lparr>ed_State := ''pending'', ed_AutomaticCancellationCode := [], ed_Attempts := 0, ed_ErrorCode := [],
                                ed_LeaseToken := [], ed_LeaseOwner := [], ed_LeaseExpiresAt := zeroTime, ed_NextAttemptAt := now,
                                ed_UpdatedAt := now, ed_Version := nextHostedGroupVersion (ed_Version v)\<rparr>
                      in (Inr v, s\<lparr>emailDeliveries := gm_put i v (emailDeliveries s),
                                   emailRequestTimes := emailRequestTimes s @ [now]\<rparr>)))"

section \<open>Cancellation\<close>

definition cancelEmail :: "string \<Rightarrow> string \<Rightarrow> gotime \<Rightarrow> EmailDelivery \<Rightarrow> EmailDelivery" where
  "cancelEmail ruleID code now v =
     (if ed_QuotaRuleID v = ruleID \<and> (ed_State v = ''pending'' \<or> ed_State v = ''retrying'' \<or> ed_State v = ''delivering'')
      then
        let v = v\<lparr>ed_AutomaticCancellationCode := code\<rparr>;
            v = (if ed_State v \<noteq> ''delivering'' then v\<lparr>ed_State := ''dead'', ed_ErrorCode := code\<rparr> else v)
        in v\<lparr>ed_Version := nextHostedGroupVersion (ed_Version v), ed_UpdatedAt := now\<rparr>
      else v)"

definition cancelQuotaDeliveriesLocked ::
  "string \<Rightarrow> string \<Rightarrow> gotime \<Rightarrow> 'z email_store_scheme \<Rightarrow> 'z email_store_scheme" where
  "cancelQuotaDeliveriesLocked ruleID code now s = s\<lparr>emailDeliveries := gm_each (cancelEmail ruleID code now) (emailDeliveries s)\<rparr>"

end
