(* ===== verification/QuotaRules.thy ===== *)
theory QuotaRules
  imports Email
begin

text \<open>
  Quota alert rules of the in-memory store and their evaluation (\<^verbatim>\<open>quota_alert.go\<close>, \<^verbatim>\<open>quota_transition.go\<close>,
  \<^verbatim>\<open>memory_quota_alert.go\<close>, \<^verbatim>\<open>memory_quota_evaluation.go\<close>): a scheduler picks one due rule, advances its alert with the
  current use of the repository, records an event when the severity changes, and queues its email.
\<close>

section \<open>Records\<close>

record RepositoryQuotaAlertRule =
  qr_ID :: string
  qr_RepositoryID :: string
  qr_TargetID :: string
  qr_TargetVersion :: string
  qr_Version :: string
  qr_StateVersion :: string
  qr_ActiveEpisodeID :: string
  qr_LastEventID :: string
  qr_Enabled :: bool
  qr_Deleted :: bool
  qr_Policy :: Policy
  qr_State :: State
  qr_Sequence :: int
  qr_CreatedAt :: gotime
  qr_UpdatedAt :: gotime
  qr_EvaluatedAt :: gotime

record QuotaAlertMailConfig =
  mc_Enabled :: bool
  mc_From :: string
  mc_ConsoleOrigin :: string
  mc_UnavailableCode :: string

record RepositoryQuotaAlertEvent =
  qe_Snapshot :: Event
  qe_TargetID :: string
  qe_TargetVersion :: string
  qe_DeliveryID :: string
  qe_DeliveryState :: string
  qe_DeliveryErrorCode :: string
  qe_NotificationCode :: string

record quota_store = email_store +
  quotaAlertRules :: "RepositoryQuotaAlertRule gomap"
  quotaAlertEvents :: "RepositoryQuotaAlertEvent gomap"

definition emptyQuotaStore :: quota_store where
  "emptyQuotaStore = hosted_store.extend emptyHostedStore
     \<lparr>emailTargets = [], emailDeliveries = [], emailRequestTimes = [], quotaAlertRules = [], quotaAlertEvents = []\<rparr>"

definition quotaSameConfig :: "RepositoryQuotaAlertRule \<Rightarrow> RepositoryQuotaAlertRule \<Rightarrow> bool" where
  "quotaSameConfig a b \<longleftrightarrow> qr_RepositoryID a = qr_RepositoryID b \<and> qr_TargetID a = qr_TargetID b \<and>
     qr_TargetVersion a = qr_TargetVersion b \<and> qr_Enabled a = qr_Enabled b \<and> qr_Policy a = qr_Policy b"

definition quotaRuleAt :: "RepositoryQuotaAlertRule \<Rightarrow> gotime \<Rightarrow> RepositoryQuotaAlertRule" where
  "quotaRuleAt v now =
     (if st_DataState (qr_State v) = ''available'' \<and> \<not> isZero (st_LastSampleAt (qr_State v))
         \<and> timeSub now (st_LastSampleAt (qr_State v)) > secondsDuration (po_MaxSampleAgeSeconds (qr_Policy v))
      then v\<lparr>qr_State := Reset (qr_State v) ''stale''\<rparr> else v)"

section \<open>Rules\<close>

text \<open>The value some operations return beside an error is left out. \<open>now\<close> is the reading of the clock.\<close>

definition CreateRepositoryQuotaAlertRule ::
  "gotime \<Rightarrow> RepositoryQuotaAlertRule \<Rightarrow> 'z quota_store_scheme \<Rightarrow> RepositoryQuotaAlertRule result \<times> 'z quota_store_scheme" where
  "CreateRepositoryQuotaAlertRule now v s =
     (case gm_get (hostedRepositories s) (qr_RepositoryID v) of
        None \<Rightarrow> (Inl ErrNotFound, s)
      | Some repo \<Rightarrow>
          if hr_State repo \<noteq> RepositoryActive then (Inl ErrDisabled, s)
          else case gm_get (emailTargets s) (qr_TargetID v) of
            None \<Rightarrow> (Inl ErrNotFound, s)
          | Some target \<Rightarrow>
              if et_Version target \<noteq> qr_TargetVersion v then (Inl ErrVersionConflict, s)
              else if qr_Enabled v \<and> \<not> et_Enabled target then (Inl ErrEmailTargetDisabled, s)
              else if length (quotaAlertRules s) \<ge> 100 then (Inl ErrQuotaAlertLimit, s)
              else if list_ex (\<lambda>old. \<not> qr_Deleted old \<and> qr_RepositoryID old = qr_RepositoryID v) (gm_vals (quotaAlertRules s))
              then (Inl ErrQuotaAlertConflict, s)
              else case PolicyValidate (qr_Policy v) of
                Some e \<Rightarrow> (Inl e, s)
              | None \<Rightarrow>
                  let v = v\<lparr>qr_Version := ''1'', qr_StateVersion := ''1'', qr_CreatedAt := now, qr_UpdatedAt := now,
                            qr_State := Reset zeroState (if qr_Enabled v then ''unknown'' else ''disabled'')\<rparr>
                  in (Inr v, s\<lparr>quotaAlertRules := gm_put (qr_ID v) v (quotaAlertRules s)\<rparr>))"

definition ListRepositoryQuotaAlertRules :: "gotime \<Rightarrow> 'z quota_store_scheme \<Rightarrow> RepositoryQuotaAlertRule list" where
  "ListRepositoryQuotaAlertRules now s = sort_key qr_ID (map (\<lambda>v. quotaRuleAt v now) (gm_vals (quotaAlertRules s)))"

definition GetRepositoryQuotaAlertRule :: "gotime \<Rightarrow> string \<Rightarrow> 'z quota_store_scheme \<Rightarrow> RepositoryQuotaAlertRule result" where
  "GetRepositoryQuotaAlertRule now i s =
     (case gm_get (quotaAlertRules s) i of None \<Rightarrow> Inl ErrNotFound | Some v \<Rightarrow> Inr (quotaRuleAt v now))"

definition UpdateRepositoryQuotaAlertRule ::
  "gotime \<Rightarrow> RepositoryQuotaAlertRule \<Rightarrow> string \<Rightarrow> 'z quota_store_scheme
     \<Rightarrow> RepositoryQuotaAlertRule result \<times> 'z quota_store_scheme" where
  "UpdateRepositoryQuotaAlertRule now v version s =
     (case gm_get (quotaAlertRules s) (qr_ID v) of
        None \<Rightarrow> (Inl ErrNotFound, s)
      | Some old \<Rightarrow>
          if qr_Version old \<noteq> version then (Inl ErrVersionConflict, s)
          else if qr_Deleted old then (Inl ErrQuotaAlertDeleted, s)
          else if qr_RepositoryID old \<noteq> qr_RepositoryID v then (Inl ErrQuotaAlertScopeImmutable, s)
          else case PolicyValidate (qr_Policy v) of
            Some e \<Rightarrow> (Inl e, s)
          | None \<Rightarrow>
              (case gm_get (emailTargets s) (qr_TargetID v) of
                 None \<Rightarrow> (Inl ErrNotFound, s)
               | Some target \<Rightarrow>
                   if et_Version target \<noteq> qr_TargetVersion v then (Inl ErrVersionConflict, s)
                   else if qr_Enabled v \<and> \<not> et_Enabled target then (Inl ErrEmailTargetDisabled, s)
                   else if quotaSameConfig old v then (Inr (quotaRuleAt old now), s)
                   else
                     let old = old\<lparr>qr_TargetID := qr_TargetID v, qr_TargetVersion := qr_TargetVersion v, qr_Policy := qr_Policy v,
                                   qr_Enabled := qr_Enabled v\<rparr>;
                         old = old\<lparr>qr_State := Reset (qr_State old) (if qr_Enabled old then ''configuration_changed'' else ''disabled''),
                                   qr_Version := nextHostedGroupVersion (qr_Version old),
                                   qr_StateVersion := nextHostedGroupVersion (qr_StateVersion old), qr_UpdatedAt := now\<rparr>;
                         s = cancelQuotaDeliveriesLocked (qr_ID old) (if qr_Enabled old then ''rule_changed'' else ''rule_disabled'') now s
                     in (Inr old, s\<lparr>quotaAlertRules := gm_put (qr_ID old) old (quotaAlertRules s)\<rparr>)))"

definition DeleteRepositoryQuotaAlertRule ::
  "gotime \<Rightarrow> string \<Rightarrow> string \<Rightarrow> 'z quota_store_scheme \<Rightarrow> RepositoryQuotaAlertRule result \<times> 'z quota_store_scheme" where
  "DeleteRepositoryQuotaAlertRule now i version s =
     (case gm_get (quotaAlertRules s) i of
        None \<Rightarrow> (Inl ErrNotFound, s)
      | Some v \<Rightarrow>
          if qr_Version v \<noteq> version then (Inl ErrVersionConflict, s)
          else if qr_Deleted v then (Inr v, s)
          else
            let v = v\<lparr>qr_Deleted := True, qr_Enabled := False, qr_State := Reset (qr_State v) ''deleted'',
                      qr_Version := nextHostedGroupVersion (qr_Version v),
                      qr_StateVersion := nextHostedGroupVersion (qr_StateVersion v), qr_UpdatedAt := now\<rparr>;
                s = cancelQuotaDeliveriesLocked (qr_ID v) ''rule_deleted'' now s
            in (Inr v, s\<lparr>quotaAlertRules := gm_put i v (quotaAlertRules s)\<rparr>))"

definition ListRepositoryQuotaAlertEvents :: "string \<Rightarrow> 'z quota_store_scheme \<Rightarrow> RepositoryQuotaAlertEvent list result" where
  "ListRepositoryQuotaAlertEvents i s =
     (case gm_get (quotaAlertRules s) i of
        None \<Rightarrow> Inl ErrNotFound
      | Some _ \<Rightarrow>
          Inr (take 50 (sort_key (\<lambda>v. - ev_Sequence (qe_Snapshot v))
            (map (\<lambda>v. case gm_get (emailDeliveries s) (qe_DeliveryID v) of
                        None \<Rightarrow> v
                      | Some d \<Rightarrow> v\<lparr>qe_DeliveryState := ed_State d, qe_DeliveryErrorCode := ed_ErrorCode d\<rparr>)
              (filter (\<lambda>v. ev_RuleID (qe_Snapshot v) = i) (gm_vals (quotaAlertEvents s)))))))"

section \<open>Transitions\<close>

text \<open>
  The transition of a rule draws an identifier for a new episode and one for the event; the result is the updated rule, the event
  if there is one, and the number of identifiers drawn so far.
\<close>

definition quotaTransition ::
  "(nat \<Rightarrow> string) \<Rightarrow> nat \<Rightarrow> RepositoryQuotaAlertRule \<Rightarrow> Observation \<Rightarrow> string \<Rightarrow> gotime
     \<Rightarrow> RepositoryQuotaAlertRule \<times> Event option \<times> nat" where
  "quotaTransition newUUID n rule o' name now =
     (let before = qr_State rule; (state, scenario) = Advance (qr_Policy rule) before o' now;
          rule = rule\<lparr>qr_State := state, qr_EvaluatedAt := now, qr_StateVersion := nextHostedGroupVersion (qr_StateVersion rule)\<rparr>
      in if scenario = [] then (rule, None, n)
         else
           let (rule, n) = (if qr_ActiveEpisodeID rule = [] then (rule\<lparr>qr_ActiveEpisodeID := newUUID n\<rparr>, Suc n) else (rule, n));
               since = (if scenario = ''resolved'' then st_RecoverySince before
                        else if scenario = ''critical'' then st_CriticalSince state else st_WarningSince state);
               rule = rule\<lparr>qr_Sequence := wrap64 (qr_Sequence rule + 1)\<rparr>;
               event = \<lparr>ev_ID = newUUID n, ev_RuleID = qr_ID rule, ev_RuleVersion = qr_Version rule,
                        ev_RepositoryID = qr_RepositoryID rule, ev_RepositoryName = name, ev_EpisodeID = qr_ActiveEpisodeID rule,
                        ev_PreviousEventID = qr_LastEventID rule, ev_Sequence = qr_Sequence rule, ev_Scenario = scenario,
                        ev_UsedBytes = st_UsedBytes state, ev_QuotaBytes = st_QuotaBytes state, ev_Policy = qr_Policy rule,
                        ev_OccurredAt = now, ev_SampleAt = st_LastSampleAt state, ev_EvidenceSince = since\<rparr>;
               rule = rule\<lparr>qr_LastEventID := ev_ID event\<rparr>;
               rule = (if scenario = ''resolved'' then rule\<lparr>qr_ActiveEpisodeID := []\<rparr> else rule)
           in (rule, Some event, Suc n))"

definition quotaRouteCode :: "QuotaAlertMailConfig \<Rightarrow> EmailTarget \<Rightarrow> RepositoryQuotaAlertRule \<Rightarrow> string" where
  "quotaRouteCode cfg target rule =
     (if mc_UnavailableCode cfg = ''encryption_key_unavailable'' then mc_UnavailableCode cfg
      else if \<not> mc_Enabled cfg then ''email_disabled''
      else if et_ID target = [] then ''target_unavailable''
      else if \<not> et_Enabled target then ''target_disabled''
      else if et_Version target \<noteq> qr_TargetVersion rule then ''target_changed''
      else ''queued'')"

definition quotaDelivery :: "string \<Rightarrow> Event \<Rightarrow> EmailTarget \<Rightarrow> QuotaAlertMailConfig \<Rightarrow> bool \<Rightarrow> EmailDelivery" where
  "quotaDelivery newID e target cfg full =
     (let d = zeroEmailDelivery\<lparr>ed_ID := newID, ed_EventID := ev_ID e, ed_RequestKey := ev_ID e, ed_Kind := ''repository_quota'',
                ed_QuotaRuleID := ev_RuleID e, ed_EpisodeID := ev_EpisodeID e, ed_EventSequence := ev_Sequence e,
                ed_QuotaEvent := Some e, ed_TargetID := et_ID target, ed_TargetVersion := et_Version target,
                ed_Scenario := ev_Scenario e, ed_Locale := et_Locale target, ed_TemplateVersion := TemplateVersion,
                ed_RecipientCiphertext := et_RecipientCiphertext target, ed_From := mc_From cfg,
                ed_ConsoleOrigin := mc_ConsoleOrigin cfg, ed_State := ''pending'', ed_Version := ''1'',
                ed_CreatedAt := ev_OccurredAt e, ed_UpdatedAt := ev_OccurredAt e, ed_NextAttemptAt := ev_OccurredAt e\<rparr>
      in if full then d\<lparr>ed_State := ''dead'', ed_ErrorCode := ''queue_full''\<rparr> else d)"

section \<open>Evaluation\<close>

definition dueRule :: "gotime \<Rightarrow> duration \<Rightarrow> RepositoryQuotaAlertRule \<Rightarrow> bool" where
  "dueRule now interval rule \<longleftrightarrow> \<not> (\<not> qr_Enabled rule \<or> qr_Deleted rule \<or>
     \<not> isZero (qr_EvaluatedAt rule) \<and> now < qr_EvaluatedAt rule + interval)"

text \<open>\<open>capacity\<close> is what \<^verbatim>\<open>repositoryCapacityLocked\<close> returns: the bytes used and the quota of a repository, or its error.\<close>

definition observeRepository ::
  "(string \<Rightarrow> (int \<times> int) result) \<Rightarrow> gotime \<Rightarrow> string \<Rightarrow> HostedRepository option \<Rightarrow> Observation" where
  "observeRepository capacity now repositoryID repo =
     (let o' = \<lparr>ob_DataState = ''repository_deleted'', ob_UsedBytes = 0, ob_QuotaBytes = 0, ob_SampleAt = now\<rparr>
      in case repo of
           None \<Rightarrow> o'
         | Some r \<Rightarrow>
             if hr_State r = RepositoryActive then
               (case capacity repositoryID of
                  Inl _ \<Rightarrow> o'\<lparr>ob_DataState := ''unknown''\<rparr>
                | Inr (used, quota) \<Rightarrow> o'\<lparr>ob_DataState := ''available'', ob_UsedBytes := used, ob_QuotaBytes := quota\<rparr>)
             else o'\<lparr>ob_DataState := (if hr_State r = RepositoryDeleted then ''repository_deleted'' else ''repository_inactive'')\<rparr>)"

text \<open>The event of a transition is recorded and, when its mail can be routed, queued.\<close>

definition recordEvent ::
  "(nat \<Rightarrow> string) \<Rightarrow> QuotaAlertMailConfig \<Rightarrow> RepositoryQuotaAlertRule \<Rightarrow> Event \<Rightarrow> 'z quota_store_scheme \<Rightarrow> 'z quota_store_scheme" where
  "recordEvent newUUID cfg rule e s =
     (let target = (case gm_get (emailTargets s) (qr_TargetID rule) of None \<Rightarrow> zeroEmailTarget | Some t \<Rightarrow> t);
          code = quotaRouteCode cfg target rule;
          record = \<lparr>qe_Snapshot = e, qe_TargetID = qr_TargetID rule, qe_TargetVersion = qr_TargetVersion rule, qe_DeliveryID = [],
                    qe_DeliveryState = [], qe_DeliveryErrorCode = [], qe_NotificationCode = code\<rparr>
      in if code = ''queued'' then
           let full = activeDeliveries (emailDeliveries s) \<ge> 1000;
               d = quotaDelivery (newUUID (uuidsDrawn s)) e target cfg full;
               record = record\<lparr>qe_DeliveryID := ed_ID d, qe_NotificationCode := (if full then ''queue_full'' else code)\<rparr>
           in s\<lparr>uuidsDrawn := Suc (uuidsDrawn s), emailDeliveries := gm_put (ed_ID d) d (emailDeliveries s),
                quotaAlertEvents := gm_put (ev_ID e) record (quotaAlertEvents s)\<rparr>
         else s\<lparr>quotaAlertEvents := gm_put (ev_ID e) record (quotaAlertEvents s)\<rparr>)"

definition evaluateRule ::
  "(nat \<Rightarrow> string) \<Rightarrow> (string \<Rightarrow> (int \<times> int) result) \<Rightarrow> QuotaAlertMailConfig \<Rightarrow> gotime \<Rightarrow> string \<Rightarrow> RepositoryQuotaAlertRule
     \<Rightarrow> 'z quota_store_scheme \<Rightarrow> 'z quota_store_scheme" where
  "evaluateRule newUUID capacity cfg now i rule s =
     (let repo = gm_get (hostedRepositories s) (qr_RepositoryID rule);
          o' = observeRepository capacity now (qr_RepositoryID rule) repo;
          name = (case repo of None \<Rightarrow> [] | Some r \<Rightarrow> hr_Name r);
          (rule, event, n) = quotaTransition newUUID (uuidsDrawn s) rule o' name now;
          s = s\<lparr>uuidsDrawn := n\<rparr>;
          s = (case event of None \<Rightarrow> s | Some e \<Rightarrow> recordEvent newUUID cfg rule e s)
      in s\<lparr>quotaAlertRules := gm_put i rule (quotaAlertRules s)\<rparr>)"

text \<open>The context is not cancelled, so there is no error; the result says whether a rule was evaluated.\<close>

definition EvaluateNextRepositoryQuotaAlert ::
  "(nat \<Rightarrow> string) \<Rightarrow> (string \<Rightarrow> (int \<times> int) result) \<Rightarrow> gotime \<Rightarrow> QuotaAlertMailConfig \<Rightarrow> duration
     \<Rightarrow> 'z quota_store_scheme \<Rightarrow> bool \<times> 'z quota_store_scheme" where
  "EvaluateNextRepositoryQuotaAlert newUUID capacity now cfg interval s =
     (let interval = (if interval \<le> 0 then 15 * second else interval)
      in case find (\<lambda>(i, rule). dueRule now interval rule) (sort_key fst (quotaAlertRules s)) of
           None \<Rightarrow> (False, s)
         | Some (i, rule) \<Rightarrow> (True, evaluateRule newUUID capacity cfg now i rule s))"

end
