(* ===== verification/QuotaAlertLaws.thy ===== *)
theory QuotaAlertLaws
  imports QuotaAlert
begin

text \<open>
  Quota alerts move only on evidence. The history of an alert is the sequence of its observations; the evidence
  behind a change is an uninterrupted final window of that history.
\<close>

section \<open>Arithmetic\<close>

lemma timeSub_compare:
  assumes "- (2 ^ 63) < d" and "d < 2 ^ 63 - 1"
  shows "timeSub a b > d \<longleftrightarrow> a - b > d" "timeSub a b \<ge> d \<longleftrightarrow> a - b \<ge> d" "timeSub a b < d \<longleftrightarrow> a - b < d"
  using assms by (auto simp: timeSub_def)

lemma secondsDuration_id: "0 \<le> n \<Longrightarrow> n \<le> 86400 \<Longrightarrow> secondsDuration n = n * second"
  by (simp add: secondsDuration_def int64_def)

lemma matured_iff: "0 \<le> n \<Longrightarrow> n \<le> 86400 \<Longrightarrow> matured since at n \<longleftrightarrow> since \<noteq> 0 \<and> at - since \<ge> n * second"
  by (simp add: matured_def isZero_def secondsDuration_id timeSub_compare)

lemma ratioCompare_iff:
  "ratioCompare used quota bp < 0 \<longleftrightarrow> used * 10000 < quota * bp"
  "ratioCompare used quota bp \<ge> 0 \<longleftrightarrow> quota * bp \<le> used * 10000"
  "0 \<le> ratioCompare used quota bp \<longleftrightarrow> quota * bp \<le> used * 10000"
  by (auto simp: ratioCompare_def sgn_if)

lemma policy_bounds:
  assumes "PolicyValidate p = None"
  shows "0 < po_RecoveryBelowBasisPoints p" "po_RecoveryBelowBasisPoints p < po_WarningBasisPoints p"
    "po_WarningBasisPoints p < po_CriticalBasisPoints p" "po_CriticalBasisPoints p \<le> 10000"
    "1 \<le> po_WarningForSeconds p" "po_WarningForSeconds p \<le> 86400"
    "1 \<le> po_CriticalForSeconds p" "po_CriticalForSeconds p \<le> 86400"
    "1 \<le> po_RecoveryForSeconds p" "po_RecoveryForSeconds p \<le> 86400"
    "30 \<le> po_MaxSampleAgeSeconds p" "po_MaxSampleAgeSeconds p \<le> 3600"
  using assms by (auto simp: PolicyValidate_def split: if_splits)

section \<open>Windows of evidence\<close>

text \<open>
  A reading is an observation with the time it was taken. Repeated readings of one sample are counted once, as the code does.
\<close>

type_synonym reading = "Observation \<times> gotime"

abbreviation sampleAt :: "reading \<Rightarrow> gotime" where
  "sampleAt x \<equiv> ob_SampleAt (fst x)"

fun firstSamples :: "reading list \<Rightarrow> reading list" where
  "firstSamples [] = []"
| "firstSamples [x] = [x]"
| "firstSamples (a # b # os) =
     (if sampleAt b = sampleAt a then firstSamples (a # os) else a # firstSamples (b # os))"

text \<open>
  A reading counts when the use and the quota are known and its sample is neither of the future nor older than the policy
  allows.
\<close>

definition fresh :: "Policy \<Rightarrow> reading \<Rightarrow> bool" where
  "fresh p x \<longleftrightarrow> ob_DataState (fst x) = ''available'' \<and> 0 < ob_QuotaBytes (fst x) \<and> 0 \<le> ob_UsedBytes (fst x) \<and>
     sampleAt x \<noteq> 0 \<and> sampleAt x \<le> snd x \<and> snd x - sampleAt x \<le> po_MaxSampleAgeSeconds p * second"

text \<open>
  A window of evidence for \<open>P\<close>: every reading is fresh, time does not go back and no sample is more than 30 seconds
  after the one before it, and every sample has the same quota and satisfies \<open>P\<close>.
\<close>

definition evidence :: "Policy \<Rightarrow> (int \<Rightarrow> int \<Rightarrow> bool) \<Rightarrow> int \<Rightarrow> reading list \<Rightarrow> bool" where
  "evidence p P quota win \<longleftrightarrow> win \<noteq> [] \<and> (\<forall>x \<in> set win. fresh p x) \<and>
     successively (\<lambda>a b. sampleAt a \<le> sampleAt b \<and> sampleAt b - sampleAt a \<le> 30 * second) win \<and>
     (\<forall>x \<in> set (firstSamples win). ob_QuotaBytes (fst x) = quota \<and> P (ob_UsedBytes (fst x)) quota)"

lemma firstSamples_last: "win \<noteq> [] \<Longrightarrow> firstSamples win \<noteq> [] \<and> sampleAt (last (firstSamples win)) = sampleAt (last win)"
  by (induction win rule: firstSamples.induct) auto

lemma firstSamples_snoc:
  "win \<noteq> [] \<Longrightarrow> firstSamples (win @ [x]) = (if sampleAt x = sampleAt (last win) then firstSamples win else firstSamples win @ [x])"
  by (induction win rule: firstSamples.induct) auto

lemma firstSamples_subset: "set (firstSamples win) \<subseteq> set win"
  by (induction win rule: firstSamples.induct) auto

lemma evidence_quota: "evidence p P quota win \<Longrightarrow> 0 < quota"
  using firstSamples_last [of win] firstSamples_subset [of win]
  by (cases "firstSamples win") (auto simp: evidence_def fresh_def)

lemma evidence_single:
  "fresh p x \<Longrightarrow> P (ob_UsedBytes (fst x)) (ob_QuotaBytes (fst x)) \<Longrightarrow> evidence p P (ob_QuotaBytes (fst x)) [x]"
  by (simp add: evidence_def)

lemma evidence_snoc:
  assumes "evidence p P quota win" and "fresh p x"
    and "sampleAt (last win) \<le> sampleAt x" and "sampleAt x - sampleAt (last win) \<le> 30 * second"
    and "sampleAt x \<noteq> sampleAt (last win) \<Longrightarrow> ob_QuotaBytes (fst x) = quota \<and> P (ob_UsedBytes (fst x)) quota"
  shows "evidence p P quota (win @ [x])"
  using assms by (auto simp: evidence_def successively_append_iff firstSamples_snoc)

text \<open>\<open>since\<close> is backed by the history \<open>os\<close> of an alert whose last sample and quota are those of \<open>s\<close>.\<close>

definition backed :: "Policy \<Rightarrow> (int \<Rightarrow> int \<Rightarrow> bool) \<Rightarrow> gotime \<Rightarrow> State \<Rightarrow> reading list \<Rightarrow> bool" where
  "backed p P since s os \<longleftrightarrow> (since \<noteq> 0 \<longrightarrow>
     (\<exists>pre win. os = pre @ win \<and> evidence p P (st_QuotaBytes s) win \<and>
        sampleAt (hd win) = since \<and> sampleAt (last win) = st_LastSampleAt s))"

lemma backedI:
  "os = pre @ win \<Longrightarrow> evidence p P (st_QuotaBytes s) win \<Longrightarrow> sampleAt (hd win) = since \<Longrightarrow>
     sampleAt (last win) = st_LastSampleAt s \<Longrightarrow> backed p P since s os"
  unfolding backed_def by blast

definition overWarning :: "Policy \<Rightarrow> int \<Rightarrow> int \<Rightarrow> bool" where
  "overWarning p used quota \<longleftrightarrow> quota * po_WarningBasisPoints p \<le> used * 10000"

definition overCritical :: "Policy \<Rightarrow> int \<Rightarrow> int \<Rightarrow> bool" where
  "overCritical p used quota \<longleftrightarrow> quota * po_CriticalBasisPoints p \<le> used * 10000"

definition belowRecovery :: "Policy \<Rightarrow> int \<Rightarrow> int \<Rightarrow> bool" where
  "belowRecovery p used quota \<longleftrightarrow> used * 10000 < quota * po_RecoveryBelowBasisPoints p"

definition alert_ok :: "Policy \<Rightarrow> State \<Rightarrow> reading list \<Rightarrow> bool" where
  "alert_ok p s os \<longleftrightarrow> st_Severity s \<in> {[], ''normal'', ''warning'', ''critical''} \<and>
     backed p (overWarning p) (st_WarningSince s) s os \<and> backed p (overCritical p) (st_CriticalSince s) s os \<and>
     backed p (belowRecovery p) (st_RecoverySince s) s os"

text \<open>The state just before an accepted sample is counted.\<close>

definition prepared :: "State \<Rightarrow> Observation \<Rightarrow> State" where
  "prepared s o' =
     (let s = (if st_Severity s = [] then s\<lparr>st_Severity := ''normal''\<rparr> else s);
          s = (if \<not> isZero (st_LastSampleAt s) \<and> timeSub (ob_SampleAt o') (st_LastSampleAt s) > 30 * second
               then Reset s ''available'' else s);
          s = s\<lparr>st_DataState := ob_DataState o'\<rparr>
      in if st_QuotaBytes s \<noteq> 0 \<and> st_QuotaBytes s \<noteq> ob_QuotaBytes o' then Reset s ''available'' else s)"

definition usable :: "Policy \<Rightarrow> Observation \<Rightarrow> gotime \<Rightarrow> bool" where
  "usable p o' now \<longleftrightarrow> ob_DataState o' = ''available'' \<and> 0 < ob_QuotaBytes o' \<and> 0 \<le> ob_UsedBytes o' \<and>
     ob_SampleAt o' \<noteq> 0 \<and> ob_SampleAt o' \<le> now \<and> \<not> timeSub now (ob_SampleAt o') > secondsDuration (po_MaxSampleAgeSeconds p)"

lemma usable_fresh: "PolicyValidate p = None \<Longrightarrow> usable p o' now \<longleftrightarrow> fresh p (o', now)"
  using policy_bounds [of p]
  by (auto simp: usable_def fresh_def secondsDuration_id timeSub_compare not_less)

definition severityOf :: "State \<Rightarrow> string" where
  "severityOf s = (if st_Severity s = [] then ''normal'' else st_Severity s)"

lemma Reset_fields [simp]:
  "st_Severity (Reset s d) = severityOf s" "st_WarningSince (Reset s d) = 0" "st_CriticalSince (Reset s d) = 0"
  "st_RecoverySince (Reset s d) = 0" "st_LastSampleAt (Reset s d) = st_LastSampleAt s"
  "st_UsedBytes (Reset s d) = st_UsedBytes s" "st_QuotaBytes (Reset s d) = st_QuotaBytes s" "st_DataState (Reset s d) = d"
  by (simp_all add: Reset_def severityOf_def)

definition rejection :: "Policy \<Rightarrow> State \<Rightarrow> Observation \<Rightarrow> gotime \<Rightarrow> string" where
  "rejection p s o' now =
     (if ob_DataState o' \<noteq> ''available'' then ob_DataState o'
      else if ob_QuotaBytes o' \<le> 0 then ''not_configured''
      else if ob_UsedBytes o' < 0 \<or> ob_SampleAt o' = 0 \<or> ob_SampleAt o' > now then ''unknown''
      else if timeSub now (ob_SampleAt o') > secondsDuration (po_MaxSampleAgeSeconds p) then ''stale'' else ''unknown'')"

text \<open>The three ways an observation is taken: it interrupts the evidence, repeats the last sample, or counts.\<close>

lemma Advance_cases:
  obtains (interrupt) d s' where "Advance p s o' now = (Reset s' d, [])" "st_Severity s' = severityOf s"
      "\<not> usable p o' now \<or> st_LastSampleAt s \<noteq> 0 \<and> ob_SampleAt o' < st_LastSampleAt s"
  | (repeat) s' where "Advance p s o' now = (s', [])" "usable p o' now" "ob_SampleAt o' = st_LastSampleAt s"
      "s' = s\<lparr>st_Severity := severityOf s\<rparr>"
  | (sample) "Advance p s o' now = escalate p (observe p (prepared s o') o') (ob_SampleAt o')" "usable p o' now"
      "st_LastSampleAt s = 0 \<or> st_LastSampleAt s < ob_SampleAt o'"
proof -
  define t where "t = (if st_Severity s = [] then s\<lparr>st_Severity := ''normal''\<rparr> else s)"
  have sev: "st_Severity t = severityOf s" "st_LastSampleAt t = st_LastSampleAt s" "t = s\<lparr>st_Severity := severityOf s\<rparr>"
    by (simp_all add: t_def severityOf_def)
  let ?old = "st_LastSampleAt t \<noteq> 0" and ?at = "ob_SampleAt o'"
  have adv: "Advance p s o' now =
      (if \<not> usable p o' now \<or> ?old \<and> ?at < st_LastSampleAt t then (Reset t (rejection p t o' now), [])
       else if ?old \<and> ?at = st_LastSampleAt t then (t, [])
       else escalate p (observe p (prepared s o') o') ?at)"
    unfolding Advance_def Let_def t_def [symmetric] usable_def prepared_def rejection_def isZero_def
    by (simp add: not_le not_less)
  consider "\<not> usable p o' now \<or> ?old \<and> ?at < st_LastSampleAt t"
    | "usable p o' now" "?old" "?at = st_LastSampleAt t"
    | "usable p o' now" "\<not> ?old \<or> st_LastSampleAt t < ?at"
    by linarith
  then show thesis
  proof cases
    case 1
    with adv sev(1,2) show thesis by (intro interrupt) simp_all
  next
    case 2
    with adv sev(2,3) show thesis by (intro repeat) simp_all
  next
    case 3
    with adv sev(2) show thesis by (intro sample) auto
  qed
qed

section \<open>Preservation\<close>

definition interrupted :: "State \<Rightarrow> Observation \<Rightarrow> bool" where
  "interrupted s o' \<longleftrightarrow> st_LastSampleAt s \<noteq> 0 \<and> ob_SampleAt o' - st_LastSampleAt s > 30 * second \<or>
     st_QuotaBytes s \<noteq> 0 \<and> st_QuotaBytes s \<noteq> ob_QuotaBytes o'"

lemma prepared_fields [simp]:
  "st_Severity (prepared s o') = severityOf s"
  "st_LastSampleAt (prepared s o') = st_LastSampleAt s" "st_QuotaBytes (prepared s o') = st_QuotaBytes s"
  "st_WarningSince (prepared s o') = (if interrupted s o' then 0 else st_WarningSince s)"
  "st_CriticalSince (prepared s o') = (if interrupted s o' then 0 else st_CriticalSince s)"
  "st_RecoverySince (prepared s o') = (if interrupted s o' then 0 else st_RecoverySince s)"
  by (auto simp: prepared_def interrupted_def Let_def isZero_def timeSub_compare severityOf_def)

lemma backed_sample:
  assumes b: "backed p P since s os" and u: "fresh p (o', now)" and later: "st_LastSampleAt s = 0 \<or> st_LastSampleAt s < ob_SampleAt o'"
    and c: "c \<Longrightarrow> P (ob_UsedBytes o') (ob_QuotaBytes o')"
    and t: "st_QuotaBytes t = ob_QuotaBytes o'" "st_LastSampleAt t = ob_SampleAt o'"
  shows "backed p P (continuousSince (if interrupted s o' then 0 else since) c (ob_SampleAt o')) t (os @ [(o', now)])"
proof -
  let ?since = "if interrupted s o' then 0 else since" and ?x = "(o', now)"
  consider "\<not> c" | "c" "?since = 0" | "c" "?since \<noteq> 0"
    by blast
  then show ?thesis
  proof cases
    case 1
    then show ?thesis by (simp add: backed_def continuousSince_def)
  next
    case 2
    then have "evidence p P (st_QuotaBytes t) [?x]"
      using evidence_single [OF u, of P] c t by simp
    then have "backed p P (ob_SampleAt o') t (os @ [?x])"
      using t by (intro backedI [OF refl]) simp_all
    with 2 show ?thesis by (simp add: continuousSince_def)
  next
    case 3
    then have n: "\<not> interrupted s o'" "since \<noteq> 0" by (simp_all split: if_splits)
    then obtain pre win where w: "os = pre @ win" "evidence p P (st_QuotaBytes s) win"
      "sampleAt (hd win) = since" "sampleAt (last win) = st_LastSampleAt s"
      using b by (auto simp: backed_def)
    then have ne: "win \<noteq> []" and q: "0 < st_QuotaBytes s" and last: "st_LastSampleAt s \<noteq> 0"
      using evidence_quota [OF w(2)] last_in_set [of win] unfolding evidence_def fresh_def by auto
    have quota: "st_QuotaBytes s = ob_QuotaBytes o'" and gap: "ob_SampleAt o' - st_LastSampleAt s \<le> 30 * second"
      using n(1) q last by (auto simp: interrupted_def)
    have "evidence p P (st_QuotaBytes s) (win @ [?x])"
      using w(2) u by (rule evidence_snoc) (use w(4) later last gap quota c 3 in auto)
    then have "backed p P since t (os @ [?x])"
      using w ne t quota by (intro backedI [of _ pre "win @ [?x]"]) simp_all
    with n 3 show ?thesis by (simp add: continuousSince_def isZero_def)
  qed
qed

lemma backed_repeat:
  assumes b: "backed p P since s os" and u: "fresh p (o', now)" and same: "ob_SampleAt o' = st_LastSampleAt s"
    and t: "st_QuotaBytes t = st_QuotaBytes s" "st_LastSampleAt t = st_LastSampleAt s"
  shows "backed p P since t (os @ [(o', now)])"
proof (cases "since = 0")
  case False
  then obtain pre win where w: "os = pre @ win" "evidence p P (st_QuotaBytes s) win"
    "sampleAt (hd win) = since" "sampleAt (last win) = st_LastSampleAt s"
    using b by (auto simp: backed_def)
  have "evidence p P (st_QuotaBytes s) (win @ [(o', now)])"
    using w(2) u by (rule evidence_snoc) (use same w(4) in auto)
  moreover have "win \<noteq> []"
    using w(2) by (simp add: evidence_def)
  ultimately show ?thesis
    using w same t by (intro backedI [of _ pre "win @ [(o', now)]"]) simp_all
qed (simp add: backed_def)

lemma backed_Reset: "since = 0 \<Longrightarrow> backed p P since s os"
  by (simp add: backed_def)

lemma severity_values:
  "alert_ok p s os \<Longrightarrow> severityOf s \<in> {''normal'', ''warning'', ''critical''}"
  by (auto simp: alert_ok_def severityOf_def)

lemma observe_ok:
  assumes ok: "alert_ok p s os" and u: "fresh p (o', now)" and later: "st_LastSampleAt s = 0 \<or> st_LastSampleAt s < ob_SampleAt o'"
  shows "alert_ok p (observe p (prepared s o') o') (os @ [(o', now)])"
proof -
  let ?t = "observe p (prepared s o') o'"
  have t: "st_QuotaBytes ?t = ob_QuotaBytes o'" "st_LastSampleAt ?t = ob_SampleAt o'" "st_Severity ?t = severityOf s"
    by (simp_all add: observe_def Let_def)
  have b: "backed p (overWarning p) (st_WarningSince s) s os" "backed p (overCritical p) (st_CriticalSince s) s os"
    "backed p (belowRecovery p) (st_RecoverySince s) s os"
    using ok by (simp_all add: alert_ok_def)
  have "backed p (overWarning p) (st_WarningSince ?t) ?t (os @ [(o', now)])"
    using backed_sample [OF b(1) u later _ t(1,2)] by (simp add: observe_def Let_def ratioCompare_iff overWarning_def)
  moreover have "backed p (overCritical p) (st_CriticalSince ?t) ?t (os @ [(o', now)])"
    using backed_sample [OF b(2) u later _ t(1,2)] by (simp add: observe_def Let_def ratioCompare_iff overCritical_def)
  moreover have "backed p (belowRecovery p) (st_RecoverySince ?t) ?t (os @ [(o', now)])"
    using backed_sample [OF b(3) u later _ t(1,2)] by (simp add: observe_def Let_def ratioCompare_iff belowRecovery_def)
  ultimately show ?thesis
    using severity_values [OF ok] t(3) by (simp add: alert_ok_def)
qed

section \<open>Changes of severity\<close>

text \<open>The history ends with evidence for \<open>P\<close> over at least the given number of seconds.\<close>

definition sustained :: "Policy \<Rightarrow> (int \<Rightarrow> int \<Rightarrow> bool) \<Rightarrow> int \<Rightarrow> reading list \<Rightarrow> bool" where
  "sustained p P seconds os \<longleftrightarrow> (\<exists>pre win quota. os = pre @ win \<and> evidence p P quota win \<and>
     sampleAt (last win) - sampleAt (hd win) \<ge> seconds * second)"

lemma backed_matured:
  assumes "backed p P since s os" and "matured since (st_LastSampleAt s) n" and "0 \<le> n" and "n \<le> 86400"
  shows "sustained p P n os"
  using assms unfolding backed_def sustained_def by (fastforce simp: matured_iff)

definition change_justified :: "Policy \<Rightarrow> State \<Rightarrow> State \<Rightarrow> string \<Rightarrow> reading list \<Rightarrow> bool" where
  "change_justified p before after scenario os \<longleftrightarrow>
     scenario = [] \<and> severityOf after = severityOf before \<or>
     scenario = ''critical'' \<and> severityOf before \<in> {''normal'', ''warning''} \<and> severityOf after = ''critical'' \<and>
       sustained p (overCritical p) (po_CriticalForSeconds p) os \<or>
     scenario = ''warning'' \<and> severityOf before = ''normal'' \<and> severityOf after = ''warning'' \<and>
       sustained p (overWarning p) (po_WarningForSeconds p) os \<or>
     scenario = ''resolved'' \<and> severityOf before \<in> {''warning'', ''critical''} \<and> severityOf after = ''normal'' \<and>
       sustained p (belowRecovery p) (po_RecoveryForSeconds p) os"

lemma escalate_cases:
  assumes "escalate p t at = (s', scenario)"
  obtains (critical) "scenario = ''critical''" "st_Severity t \<noteq> ''critical''" "s' = t\<lparr>st_Severity := ''critical''\<rparr>"
      "matured (st_CriticalSince t) at (po_CriticalForSeconds p)"
  | (warning) "scenario = ''warning''" "st_Severity t = ''normal''" "s' = t\<lparr>st_Severity := ''warning''\<rparr>"
      "matured (st_WarningSince t) at (po_WarningForSeconds p)"
  | (resolved) "scenario = ''resolved''" "st_Severity t \<noteq> ''normal''" "s' = Reset (t\<lparr>st_Severity := ''normal''\<rparr>) ''available''"
      "matured (st_RecoverySince t) at (po_RecoveryForSeconds p)"
  | (silent) "scenario = []" "s' = t"
proof -
  consider "st_Severity t \<noteq> ''critical'' \<and> matured (st_CriticalSince t) at (po_CriticalForSeconds p)"
    | "\<not> (st_Severity t \<noteq> ''critical'' \<and> matured (st_CriticalSince t) at (po_CriticalForSeconds p))"
      "st_Severity t = ''normal'' \<and> matured (st_WarningSince t) at (po_WarningForSeconds p)"
    | "\<not> (st_Severity t \<noteq> ''critical'' \<and> matured (st_CriticalSince t) at (po_CriticalForSeconds p))"
      "\<not> (st_Severity t = ''normal'' \<and> matured (st_WarningSince t) at (po_WarningForSeconds p))"
      "st_Severity t \<noteq> ''normal'' \<and> matured (st_RecoverySince t) at (po_RecoveryForSeconds p)"
    | "escalate p t at = (t, [])"
    unfolding escalate_def by argo
  then show thesis
  proof cases
    case 1
    then have "escalate p t at = (t\<lparr>st_Severity := ''critical''\<rparr>, ''critical'')" by (simp add: escalate_def)
    with assms 1 show thesis by (intro critical) auto
  next
    case 2
    then have "escalate p t at = (t\<lparr>st_Severity := ''warning''\<rparr>, ''warning'')" by (simp add: escalate_def)
    with assms 2 show thesis by (intro warning) auto
  next
    case 3
    then have "escalate p t at = (Reset (t\<lparr>st_Severity := ''normal''\<rparr>) ''available'', ''resolved'')"
      unfolding escalate_def by (simp only: if_True if_False simp_thms)
    with assms 3 show thesis by (intro resolved) auto
  next
    case 4
    with assms show thesis by (intro silent) auto
  qed
qed

lemma severityOf_update [simp]: "v \<noteq> [] \<Longrightarrow> severityOf (t\<lparr>st_Severity := v\<rparr>) = v"
  by (simp add: severityOf_def)

lemma severityOf_id: "st_Severity t \<noteq> [] \<Longrightarrow> severityOf t = st_Severity t"
  by (simp add: severityOf_def)

lemma severityOf_Reset [simp]: "severityOf (Reset t d) = severityOf t"
  by (simp add: severityOf_def)

lemma escalate_ok:
  assumes ok: "alert_ok p t os" and sev: "st_Severity t \<in> {''normal'', ''warning'', ''critical''}" and valid: "PolicyValidate p = None"
    and at: "at = st_LastSampleAt t" and run: "escalate p t at = (s', scenario)"
  shows "alert_ok p s' os" and "change_justified p t s' scenario os"
proof -
  note bounds = policy_bounds [OF valid]
  have b: "backed p (overWarning p) (st_WarningSince t) t os" "backed p (overCritical p) (st_CriticalSince t) t os"
    "backed p (belowRecovery p) (st_RecoverySince t) t os"
    using ok by (simp_all add: alert_ok_def)
  have long: "matured (st_CriticalSince t) at (po_CriticalForSeconds p) \<Longrightarrow> sustained p (overCritical p) (po_CriticalForSeconds p) os"
    "matured (st_WarningSince t) at (po_WarningForSeconds p) \<Longrightarrow> sustained p (overWarning p) (po_WarningForSeconds p) os"
    "matured (st_RecoverySince t) at (po_RecoveryForSeconds p) \<Longrightarrow> sustained p (belowRecovery p) (po_RecoveryForSeconds p) os"
    using b [THEN backed_matured] bounds unfolding at by simp_all
  show "change_justified p t s' scenario os"
    using run by (cases rule: escalate_cases) (use sev long in \<open>auto simp: change_justified_def severityOf_id\<close>)
  show "alert_ok p s' os"
    using run
  proof (cases rule: escalate_cases)
    case resolved
    then show ?thesis by (simp add: alert_ok_def backed_Reset)
  qed (use ok in \<open>simp_all add: alert_ok_def backed_def\<close>)
qed

lemma Advance_ok:
  assumes ok: "alert_ok p s os" and valid: "PolicyValidate p = None" and run: "Advance p s o' now = (s', scenario)"
  shows "alert_ok p s' (os @ [(o', now)])" and "change_justified p s s' scenario (os @ [(o', now)])"
proof -
  let ?os = "os @ [(o', now)]"
  have sev: "severityOf s \<in> {''normal'', ''warning'', ''critical''}"
    using severity_values [OF ok] .
  have "alert_ok p s' ?os \<and> change_justified p s s' scenario ?os"
  proof (cases rule: Advance_cases [of p s o' now])
    case (interrupt d t)
    with run sev show ?thesis
      by (auto simp: alert_ok_def change_justified_def backed_Reset severityOf_def)
  next
    case (repeat t)
    have "backed p P since t ?os" if "backed p P since s os" for P since
      using that repeat(2) [unfolded usable_fresh [OF valid]] repeat(3) by (rule backed_repeat) (simp_all add: repeat(4))
    with repeat run sev ok show ?thesis
      by (auto simp: alert_ok_def change_justified_def severityOf_def)
  next
    case sample
    let ?t = "observe p (prepared s o') o'"
    have t: "st_Severity ?t = severityOf s" "st_LastSampleAt ?t = ob_SampleAt o'" "severityOf ?t = severityOf s"
      using sev by (auto simp: observe_def Let_def severityOf_def)
    have esc: "escalate p ?t (st_LastSampleAt ?t) = (s', scenario)"
      using run sample(1) t(2) by simp
    note e = escalate_ok [OF observe_ok [OF ok sample(2) [unfolded usable_fresh [OF valid]] sample(3)] _ valid refl esc]
    show ?thesis
      using e sev t by (simp add: change_justified_def)
  qed
  then show "alert_ok p s' ?os" "change_justified p s s' scenario ?os"
    by simp_all
qed

text \<open>A reading that does not count interrupts the evidence and nothing else.\<close>

lemma Advance_unusable:
  assumes valid: "PolicyValidate p = None" and run: "Advance p s o' now = (s', scenario)"
    and bad: "\<not> fresh p (o', now) \<or> st_LastSampleAt s \<noteq> 0 \<and> ob_SampleAt o' < st_LastSampleAt s"
  shows "scenario = [] \<and> st_Severity s' = severityOf s \<and> st_WarningSince s' = 0 \<and> st_CriticalSince s' = 0 \<and> st_RecoverySince s' = 0"
proof (cases rule: Advance_cases [of p s o' now])
  case (interrupt d t)
  with run show ?thesis by (auto simp: severityOf_def)
qed (use bad usable_fresh [OF valid, of o' now] in \<open>auto simp: fresh_def\<close>)

text \<open>The life of an alert from its creation: the state after a sequence of observations, and the last scenario.\<close>

definition alertRun :: "Policy \<Rightarrow> reading list \<Rightarrow> State \<times> string" where
  "alertRun p steps = fold (\<lambda>(o', now) (s, _). Advance p s o' now) steps (zeroState, [])"

lemma alertRun_snoc: "alertRun p (steps @ [(o', now)]) = Advance p (fst (alertRun p steps)) o' now"
  by (simp add: alertRun_def case_prod_beta)

lemma alertRun_ok: "PolicyValidate p = None \<Longrightarrow> alert_ok p (fst (alertRun p steps)) steps"
proof (induction steps rule: rev_induct)
  case Nil
  then show ?case by (simp add: alertRun_def alert_ok_def zeroState_def backed_def)
next
  case (snoc x steps)
  obtain o' now where x: "x = (o', now)" by fastforce
  obtain s' sc where "Advance p (fst (alertRun p steps)) o' now = (s', sc)" by fastforce
  with Advance_ok(1) [OF snoc.IH [OF snoc.prems] snoc.prems this] show ?case
    by (simp add: x alertRun_snoc)
qed

text \<open>
  C31. Alerts move only on sustained, fresh evidence. At every step of the life of an alert under a valid policy either nothing is
  announced and the severity stays, or exactly one announcement is made and its move is allowed: critical from normal or
  warning, warning from normal, resolved from warning or critical. Behind each there is a final window of readings, every one of
  them available, of a known use and a positive quota, of a sample that was not in the future and no older than the policy's
  limit when it was taken; the samples are in order, no two neighbours more than 30 seconds apart, every counted one
  has the same quota and lies over the threshold (below the lower one for a recovery), and together they span the configured
  time. A reading that is not fresh, or whose sample is older than the last one counted, announces nothing, leaves the severity
  as it is and discards the evidence gathered so far.
\<close>

theorem quota_alert_evidence:
  assumes "PolicyValidate p = None"
  shows "change_justified p (fst (alertRun p steps)) (fst (alertRun p (steps @ [x]))) (snd (alertRun p (steps @ [x]))) (steps @ [x]) \<and>
    (\<not> fresh p x \<or> st_LastSampleAt (fst (alertRun p steps)) \<noteq> 0 \<and> sampleAt x < st_LastSampleAt (fst (alertRun p steps)) \<longrightarrow>
       snd (alertRun p (steps @ [x])) = [] \<and>
       st_Severity (fst (alertRun p (steps @ [x]))) = severityOf (fst (alertRun p steps)) \<and>
       st_WarningSince (fst (alertRun p (steps @ [x]))) = 0 \<and> st_CriticalSince (fst (alertRun p (steps @ [x]))) = 0 \<and>
       st_RecoverySince (fst (alertRun p (steps @ [x]))) = 0)"
proof -
  obtain o' now where x: "x = (o', now)" by fastforce
  obtain s' sc where run: "Advance p (fst (alertRun p steps)) o' now = (s', sc)" by fastforce
  show ?thesis
    using Advance_ok(2) [OF alertRun_ok [OF assms] assms run] Advance_unusable [OF assms run]
    unfolding x alertRun_snoc run by simp
qed

section \<open>Alerts are raised\<close>

text \<open>
  The two levels an alert is raised to: the threshold, the time and the interval that belong to each. An alert has reached the
  warning level also when it is critical.
\<close>

definition overLevel :: "Policy \<Rightarrow> string \<Rightarrow> int \<Rightarrow> int \<Rightarrow> bool" where
  "overLevel p level = (if level = ''critical'' then overCritical p else overWarning p)"

definition levelSeconds :: "Policy \<Rightarrow> string \<Rightarrow> int" where
  "levelSeconds p level = (if level = ''critical'' then po_CriticalForSeconds p else po_WarningForSeconds p)"

definition levelSince :: "string \<Rightarrow> State \<Rightarrow> gotime" where
  "levelSince level s = (if level = ''critical'' then st_CriticalSince s else st_WarningSince s)"

definition reached :: "string \<Rightarrow> State \<Rightarrow> bool" where
  "reached level s \<longleftrightarrow> st_Severity s \<in> {level, ''critical''}"

definition pressing :: "Policy \<Rightarrow> string \<Rightarrow> int \<Rightarrow> reading \<Rightarrow> bool" where
  "pressing p level quota x \<longleftrightarrow> fresh p x \<and> ob_QuotaBytes (fst x) = quota \<and> overLevel p level (ob_UsedBytes (fst x)) quota"

text \<open>Either the level is reached, or its interval has been open since \<open>t0\<close> at the latest.\<close>

definition pressed :: "string \<Rightarrow> gotime \<Rightarrow> State \<Rightarrow> bool" where
  "pressed level t0 s \<longleftrightarrow> reached level s \<or> levelSince level s \<noteq> 0 \<and> levelSince level s \<le> t0"

lemma not_recovering:
  assumes "PolicyValidate p = None" and "pressing p level quota (o', now)"
  shows "\<not> ratioCompare (ob_UsedBytes o') (ob_QuotaBytes o') (po_RecoveryBelowBasisPoints p) < 0"
proof -
  have "ob_QuotaBytes o' * po_RecoveryBelowBasisPoints p \<le> ob_QuotaBytes o' * po_CriticalBasisPoints p"
    "ob_QuotaBytes o' * po_RecoveryBelowBasisPoints p \<le> ob_QuotaBytes o' * po_WarningBasisPoints p"
    using assms policy_bounds [OF assms(1)] by (auto simp: pressing_def fresh_def)
  then show ?thesis
    using assms(2) by (auto simp: ratioCompare_iff pressing_def overLevel_def overCritical_def overWarning_def split: if_splits)
qed

lemma pressing_sample:
  assumes valid: "PolicyValidate p = None" and x: "pressing p level quota (o', now)"
    and later: "st_LastSampleAt s = 0 \<or> st_LastSampleAt s < ob_SampleAt o'" and run: "Advance p s o' now = (s', scenario)"
  obtains t where "escalate p t (ob_SampleAt o') = (s', scenario)" "st_RecoverySince t = 0"
    "st_LastSampleAt t = ob_SampleAt o'" "st_QuotaBytes t = quota" "st_Severity t = severityOf s"
    "levelSince level t = (if interrupted s o' \<or> levelSince level s = 0 then ob_SampleAt o' else levelSince level s)"
proof -
  let ?t = "observe p (prepared s o') o'" and ?at = "ob_SampleAt o'"
  have u: "usable p o' now" "?at \<noteq> 0"
    using x usable_fresh [OF valid] by (auto simp: pressing_def fresh_def)
  have "escalate p ?t ?at = (s', scenario)"
    by (cases rule: Advance_cases [of p s o' now]) (use u later run in auto)
  moreover have "levelSince level ?t = (if interrupted s o' \<or> levelSince level s = 0 then ?at else levelSince level s)"
    using x by (cases "level = ''critical''")
      (simp_all add: observe_def Let_def continuousSince_def isZero_def pressing_def ratioCompare_iff levelSince_def
        overLevel_def overCritical_def overWarning_def)
  moreover have "st_RecoverySince ?t = 0" "st_LastSampleAt ?t = ?at" "st_QuotaBytes ?t = quota" "st_Severity ?t = severityOf s"
    using not_recovering [OF valid x] x by (auto simp: observe_def Let_def continuousSince_def pressing_def)
  ultimately show thesis using that by blast
qed

lemma pressing_step:
  assumes valid: "PolicyValidate p = None" and x: "pressing p level quota (o', now)" and level: "level \<in> {''warning'', ''critical''}"
    and sev: "severityOf s \<in> {''normal'', ''warning'', ''critical''}"
    and later: "st_LastSampleAt s = 0 \<or> st_LastSampleAt s < ob_SampleAt o'" and run: "Advance p s o' now = (s', scenario)"
    and t0: "t0 = ob_SampleAt o' \<and> (levelSince level s \<noteq> 0 \<longrightarrow> levelSince level s \<le> st_LastSampleAt s \<and> st_LastSampleAt s \<noteq> 0) \<or>
      pressed level t0 s \<and> \<not> interrupted s o'"
  shows "pressed level t0 s' \<and> st_LastSampleAt s' = ob_SampleAt o' \<and> st_QuotaBytes s' = quota \<and>
    (ob_SampleAt o' - t0 \<ge> levelSeconds p level * second \<longrightarrow> reached level s')"
proof -
  note bounds = policy_bounds [OF valid]
  obtain t where esc: "escalate p t (ob_SampleAt o') = (s', scenario)" and rec: "st_RecoverySince t = 0"
    and t: "st_LastSampleAt t = ob_SampleAt o'" "st_QuotaBytes t = quota" "st_Severity t = severityOf s"
      "levelSince level t = (if interrupted s o' \<or> levelSince level s = 0 then ob_SampleAt o' else levelSince level s)"
    using pressing_sample [OF valid x later run] by blast
  have "ob_SampleAt o' \<noteq> 0"
    using x by (simp add: pressing_def fresh_def)
  then have press: "pressed level t0 t"
    using t0 t(3,4) later level by (auto simp: pressed_def reached_def severityOf_def)
  then have ripe: "matured (levelSince level t) (ob_SampleAt o') (levelSeconds p level) \<or> reached level t"
    if "ob_SampleAt o' - t0 \<ge> levelSeconds p level * second"
    using that bounds by (auto simp: matured_iff pressed_def levelSeconds_def)
  show ?thesis
    using esc
  proof (cases rule: escalate_cases)
    case critical
    with t show ?thesis by (simp add: pressed_def reached_def)
  next
    case warning
    with press t ripe esc level show ?thesis
      by (auto simp: pressed_def reached_def escalate_def levelSince_def levelSeconds_def split: if_splits)
  next
    case resolved
    with rec show ?thesis by (simp add: matured_def)
  next
    case silent
    with press t ripe esc level sev show ?thesis
      by (auto simp: escalate_def reached_def levelSince_def levelSeconds_def split: if_splits)
  qed
qed

lemma evidence_times: "evidence p P quota win \<Longrightarrow> sampleAt (hd win) \<le> sampleAt (last win) \<and> sampleAt (last win) \<noteq> 0"
proof -
  assume e: "evidence p P quota win"
  then have "successively (\<lambda>a b. sampleAt a \<le> sampleAt b) win"
    unfolding evidence_def by (blast intro: successively_mono)
  then have "sorted_wrt (\<lambda>a b. sampleAt a \<le> sampleAt b) win"
    by (subst (asm) successively_iff_sorted_wrt_strong) auto
  moreover have "win \<noteq> []" "sampleAt (last win) \<noteq> 0"
    using e by (auto simp: evidence_def fresh_def)
  ultimately show ?thesis
    by (cases win) auto
qed

lemma alert_since: "alert_ok p s os \<Longrightarrow> levelSince level s \<noteq> 0 \<longrightarrow> levelSince level s \<le> st_LastSampleAt s \<and> st_LastSampleAt s \<noteq> 0"
  unfolding alert_ok_def backed_def levelSince_def using evidence_times by (auto split: if_splits) metis+

abbreviation "steady \<equiv> successively (\<lambda>a b. sampleAt a < sampleAt b \<and> sampleAt b - sampleAt a \<le> 30 * second)"

lemma alertRun_pressed:
  assumes valid: "PolicyValidate p = None" and level: "level \<in> {''warning'', ''critical''}"
    and start: "st_LastSampleAt (fst (alertRun p steps)) = 0 \<or> st_LastSampleAt (fst (alertRun p steps)) < sampleAt (hd win)"
    and "win \<noteq> []" and "\<forall>x \<in> set win. pressing p level quota x" and "steady win"
  defines "s \<equiv> \<lambda>win. fst (alertRun p (steps @ win))" and "t0 \<equiv> sampleAt (hd win)"
  shows "pressed level t0 (s win) \<and> st_LastSampleAt (s win) = sampleAt (last win) \<and> st_QuotaBytes (s win) = quota \<and>
    (sampleAt (last win) - t0 \<ge> levelSeconds p level * second \<longrightarrow> reached level (s win))"
  using assms(4,3,5,6) unfolding s_def t0_def
proof (induction win rule: rev_nonempty_induct)
  case (single x)
  obtain o' now where x: "x = (o', now)" by fastforce
  obtain s' sc where run: "Advance p (fst (alertRun p steps)) o' now = (s', sc)" by fastforce
  note ok = alertRun_ok [OF valid, of steps]
  show ?case
    using pressing_step [OF valid _ level severity_values [OF ok] _ run, of quota "ob_SampleAt o'"] alert_since [OF ok] single x run
    by (simp add: alertRun_snoc)
next
  case (snoc x win)
  obtain o' now where x: "x = (o', now)" by fastforce
  let ?s = "fst (alertRun p (steps @ win))"
  obtain s' sc where run: "Advance p ?s o' now = (s', sc)" by fastforce
  have IH: "pressed level (sampleAt (hd win)) ?s" "st_LastSampleAt ?s = sampleAt (last win)" "st_QuotaBytes ?s = quota"
    using snoc by (auto simp: successively_append_iff)
  have gap: "sampleAt (last win) < ob_SampleAt o'" "ob_SampleAt o' - sampleAt (last win) \<le> 30 * second"
    using snoc.prems(3) snoc.hyps x by (auto simp: successively_append_iff)
  have press: "pressing p level quota (o', now)" and quota: "ob_QuotaBytes o' = quota"
    using snoc.prems(2) x by (auto simp: pressing_def)
  have calm: "\<not> interrupted ?s o'"
    using IH(2,3) gap quota by (auto simp: interrupted_def)
  have "alertRun p (steps @ win @ [x]) = (s', sc)"
    using run x alertRun_snoc [of p "steps @ win" o' now] by simp
  then show ?case
    using pressing_step [OF valid press level severity_values [OF alertRun_ok [OF valid]] _ run, of "sampleAt (hd win)"]
      IH gap calm x snoc.hyps by auto
qed

lemma reached_severityOf: "level \<in> {''warning'', ''critical''} \<Longrightarrow> reached level s \<longleftrightarrow> severityOf s \<in> {level, ''critical''}"
  by (auto simp: reached_def severityOf_def)

text \<open>A level that is reached within a window has been announced within it.\<close>

lemma alertRun_announced:
  assumes valid: "PolicyValidate p = None" and level: "level \<in> {''warning'', ''critical''}"
  shows "reached level (fst (alertRun p (steps @ win))) \<Longrightarrow> \<not> reached level (fst (alertRun p steps)) \<Longrightarrow>
    \<exists>k < length win. snd (alertRun p (steps @ take (Suc k) win)) \<in> {level, ''critical''}"
proof (induction win rule: rev_induct)
  case (snoc x win)
  obtain o' now where x: "x = (o', now)" by fastforce
  let ?s = "fst (alertRun p (steps @ win))"
  obtain s' sc where run: "Advance p ?s o' now = (s', sc)" by fastforce
  then have after: "alertRun p (steps @ win @ [x]) = (s', sc)"
    using x alertRun_snoc [of p "steps @ win" o' now] by simp
  show ?case
  proof (cases "reached level ?s")
    case True
    then obtain k where "k < length win" "snd (alertRun p (steps @ take (Suc k) win)) \<in> {level, ''critical''}"
      using snoc.IH snoc.prems(2) by blast
    then show ?thesis by (intro exI [of _ k]) simp
  next
    case False
    have "change_justified p ?s s' sc ((steps @ win) @ [(o', now)])"
      using Advance_ok(2) [OF alertRun_ok [OF valid] valid run] .
    then have "severityOf s' = severityOf ?s \<or> severityOf s' = ''normal'' \<or> severityOf s' = sc"
      unfolding change_justified_def by (elim disjE conjE) simp_all
    then have "sc \<in> {level, ''critical''}"
      using False snoc.prems(1) after level unfolding reached_severityOf [OF level] by auto
    with after show ?thesis by (intro exI [of _ "length win"]) simp
  qed
qed simp

text \<open>
  C32. Persistent pressure is announced, at both levels. When, from some point of the life of an alert on, samples arrive at most
  30 seconds apart, each fresh, later than the one before it, with the same quota and at or above the threshold of the level
  (warning or critical), and they span the time configured for that level, then the alert has reached the level (critical counts
  for the warning level too); and unless it had reached it before, one of the steps of the window has returned the
  announcement of the level, or of the critical one.
\<close>

theorem quota_alert_raised:
  assumes "PolicyValidate p = None" and "level \<in> {''warning'', ''critical''}"
    and "st_LastSampleAt (fst (alertRun p steps)) = 0 \<or> st_LastSampleAt (fst (alertRun p steps)) < sampleAt (hd win)"
    and "win \<noteq> []" and "\<forall>x \<in> set win. pressing p level quota x" and "steady win"
    and "sampleAt (last win) - sampleAt (hd win) \<ge> levelSeconds p level * second"
  shows "st_Severity (fst (alertRun p (steps @ win))) \<in> {level, ''critical''} \<and>
    (st_Severity (fst (alertRun p steps)) \<notin> {level, ''critical''} \<longrightarrow>
       (\<exists>k < length win. snd (alertRun p (steps @ take (Suc k) win)) \<in> {level, ''critical''}))"
  using alertRun_pressed [OF assms(1-6)] alertRun_announced [OF assms(1,2)] assms(7) by (auto simp: reached_def)

section \<open>Witnesses\<close>

definition examplePolicy :: Policy where
  "examplePolicy = \<lparr>po_WarningBasisPoints = 8000, po_CriticalBasisPoints = 9000, po_RecoveryBelowBasisPoints = 7000,
     po_WarningForSeconds = 20, po_CriticalForSeconds = 15, po_RecoveryForSeconds = 20, po_MaxSampleAgeSeconds = 60\<rparr>"

definition exampleSample :: "int \<Rightarrow> int \<Rightarrow> Observation \<times> gotime" where
  "exampleSample used at = (\<lparr>ob_DataState = ''available'', ob_UsedBytes = used, ob_QuotaBytes = 100, ob_SampleAt = at * second\<rparr>, at * second)"

lemma examplePolicy_valid: "PolicyValidate examplePolicy = None"
  by (simp add: PolicyValidate_def examplePolicy_def)

lemma exampleSample_pressing:
  "0 < at \<Longrightarrow> 80 \<le> used \<Longrightarrow> pressing examplePolicy ''warning'' 100 (exampleSample used at)"
  by (simp add: pressing_def fresh_def overLevel_def overWarning_def exampleSample_def examplePolicy_def)

theorem quota_alert_raised_witness:
  "\<exists>k < 2. snd (alertRun examplePolicy ([] @ take (Suc k) [exampleSample 85 10, exampleSample 86 35])) \<in> {''warning'', ''critical''}"
proof -
  let ?win = "[exampleSample 85 10, exampleSample 86 35]"
  have press: "\<forall>x \<in> set ?win. pressing examplePolicy ''warning'' 100 x"
    by (simp add: exampleSample_pressing)
  have start: "st_LastSampleAt (fst (alertRun examplePolicy [])) = 0" "st_Severity (fst (alertRun examplePolicy [])) = []"
    by (simp_all add: alertRun_def zeroState_def)
  have "steady ?win" "sampleAt (last ?win) - sampleAt (hd ?win) \<ge> levelSeconds examplePolicy ''warning'' * second"
    by (simp_all add: exampleSample_def examplePolicy_def levelSeconds_def)
  from quota_alert_raised [OF examplePolicy_valid _ _ _ press this, of "[]"] start show ?thesis
    by (simp add: numeral_2_eq_2)
qed

theorem quota_alert_evidence_witness:
  "sustained examplePolicy (overCritical examplePolicy) 15 ([exampleSample 95 10] @ [exampleSample 96 25])"
proof -
  have sc: "snd (alertRun examplePolicy ([exampleSample 95 10] @ [exampleSample 96 25])) = ''critical''"
    by code_simp
  show ?thesis
    using quota_alert_evidence [OF examplePolicy_valid, of "[exampleSample 95 10]" "exampleSample 96 25"]
    unfolding change_justified_def sc by (simp add: examplePolicy_def)
qed

end
