(* ===== verification/QuotaRulesLaws.thy ===== *)
theory QuotaRulesLaws
  imports QuotaRules QuotaAlertLaws Contracts
begin

text \<open>
  Laws of quota alert rules: every event a transition produces passes the validation of the mail renderer, and over every
  history of the store the events of a rule form one chain of closed episodes.
\<close>

section \<open>Transitions\<close>

lemma Advance_scenario:
  assumes valid: "PolicyValidate p = None" and run: "Advance p s o' now = (s', scenario)" and some: "scenario \<noteq> []"
  shows "usable p o' now" "st_UsedBytes s' = ob_UsedBytes o'" "st_QuotaBytes s' = ob_QuotaBytes o'" "st_LastSampleAt s' = ob_SampleAt o'"
    "scenario = ''critical'' \<and> severityOf s \<noteq> ''critical'' \<and> st_Severity s' = ''critical'' \<and>
       overCritical p (ob_UsedBytes o') (ob_QuotaBytes o') \<and> matured (st_CriticalSince s') (ob_SampleAt o') (po_CriticalForSeconds p) \<or>
     scenario = ''warning'' \<and> severityOf s = ''normal'' \<and> st_Severity s' = ''warning'' \<and>
       overWarning p (ob_UsedBytes o') (ob_QuotaBytes o') \<and> matured (st_WarningSince s') (ob_SampleAt o') (po_WarningForSeconds p) \<or>
     scenario = ''resolved'' \<and> severityOf s \<noteq> ''normal'' \<and> st_Severity s' = ''normal'' \<and>
       belowRecovery p (ob_UsedBytes o') (ob_QuotaBytes o') \<and> matured (st_RecoverySince s) (ob_SampleAt o') (po_RecoveryForSeconds p)"
proof -
  let ?t = "observe p (prepared s o') o'" and ?at = "ob_SampleAt o'"
  note bounds = policy_bounds [OF valid]
  have "escalate p ?t ?at = (s', scenario) \<and> usable p o' now"
    by (cases rule: Advance_cases [of p s o' now]) (use run some in simp_all)
  then have esc: "escalate p ?t ?at = (s', scenario)" and u: "usable p o' now"
    by simp_all
  have t: "st_UsedBytes ?t = ob_UsedBytes o'" "st_QuotaBytes ?t = ob_QuotaBytes o'" "st_LastSampleAt ?t = ?at"
    "st_Severity ?t = severityOf s"
    by (simp_all add: observe_def Let_def)
  have critical: "matured (st_CriticalSince ?t) ?at n \<Longrightarrow> overCritical p (ob_UsedBytes o') (ob_QuotaBytes o')" for n
    by (auto simp: observe_def Let_def matured_def continuousSince_def overCritical_def ratioCompare_iff split: if_splits)
  have warning: "matured (st_WarningSince ?t) ?at n \<Longrightarrow> overWarning p (ob_UsedBytes o') (ob_QuotaBytes o')" for n
    by (auto simp: observe_def Let_def matured_def continuousSince_def overWarning_def ratioCompare_iff split: if_splits)
  have recovery: "belowRecovery p (ob_UsedBytes o') (ob_QuotaBytes o') \<and> matured (st_RecoverySince s) ?at (po_RecoveryForSeconds p)"
    if m: "matured (st_RecoverySince ?t) ?at (po_RecoveryForSeconds p)"
  proof -
    have "st_RecoverySince ?t \<noteq> 0" "st_RecoverySince ?t \<noteq> ?at"
      using m bounds by (auto simp: matured_iff)
    then have "st_RecoverySince ?t = st_RecoverySince s \<and> belowRecovery p (ob_UsedBytes o') (ob_QuotaBytes o')"
      by (auto simp: observe_def Let_def continuousSince_def belowRecovery_def ratioCompare_iff split: if_splits)
    with m show ?thesis by simp
  qed
  have sev: "severityOf s \<noteq> []" by (simp add: severityOf_def)
  show "usable p o' now" by (rule u)
  show "st_UsedBytes s' = ob_UsedBytes o'" "st_QuotaBytes s' = ob_QuotaBytes o'" "st_LastSampleAt s' = ?at"
    using esc by (cases rule: escalate_cases; simp add: t)+
  show "scenario = ''critical'' \<and> severityOf s \<noteq> ''critical'' \<and> st_Severity s' = ''critical'' \<and>
       overCritical p (ob_UsedBytes o') (ob_QuotaBytes o') \<and> matured (st_CriticalSince s') ?at (po_CriticalForSeconds p) \<or>
     scenario = ''warning'' \<and> severityOf s = ''normal'' \<and> st_Severity s' = ''warning'' \<and>
       overWarning p (ob_UsedBytes o') (ob_QuotaBytes o') \<and> matured (st_WarningSince s') ?at (po_WarningForSeconds p) \<or>
     scenario = ''resolved'' \<and> severityOf s \<noteq> ''normal'' \<and> st_Severity s' = ''normal'' \<and>
       belowRecovery p (ob_UsedBytes o') (ob_QuotaBytes o') \<and> matured (st_RecoverySince s) ?at (po_RecoveryForSeconds p)"
    using esc by (cases rule: escalate_cases) (use t(4) critical warning recovery some in simp_all)
qed

lemma quotaTransition_event:
  assumes run: "quotaTransition newUUID n rule o' name now = (rule', Some e, n')"
  obtains state scenario since episode where "Advance (qr_Policy rule) (qr_State rule) o' now = (state, scenario)" "scenario \<noteq> []"
    "since = (if scenario = ''resolved'' then st_RecoverySince (qr_State rule)
       else if scenario = ''critical'' then st_CriticalSince state else st_WarningSince state)"
    "episode = (if qr_ActiveEpisodeID rule = [] then newUUID n else qr_ActiveEpisodeID rule)"
    "n' = (if qr_ActiveEpisodeID rule = [] then Suc (Suc n) else Suc n)"
    "e = \<lparr>ev_ID = newUUID (n' - 1), ev_RuleID = qr_ID rule, ev_RuleVersion = qr_Version rule,
       ev_RepositoryID = qr_RepositoryID rule, ev_RepositoryName = name, ev_EpisodeID = episode,
       ev_PreviousEventID = qr_LastEventID rule, ev_Sequence = wrap64 (qr_Sequence rule + 1), ev_Scenario = scenario,
       ev_UsedBytes = st_UsedBytes state, ev_QuotaBytes = st_QuotaBytes state, ev_Policy = qr_Policy rule,
       ev_OccurredAt = now, ev_SampleAt = st_LastSampleAt state, ev_EvidenceSince = since\<rparr>"
    "rule' = rule\<lparr>qr_State := state, qr_EvaluatedAt := now, qr_StateVersion := nextHostedGroupVersion (qr_StateVersion rule),
       qr_ActiveEpisodeID := (if scenario = ''resolved'' then [] else episode), qr_Sequence := wrap64 (qr_Sequence rule + 1),
       qr_LastEventID := newUUID (n' - 1)\<rparr>"
proof -
  obtain state scenario where adv: "Advance (qr_Policy rule) (qr_State rule) o' now = (state, scenario)" by fastforce
  then have "scenario \<noteq> []"
    using run by (auto simp: quotaTransition_def Let_def)
  with adv run show thesis
    by (intro that [OF adv _ refl refl]) (auto simp: quotaTransition_def Let_def split: if_splits)
qed

text \<open>
  Under a valid policy, with a rule version and identifiers that are valid, a repository name the renderer accepts and a sequence
  number that does not overflow, the event of a transition passes the validation of the event, also when the recovery has already
  cleared the state of the alert.
\<close>

lemma transition_event_valid:
  assumes run: "quotaTransition newUUID n rule o' name now = (rule', Some e, n')"
    and valid: "PolicyValidate (qr_Policy rule) = None"
    and ids: "uuidOk (qr_ID rule)" "uuidOk (qr_RepositoryID rule)" "\<forall>k. uuidOk (newUUID k)"
      "qr_ActiveEpisodeID rule = [] \<or> uuidOk (qr_ActiveEpisodeID rule)" "qr_LastEventID rule = [] \<or> uuidOk (qr_LastEventID rule)"
    and version: "parseInt64 (qr_Version rule) = Some v" "1 \<le> v"
    and sequence: "0 \<le> qr_Sequence rule" "qr_Sequence rule < 2 ^ 63 - 1"
    and name: "nameOk name" and now: "now \<noteq> zeroTime"
  shows "EventValidate uuidOk e"
proof -
  note bounds = policy_bounds [OF valid]
  obtain state scenario since episode where adv: "Advance (qr_Policy rule) (qr_State rule) o' now = (state, scenario)" "scenario \<noteq> []"
    and since: "since = (if scenario = ''resolved'' then st_RecoverySince (qr_State rule)
       else if scenario = ''critical'' then st_CriticalSince state else st_WarningSince state)"
    and episode: "episode = (if qr_ActiveEpisodeID rule = [] then newUUID n else qr_ActiveEpisodeID rule)"
    and n': "n' = (if qr_ActiveEpisodeID rule = [] then Suc (Suc n) else Suc n)"
    and e: "e = \<lparr>ev_ID = newUUID (n' - 1), ev_RuleID = qr_ID rule, ev_RuleVersion = qr_Version rule,
       ev_RepositoryID = qr_RepositoryID rule, ev_RepositoryName = name, ev_EpisodeID = episode,
       ev_PreviousEventID = qr_LastEventID rule, ev_Sequence = wrap64 (qr_Sequence rule + 1), ev_Scenario = scenario,
       ev_UsedBytes = st_UsedBytes state, ev_QuotaBytes = st_QuotaBytes state, ev_Policy = qr_Policy rule,
       ev_OccurredAt = now, ev_SampleAt = st_LastSampleAt state, ev_EvidenceSince = since\<rparr>"
    by (rule quotaTransition_event [OF run])
  note a = Advance_scenario [OF valid adv]
  have seq: "wrap64 (qr_Sequence rule + 1) = qr_Sequence rule + 1"
    using sequence by (simp add: int64_def)
  have u: "0 < ob_QuotaBytes o'" "0 \<le> ob_UsedBytes o'" "ob_SampleAt o' \<noteq> 0" "ob_SampleAt o' \<le> now"
    "\<not> timeSub now (ob_SampleAt o') > secondsDuration (po_MaxSampleAgeSeconds (qr_Policy rule))"
    using a(1) by (simp_all add: usable_def)
  have uuids: "uuidOk episode" "(qr_LastEventID rule \<noteq> [] \<and> \<not> uuidOk (qr_LastEventID rule)) = False"
    using ids(3-5) by (auto simp: episode)
  have "EventValidate uuidOk e \<longleftrightarrow> since \<noteq> 0 \<and> since \<le> ob_SampleAt o' \<and>
    (case (if scenario = ''warning'' then
         (if ratioCompare (ob_UsedBytes o') (ob_QuotaBytes o') (po_WarningBasisPoints (qr_Policy rule)) < 0
          then None else Some (po_WarningForSeconds (qr_Policy rule)))
       else if scenario = ''critical'' then
         (if ratioCompare (ob_UsedBytes o') (ob_QuotaBytes o') (po_CriticalBasisPoints (qr_Policy rule)) < 0
          then None else Some (po_CriticalForSeconds (qr_Policy rule)))
       else if scenario = ''resolved'' then
         (if ratioCompare (ob_UsedBytes o') (ob_QuotaBytes o') (po_RecoveryBelowBasisPoints (qr_Policy rule)) \<ge> 0
          then None else Some (po_RecoveryForSeconds (qr_Policy rule)))
       else None) of None \<Rightarrow> False | Some seconds \<Rightarrow> \<not> timeSub (ob_SampleAt o') since < secondsDuration seconds)"
    using ids(1-3) version sequence name now valid u uuids
    by (cases "qr_LastEventID rule = []") (simp_all add: EventValidate_def Let_def e a(2-4) seq isZero_def not_le)
  then show ?thesis
    using a(5) bounds since
    by (elim disjE conjE) (simp_all add: matured_iff overCritical_def overWarning_def belowRecovery_def ratioCompare_iff
      secondsDuration_id timeSub_compare)
qed

section \<open>The events of a rule\<close>

lemma Advance_silent: "Advance p s o' now = (s', []) \<Longrightarrow> st_Severity s' = severityOf s"
proof (cases rule: Advance_cases [of p s o' now])
  case (interrupt d t)
  assume "Advance p s o' now = (s', [])"
  with interrupt show ?thesis by (auto simp: severityOf_def)
next
  case (repeat t)
  assume "Advance p s o' now = (s', [])"
  with repeat show ?thesis by simp
next
  case sample
  assume "Advance p s o' now = (s', [])"
  with sample have "escalate p (observe p (prepared s o') o') (ob_SampleAt o') = (s', [])" by simp
  then show ?thesis
    by (cases rule: escalate_cases) (simp_all add: observe_def Let_def)
qed

text \<open>Neighbouring events of one rule: the chain of identifiers, and what may follow what within an episode.\<close>

definition linked :: "Event \<Rightarrow> Event \<Rightarrow> bool" where
  "linked a b \<longleftrightarrow> ev_PreviousEventID b = ev_ID a \<and> ev_Sequence b = ev_Sequence a + 1 \<and>
     (if ev_Scenario a = ''resolved'' then ev_Scenario b \<in> {''warning'', ''critical''}
      else ev_EpisodeID b = ev_EpisodeID a \<and>
        ev_Scenario b \<in> (if ev_Scenario a = ''warning'' then {''critical'', ''resolved''} else {''resolved''}))"

definition closedBefore :: "Event \<Rightarrow> Event \<Rightarrow> bool" where
  "closedBefore a b \<longleftrightarrow> (ev_Scenario a = ''resolved'' \<longrightarrow> ev_EpisodeID b \<noteq> ev_EpisodeID a)"

definition opened :: "Event list \<Rightarrow> bool" where
  "opened es \<longleftrightarrow> es \<noteq> [] \<and> ev_Scenario (last es) \<noteq> ''resolved''"

definition episodes :: "Event list \<Rightarrow> bool" where
  "episodes es \<longleftrightarrow> successively linked es \<and> sorted_wrt closedBefore es \<and>
     (es \<noteq> [] \<longrightarrow> ev_PreviousEventID (hd es) = [] \<and> ev_Sequence (hd es) = 1 \<and> ev_Scenario (hd es) \<in> {''warning'', ''critical''})"

text \<open>The rule agrees with the last of its events.\<close>

definition agrees :: "RepositoryQuotaAlertRule \<Rightarrow> Event list \<Rightarrow> bool" where
  "agrees r es \<longleftrightarrow> qr_Sequence r = int (length es) \<and> qr_LastEventID r = (if es = [] then [] else ev_ID (last es)) \<and>
     st_Severity (qr_State r) = (if opened es then ev_Scenario (last es) else ''normal'') \<and>
     qr_ActiveEpisodeID r = (if opened es then ev_EpisodeID (last es) else [])"

definition chained :: "RepositoryQuotaAlertRule \<Rightarrow> Event list \<Rightarrow> bool" where
  "chained r es \<longleftrightarrow> episodes es \<and> agrees r es \<and> (\<forall>e \<in> set es. ev_RuleID e = qr_ID r \<and> ev_RepositoryID e = qr_RepositoryID r)"

lemma episodes_sequence: "episodes es \<Longrightarrow> k < length es \<Longrightarrow> ev_Sequence (es ! k) = int k + 1"
proof (induction k)
  case 0
  then show ?case by (auto simp: episodes_def hd_conv_nth)
next
  case (Suc k)
  then have "linked (es ! k) (es ! Suc k)"
    by (auto simp: episodes_def successively_conv_nth)
  with Suc show ?case by (simp add: linked_def)
qed

lemma episodes_scenario: "episodes es \<Longrightarrow> e \<in> set es \<Longrightarrow> ev_Scenario e \<in> {''warning'', ''critical'', ''resolved''}"
proof -
  assume ep: "episodes es" and "e \<in> set es"
  then obtain k where k: "k < length es" "e = es ! k"
    by (auto simp: in_set_conv_nth)
  show ?thesis
  proof (cases k)
    case 0
    with ep k show ?thesis by (auto simp: episodes_def hd_conv_nth)
  next
    case (Suc j)
    with ep k have "linked (es ! j) e"
      by (auto simp: episodes_def successively_conv_nth)
    then show ?thesis by (auto simp: linked_def split: if_splits)
  qed
qed

lemma episodes_snoc:
  assumes ep: "episodes es" and prev: "ev_PreviousEventID e = (if es = [] then [] else ev_ID (last es))"
    and seq: "ev_Sequence e = int (length es) + 1"
    and sc: "ev_Scenario e \<in> (if \<not> opened es then {''warning'', ''critical''}
        else if ev_Scenario (last es) = ''warning'' then {''critical'', ''resolved''} else {''resolved''})"
    and eid: "if opened es then ev_EpisodeID e = ev_EpisodeID (last es) else ev_EpisodeID e \<notin> ev_EpisodeID ` set es"
  shows "episodes (es @ [e])"
proof (cases "es = []")
  case True
  with prev seq sc show ?thesis by (simp add: episodes_def opened_def)
next
  case False
  have last_seq: "ev_Sequence (last es) = int (length es)"
    using episodes_sequence [OF ep, of "length es - 1"] False by (simp add: last_conv_nth of_nat_diff Suc_leI)
  have "linked (last es) e"
    using False prev seq sc eid last_seq by (auto simp: linked_def opened_def split: if_splits)
  moreover have "closedBefore a e" if "a \<in> set es" for a
  proof (cases "opened es")
    case True
    then have "a = last es \<or> closedBefore a (last es)"
      using ep that False unfolding episodes_def
      by (metis append_butlast_last_id in_set_conv_decomp list.set_intros(1) set_ConsD sorted_wrt_append Un_iff set_append empty_iff empty_set)
    with True eid show ?thesis by (auto simp: closedBefore_def opened_def)
  next
    case no: False
    with that eid show ?thesis by (auto simp: closedBefore_def)
  qed
  ultimately show ?thesis
    using ep False by (simp add: episodes_def successively_append_iff sorted_wrt_append)
qed

lemma chained_severity: "chained r es \<Longrightarrow> st_Severity (qr_State r) \<in> {''normal'', ''warning'', ''critical''}"
  using episodes_scenario [of es "last es"] by (auto simp: chained_def agrees_def opened_def)

lemma transition_silent:
  assumes "quotaTransition newUUID n r o' name now = (r', None, n')" and "chained r es"
  shows "chained r' es" "n' = n" "qr_ID r' = qr_ID r" "qr_RepositoryID r' = qr_RepositoryID r" "qr_Policy r' = qr_Policy r"
    "qr_Deleted r' = qr_Deleted r"
proof -
  obtain state scenario where adv: "Advance (qr_Policy r) (qr_State r) o' now = (state, scenario)" by fastforce
  with assms(1) have sc: "scenario = []" and r': "n' = n"
    "r' = r\<lparr>qr_State := state, qr_EvaluatedAt := now, qr_StateVersion := nextHostedGroupVersion (qr_StateVersion r)\<rparr>"
    by (auto simp: quotaTransition_def Let_def split: if_splits)
  have "st_Severity state = st_Severity (qr_State r)"
    using Advance_silent adv sc chained_severity [OF assms(2)] by (fastforce simp: severityOf_def)
  with r' assms(2) show "chained r' es" "n' = n" "qr_ID r' = qr_ID r" "qr_RepositoryID r' = qr_RepositoryID r"
    "qr_Policy r' = qr_Policy r" "qr_Deleted r' = qr_Deleted r"
    by (simp_all add: chained_def agrees_def)
qed

lemma transition_event:
  assumes run: "quotaTransition newUUID n r o' name now = (r', Some e, n')" and ch: "chained r es"
    and valid: "PolicyValidate (qr_Policy r) = None" and fresh: "fresh_uuids newUUID"
    and old: "\<forall>a \<in> set es. ev_EpisodeID a \<in> newUUID ` {..<n}" and len: "int (length es) < 2 ^ 63 - 1"
  shows "chained r' (es @ [e])" "ev_ID e \<in> newUUID ` {n..<n'}" "ev_EpisodeID e \<in> newUUID ` {..<n'}" "n \<le> n'"
    "ev_RuleID e = qr_ID r" "qr_ID r' = qr_ID r" "qr_RepositoryID r' = qr_RepositoryID r" "qr_Policy r' = qr_Policy r"
    "qr_Deleted r' = qr_Deleted r"
proof -
  from run obtain state scenario since episode where adv: "Advance (qr_Policy r) (qr_State r) o' now = (state, scenario)" "scenario \<noteq> []"
    and episode: "episode = (if qr_ActiveEpisodeID r = [] then newUUID n else qr_ActiveEpisodeID r)"
    and n': "n' = (if qr_ActiveEpisodeID r = [] then Suc (Suc n) else Suc n)"
    and e: "e = \<lparr>ev_ID = newUUID (n' - 1), ev_RuleID = qr_ID r, ev_RuleVersion = qr_Version r,
       ev_RepositoryID = qr_RepositoryID r, ev_RepositoryName = name, ev_EpisodeID = episode,
       ev_PreviousEventID = qr_LastEventID r, ev_Sequence = wrap64 (qr_Sequence r + 1), ev_Scenario = scenario,
       ev_UsedBytes = st_UsedBytes state, ev_QuotaBytes = st_QuotaBytes state, ev_Policy = qr_Policy r,
       ev_OccurredAt = now, ev_SampleAt = st_LastSampleAt state, ev_EvidenceSince = since\<rparr>"
    and r': "r' = r\<lparr>qr_State := state, qr_EvaluatedAt := now, qr_StateVersion := nextHostedGroupVersion (qr_StateVersion r),
       qr_ActiveEpisodeID := (if scenario = ''resolved'' then [] else episode), qr_Sequence := wrap64 (qr_Sequence r + 1),
       qr_LastEventID := newUUID (n' - 1)\<rparr>"
    by (rule quotaTransition_event)
  have ag: "qr_Sequence r = int (length es)" "qr_LastEventID r = (if es = [] then [] else ev_ID (last es))"
    "st_Severity (qr_State r) = (if opened es then ev_Scenario (last es) else ''normal'')"
    "qr_ActiveEpisodeID r = (if opened es then ev_EpisodeID (last es) else [])" and ep: "episodes es"
    using ch by (auto simp: chained_def agrees_def)
  have seq: "wrap64 (qr_Sequence r + 1) = int (length es) + 1"
    using ag(1) len by (simp add: int64_def)
  have sev: "severityOf (qr_State r) = st_Severity (qr_State r)"
    using chained_severity [OF ch] by (auto simp: severityOf_def)
  define S where "S = (if opened es then ev_Scenario (last es) else ''normal'')"
  have move: "scenario = ''critical'' \<and> S \<noteq> ''critical'' \<and> st_Severity state = ''critical'' \<or>
      scenario = ''warning'' \<and> S = ''normal'' \<and> st_Severity state = ''warning'' \<or>
      scenario = ''resolved'' \<and> S \<noteq> ''normal'' \<and> st_Severity state = ''normal''"
    using Advance_scenario(5) [OF valid adv, unfolded sev ag(3) S_def [symmetric]] by blast
  have named: "newUUID k \<noteq> []" for k
    using fresh by (simp add: fresh_uuids_def)
  have last_ep: "ev_EpisodeID (last es) \<in> newUUID ` {..<n}" if "opened es"
    using old that by (simp add: opened_def)
  then have active: "qr_ActiveEpisodeID r = [] \<longleftrightarrow> \<not> opened es"
    using ag(4) named by (metis imageE)
  have episode_eq: "episode = (if opened es then ev_EpisodeID (last es) else newUUID n)"
    by (cases "opened es") (use episode ag(4) active in auto)
  have uniq: "newUUID n \<notin> ev_EpisodeID ` set es"
    using old fresh by (fastforce simp: fresh_uuids_def dest: injD)
  have "episodes (es @ [e])"
  proof (rule episodes_snoc [OF ep])
    show "ev_PreviousEventID e = (if es = [] then [] else ev_ID (last es))" "ev_Sequence e = int (length es) + 1"
      using ag(2) seq by (simp_all add: e)
    show "if opened es then ev_EpisodeID e = ev_EpisodeID (last es) else ev_EpisodeID e \<notin> ev_EpisodeID ` set es"
      using uniq by (simp add: e episode_eq)
    show "ev_Scenario e \<in> (if \<not> opened es then {''warning'', ''critical''}
        else if ev_Scenario (last es) = ''warning'' then {''critical'', ''resolved''} else {''resolved''})"
    proof (cases "opened es")
      case True
      then have "S \<in> {''warning'', ''critical''}" and "ev_Scenario (last es) = S"
        using episodes_scenario [OF ep, of "last es"] by (auto simp: S_def opened_def)
      with move True show ?thesis by (auto simp: e)
    next
      case False
      with move show ?thesis by (auto simp: e S_def)
    qed
  qed
  moreover have "agrees r' (es @ [e])"
    using move seq by (auto simp: agrees_def opened_def r' e severityOf_def split: if_splits)
  ultimately show "chained r' (es @ [e])"
    using ch by (simp add: chained_def r' e)
  show "ev_ID e \<in> newUUID ` {n..<n'}" "n \<le> n'" "ev_RuleID e = qr_ID r" "qr_ID r' = qr_ID r"
    "qr_RepositoryID r' = qr_RepositoryID r" "qr_Policy r' = qr_Policy r" "qr_Deleted r' = qr_Deleted r"
    by (auto simp: e n' r')
  show "ev_EpisodeID e \<in> newUUID ` {..<n'}"
    using last_ep by (auto simp: e episode_eq n')
qed

section \<open>Histories of the store\<close>

lemma chained_reset:
  assumes "chained r es" and "qr_ID r' = qr_ID r" and "qr_RepositoryID r' = qr_RepositoryID r" and "qr_Sequence r' = qr_Sequence r"
    and "qr_LastEventID r' = qr_LastEventID r" and "qr_ActiveEpisodeID r' = qr_ActiveEpisodeID r"
    and "qr_State r' = Reset (qr_State r) d"
  shows "chained r' es"
proof -
  have "st_Severity (qr_State r') = st_Severity (qr_State r)"
    using assms(7) chained_severity [OF assms(1)] by (auto simp: severityOf_def)
  with assms show ?thesis
    by (simp add: chained_def agrees_def)
qed

text \<open>
  The steps of the store: a rule as the interface creates it, with a fresh identifier and nothing announced yet; updates and
  deletions; evaluations; every operation on email targets and deliveries; and any change of the registry
  and of the identifiers drawn elsewhere.
\<close>

definition newRule :: "RepositoryQuotaAlertRule \<Rightarrow> bool" where
  "newRule v \<longleftrightarrow> \<not> qr_Deleted v \<and> qr_ActiveEpisodeID v = [] \<and> qr_LastEventID v = [] \<and> qr_Sequence v = 0"

inductive quota_step :: "(nat \<Rightarrow> string) \<Rightarrow> quota_store \<Rightarrow> quota_store \<Rightarrow> bool" for newUUID where
  create: "newRule v \<Longrightarrow> gm_get (quotaAlertRules s) (qr_ID v) = None \<Longrightarrow>
    quota_step newUUID s (snd (CreateRepositoryQuotaAlertRule now v s))"
| update: "quota_step newUUID s (snd (UpdateRepositoryQuotaAlertRule now v version s))"
| delete: "quota_step newUUID s (snd (DeleteRepositoryQuotaAlertRule now i version s))"
| evaluate: "quota_step newUUID s (snd (EvaluateNextRepositoryQuotaAlert newUUID capacity now cfg interval s))"
| elsewhere: "quotaAlertRules s' = quotaAlertRules s \<Longrightarrow> quotaAlertEvents s' = quotaAlertEvents s \<Longrightarrow>
    uuidsDrawn s \<le> uuidsDrawn s' \<Longrightarrow> quota_step newUUID s s'"

definition ruleEvents :: "string \<Rightarrow> 'z quota_store_scheme \<Rightarrow> Event list" where
  "ruleEvents i s = sort_key ev_Sequence (filter (\<lambda>e. ev_RuleID e = i) (map qe_Snapshot (gm_vals (quotaAlertEvents s))))"

definition rule_ok :: "string \<Rightarrow> RepositoryQuotaAlertRule \<Rightarrow> Event list \<Rightarrow> bool" where
  "rule_ok i r es \<longleftrightarrow> qr_ID r = i \<and> PolicyValidate (qr_Policy r) = None \<and> chained r es"

definition quota_ok :: "(nat \<Rightarrow> string) \<Rightarrow> quota_store \<Rightarrow> bool" where
  "quota_ok newUUID s \<longleftrightarrow> gm_ok (quotaAlertRules s) \<and> gm_ok (quotaAlertEvents s) \<and> length (quotaAlertRules s) \<le> 100 \<and>
     (\<forall>i j r r'. gm_get (quotaAlertRules s) i = Some r \<longrightarrow> gm_get (quotaAlertRules s) j = Some r' \<longrightarrow>
        \<not> qr_Deleted r \<longrightarrow> \<not> qr_Deleted r' \<longrightarrow> qr_RepositoryID r = qr_RepositoryID r' \<longrightarrow> i = j) \<and>
     (\<forall>i r. gm_get (quotaAlertRules s) i = Some r \<longrightarrow> rule_ok i r (ruleEvents i s)) \<and>
     (\<forall>k v. gm_get (quotaAlertEvents s) k = Some v \<longrightarrow> ev_ID (qe_Snapshot v) = k \<and> k \<in> newUUID ` {..<uuidsDrawn s} \<and>
        ev_EpisodeID (qe_Snapshot v) \<in> newUUID ` {..<uuidsDrawn s} \<and> gm_get (quotaAlertRules s) (ev_RuleID (qe_Snapshot v)) \<noteq> None)"

lemma insort_key_snoc: "f x < f y \<Longrightarrow> insort_key f x (zs @ [y]) = insort_key f x zs @ [y]"
  by (induction zs) auto

lemma sort_key_snoc_max: "\<forall>x \<in> set xs. f x < f y \<Longrightarrow> sort_key f (xs @ [y]) = sort_key f xs @ [y]"
  by (induction xs) (auto simp: insort_key_snoc)

lemma length_put: "length (gm_put k v m) = (if gm_get m k = None then Suc (length m) else length m)"
  by (induction m) auto

lemma ruleEvents_cong: "quotaAlertEvents s' = quotaAlertEvents s \<Longrightarrow> ruleEvents i s' = ruleEvents i s"
  by (simp add: ruleEvents_def)

lemma ruleEvents_set: "set (ruleEvents i s) = {e \<in> qe_Snapshot ` set (gm_vals (quotaAlertEvents s)). ev_RuleID e = i}"
  by (auto simp: ruleEvents_def)

lemma ruleEvents_length: "length (ruleEvents i s) \<le> length (quotaAlertEvents s)"
  using length_filter_le [of "\<lambda>e. ev_RuleID e = i" "map qe_Snapshot (gm_vals (quotaAlertEvents s))"] by (simp add: ruleEvents_def)

lemma quota_okI:
  assumes "gm_ok (quotaAlertRules s)" and "gm_ok (quotaAlertEvents s)" and "length (quotaAlertRules s) \<le> 100"
    and "\<And>i j r r'. gm_get (quotaAlertRules s) i = Some r \<Longrightarrow> gm_get (quotaAlertRules s) j = Some r' \<Longrightarrow>
        \<not> qr_Deleted r \<Longrightarrow> \<not> qr_Deleted r' \<Longrightarrow> qr_RepositoryID r = qr_RepositoryID r' \<Longrightarrow> i = j"
    and "\<And>i r. gm_get (quotaAlertRules s) i = Some r \<Longrightarrow> rule_ok i r (ruleEvents i s)"
    and "\<And>k v. gm_get (quotaAlertEvents s) k = Some v \<Longrightarrow> ev_ID (qe_Snapshot v) = k \<and> k \<in> newUUID ` {..<uuidsDrawn s} \<and>
        ev_EpisodeID (qe_Snapshot v) \<in> newUUID ` {..<uuidsDrawn s} \<and> gm_get (quotaAlertRules s) (ev_RuleID (qe_Snapshot v)) \<noteq> None"
  shows "quota_ok newUUID s"
  unfolding quota_ok_def using assms by blast

lemma quota_ok_facts:
  assumes "quota_ok newUUID s"
  shows "gm_ok (quotaAlertRules s)" "gm_ok (quotaAlertEvents s)" "length (quotaAlertRules s) \<le> 100"
    and "\<And>i j r r'. gm_get (quotaAlertRules s) i = Some r \<Longrightarrow> gm_get (quotaAlertRules s) j = Some r' \<Longrightarrow>
        \<not> qr_Deleted r \<Longrightarrow> \<not> qr_Deleted r' \<Longrightarrow> qr_RepositoryID r = qr_RepositoryID r' \<Longrightarrow> i = j"
    and "\<And>i r. gm_get (quotaAlertRules s) i = Some r \<Longrightarrow> rule_ok i r (ruleEvents i s)"
    and "\<And>k v. gm_get (quotaAlertEvents s) k = Some v \<Longrightarrow> ev_ID (qe_Snapshot v) = k \<and> k \<in> newUUID ` {..<uuidsDrawn s} \<and>
        ev_EpisodeID (qe_Snapshot v) \<in> newUUID ` {..<uuidsDrawn s} \<and> gm_get (quotaAlertRules s) (ev_RuleID (qe_Snapshot v)) \<noteq> None"
  using assms unfolding quota_ok_def by blast+

lemma drawn_mono: "k \<in> newUUID ` {..<m} \<Longrightarrow> m \<le> n \<Longrightarrow> k \<in> newUUID ` {..<(n :: nat)}"
  by auto

lemma quota_okD:
  assumes "quota_ok newUUID s" and "gm_get (quotaAlertRules s) i = Some r"
  shows "qr_ID r = i" "PolicyValidate (qr_Policy r) = None" "chained r (ruleEvents i s)"
    "\<forall>e \<in> set (ruleEvents i s). ev_EpisodeID e \<in> newUUID ` {..<uuidsDrawn s}"
proof -
  have ok: "gm_ok (quotaAlertEvents s)" and r: "rule_ok i r (ruleEvents i s)"
    and ev: "\<And>k v. gm_get (quotaAlertEvents s) k = Some v \<Longrightarrow> ev_EpisodeID (qe_Snapshot v) \<in> newUUID ` {..<uuidsDrawn s}"
    using assms unfolding quota_ok_def by blast+
  show "qr_ID r = i" "PolicyValidate (qr_Policy r) = None" "chained r (ruleEvents i s)"
    using r by (simp_all add: rule_ok_def)
  show "\<forall>e \<in> set (ruleEvents i s). ev_EpisodeID e \<in> newUUID ` {..<uuidsDrawn s}"
    using ev gm_vals_iff [OF ok] unfolding ruleEvents_set by blast
qed

text \<open>A rule is replaced by one with the same scope, and its events stay as they are.\<close>

lemma quota_ok_rule:
  assumes ok: "quota_ok newUUID s" and r: "gm_get (quotaAlertRules s) i = Some r" and r': "rule_ok i r' (ruleEvents i s)"
    and scope: "qr_RepositoryID r' = qr_RepositoryID r" "qr_Deleted r \<Longrightarrow> qr_Deleted r'"
    and s': "quotaAlertRules s' = gm_put i r' (quotaAlertRules s)" "quotaAlertEvents s' = quotaAlertEvents s"
      "uuidsDrawn s \<le> uuidsDrawn s'"
  shows "quota_ok newUUID s'"
proof (rule quota_okI)
  note f = quota_ok_facts [OF ok]
  show "gm_ok (quotaAlertRules s')" "gm_ok (quotaAlertEvents s')" "length (quotaAlertRules s') \<le> 100"
    using f(1-3) r by (simp_all add: s' length_put)
  show "i1 = i2" if "gm_get (quotaAlertRules s') i1 = Some r1" "gm_get (quotaAlertRules s') i2 = Some r2"
    "\<not> qr_Deleted r1" "\<not> qr_Deleted r2" "qr_RepositoryID r1 = qr_RepositoryID r2" for i1 i2 r1 r2
  proof -
    have prior: "\<exists>q'. gm_get (quotaAlertRules s) k = Some q' \<and> \<not> qr_Deleted q' \<and> qr_RepositoryID q' = qr_RepositoryID q"
      if "gm_get (quotaAlertRules s') k = Some q" "\<not> qr_Deleted q" for k q
      using that r scope by (auto simp: s'(1) split: if_splits)
    from prior [OF that(1,3)] prior [OF that(2,4)] that(5) show ?thesis
      using f(4) by metis
  qed
  show "rule_ok k q (ruleEvents k s')" if "gm_get (quotaAlertRules s') k = Some q" for k q
    using f(5) r' that ruleEvents_cong [OF s'(2)] by (auto simp: s'(1) split: if_splits)
  show "ev_ID (qe_Snapshot v) = k \<and> k \<in> newUUID ` {..<uuidsDrawn s'} \<and> ev_EpisodeID (qe_Snapshot v) \<in> newUUID ` {..<uuidsDrawn s'} \<and>
      gm_get (quotaAlertRules s') (ev_RuleID (qe_Snapshot v)) \<noteq> None" if "gm_get (quotaAlertEvents s') k = Some v" for k v
  proof -
    have "gm_get (quotaAlertEvents s) k = Some v"
      using that by (simp add: s'(2))
    from f(6) [OF this] drawn_mono [OF _ s'(3), of k newUUID] drawn_mono [OF _ s'(3), of "ev_EpisodeID (qe_Snapshot v)" newUUID]
    show ?thesis by (simp add: s'(1))
  qed
qed

lemma cancel_fields [simp]:
  "quotaAlertRules (cancelQuotaDeliveriesLocked i code now s) = quotaAlertRules s"
  "quotaAlertEvents (cancelQuotaDeliveriesLocked i code now s) = quotaAlertEvents s"
  "uuidsDrawn (cancelQuotaDeliveriesLocked i code now s) = uuidsDrawn s"
  by (simp_all add: cancelQuotaDeliveriesLocked_def)

lemma quota_ok_insert:
  assumes ok: "quota_ok newUUID s" and absent: "gm_get (quotaAlertRules s) i = None" and r: "rule_ok i r (ruleEvents i s')"
    and sole: "\<forall>q \<in> set (gm_vals (quotaAlertRules s)). \<not> qr_Deleted q \<longrightarrow> qr_RepositoryID q \<noteq> qr_RepositoryID r"
    and room: "length (quotaAlertRules s) < 100"
    and s': "quotaAlertRules s' = gm_put i r (quotaAlertRules s)" "quotaAlertEvents s' = quotaAlertEvents s" "uuidsDrawn s' = uuidsDrawn s"
  shows "quota_ok newUUID s'"
proof (rule quota_okI)
  note f = quota_ok_facts [OF ok]
  show "gm_ok (quotaAlertRules s')" "gm_ok (quotaAlertEvents s')" "length (quotaAlertRules s') \<le> 100"
    using f(1-3) absent room by (simp_all add: s' length_put)
  show "i1 = i2" if "gm_get (quotaAlertRules s') i1 = Some r1" "gm_get (quotaAlertRules s') i2 = Some r2"
    "\<not> qr_Deleted r1" "\<not> qr_Deleted r2" "qr_RepositoryID r1 = qr_RepositoryID r2" for i1 i2 r1 r2
    using that f(4) sole gm_get_vals [of "quotaAlertRules s" i1 r1] gm_get_vals [of "quotaAlertRules s" i2 r2]
    by (auto simp: s'(1) simp del: set_map split: if_splits)
  show "rule_ok k q (ruleEvents k s')" if "gm_get (quotaAlertRules s') k = Some q" for k q
    using that f(5) [of k q] r by (auto simp: s' ruleEvents_def split: if_splits)
  show "ev_ID (qe_Snapshot v) = k \<and> k \<in> newUUID ` {..<uuidsDrawn s'} \<and> ev_EpisodeID (qe_Snapshot v) \<in> newUUID ` {..<uuidsDrawn s'} \<and>
      gm_get (quotaAlertRules s') (ev_RuleID (qe_Snapshot v)) \<noteq> None" if "gm_get (quotaAlertEvents s') k = Some v" for k v
    using f(6) [of k v] that by (simp add: s')
qed

lemma quota_ok_create:
  assumes ok: "quota_ok newUUID s" and new: "newRule v" and absent: "gm_get (quotaAlertRules s) (qr_ID v) = None"
  shows "quota_ok newUUID (snd (CreateRepositoryQuotaAlertRule now v s))"
proof (cases "CreateRepositoryQuotaAlertRule now v s")
  case (Pair res s')
  show ?thesis
  proof (cases res)
    case (Inl e)
    then have "s' = s"
      using Pair by (auto simp: CreateRepositoryQuotaAlertRule_def Let_def split: option.splits if_splits)
    with ok Pair show ?thesis by simp
  next
    case (Inr r)
    let ?r = "v\<lparr>qr_Version := ''1'', qr_StateVersion := ''1'', qr_CreatedAt := now, qr_UpdatedAt := now,
      qr_State := Reset zeroState (if qr_Enabled v then ''unknown'' else ''disabled'')\<rparr>"
    have s': "s' = s\<lparr>quotaAlertRules := gm_put (qr_ID v) ?r (quotaAlertRules s)\<rparr>" and valid: "PolicyValidate (qr_Policy v) = None"
      and room: "length (quotaAlertRules s) < 100"
      and sole: "\<forall>old \<in> set (gm_vals (quotaAlertRules s)). \<not> qr_Deleted old \<longrightarrow> qr_RepositoryID old \<noteq> qr_RepositoryID v"
      using Pair Inr
      by (auto simp: CreateRepositoryQuotaAlertRule_def Let_def list_ex_iff split: option.splits if_splits)
    note f = quota_ok_facts [OF ok]
    have "set (ruleEvents (qr_ID v) s) = {}"
      unfolding ruleEvents_set using f(6) absent gm_vals_iff [OF f(2)] by fastforce
    then have none: "ruleEvents (qr_ID v) s = []" by simp
    have "chained ?r []"
      using new by (simp add: chained_def episodes_def agrees_def opened_def newRule_def severityOf_def zeroState_def)
    then have "rule_ok (qr_ID v) ?r (ruleEvents (qr_ID v) s')"
      using valid none by (simp add: rule_ok_def s' ruleEvents_def)
    then have "quota_ok newUUID s'"
      by (rule quota_ok_insert [OF ok absent]) (use room sole in \<open>simp_all add: s'\<close>)
    with Pair show ?thesis by simp
  qed
qed

text \<open>The rule an accepted update stores.\<close>

definition updatedRule :: "gotime \<Rightarrow> RepositoryQuotaAlertRule \<Rightarrow> RepositoryQuotaAlertRule \<Rightarrow> RepositoryQuotaAlertRule" where
  "updatedRule now v old = old\<lparr>qr_TargetID := qr_TargetID v, qr_TargetVersion := qr_TargetVersion v, qr_Policy := qr_Policy v,
     qr_Enabled := qr_Enabled v, qr_State := Reset (qr_State old) (if qr_Enabled v then ''configuration_changed'' else ''disabled''),
     qr_Version := nextHostedGroupVersion (qr_Version old), qr_StateVersion := nextHostedGroupVersion (qr_StateVersion old),
     qr_UpdatedAt := now\<rparr>"

lemma updateRule_cases:
  assumes "UpdateRepositoryQuotaAlertRule now v version s = (res, s')"
  shows "s' = s \<or> (\<exists>old code. gm_get (quotaAlertRules s) (qr_ID v) = Some old \<and> qr_Version old = version \<and>
     PolicyValidate (qr_Policy v) = None \<and> res = Inr (updatedRule now v old) \<and>
     s' = (cancelQuotaDeliveriesLocked (qr_ID old) code now s)
       \<lparr>quotaAlertRules := gm_put (qr_ID old) (updatedRule now v old) (quotaAlertRules s)\<rparr>)"
proof (cases "gm_get (quotaAlertRules s) (qr_ID v)")
  case (Some old)
  show ?thesis
  proof (cases "PolicyValidate (qr_Policy v)")
    case None
    with Some assms show ?thesis
      by (cases "gm_get (emailTargets s) (qr_TargetID v)")
        (auto simp: UpdateRepositoryQuotaAlertRule_def updatedRule_def Let_def split: if_splits)
  qed (use Some assms in \<open>auto simp: UpdateRepositoryQuotaAlertRule_def split: if_splits\<close>)
qed (use assms in \<open>simp add: UpdateRepositoryQuotaAlertRule_def\<close>)

lemma quota_ok_update:
  assumes ok: "quota_ok newUUID s"
  shows "quota_ok newUUID (snd (UpdateRepositoryQuotaAlertRule now v version s))"
proof (cases "UpdateRepositoryQuotaAlertRule now v version s")
  case (Pair res s')
  then consider "s' = s" | old code where "gm_get (quotaAlertRules s) (qr_ID v) = Some old" "PolicyValidate (qr_Policy v) = None"
    "s' = (cancelQuotaDeliveriesLocked (qr_ID old) code now s)
       \<lparr>quotaAlertRules := gm_put (qr_ID old) (updatedRule now v old) (quotaAlertRules s)\<rparr>"
    using updateRule_cases by blast
  then show ?thesis
  proof cases
    case 1
    with ok Pair show ?thesis by simp
  next
    case (2 old)
    note q = quota_okD [OF ok 2(1)]
    have "chained (updatedRule now v old) (ruleEvents (qr_ID v) s)"
      using q(3) by (rule chained_reset) (simp_all add: updatedRule_def)
    with q 2 Pair show ?thesis
      by (intro quota_ok_rule [OF ok 2(1)]) (simp_all add: rule_ok_def updatedRule_def)
  qed
qed

lemma quota_ok_delete:
  assumes ok: "quota_ok newUUID s"
  shows "quota_ok newUUID (snd (DeleteRepositoryQuotaAlertRule now i version s))"
proof (cases "gm_get (quotaAlertRules s) i")
  case None
  with ok show ?thesis by (simp add: DeleteRepositoryQuotaAlertRule_def)
next
  case (Some r)
  note q = quota_okD [OF ok Some]
  let ?r = "r\<lparr>qr_Deleted := True, qr_Enabled := False, qr_State := Reset (qr_State r) ''deleted'',
    qr_Version := nextHostedGroupVersion (qr_Version r), qr_StateVersion := nextHostedGroupVersion (qr_StateVersion r), qr_UpdatedAt := now\<rparr>"
  have "chained ?r (ruleEvents i s)"
    using q(3) by (rule chained_reset) simp_all
  then have "quota_ok newUUID ((cancelQuotaDeliveriesLocked (qr_ID r) ''rule_deleted'' now s)
      \<lparr>quotaAlertRules := gm_put i ?r (quotaAlertRules s)\<rparr>)"
    using q by (intro quota_ok_rule [OF ok Some]) (simp_all add: rule_ok_def)
  with ok Some show ?thesis
    by (cases "version = qr_Version r") (simp_all add: DeleteRepositoryQuotaAlertRule_def Let_def)
qed

lemma recordEvent_rules [simp]: "quotaAlertRules (recordEvent newUUID cfg r e s) = quotaAlertRules s"
  by (simp add: recordEvent_def Let_def)

lemma recordEvent_draws: "uuidsDrawn s \<le> uuidsDrawn (recordEvent newUUID cfg r e s)"
  by (simp add: recordEvent_def Let_def)

lemma recordEvent_events:
  obtains v where "qe_Snapshot v = e" "quotaAlertEvents (recordEvent newUUID cfg r e s) = gm_put (ev_ID e) v (quotaAlertEvents s)"
proof -
  have "\<exists>v. quotaAlertEvents (recordEvent newUUID cfg r e s) = gm_put (ev_ID e) v (quotaAlertEvents s) \<and> qe_Snapshot v = e"
    unfolding recordEvent_def Let_def by (auto intro!: exI conjI refl split del: if_split split: if_split)
  then show thesis using that by blast
qed

lemma quota_ok_event:
  assumes ok: "quota_ok newUUID s" and fresh: "fresh_uuids newUUID" and r: "gm_get (quotaAlertRules s) i = Some r"
    and t: "quotaTransition newUUID (uuidsDrawn s) r o' name now = (r', Some e, n)" and v: "qe_Snapshot v = e"
    and events: "quotaAlertEvents s' = gm_put (ev_ID e) v (quotaAlertEvents s)"
    and rules: "quotaAlertRules s' = gm_put i r' (quotaAlertRules s)" and drawn: "n \<le> uuidsDrawn s'"
    and len: "length (quotaAlertEvents s') < 2 ^ 63"
  shows "quota_ok newUUID s'"
proof -
  note q = quota_okD [OF ok r] and f = quota_ok_facts [OF ok]
  let ?es = "ruleEvents i s"
  have "ev_ID e \<in> newUUID ` {uuidsDrawn s..<n}"
    using t by (rule quotaTransition_event) auto
  then have "ev_ID e \<notin> newUUID ` {..<uuidsDrawn s}"
    using fresh by (auto simp: fresh_uuids_def inj_eq)
  then have absent: "gm_get (quotaAlertEvents s) (ev_ID e) = None"
    using f(6) by (cases "gm_get (quotaAlertEvents s) (ev_ID e)") blast+
  then have appended: "quotaAlertEvents s' = quotaAlertEvents s @ [(ev_ID e, v)]"
    by (simp add: events update_absent)
  have "int (length ?es) < 2 ^ 63 - 1"
    using len ruleEvents_length [of i s] by (simp add: appended)
  note e = transition_event [OF t q(3,2) fresh q(4) this]
  have "ev_Sequence a < ev_Sequence e" if mem: "a \<in> set ?es" for a
  proof -
    have "episodes (?es @ [e])"
      using e(1) by (simp add: chained_def)
    moreover obtain k where "k < length ?es" "a = ?es ! k"
      using mem by (auto simp: in_set_conv_nth)
    ultimately show ?thesis
      using episodes_sequence [of "?es @ [e]" k] episodes_sequence [of "?es @ [e]" "length ?es"] by (simp add: nth_append)
  qed
  then have mine: "ruleEvents i s' = ?es @ [e]"
    using sort_key_snoc_max [of "filter (\<lambda>e. ev_RuleID e = i) (map qe_Snapshot (gm_vals (quotaAlertEvents s)))" ev_Sequence e] e(5) q(1)
    by (simp add: ruleEvents_def appended v)
  have others: "ruleEvents j s' = ruleEvents j s" if "j \<noteq> i" for j
    using that e(5) q(1) by (simp add: ruleEvents_def appended v)
  have grown: "uuidsDrawn s \<le> uuidsDrawn s'"
    using e(4) drawn by simp
  show ?thesis
  proof (rule quota_okI)
    show "gm_ok (quotaAlertRules s')" "gm_ok (quotaAlertEvents s')" "length (quotaAlertRules s') \<le> 100"
      using f(1-3) r by (simp_all add: rules events length_put)
    show "i1 = i2" if "gm_get (quotaAlertRules s') i1 = Some r1" "gm_get (quotaAlertRules s') i2 = Some r2"
      "\<not> qr_Deleted r1" "\<not> qr_Deleted r2" "qr_RepositoryID r1 = qr_RepositoryID r2" for i1 i2 r1 r2
      using that f(4) r e(7,9) by (auto simp: rules split: if_splits)
    show "rule_ok k q (ruleEvents k s')" if "gm_get (quotaAlertRules s') k = Some q" for k q
      using f(5) [of k q] that e q mine others [of k] by (auto simp: rules rule_ok_def split: if_splits)
    show "ev_ID (qe_Snapshot w) = k \<and> k \<in> newUUID ` {..<uuidsDrawn s'} \<and> ev_EpisodeID (qe_Snapshot w) \<in> newUUID ` {..<uuidsDrawn s'} \<and>
        gm_get (quotaAlertRules s') (ev_RuleID (qe_Snapshot w)) \<noteq> None" if "gm_get (quotaAlertEvents s') k = Some w" for k w
    proof (cases "k = ev_ID e")
      case True
      have "ev_ID e \<in> newUUID ` {..<n}"
        using e(2) by auto
      moreover have "qe_Snapshot w = e"
        using True that v by (simp add: events)
      ultimately show ?thesis
        using True e(3,5) q(1) drawn_mono [OF _ drawn, of _ newUUID] by (simp add: rules)
    next
      case False
      then have "gm_get (quotaAlertEvents s) k = Some w"
        using that by (simp add: events)
      from f(6) [OF this] drawn_mono [OF _ grown, of k newUUID] drawn_mono [OF _ grown, of "ev_EpisodeID (qe_Snapshot w)" newUUID]
      show ?thesis by (simp add: rules)
    qed
  qed
qed

lemma quota_ok_evaluate:
  assumes ok: "quota_ok newUUID s" and fresh: "fresh_uuids newUUID" and r: "gm_get (quotaAlertRules s) i = Some r"
    and len: "length (quotaAlertEvents (evaluateRule newUUID capacity cfg now i r s)) < 2 ^ 63"
  shows "quota_ok newUUID (evaluateRule newUUID capacity cfg now i r s)"
proof -
  let ?repo = "gm_get (hostedRepositories s) (qr_RepositoryID r)"
  let ?o = "observeRepository capacity now (qr_RepositoryID r) ?repo" and ?name = "case ?repo of None \<Rightarrow> [] | Some q \<Rightarrow> hr_Name q"
  note q = quota_okD [OF ok r] and f = quota_ok_facts [OF ok]
  obtain r' ev n where t: "quotaTransition newUUID (uuidsDrawn s) r ?o ?name now = (r', ev, n)"
    by (metis prod_cases3)
  show ?thesis
  proof (cases ev)
    case None
    note silent = transition_silent [OF t [unfolded None] q(3)]
    have "evaluateRule newUUID capacity cfg now i r s = s\<lparr>uuidsDrawn := n, quotaAlertRules := gm_put i r' (quotaAlertRules s)\<rparr>"
      using t None by (simp add: evaluateRule_def Let_def)
    then show ?thesis
      using silent q by (intro quota_ok_rule [OF ok r]) (simp_all add: rule_ok_def)
  next
    case (Some e)
    let ?s = "recordEvent newUUID cfg r' e (s\<lparr>uuidsDrawn := n\<rparr>)"
    let ?t = "?s\<lparr>quotaAlertRules := gm_put i r' (quotaAlertRules s)\<rparr>"
    have eval: "evaluateRule newUUID capacity cfg now i r s = ?t"
      using t Some by (simp add: evaluateRule_def Let_def)
    obtain v where v: "qe_Snapshot v = e" "quotaAlertEvents ?s = gm_put (ev_ID e) v (quotaAlertEvents s)"
      by (rule recordEvent_events [of e newUUID cfg r' "s\<lparr>uuidsDrawn := n\<rparr>"]) simp
    show ?thesis
      unfolding eval
    proof (rule quota_ok_event [OF ok fresh r t [unfolded Some] v(1)])
      show "n \<le> uuidsDrawn ?t"
        using recordEvent_draws [of "s\<lparr>uuidsDrawn := n\<rparr>" newUUID cfg r' e] by simp
    qed (use v(2) len eval in simp_all)
  qed
qed

lemma evaluateNext_cases:
  assumes "gm_ok (quotaAlertRules s)"
  obtains "EvaluateNextRepositoryQuotaAlert newUUID capacity now cfg interval s = (False, s)"
  | i r where "gm_get (quotaAlertRules s) i = Some r"
      "EvaluateNextRepositoryQuotaAlert newUUID capacity now cfg interval s = (True, evaluateRule newUUID capacity cfg now i r s)"
proof (cases "find (\<lambda>(i, r). dueRule now (if interval \<le> 0 then 15 * second else interval) r) (sort_key fst (quotaAlertRules s))")
  case None
  then show thesis using that(1) by (simp add: EvaluateNextRepositoryQuotaAlert_def Let_def)
next
  case (Some x)
  obtain i r where x: "x = (i, r)" by fastforce
  with find_SomeD [OF Some] assms have "gm_get (quotaAlertRules s) i = Some r"
    by (simp add: gm_get_iff)
  moreover have "EvaluateNextRepositoryQuotaAlert newUUID capacity now cfg interval s = (True, evaluateRule newUUID capacity cfg now i r s)"
    using Some x by (simp add: EvaluateNextRepositoryQuotaAlert_def Let_def)
  ultimately show thesis by (rule that(2))
qed

lemma length_put_le: "length m \<le> length (gm_put k v m)"
  by (simp add: length_put)

lemma evaluateRule_length: "length (quotaAlertEvents s) \<le> length (quotaAlertEvents (evaluateRule newUUID capacity cfg now i r s))"
proof -
  have "length (quotaAlertEvents t) \<le> length (quotaAlertEvents (recordEvent newUUID cfg q e t))" for q e and t :: "'a quota_store_scheme"
    by (rule recordEvent_events [of e newUUID cfg q t]) (simp add: length_put_le)
  from this [of "s\<lparr>uuidsDrawn := n\<rparr>" for n] show ?thesis
    by (simp add: evaluateRule_def Let_def split: prod.split option.split)
qed

lemma quota_step_length: "quota_step newUUID s s' \<Longrightarrow> length (quotaAlertEvents s) \<le> length (quotaAlertEvents s')"
proof (induction rule: quota_step.induct)
  case (create v s now)
  have "quotaAlertEvents (snd (CreateRepositoryQuotaAlertRule now v s)) = quotaAlertEvents s"
    by (simp add: CreateRepositoryQuotaAlertRule_def Let_def split: option.split)
  then show ?case by simp
next
  case (update s now v version)
  obtain res s' where "UpdateRepositoryQuotaAlertRule now v version s = (res, s')" by fastforce
  with updateRule_cases [OF this] show ?case by auto
next
  case (delete s now i version)
  have "quotaAlertEvents (snd (DeleteRepositoryQuotaAlertRule now i version s)) = quotaAlertEvents s"
    by (simp add: DeleteRepositoryQuotaAlertRule_def Let_def split: option.split)
  then show ?case by simp
next
  case (evaluate s capacity now cfg interval)
  then show ?case
    by (simp add: EvaluateNextRepositoryQuotaAlert_def Let_def evaluateRule_length split: option.split)
qed simp

lemma quota_step_ok:
  assumes "quota_step newUUID s s'" and fresh: "fresh_uuids newUUID" and ok: "quota_ok newUUID s"
    and len: "length (quotaAlertEvents s') < 2 ^ 63"
  shows "quota_ok newUUID s'"
  using assms(1)
proof cases
  case (create v now)
  with quota_ok_create [OF ok] show ?thesis by simp
next
  case (update now v version)
  with quota_ok_update [OF ok] show ?thesis by simp
next
  case (delete now i version)
  with quota_ok_delete [OF ok] show ?thesis by simp
next
  case (evaluate capacity now cfg interval)
  show ?thesis
    using quota_ok_facts(1) [OF ok]
  proof (rule evaluateNext_cases [of s newUUID capacity now cfg interval])
    fix i r
    assume "gm_get (quotaAlertRules s) i = Some r"
      "EvaluateNextRepositoryQuotaAlert newUUID capacity now cfg interval s = (True, evaluateRule newUUID capacity cfg now i r s)"
    with quota_ok_evaluate [OF ok fresh this(1)] evaluate len show ?thesis by simp
  qed (use ok evaluate in simp)
next
  case elsewhere
  note f = quota_ok_facts [OF ok]
  show ?thesis
  proof (rule quota_okI)
    show "ev_ID (qe_Snapshot v) = k \<and> k \<in> newUUID ` {..<uuidsDrawn s'} \<and> ev_EpisodeID (qe_Snapshot v) \<in> newUUID ` {..<uuidsDrawn s'} \<and>
        gm_get (quotaAlertRules s') (ev_RuleID (qe_Snapshot v)) \<noteq> None" if "gm_get (quotaAlertEvents s') k = Some v" for k v
      using f(6) [of k v] that elsewhere drawn_mono [OF _ elsewhere(3), of k newUUID]
        drawn_mono [OF _ elsewhere(3), of "ev_EpisodeID (qe_Snapshot v)" newUUID] by simp
  qed (use f elsewhere in \<open>auto simp: ruleEvents_def\<close>)
qed

inductive quota_reach :: "(nat \<Rightarrow> string) \<Rightarrow> quota_store \<Rightarrow> bool" for newUUID where
  start: "quota_reach newUUID emptyQuotaStore"
| step: "quota_reach newUUID s \<Longrightarrow> quota_step newUUID s s' \<Longrightarrow> quota_reach newUUID s'"

lemma quota_reach_ok:
  "quota_reach newUUID s \<Longrightarrow> fresh_uuids newUUID \<Longrightarrow> length (quotaAlertEvents s) < 2 ^ 63 \<Longrightarrow> quota_ok newUUID s"
proof (induction rule: quota_reach.induct)
  case start
  show ?case
    by (rule quota_okI) (simp_all add: emptyQuotaStore_def hosted_store.defs)
next
  case (step s s')
  then show ?case
    using quota_step_length [of newUUID s s'] quota_step_ok [of newUUID s s'] by simp
qed

text \<open>
  C34. The events of a rule are a chain of episodes. In every history of the store with fewer than \<open>2 ^ 63\<close> events, there are at
  most 100 rules and at most one undeleted rule per repository; the events of a rule, in the order of their numbers, are
  numbered 1, 2, 3 and so on without gaps, each names the one before it, an episode opens with a warning or a
  critical event, a critical event may follow a warning, and a resolved event closes the episode, whose identifier is never used
  again; and the severity, the open episode and the last event kept in the rule are those of its last event. Configuration changes,
  deletions and interrupted evidence never break the chain.
\<close>

theorem quota_event_chain:
  assumes "quota_reach newUUID s" and "fresh_uuids newUUID" and "length (quotaAlertEvents s) < 2 ^ 63"
  shows "length (quotaAlertRules s) \<le> 100 \<and>
    (\<forall>i j r r'. gm_get (quotaAlertRules s) i = Some r \<longrightarrow> gm_get (quotaAlertRules s) j = Some r' \<longrightarrow>
       \<not> qr_Deleted r \<longrightarrow> \<not> qr_Deleted r' \<longrightarrow> qr_RepositoryID r = qr_RepositoryID r' \<longrightarrow> i = j) \<and>
    (\<forall>i r. gm_get (quotaAlertRules s) i = Some r \<longrightarrow> PolicyValidate (qr_Policy r) = None \<and> chained r (ruleEvents i s) \<and>
       (\<forall>k < length (ruleEvents i s). ev_Sequence (ruleEvents i s ! k) = int k + 1))"
proof -
  note ok = quota_reach_ok [OF assms] and f = quota_ok_facts [OF quota_reach_ok [OF assms]]
  show ?thesis
    using f(3,4) quota_okD [OF ok] episodes_sequence unfolding chained_def by (intro conjI allI impI) blast+
qed

section \<open>Every recorded event is valid\<close>

text \<open>
  What the rest of the gateway keeps: repositories have identifiers \<^verbatim>\<open>uuid.Parse\<close> accepts and names the mail renderer accepts,
  rules have such identifiers, and no rule has been changed \<open>2 ^ 63 - 1\<close> times.
\<close>

definition served :: "(string \<Rightarrow> bool) \<Rightarrow> quota_store \<Rightarrow> bool" where
  "served uuidOk s \<longleftrightarrow>
     (\<forall>i r. gm_get (quotaAlertRules s) i = Some r \<longrightarrow> uuidOk i \<and> parseInt64 (qr_Version r) \<noteq> Some (2 ^ 63 - 1)) \<and>
     (\<forall>i repo. gm_get (hostedRepositories s) i = Some repo \<longrightarrow> uuidOk i \<and> nameOk (hr_Name repo))"

inductive quota_history :: "(nat \<Rightarrow> string) \<Rightarrow> (string \<Rightarrow> bool) \<Rightarrow> quota_store \<Rightarrow> bool" for newUUID uuidOk where
  start: "quota_history newUUID uuidOk emptyQuotaStore"
| step: "quota_history newUUID uuidOk s \<Longrightarrow> served uuidOk s \<Longrightarrow> quota_step newUUID s s' \<Longrightarrow> quota_history newUUID uuidOk s'"

lemma history_reach: "quota_history newUUID uuidOk s \<Longrightarrow> quota_reach newUUID s"
  by (induction rule: quota_history.induct) (auto intro: quota_reach.intros)

definition versioned :: "RepositoryQuotaAlertRule \<Rightarrow> bool" where
  "versioned r \<longleftrightarrow> (\<exists>n \<ge> 1. parseInt64 (qr_Version r) = Some n)"

lemma versioned_next: "versioned r \<Longrightarrow> parseInt64 (qr_Version r) \<noteq> Some (2 ^ 63 - 1) \<Longrightarrow>
    qr_Version r' = nextHostedGroupVersion (qr_Version r) \<Longrightarrow> versioned r'"
  using nextHostedGroupVersion_succ parseInt64_range unfolding versioned_def int64_def by fastforce

lemma transition_version: "quotaTransition newUUID n r o' name now = (r', ev, n') \<Longrightarrow> qr_Version r' = qr_Version r"
  by (auto simp: quotaTransition_def Let_def split: prod.splits if_splits)

text \<open>What a step does to the version of a rule.\<close>

lemma quota_step_version:
  assumes "quota_step newUUID s s'" and ok: "quota_ok newUUID s" and r': "gm_get (quotaAlertRules s') i = Some r'"
  obtains "qr_Version r' = ''1''"
  | r where "gm_get (quotaAlertRules s) i = Some r" "qr_Version r' \<in> {qr_Version r, nextHostedGroupVersion (qr_Version r)}"
  using assms(1)
proof cases
  case (create v now)
  then show thesis
    using r' that by (auto simp: CreateRepositoryQuotaAlertRule_def Let_def split: option.splits if_splits)
next
  case (update now v version)
  obtain res t where u: "UpdateRepositoryQuotaAlertRule now v version s = (res, t)" by fastforce
  from updateRule_cases [OF u] show thesis
  proof (elim disjE exE conjE)
    fix old code
    assume old: "gm_get (quotaAlertRules s) (qr_ID v) = Some old"
      and t: "t = (cancelQuotaDeliveriesLocked (qr_ID old) code now s)
        \<lparr>quotaAlertRules := gm_put (qr_ID old) (updatedRule now v old) (quotaAlertRules s)\<rparr>"
    have "quotaAlertRules s' = gm_put (qr_ID v) (updatedRule now v old) (quotaAlertRules s)"
      using update u t quota_okD(1) [OF ok old] by simp
    with r' old show thesis
      by (cases "i = qr_ID v") (auto simp: updatedRule_def intro: that(2))
  qed (use r' update u in \<open>auto intro: that(2)\<close>)
next
  case (delete now j version)
  then show thesis
    using r' that(2) by (auto simp: DeleteRepositoryQuotaAlertRule_def Let_def split: option.splits if_splits)
next
  case (evaluate capacity now cfg interval)
  show thesis
    using quota_ok_facts(1) [OF ok]
  proof (rule evaluateNext_cases [of s newUUID capacity now cfg interval])
    fix j r
    assume r: "gm_get (quotaAlertRules s) j = Some r"
      and "EvaluateNextRepositoryQuotaAlert newUUID capacity now cfg interval s = (True, evaluateRule newUUID capacity cfg now j r s)"
    then show thesis
      using r' evaluate that(2) transition_version
      by (auto simp: evaluateRule_def Let_def split: prod.splits option.splits if_splits)
  qed (use r' evaluate that(2) in auto)
qed (use r' that(2) in auto)

lemma observed_use:
  "usable p (observeRepository capacity now i repo) now \<Longrightarrow> repo \<noteq> None \<and> now \<noteq> 0"
  by (auto simp: usable_def observeRepository_def Let_def split: option.splits if_splits sum.splits prod.splits)

lemma evaluate_event_valid:
  assumes ok: "quota_ok newUUID s" and fresh: "fresh_uuids newUUID" and uuids: "\<forall>k. uuidOk (newUUID k)" and served: "served uuidOk s"
    and r: "gm_get (quotaAlertRules s) i = Some r" and version: "versioned r"
    and t: "quotaTransition newUUID (uuidsDrawn s) r (observeRepository capacity now (qr_RepositoryID r) repo)
        (case repo of None \<Rightarrow> [] | Some q \<Rightarrow> hr_Name q) now = (r', Some e, n)"
    and repo: "repo = gm_get (hostedRepositories s) (qr_RepositoryID r)" and len: "length (quotaAlertEvents s) < 2 ^ 63 - 1"
  shows "EventValidate uuidOk e"
proof -
  note q = quota_okD [OF ok r] and f = quota_ok_facts [OF ok]
  let ?o = "observeRepository capacity now (qr_RepositoryID r) repo" and ?es = "ruleEvents i s"
  obtain state scenario where "Advance (qr_Policy r) (qr_State r) ?o now = (state, scenario)" "scenario \<noteq> []"
    by (rule quotaTransition_event [OF t])
  then have "repo \<noteq> None" and now: "now \<noteq> 0"
    using observed_use Advance_scenario(1) [OF q(2)] by blast+
  then obtain h where h: "repo = Some h" by blast
  have ids: "uuidOk (qr_ID r)" "uuidOk (qr_RepositoryID r)" "nameOk (hr_Name h)"
    using served r q(1) h repo unfolding served_def by auto
  have past: "uuidOk (ev_ID a) \<and> uuidOk (ev_EpisodeID a)" if a: "a \<in> set ?es" for a
  proof -
    obtain k v where v: "gm_get (quotaAlertEvents s) k = Some v" "qe_Snapshot v = a"
      using a gm_vals_iff [OF f(2)] unfolding ruleEvents_set by blast
    show ?thesis using f(6) [OF v(1)] v(2) uuids by auto
  qed
  have ag: "agrees r ?es" using q(3) by (simp add: chained_def)
  then have chain: "qr_ActiveEpisodeID r = [] \<or> uuidOk (qr_ActiveEpisodeID r)" "qr_LastEventID r = [] \<or> uuidOk (qr_LastEventID r)"
    "0 \<le> qr_Sequence r"
    using past [of "last ?es"] by (auto simp: agrees_def opened_def)
  have "length ?es < 2 ^ 63 - 1"
    using ruleEvents_length [of i s] len by linarith
  then have sequence: "qr_Sequence r < 2 ^ 63 - 1"
    using ag by (simp add: agrees_def)
  obtain v where "parseInt64 (qr_Version r) = Some v" "1 \<le> v"
    using version by (auto simp: versioned_def)
  with ids uuids chain sequence now h show ?thesis
    by (intro transition_event_valid [OF t q(2)]) auto
qed

lemma evaluateRule_valid:
  assumes ok: "quota_ok newUUID s" and fresh: "fresh_uuids newUUID" and uuids: "\<forall>k. uuidOk (newUUID k)" and served: "served uuidOk s"
    and r: "gm_get (quotaAlertRules s) i = Some r" and version: "versioned r"
    and len: "length (quotaAlertEvents (evaluateRule newUUID capacity cfg now i r s)) < 2 ^ 63"
    and v: "gm_get (quotaAlertEvents (evaluateRule newUUID capacity cfg now i r s)) k = Some v"
  shows "gm_get (quotaAlertEvents s) k = Some v \<or> EventValidate uuidOk (qe_Snapshot v)"
proof -
  note q = quota_okD [OF ok r] and f = quota_ok_facts [OF ok]
  let ?repo = "gm_get (hostedRepositories s) (qr_RepositoryID r)"
  let ?o = "observeRepository capacity now (qr_RepositoryID r) ?repo" and ?name = "case ?repo of None \<Rightarrow> [] | Some q \<Rightarrow> hr_Name q"
  obtain r' ev n where t: "quotaTransition newUUID (uuidsDrawn s) r ?o ?name now = (r', ev, n)"
    by (metis prod_cases3)
  show ?thesis
  proof (cases ev)
    case None
    then show ?thesis
      using v t by (simp add: evaluateRule_def Let_def)
  next
    case (Some e)
    obtain w where w: "qe_Snapshot w = e"
      "quotaAlertEvents (recordEvent newUUID cfg r' e (s\<lparr>uuidsDrawn := n\<rparr>)) = gm_put (ev_ID e) w (quotaAlertEvents s)"
      by (rule recordEvent_events [of e newUUID cfg r' "s\<lparr>uuidsDrawn := n\<rparr>"]) simp
    have events: "quotaAlertEvents (evaluateRule newUUID capacity cfg now i r s) = gm_put (ev_ID e) w (quotaAlertEvents s)"
      using t Some w(2) by (simp add: evaluateRule_def Let_def)
    obtain j where "ev_ID e = newUUID j" "uuidsDrawn s \<le> j"
      by (rule quotaTransition_event [OF t [unfolded Some]]) (auto split: if_splits)
    then have "gm_get (quotaAlertEvents s) (ev_ID e) = None"
      using f(6) [of "ev_ID e"] fresh by (cases "gm_get (quotaAlertEvents s) (ev_ID e)") (auto simp: fresh_uuids_def dest: injD)
    then have "length (quotaAlertEvents s) < 2 ^ 63 - 1"
      using len events by (simp add: length_put)
    with evaluate_event_valid [OF ok fresh uuids served r version t [unfolded Some] refl] v w events show ?thesis
      by (auto split: if_splits)
  qed
qed

lemma quota_step_events:
  assumes "quota_step newUUID s s'" and ok: "quota_ok newUUID s" and fresh: "fresh_uuids newUUID" and uuids: "\<forall>k. uuidOk (newUUID k)"
    and served: "served uuidOk s" and version: "\<And>i r. gm_get (quotaAlertRules s) i = Some r \<Longrightarrow> versioned r"
    and len: "length (quotaAlertEvents s') < 2 ^ 63" and v: "gm_get (quotaAlertEvents s') k = Some v"
  shows "gm_get (quotaAlertEvents s) k = Some v \<or> EventValidate uuidOk (qe_Snapshot v)"
  using assms(1)
proof cases
  case (create v now)
  have "quotaAlertEvents (snd (CreateRepositoryQuotaAlertRule now v s)) = quotaAlertEvents s"
    by (simp add: CreateRepositoryQuotaAlertRule_def Let_def split: option.split)
  with create v show ?thesis by simp
next
  case (update now v version)
  obtain res t where "UpdateRepositoryQuotaAlertRule now v version s = (res, t)" by fastforce
  with updateRule_cases [OF this] update v show ?thesis by auto
next
  case (delete now i version)
  have "quotaAlertEvents (snd (DeleteRepositoryQuotaAlertRule now i version s)) = quotaAlertEvents s"
    by (simp add: DeleteRepositoryQuotaAlertRule_def Let_def split: option.split)
  with delete v show ?thesis by simp
next
  case (evaluate capacity now cfg interval)
  show ?thesis
    using quota_ok_facts(1) [OF ok]
  proof (rule evaluateNext_cases [of s newUUID capacity now cfg interval])
    fix i r
    assume r: "gm_get (quotaAlertRules s) i = Some r"
      and "EvaluateNextRepositoryQuotaAlert newUUID capacity now cfg interval s = (True, evaluateRule newUUID capacity cfg now i r s)"
    with evaluate len v show ?thesis
      by (intro evaluateRule_valid [OF ok fresh uuids served r version [OF r]]) auto
  qed (use evaluate v in simp)
qed (use v in simp)

lemma quota_history_valid:
  assumes "quota_history newUUID uuidOk s" and fresh: "fresh_uuids newUUID" and uuids: "\<forall>k. uuidOk (newUUID k)"
    and "length (quotaAlertEvents s) < 2 ^ 63"
  shows "(\<forall>i r. gm_get (quotaAlertRules s) i = Some r \<longrightarrow> versioned r) \<and>
    (\<forall>k v. gm_get (quotaAlertEvents s) k = Some v \<longrightarrow> EventValidate uuidOk (qe_Snapshot v))"
  using assms(1,4)
proof (induction rule: quota_history.induct)
  case start
  then show ?case by (simp add: emptyQuotaStore_def hosted_store.defs)
next
  case (step s s')
  have short: "length (quotaAlertEvents s) < 2 ^ 63"
    using quota_step_length [OF step.hyps(3)] step.prems by simp
  note ok = quota_reach_ok [OF history_reach [OF step.hyps(1)] fresh short]
  have v: "versioned r" if "gm_get (quotaAlertRules s) i = Some r" for i r
    using step.IH [OF short] that by blast
  have "versioned r'" if "gm_get (quotaAlertRules s') i = Some r'" for i r'
    using step.hyps(3) ok that
  proof (cases rule: quota_step_version)
    case 1
    then show ?thesis by (simp add: versioned_def)
  next
    case (2 r)
    then show ?thesis
      using v [OF 2(1)] versioned_next [OF v [OF 2(1)]] step.hyps(2) unfolding served_def by (auto simp: versioned_def)
  qed
  moreover have "EventValidate uuidOk (qe_Snapshot w)" if w: "gm_get (quotaAlertEvents s') k = Some w" for k w
  proof -
    have "gm_get (quotaAlertEvents s) k = Some w \<or> EventValidate uuidOk (qe_Snapshot w)"
      by (rule quota_step_events [OF step.hyps(3) ok fresh uuids step.hyps(2) _ step.prems w]) (rule v)
    with step.IH [OF short] show ?thesis by blast
  qed
  ultimately show ?case by blast
qed

text \<open>
  C33. What an alert announces, the mail renderer accepts. In every history of the store with fewer than \<open>2 ^ 63\<close> events, in which
  repositories and rules have valid identifiers and repositories names the renderer accepts, every event that has been recorded
  passes the validation of the event: its identifiers, its rule version and number are valid, its use and quota justify its
  scenario under the policy in force, its times are in order and fresh, and its evidence spans the configured time. The
  policies, the rule versions, the numbers and the chain of identifiers are not assumed to be valid: the store keeps them so.
\<close>

theorem quota_event_valid:
  assumes "quota_history newUUID uuidOk s" and "fresh_uuids newUUID" and "\<forall>k. uuidOk (newUUID k)"
    and "length (quotaAlertEvents s) < 2 ^ 63" and "gm_get (quotaAlertEvents s) k = Some v"
  shows "EventValidate uuidOk (qe_Snapshot v)"
  using quota_history_valid [OF assms(1-4)] assms(5) by blast

section \<open>Witnesses\<close>

definition exampleUUIDs :: "nat \<Rightarrow> string" where
  "exampleUUIDs n = replicate (Suc n) (CHR ''u'')"

definition alertedRule :: RepositoryQuotaAlertRule where
  "alertedRule = \<lparr>qr_ID = ''r1'', qr_RepositoryID = ''p1'', qr_TargetID = ''t1'', qr_TargetVersion = ''1'', qr_Version = ''1'',
     qr_StateVersion = ''1'', qr_ActiveEpisodeID = [], qr_LastEventID = [], qr_Enabled = True, qr_Deleted = False,
     qr_Policy = examplePolicy, qr_State = fst (alertRun examplePolicy [exampleSample 95 10]), qr_Sequence = 0,
     qr_CreatedAt = 1, qr_UpdatedAt = 1, qr_EvaluatedAt = 10 * second\<rparr>"

definition exampleQuotaStore :: quota_store where
  "exampleQuotaStore = emptyQuotaStore\<lparr>hostedRepositories :=
       [(''p1'', zeroHostedRepository\<lparr>hr_ID := ''p1'', hr_Name := ''main'', hr_State := RepositoryActive\<rparr>)],
     emailTargets := [(''t1'', zeroEmailTarget\<lparr>et_ID := ''t1'', et_Version := ''1'', et_Enabled := True\<rparr>)]\<rparr>"

definition watched :: quota_store where
  "watched = snd (CreateRepositoryQuotaAlertRule 1 (alertedRule\<lparr>qr_State := zeroState, qr_EvaluatedAt := zeroTime\<rparr>) exampleQuotaStore)"

definition exampleMail :: QuotaAlertMailConfig where
  "exampleMail = \<lparr>mc_Enabled = True, mc_From = ''gw'', mc_ConsoleOrigin = [], mc_UnavailableCode = []\<rparr>"

definition alerted :: quota_store where
  "alerted =
     (let evaluate = (\<lambda>now s. snd (EvaluateNextRepositoryQuotaAlert exampleUUIDs (\<lambda>_. Inr (95, 100)) now exampleMail (15 * second) s))
      in evaluate (25 * second) (evaluate (10 * second) watched))"

abbreviation "exampleUuidOk \<equiv> \<lambda>i :: string. i \<noteq> []"

lemma watched_served: "served exampleUuidOk emptyQuotaStore" "served exampleUuidOk exampleQuotaStore" "served exampleUuidOk watched"
  "served exampleUuidOk (snd (EvaluateNextRepositoryQuotaAlert exampleUUIDs (\<lambda>_. Inr (95, 100)) (10 * second) exampleMail (15 * second) watched))"
proof -
  have served: "served exampleUuidOk s"
    if "list_all (\<lambda>(i, r). i \<noteq> [] \<and> parseInt64 (qr_Version r) = Some 1) (quotaAlertRules s)"
      "list_all (\<lambda>(i, repo). i \<noteq> [] \<and> nameOk (hr_Name repo)) (hostedRepositories s)" for s
    using that gm_get_in [of "quotaAlertRules s"] gm_get_in [of "hostedRepositories s"] unfolding served_def list_all_iff by fastforce
  show "served exampleUuidOk emptyQuotaStore" "served exampleUuidOk exampleQuotaStore" "served exampleUuidOk watched"
    "served exampleUuidOk (snd (EvaluateNextRepositoryQuotaAlert exampleUUIDs (\<lambda>_. Inr (95, 100)) (10 * second) exampleMail (15 * second) watched))"
    by (rule served; code_simp)+
qed

lemma alerted_history: "quota_history exampleUUIDs exampleUuidOk alerted"
proof -
  have "quota_step exampleUUIDs emptyQuotaStore exampleQuotaStore"
    by (rule quota_step.elsewhere) (simp_all add: exampleQuotaStore_def)
  moreover have "quota_step exampleUUIDs exampleQuotaStore watched"
    unfolding watched_def
    by (rule quota_step.create) (simp_all add: newRule_def alertedRule_def exampleQuotaStore_def emptyQuotaStore_def hosted_store.defs)
  ultimately have "quota_history exampleUUIDs exampleUuidOk watched"
    using quota_history.step [OF quota_history.step [OF quota_history.start watched_served(1)] watched_served(2)] by blast
  then show ?thesis
    unfolding alerted_def Let_def
    by (rule quota_history.step [OF quota_history.step [OF _ watched_served(3) quota_step.evaluate] watched_served(4) quota_step.evaluate])
qed

lemmas alerted_reach = history_reach [OF alerted_history]

lemma exampleUUIDs_fresh: "fresh_uuids exampleUUIDs"
proof -
  have "inj exampleUUIDs"
    by (rule inj_on_inverseI [where g = "\<lambda>s. length s - 1"]) (simp add: exampleUUIDs_def)
  then show ?thesis
    by (simp add: fresh_uuids_def exampleUUIDs_def)
qed

lemma alerted_events: "map (\<lambda>e. (ev_Sequence e, ev_Scenario e)) (ruleEvents ''r1'' alerted) = [(1, ''critical'')]"
  "length (quotaAlertEvents alerted) = 1" "map_option qr_Deleted (gm_get (quotaAlertRules alerted) ''r1'') = Some False"
  by code_simp+

theorem quota_event_valid_witness:
  "\<exists>v. gm_get (quotaAlertEvents alerted) (exampleUUIDs 1) = Some v \<and> EventValidate exampleUuidOk (qe_Snapshot v)"
proof -
  have "gm_get (quotaAlertEvents alerted) (exampleUUIDs 1) \<noteq> None"
    by code_simp
  then obtain v where v: "gm_get (quotaAlertEvents alerted) (exampleUUIDs 1) = Some v" by blast
  have "EventValidate exampleUuidOk (qe_Snapshot v)"
    by (rule quota_event_valid [OF alerted_history exampleUUIDs_fresh _ _ v]) (simp_all add: alerted_events(2) exampleUUIDs_def)
  with v show ?thesis by blast
qed

theorem quota_event_chain_witness:
  "\<exists>r. gm_get (quotaAlertRules alerted) ''r1'' = Some r \<and> chained r (ruleEvents ''r1'' alerted) \<and> st_Severity (qr_State r) = ''critical''"
proof -
  obtain r where r: "gm_get (quotaAlertRules alerted) ''r1'' = Some r"
    using alerted_events(3) by auto
  then have c: "chained r (ruleEvents ''r1'' alerted)"
    using quota_event_chain [OF alerted_reach exampleUUIDs_fresh] alerted_events(2) by simp
  moreover have "opened (ruleEvents ''r1'' alerted) \<and> ev_Scenario (last (ruleEvents ''r1'' alerted)) = ''critical''"
    using alerted_events(1) by (cases "ruleEvents ''r1'' alerted") (auto simp: opened_def)
  ultimately show ?thesis
    using r by (auto simp: chained_def agrees_def)
qed

end
