(* ===== verification/EmailLaws.thy ===== *)
theory EmailLaws
  imports QuotaRulesLaws
begin

text \<open>
  Laws of the email queue over every history of its producers, workers and operators: attempts are bounded, a message is claimed
  only when it is due and nobody holds it, the messages of a quota rule are claimed in the order of their events, and a
  worker's report counts only under its current lease.
\<close>

section \<open>The invariant\<close>

definition email_ok :: "(nat \<Rightarrow> string) \<Rightarrow> nat \<Rightarrow> EmailDelivery \<Rightarrow> bool" where
  "email_ok newUUID n v \<longleftrightarrow> ed_State v \<in> {''pending'', ''retrying'', ''delivering'', ''accepted'', ''dead''} \<and>
     0 \<le> ed_Attempts v \<and> ed_Attempts v \<le> EmailMaxAttempts \<and>
     (ed_State v = ''pending'' \<or> ed_State v = ''retrying'' \<longrightarrow> ed_Attempts v < EmailMaxAttempts) \<and>
     (ed_State v = ''delivering'' \<longrightarrow> 1 \<le> ed_Attempts v \<and> ed_LeaseToken v \<in> newUUID ` {..<n})"

definition emails_ok :: "(nat \<Rightarrow> string) \<Rightarrow> nat \<Rightarrow> EmailDelivery gomap \<Rightarrow> bool" where
  "emails_ok newUUID n m \<longleftrightarrow> gm_ok m \<and> (\<forall>k v. gm_get m k = Some v \<longrightarrow> ed_ID v = k \<and> email_ok newUUID n v) \<and>
     (\<forall>k k' v v'. gm_get m k = Some v \<longrightarrow> gm_get m k' = Some v' \<longrightarrow> ed_State v = ''delivering'' \<longrightarrow>
        ed_State v' = ''delivering'' \<longrightarrow> ed_LeaseToken v = ed_LeaseToken v' \<longrightarrow> k = k')"

lemma emails_okD:
  assumes "emails_ok newUUID n m" and "gm_get m k = Some v"
  shows "ed_ID v = k" "email_ok newUUID n v"
  using assms unfolding emails_ok_def by blast+

lemma emails_okI:
  assumes "gm_ok m" and "\<And>k v. gm_get m k = Some v \<Longrightarrow> ed_ID v = k \<and> email_ok newUUID n v"
    and "\<And>k k' v v'. gm_get m k = Some v \<Longrightarrow> gm_get m k' = Some v' \<Longrightarrow> ed_State v = ''delivering'' \<Longrightarrow>
        ed_State v' = ''delivering'' \<Longrightarrow> ed_LeaseToken v = ed_LeaseToken v' \<Longrightarrow> k = k'"
  shows "emails_ok newUUID n m"
  unfolding emails_ok_def using assms by blast

lemma emails_ok_gm: "emails_ok newUUID n m \<Longrightarrow> gm_ok m"
  by (simp add: emails_ok_def)

lemma email_ok_mono: "email_ok newUUID n v \<Longrightarrow> n \<le> n' \<Longrightarrow> email_ok newUUID n' v"
  using drawn_mono [of "ed_LeaseToken v" newUUID n n'] by (simp add: email_ok_def)

lemma emails_ok_mono: "emails_ok newUUID n m \<Longrightarrow> n \<le> n' \<Longrightarrow> emails_ok newUUID n' m"
  unfolding emails_ok_def by (blast intro: email_ok_mono)

lemma emails_ok_put:
  assumes ok: "emails_ok newUUID n m" and v: "email_ok newUUID n' v" "ed_ID v = k" and n: "n \<le> n'"
    and token: "\<And>k' v'. ed_State v = ''delivering'' \<Longrightarrow> gm_get m k' = Some v' \<Longrightarrow> ed_State v' = ''delivering'' \<Longrightarrow>
      k' \<noteq> k \<Longrightarrow> ed_LeaseToken v' \<noteq> ed_LeaseToken v"
  shows "emails_ok newUUID n' (gm_put k v m)"
proof (rule emails_okI)
  show "gm_ok (gm_put k v m)"
    using emails_ok_gm [OF ok] by simp
  show "ed_ID w = j \<and> email_ok newUUID n' w" if "gm_get (gm_put k v m) j = Some w" for j w
    using that v n emails_okD [OF ok, of j w] by (auto intro: email_ok_mono split: if_splits)
  show "k1 = k2" if "gm_get (gm_put k v m) k1 = Some v1" "gm_get (gm_put k v m) k2 = Some v2" "ed_State v1 = ''delivering''"
    "ed_State v2 = ''delivering''" "ed_LeaseToken v1 = ed_LeaseToken v2" for k1 k2 v1 v2
  proof (cases "k1 = k \<or> k2 = k")
    case True
    then show ?thesis using that token by (auto split: if_splits)
  next
    case False
    then show ?thesis using that ok unfolding emails_ok_def by auto
  qed
qed

text \<open>A delivery that is not handed out needs no token.\<close>

lemma emails_ok_idle:
  "emails_ok newUUID n m \<Longrightarrow> email_ok newUUID n v \<Longrightarrow> ed_ID v = k \<Longrightarrow> ed_State v \<noteq> ''delivering'' \<Longrightarrow>
     emails_ok newUUID n (gm_put k v m)"
  by (rule emails_ok_put) auto

lemma emails_ok_each:
  assumes "emails_ok newUUID n m" and "\<And>v. ed_ID (f v) = ed_ID v" and "\<And>v. email_ok newUUID n v \<Longrightarrow> email_ok newUUID n (f v)"
    and "\<And>v. ed_State (f v) = ''delivering'' \<Longrightarrow> ed_State v = ''delivering'' \<and> ed_LeaseToken (f v) = ed_LeaseToken v"
  shows "emails_ok newUUID n (gm_each f m)"
proof -
  have "k1 = k2" if "gm_get m k1 = Some v1" "gm_get m k2 = Some v2" "ed_State (f v1) = ''delivering''" "ed_State (f v2) = ''delivering''"
    "ed_LeaseToken (f v1) = ed_LeaseToken (f v2)" for k1 k2 v1 v2
    using that assms(1,4) unfolding emails_ok_def by metis
  then show ?thesis
    using assms(1-3) unfolding emails_ok_def by auto
qed

section \<open>Claims\<close>

text \<open>What the loop does to a delivery it cannot hand out any more.\<close>

definition buried :: "EmailDelivery \<Rightarrow> EmailDelivery \<Rightarrow> bool" where
  "buried v v' \<longleftrightarrow> \<not> settled v \<and> ed_State v' = ''dead'' \<and> ed_ID v' = ed_ID v \<and> ed_Kind v' = ed_Kind v \<and>
     ed_QuotaRuleID v' = ed_QuotaRuleID v \<and> ed_EventSequence v' = ed_EventSequence v \<and> ed_Attempts v' = ed_Attempts v \<and>
     (ed_AutomaticCancellationCode v \<noteq> [] \<and> ed_ErrorCode v' = ed_AutomaticCancellationCode v \<or>
      ed_Attempts v \<ge> EmailMaxAttempts \<and> ed_ErrorCode v' = ''attempts_exhausted'')"

lemma buried_email_ok: "buried v v' \<Longrightarrow> email_ok newUUID n v \<Longrightarrow> email_ok newUUID n v'"
  by (auto simp: buried_def email_ok_def)

text \<open>A delivery that may be handed out.\<close>

definition ready :: "gotime \<Rightarrow> EmailDelivery \<Rightarrow> bool" where
  "ready now v \<longleftrightarrow> claimableEmail now v \<and> ed_AutomaticCancellationCode v = [] \<and> ed_Attempts v < EmailMaxAttempts"

definition handedOut :: "string \<Rightarrow> gotime \<Rightarrow> string \<Rightarrow> EmailDelivery \<Rightarrow> EmailDelivery" where
  "handedOut owner now token v =
     leaseEmail owner now token (if ed_State v = ''delivering'' then v\<lparr>ed_PossibleDuplicate := True\<rparr> else v)"

lemma claimEmail_step:
  obtains (passed) "claimEmail newUUID owner now ((i, v) # vs) s = claimEmail newUUID owner now vs s"
      "blocked (emailDeliveries s) v \<or> \<not> claimableEmail now v"
  | (dead) v' where "claimEmail newUUID owner now ((i, v) # vs) s =
      claimEmail newUUID owner now vs (s\<lparr>emailDeliveries := gm_put i v' (emailDeliveries s)\<rparr>)" "buried v v'" "\<not> ready now v"
  | (hit) "claimEmail newUUID owner now ((i, v) # vs) s = (Inr (handedOut owner now (newUUID (uuidsDrawn s)) v),
      s\<lparr>uuidsDrawn := Suc (uuidsDrawn s),
        emailDeliveries := gm_put i (handedOut owner now (newUUID (uuidsDrawn s)) v) (emailDeliveries s)\<rparr>)"
      "ready now v" "\<not> blocked (emailDeliveries s) v"
proof -
  let ?w = "if ed_State v = ''delivering'' then v\<lparr>ed_PossibleDuplicate := True\<rparr> else v"
  have w: "ed_AutomaticCancellationCode ?w = ed_AutomaticCancellationCode v" "ed_Attempts ?w = ed_Attempts v" by simp_all
  consider "blocked (emailDeliveries s) v \<or> \<not> claimableEmail now v"
    | "\<not> blocked (emailDeliveries s) v" "claimableEmail now v" "ed_AutomaticCancellationCode v \<noteq> []"
    | "\<not> blocked (emailDeliveries s) v" "claimableEmail now v" "ed_AutomaticCancellationCode v = []" "ed_Attempts v \<ge> EmailMaxAttempts"
    | "\<not> blocked (emailDeliveries s) v" "ready now v"
    unfolding ready_def by linarith
  then show thesis
  proof cases
    case 1
    then show thesis by (intro passed) auto
  next
    case 2
    then have "\<not> settled v" by (auto simp: claimableEmail_def settled_def)
    with 2 w show thesis
      by (intro dead [of "?w\<lparr>ed_State := ''dead'', ed_ErrorCode := ed_AutomaticCancellationCode v,
          ed_Version := nextHostedGroupVersion (ed_Version v), ed_UpdatedAt := now,
          ed_LeaseToken := [], ed_LeaseOwner := [], ed_LeaseExpiresAt := zeroTime\<rparr>"])
        (simp_all add: Let_def buried_def ready_def)
  next
    case 3
    then have "\<not> settled v" by (auto simp: claimableEmail_def settled_def)
    with 3 w show thesis
      by (intro dead [of "?w\<lparr>ed_State := ''dead'', ed_ErrorCode := ''attempts_exhausted'',
          ed_Version := nextHostedGroupVersion (ed_Version v), ed_UpdatedAt := now\<rparr>"])
        (simp_all add: Let_def buried_def ready_def)
  next
    case 4
    with w show thesis
      by (intro hit) (simp_all add: Let_def ready_def handedOut_def not_le)
  qed
qed

text \<open>The deliveries after a part of the loop: some have been buried, the others are as they were.\<close>

definition swept :: "EmailDelivery gomap \<Rightarrow> EmailDelivery gomap \<Rightarrow> bool" where
  "swept m m' \<longleftrightarrow> gm_ok m \<and> gm_ok m' \<and>
     (\<forall>k. gm_get m' k = gm_get m k \<or> (\<exists>w w'. gm_get m k = Some w \<and> gm_get m' k = Some w' \<and> buried w w'))"

lemma swept_refl: "gm_ok m \<Longrightarrow> swept m m"
  by (simp add: swept_def)

lemma swept_bury: "swept (gm_put i v' m) m' \<Longrightarrow> gm_ok m \<Longrightarrow> gm_get m i = Some v \<Longrightarrow> buried v v' \<Longrightarrow> swept m m'"
proof -
  assume s: "swept (gm_put i v' m) m'" "gm_ok m" "gm_get m i = Some v" "buried v v'"
  have "gm_get m' k = gm_get m k \<or> (\<exists>w w'. gm_get m k = Some w \<and> gm_get m' k = Some w' \<and> buried w w')" for k
  proof (cases "k = i")
    case True
    have "\<not> buried v' w" for w
      using s(4) by (auto simp: buried_def settled_def)
    with True s show ?thesis by (auto simp: swept_def dest: spec [of _ i])
  next
    case False
    with s(1) show ?thesis by (auto simp: swept_def dest: spec [of _ k])
  qed
  with s show ?thesis by (simp add: swept_def)
qed

lemma swept_blocked:
  assumes "swept m m'" and "blocked m' v"
  shows "blocked m v"
proof -
  obtain k prior where p: "gm_get m' k = Some prior" "precedes prior v" and q: "ed_Kind v = ''repository_quota''"
    using assms by (auto simp: blocked_def list_ex_iff swept_def gm_get_iff)
  then have "\<not> settled prior"
    by (simp add: precedes_def)
  with p(1) assms(1) have "gm_get m k = Some prior"
    by (auto simp: swept_def buried_def settled_def dest: spec [of _ k])
  then have "prior \<in> set (gm_vals m)" by (rule gm_get_vals)
  with p(2) q show ?thesis
    unfolding blocked_def list_ex_iff by blast
qed

lemma handedOut_fields [simp]:
  "ed_ID (handedOut owner now token v) = ed_ID v" "ed_State (handedOut owner now token v) = ''delivering''"
  "ed_Attempts (handedOut owner now token v) = ed_Attempts v + 1" "ed_LeaseToken (handedOut owner now token v) = token"
  "ed_Kind (handedOut owner now token v) = ed_Kind v" "ed_QuotaRuleID (handedOut owner now token v) = ed_QuotaRuleID v"
  "ed_EventSequence (handedOut owner now token v) = ed_EventSequence v"
  "ed_LeaseExpiresAt (handedOut owner now token v) = now + EmailLease"
  by (simp_all add: handedOut_def leaseEmail_def)

lemma handedOut_ok: "email_ok newUUID n v \<Longrightarrow> ready now v \<Longrightarrow> email_ok newUUID (Suc n) (handedOut owner now (newUUID n) v)"
  by (auto simp: email_ok_def ready_def EmailMaxAttempts_def)

text \<open>
  The outcome of the loop: it sweeps the deliveries, and either finds none or hands out one that is ready and not blocked.
\<close>

lemma claimEmail_result:
  assumes "claimEmail newUUID owner now vs s = (res, s')" and "gm_ok (emailDeliveries s)" and "distinct (map fst vs)"
    and "\<forall>(i, v) \<in> set vs. gm_get (emailDeliveries s) i = Some v"
  shows "\<exists>m. swept (emailDeliveries s) m \<and>
    (res = Inl ErrNotFound \<and> s' = s\<lparr>emailDeliveries := m\<rparr> \<and>
       (\<forall>(i, v) \<in> set vs. ready now v \<longrightarrow> blocked (emailDeliveries s) v) \<or>
     (\<exists>i v. gm_get m i = Some v \<and> gm_get (emailDeliveries s) i = Some v \<and> ready now v \<and> \<not> blocked m v \<and>
        res = Inr (handedOut owner now (newUUID (uuidsDrawn s)) v) \<and>
        s' = s\<lparr>uuidsDrawn := Suc (uuidsDrawn s), emailDeliveries := gm_put i (handedOut owner now (newUUID (uuidsDrawn s)) v) m\<rparr>))"
  using assms
proof (induction vs arbitrary: s)
  case Nil
  then show ?case by (intro exI [of _ "emailDeliveries s"]) (auto simp: swept_refl)
next
  case (Cons x vs)
  obtain i v where x: "x = (i, v)" by fastforce
  have v: "gm_get (emailDeliveries s) i = Some v"
    using Cons.prems(4) x by simp
  show ?case
  proof (cases rule: claimEmail_step [of newUUID owner now i v vs s])
    case passed
    have "\<not> ready now v \<or> blocked (emailDeliveries s) v"
      using passed(2) by (auto simp: ready_def)
    with Cons.IH [of s] Cons.prems passed(1) x show ?thesis by fastforce
  next
    case (dead v')
    let ?s = "s\<lparr>emailDeliveries := gm_put i v' (emailDeliveries s)\<rparr>"
    have i: "i \<notin> fst ` set vs"
      using Cons.prems(3) x by simp
    have run: "claimEmail newUUID owner now vs ?s = (res, s')"
      using Cons.prems(1) dead(1) x by simp
    have "\<forall>(k, w) \<in> set vs. gm_get (emailDeliveries ?s) k = Some w"
      using Cons.prems(4) i x by force
    then obtain m where m: "swept (emailDeliveries ?s) m"
      "res = Inl ErrNotFound \<and> s' = ?s\<lparr>emailDeliveries := m\<rparr> \<and>
         (\<forall>(k, w) \<in> set vs. ready now w \<longrightarrow> blocked (emailDeliveries ?s) w) \<or>
       (\<exists>k w. gm_get m k = Some w \<and> gm_get (emailDeliveries ?s) k = Some w \<and> ready now w \<and> \<not> blocked m w \<and>
          res = Inr (handedOut owner now (newUUID (uuidsDrawn ?s)) w) \<and>
          s' = ?s\<lparr>uuidsDrawn := Suc (uuidsDrawn ?s), emailDeliveries := gm_put k (handedOut owner now (newUUID (uuidsDrawn ?s)) w) m\<rparr>)"
      using Cons.IH [OF run] Cons.prems(2,3) by auto
    have sw: "swept (emailDeliveries s) m"
      by (rule swept_bury [OF _ Cons.prems(2) v dead(2)]) (use m(1) in simp)
    have burial: "swept (emailDeliveries s) (emailDeliveries ?s)"
      by (rule swept_bury [OF _ Cons.prems(2) v dead(2)]) (use Cons.prems(2) in \<open>simp add: swept_refl\<close>)
    note up = swept_blocked [OF burial]
    have "\<not> ready now v'"
      using dead(2) by (auto simp: buried_def ready_def claimableEmail_def)
    then have same: "gm_get (emailDeliveries s) k = Some w" if "gm_get (emailDeliveries ?s) k = Some w" "ready now w" for k w
      using that by (auto split: if_splits)
    from m(2) show ?thesis
    proof (elim disjE)
      assume "res = Inl ErrNotFound \<and> s' = ?s\<lparr>emailDeliveries := m\<rparr> \<and>
        (\<forall>(k, w) \<in> set vs. ready now w \<longrightarrow> blocked (emailDeliveries ?s) w)"
      with sw up dead(3) x show ?thesis by (intro exI [of _ m] conjI disjI1) auto
    next
      assume "\<exists>k w. gm_get m k = Some w \<and> gm_get (emailDeliveries ?s) k = Some w \<and> ready now w \<and> \<not> blocked m w \<and>
          res = Inr (handedOut owner now (newUUID (uuidsDrawn ?s)) w) \<and>
          s' = ?s\<lparr>uuidsDrawn := Suc (uuidsDrawn ?s), emailDeliveries := gm_put k (handedOut owner now (newUUID (uuidsDrawn ?s)) w) m\<rparr>"
      then obtain k w where kw: "gm_get m k = Some w" "gm_get (emailDeliveries ?s) k = Some w" "ready now w" "\<not> blocked m w"
          "res = Inr (handedOut owner now (newUUID (uuidsDrawn s)) w)"
          "s' = s\<lparr>uuidsDrawn := Suc (uuidsDrawn s), emailDeliveries := gm_put k (handedOut owner now (newUUID (uuidsDrawn s)) w) m\<rparr>"
        by auto
      with same [OF kw(2,3)] sw show ?thesis by blast
    qed
  next
    case hit
    with Cons.prems x v show ?thesis
      by (intro exI [of _ "emailDeliveries s"]) (auto simp: swept_refl)
  qed
qed

section \<open>Histories\<close>

lemma emails_ok_swept:
  assumes ok: "emails_ok newUUID n m" and sw: "swept m m'"
  shows "emails_ok newUUID n m'"
proof (rule emails_okI)
  have from_m: "\<exists>w. gm_get m k = Some w \<and> (v = w \<or> buried w v)" if "gm_get m' k = Some v" for k v
    using sw that by (auto simp: swept_def dest: spec [of _ k])
  show "gm_ok m'" using sw by (simp add: swept_def)
  show "ed_ID v = k \<and> email_ok newUUID n v" if "gm_get m' k = Some v" for k v
    using from_m [OF that] emails_okD [OF ok] buried_email_ok by (metis buried_def)
  show "k1 = k2" if "gm_get m' k1 = Some v1" "gm_get m' k2 = Some v2" "ed_State v1 = ''delivering''" "ed_State v2 = ''delivering''"
    "ed_LeaseToken v1 = ed_LeaseToken v2" for k1 k2 v1 v2
  proof -
    have "gm_get m k1 = Some v1" "gm_get m k2 = Some v2"
      using from_m [OF that(1)] from_m [OF that(2)] that(3,4) by (auto simp: buried_def)
    with that ok show ?thesis unfolding emails_ok_def by blast
  qed
qed

lemma emails_ok_claim:
  assumes fresh: "fresh_uuids newUUID" and ok: "emails_ok newUUID (uuidsDrawn s) (emailDeliveries s)"
    and run: "ClaimEmailDelivery newUUID now owner s = (res, s')"
  shows "emails_ok newUUID (uuidsDrawn s') (emailDeliveries s')" "uuidsDrawn s \<le> uuidsDrawn s'"
proof -
  let ?n = "uuidsDrawn s"
  have gm: "gm_ok (emailDeliveries s)" using ok by (rule emails_ok_gm)
  then have entries: "distinct (map fst (emailDeliveries s))"
    "\<forall>(i, v) \<in> set (emailDeliveries s). gm_get (emailDeliveries s) i = Some v"
    by (auto simp: gm_ok_def)
  obtain m where sw: "swept (emailDeliveries s) m" and out: "s' = s\<lparr>emailDeliveries := m\<rparr> \<or>
      (\<exists>i v. gm_get m i = Some v \<and> ready now v \<and> s' = s\<lparr>uuidsDrawn := Suc ?n, emailDeliveries := gm_put i (handedOut owner now (newUUID ?n) v) m\<rparr>)"
    using claimEmail_result [OF run [unfolded ClaimEmailDelivery_def] gm entries] by blast
  have okm: "emails_ok newUUID ?n m"
    using ok sw by (rule emails_ok_swept)
  have unused: "ed_LeaseToken v' \<noteq> newUUID ?n" if "gm_get m k = Some v'" "ed_State v' = ''delivering''" for k v'
    using emails_okD(2) [OF okm that(1)] that(2) fresh by (auto simp: email_ok_def fresh_uuids_def inj_eq)
  from out show "emails_ok newUUID (uuidsDrawn s') (emailDeliveries s')"
  proof (elim disjE exE conjE)
    fix i v
    assume v: "gm_get m i = Some v" "ready now v"
      and s': "s' = s\<lparr>uuidsDrawn := Suc ?n, emailDeliveries := gm_put i (handedOut owner now (newUUID ?n) v) m\<rparr>"
    have "emails_ok newUUID (Suc ?n) (gm_put i (handedOut owner now (newUUID ?n) v) m)"
      using okm by (rule emails_ok_put) (use emails_okD [OF okm v(1)] v(2) unused handedOut_ok in auto)
    with s' show ?thesis by simp
  qed (use okm in simp)
  from out show "uuidsDrawn s \<le> uuidsDrawn s'" by auto
qed

lemma emailRate_fields:
  "emailDeliveries (snd (emailRate now s)) = emailDeliveries s" "uuidsDrawn (snd (emailRate now s)) = uuidsDrawn s"
  by (simp_all add: emailRate_def Let_def)

lemma emails_ok_enqueue:
  assumes ok: "emails_ok newUUID (uuidsDrawn s) (emailDeliveries s)" and run: "EnqueueEmailTest now r s = (res, s')"
  shows "emails_ok newUUID (uuidsDrawn s') (emailDeliveries s') \<and> uuidsDrawn s' = uuidsDrawn s"
proof -
  obtain e t where rate: "emailRate now s = (e, t)" by fastforce
  then have t: "emailDeliveries t = emailDeliveries s" "uuidsDrawn t = uuidsDrawn s"
    using emailRate_fields [of now s] by simp_all
  have new: "emails_ok newUUID (uuidsDrawn s) (gm_put k v (emailDeliveries s))"
    if "ed_State v = ''pending''" "ed_Attempts v = 0" "ed_ID v = k" for k v
    using ok by (rule emails_ok_idle) (use that in \<open>simp_all add: email_ok_def EmailMaxAttempts_def\<close>)
  show ?thesis
    using run ok new t rate
    by (auto simp: EnqueueEmailTest_def Let_def zeroEmailDelivery_def split: option.splits if_splits)
qed

lemma finishEmail_fields:
  "ed_ID (finishEmail now result v) = ed_ID v" "ed_State (finishEmail now result v) \<in> {''accepted'', ''dead'', ''retrying''}"
  "ed_Attempts (finishEmail now result v) = ed_Attempts v"
  "ed_State (finishEmail now result v) = ''retrying'' \<Longrightarrow> ed_Attempts v < EmailMaxAttempts"
  by (cases "emailSafeErrorCode (ar_Code result) = []"; cases "ed_AutomaticCancellationCode v = []";
      cases "ar_Permanent result \<or> ed_Attempts v \<ge> EmailMaxAttempts"; simp add: finishEmail_def Let_def not_le)+

lemma finishEmail_idle: "ed_State (finishEmail now result v) \<noteq> ''delivering''"
  using finishEmail_fields(2) [of now result v] by auto

lemma finishEmail_ok: "email_ok newUUID n v \<Longrightarrow> email_ok newUUID n (finishEmail now result v)"
  using finishEmail_fields [of now result v] by (auto simp: email_ok_def)

lemma emails_ok_finish:
  assumes ok: "emails_ok newUUID (uuidsDrawn s) (emailDeliveries s)" and run: "FinishEmailDelivery now i token result s = (res, s')"
  shows "emails_ok newUUID (uuidsDrawn s') (emailDeliveries s') \<and> uuidsDrawn s' = uuidsDrawn s"
proof (cases "gm_get (emailDeliveries s) i")
  case (Some v)
  have "emails_ok newUUID (uuidsDrawn s) (gm_put i (finishEmail now result v) (emailDeliveries s))"
    using ok by (rule emails_ok_idle)
      (use emails_okD [OF ok Some] finishEmail_ok finishEmail_fields [of now result v] in auto)
  with Some ok run show ?thesis
    by (auto simp: FinishEmailDelivery_def split: if_splits)
qed (use ok run in \<open>simp add: FinishEmailDelivery_def\<close>)

lemma emails_ok_replay:
  assumes ok: "emails_ok newUUID (uuidsDrawn s) (emailDeliveries s)" and run: "ReplayEmailDelivery now i version s = (res, s')"
  shows "emails_ok newUUID (uuidsDrawn s') (emailDeliveries s') \<and> uuidsDrawn s' = uuidsDrawn s"
proof (cases "gm_get (emailDeliveries s) i")
  case (Some v)
  obtain e t where rate: "emailRate now s = (e, t)" by fastforce
  then have t: "emailDeliveries t = emailDeliveries s" "uuidsDrawn t = uuidsDrawn s"
    using emailRate_fields [of now s] by simp_all
  have new: "emails_ok newUUID (uuidsDrawn s) (gm_put i w (emailDeliveries s))"
    if "ed_State w = ''pending''" "ed_Attempts w = 0" "ed_ID w = ed_ID v" for w
    using ok by (rule emails_ok_idle) (use that emails_okD(1) [OF ok Some] in \<open>simp_all add: email_ok_def EmailMaxAttempts_def\<close>)
  show ?thesis
    using run ok new t rate Some
    by (auto simp: ReplayEmailDelivery_def Let_def split: option.splits if_splits)
qed (use ok run in \<open>simp add: ReplayEmailDelivery_def\<close>)

lemma emails_ok_cancel:
  "emails_ok newUUID (uuidsDrawn s) (emailDeliveries s) \<Longrightarrow>
     emails_ok newUUID (uuidsDrawn (cancelQuotaDeliveriesLocked i code now s)) (emailDeliveries (cancelQuotaDeliveriesLocked i code now s))"
  unfolding cancelQuotaDeliveriesLocked_def
  by simp (rule emails_ok_each; auto simp: cancelEmail_def Let_def email_ok_def split: if_splits)

lemma emails_ok_record:
  assumes ok: "emails_ok newUUID (uuidsDrawn s) (emailDeliveries s)"
  shows "emails_ok newUUID (uuidsDrawn (recordEvent newUUID cfg r e s)) (emailDeliveries (recordEvent newUUID cfg r e s))"
proof -
  have "emails_ok newUUID (Suc (uuidsDrawn s)) (gm_put (ed_ID d) d (emailDeliveries s))"
    if "d = quotaDelivery i e target cfg full" for d i target full
    using emails_ok_mono [OF ok, of "Suc (uuidsDrawn s)"]
    by (intro emails_ok_idle)
      (simp_all add: that quotaDelivery_def Let_def email_ok_def EmailMaxAttempts_def zeroEmailDelivery_def)
  with ok show ?thesis
    by (simp add: recordEvent_def Let_def)
qed

text \<open>The histories of the queue: targets, test messages, quota rules and their evaluation, workers and replays.\<close>

inductive email_step :: "(nat \<Rightarrow> string) \<Rightarrow> quota_store \<Rightarrow> quota_store \<Rightarrow> bool" for newUUID where
  create_target: "email_step newUUID s (snd (CreateEmailTarget now v s))"
| update_target: "email_step newUUID s (snd (UpdateEmailTarget now v version s))"
| enqueue: "email_step newUUID s (snd (EnqueueEmailTest now r s))"
| claim: "email_step newUUID s (snd (ClaimEmailDelivery newUUID now owner s))"
| finish: "email_step newUUID s (snd (FinishEmailDelivery now i token result s))"
| replay: "email_step newUUID s (snd (ReplayEmailDelivery now i version s))"
| create_rule: "email_step newUUID s (snd (CreateRepositoryQuotaAlertRule now q s))"
| update_rule: "email_step newUUID s (snd (UpdateRepositoryQuotaAlertRule now q version s))"
| delete_rule: "email_step newUUID s (snd (DeleteRepositoryQuotaAlertRule now i version s))"
| evaluate: "email_step newUUID s (snd (EvaluateNextRepositoryQuotaAlert newUUID capacity now cfg interval s))"
| elsewhere: "email_step newUUID s (s\<lparr>hostedRepositories := rs, uuidsDrawn := uuidsDrawn s + k\<rparr>)"

lemma emails_ok_step:
  assumes "email_step newUUID s s'" and fresh: "fresh_uuids newUUID" and ok: "emails_ok newUUID (uuidsDrawn s) (emailDeliveries s)"
  shows "emails_ok newUUID (uuidsDrawn s') (emailDeliveries s')"
  using assms(1)
proof cases
  case (create_target now v)
  with ok show ?thesis by (simp add: CreateEmailTarget_def Let_def)
next
  case (update_target now v version)
  with ok show ?thesis by (simp add: UpdateEmailTarget_def Let_def split: option.split)
next
  case (enqueue now r)
  with emails_ok_enqueue [OF ok, of now r] show ?thesis by (cases "EnqueueEmailTest now r s") auto
next
  case (claim now owner)
  with emails_ok_claim(1) [OF fresh ok, of now owner] show ?thesis by (cases "ClaimEmailDelivery newUUID now owner s") auto
next
  case (finish now i token result)
  with emails_ok_finish [OF ok, of now i token result] show ?thesis by (cases "FinishEmailDelivery now i token result s") auto
next
  case (replay now i version)
  with emails_ok_replay [OF ok, of now i version] show ?thesis by (cases "ReplayEmailDelivery now i version s") auto
next
  case (create_rule now q)
  with ok show ?thesis by (simp add: CreateRepositoryQuotaAlertRule_def Let_def split: option.split)
next
  case (update_rule now q version)
  obtain res t where "UpdateRepositoryQuotaAlertRule now q version s = (res, t)" by fastforce
  with updateRule_cases [OF this] update_rule ok emails_ok_cancel [OF ok] show ?thesis by auto
next
  case (delete_rule now i version)
  with ok emails_ok_cancel [OF ok] show ?thesis by (simp add: DeleteRepositoryQuotaAlertRule_def Let_def split: option.split)
next
  case (evaluate capacity now cfg interval)
  have "uuidsDrawn s \<le> n" if "quotaTransition newUUID (uuidsDrawn s) r o' name now = (r', ev, n)" for r o' name r' ev n
    using that by (auto simp: quotaTransition_def Let_def split: prod.splits if_splits)
  then have "emails_ok newUUID (uuidsDrawn (evaluateRule newUUID capacity cfg now i r s)) (emailDeliveries (evaluateRule newUUID capacity cfg now i r s))"
    for i r
    using emails_ok_record [of newUUID "s\<lparr>uuidsDrawn := n\<rparr>" for n] emails_ok_mono [OF ok]
    by (simp add: evaluateRule_def Let_def split: prod.split option.split)
  with evaluate ok show ?thesis
    by (simp add: EvaluateNextRepositoryQuotaAlert_def Let_def split: option.split)
next
  case (elsewhere rs k)
  with emails_ok_mono [OF ok] show ?thesis by simp
qed

inductive email_reach :: "(nat \<Rightarrow> string) \<Rightarrow> quota_store \<Rightarrow> bool" for newUUID where
  start: "email_reach newUUID emptyQuotaStore"
| step: "email_reach newUUID s \<Longrightarrow> email_step newUUID s s' \<Longrightarrow> email_reach newUUID s'"

lemma email_reach_ok: "email_reach newUUID s \<Longrightarrow> fresh_uuids newUUID \<Longrightarrow> emails_ok newUUID (uuidsDrawn s) (emailDeliveries s)"
proof (induction rule: email_reach.induct)
  case start
  show ?case by (simp add: emptyQuotaStore_def hosted_store.defs emails_ok_def)
next
  case (step s s')
  then show ?case using emails_ok_step by blast
qed

section \<open>Leases\<close>

definition emailHolder :: "'z email_store_scheme \<Rightarrow> string \<Rightarrow> string option" where
  "emailHolder s i = (case gm_get (emailDeliveries s) i of
     None \<Rightarrow> None | Some v \<Rightarrow> if ed_State v = ''delivering'' then Some (ed_LeaseToken v) else None)"

definition finishDelivery ::
  "gotime \<times> EmailAttemptResult \<Rightarrow> string \<Rightarrow> string \<Rightarrow> 'z email_store_scheme \<Rightarrow> unit result \<times> 'z email_store_scheme" where
  "finishDelivery c i token s = FinishEmailDelivery (fst c) i token (snd c) s"

interpretation emails: lease_fence emailHolder finishDelivery "\<lambda>_. True"
proof unfold_locales
  show "emailHolder s i = Some t \<and> emailHolder s' i = None" if "finishDelivery c i t s = (Inr r, s')"
    for c i t r and s s' :: "'z email_store_scheme"
    using that finishEmail_idle [of "fst c" "snd c"]
    by (auto simp: finishDelivery_def FinishEmailDelivery_def emailHolder_def split: option.splits if_splits)
  show "s' = s" if "finishDelivery c i t s = (Inl e, s')" for c i t e and s s' :: "'z email_store_scheme"
    using that by (auto simp: finishDelivery_def FinishEmailDelivery_def split: option.splits if_splits)
qed simp

definition targetVersion :: "string \<Rightarrow> 'z email_store_scheme \<Rightarrow> string option" where
  "targetVersion i s = map_option et_Version (gm_get (emailTargets s) i)"

definition updateTarget ::
  "string \<Rightarrow> gotime \<times> EmailTarget \<Rightarrow> string \<Rightarrow> 'z email_store_scheme \<Rightarrow> EmailTarget result \<times> 'z email_store_scheme" where
  "updateTarget i a version s = UpdateEmailTarget (fst a) ((snd a)\<lparr>et_ID := i\<rparr>) version s"

interpretation targets: cas_update "targetVersion i" "updateTarget i" for i
proof unfold_locales
  show "targetVersion i s = Some v \<and> targetVersion i s' = Some (nextHostedGroupVersion v)" if "updateTarget i a v s = (Inr r, s')"
    for a v r and s s' :: "'z email_store_scheme"
    using that by (auto simp: updateTarget_def UpdateEmailTarget_def targetVersion_def Let_def split: option.splits if_splits)
  show "s' = s" if "updateTarget i a v s = (Inl e, s')" for a v e and s s' :: "'z email_store_scheme"
    using that by (auto simp: updateTarget_def UpdateEmailTarget_def Let_def split: option.splits if_splits)
qed

section \<open>The queue\<close>

lemma blocked_iff: "gm_ok m \<Longrightarrow> blocked m v \<longleftrightarrow> ed_Kind v = ''repository_quota'' \<and> (\<exists>k prior. gm_get m k = Some prior \<and> precedes prior v)"
  unfolding blocked_def list_ex_iff using gm_vals_iff by metis

lemma claim_hit:
  assumes run: "ClaimEmailDelivery newUUID now owner s = (Inr v, s')" and ok: "emails_ok newUUID (uuidsDrawn s) (emailDeliveries s)"
  shows "\<exists>w. gm_get (emailDeliveries s) (ed_ID v) = Some w \<and> ready now w \<and> v = handedOut owner now (newUUID (uuidsDrawn s)) w"
    "gm_get (emailDeliveries s') (ed_ID v) = Some v"
    "ed_Kind v = ''repository_quota'' \<Longrightarrow> gm_get (emailDeliveries s') k = Some prior \<Longrightarrow> ed_Kind prior = ''repository_quota'' \<Longrightarrow>
       ed_QuotaRuleID prior = ed_QuotaRuleID v \<Longrightarrow> ed_EventSequence prior < ed_EventSequence v \<Longrightarrow> settled prior"
    "k \<noteq> ed_ID v \<Longrightarrow> gm_get (emailDeliveries s') k = gm_get (emailDeliveries s) k \<or>
       (\<exists>w w'. gm_get (emailDeliveries s) k = Some w \<and> gm_get (emailDeliveries s') k = Some w' \<and> buried w w')"
proof -
  have gm: "gm_ok (emailDeliveries s)" using ok by (rule emails_ok_gm)
  then have entries: "distinct (map fst (emailDeliveries s))"
    "\<forall>(i, v) \<in> set (emailDeliveries s). gm_get (emailDeliveries s) i = Some v"
    by (auto simp: gm_ok_def)
  obtain m i w where sw: "swept (emailDeliveries s) m" and w: "gm_get (emailDeliveries s) i = Some w" "ready now w" "\<not> blocked m w"
    and v: "v = handedOut owner now (newUUID (uuidsDrawn s)) w"
    and s': "s' = s\<lparr>uuidsDrawn := Suc (uuidsDrawn s), emailDeliveries := gm_put i v m\<rparr>"
    using claimEmail_result [OF run [unfolded ClaimEmailDelivery_def] gm entries] by auto
  have i: "ed_ID v = i"
    using emails_okD(1) [OF ok w(1)] by (simp add: v)
  show "\<exists>w. gm_get (emailDeliveries s) (ed_ID v) = Some w \<and> ready now w \<and> v = handedOut owner now (newUUID (uuidsDrawn s)) w"
    using w v i by auto
  show "gm_get (emailDeliveries s') (ed_ID v) = Some v"
    by (simp add: s' i)
  have gm': "gm_ok m" using sw by (simp add: swept_def)
  show "settled prior" if "ed_Kind v = ''repository_quota''" "gm_get (emailDeliveries s') k = Some prior" "ed_Kind prior = ''repository_quota''"
    "ed_QuotaRuleID prior = ed_QuotaRuleID v" "ed_EventSequence prior < ed_EventSequence v"
    using that w(3) unfolding blocked_iff [OF gm'] by (auto simp: s' v precedes_def split: if_splits)
  show "gm_get (emailDeliveries s') k = gm_get (emailDeliveries s) k \<or>
      (\<exists>w w'. gm_get (emailDeliveries s) k = Some w \<and> gm_get (emailDeliveries s') k = Some w' \<and> buried w w')" if "k \<noteq> ed_ID v"
    using sw that by (simp add: s' i swept_def)
qed

lemma claim_miss:
  assumes run: "ClaimEmailDelivery newUUID now owner s = (Inl e, s')" and gm: "gm_ok (emailDeliveries s)"
    and w: "gm_get (emailDeliveries s) k = Some w" "ready now w"
  shows "ed_Kind w = ''repository_quota'' \<and> (\<exists>j prior. gm_get (emailDeliveries s) j = Some prior \<and> precedes prior w)"
proof -
  have entries: "distinct (map fst (emailDeliveries s))"
    "\<forall>(i, v) \<in> set (emailDeliveries s). gm_get (emailDeliveries s) i = Some v"
    using gm by (auto simp: gm_ok_def)
  have "blocked (emailDeliveries s) w"
    using claimEmail_result [OF run [unfolded ClaimEmailDelivery_def] gm entries] w by (auto dest: gm_get_in)
  then show ?thesis by (simp add: blocked_iff [OF gm])
qed

text \<open>A rule whose messages wait is held up by its earliest unsettled message, and that one is not ready.\<close>

lemma claim_miss_first:
  assumes run: "ClaimEmailDelivery newUUID now owner s = (Inl e, s')" and gm: "gm_ok (emailDeliveries s)"
    and w: "gm_get (emailDeliveries s) k = Some w" "ready now w"
  shows "\<exists>j prior. gm_get (emailDeliveries s) j = Some prior \<and> precedes prior w \<and> \<not> ready now prior"
proof -
  let ?P = "{prior \<in> set (gm_vals (emailDeliveries s)). precedes prior w}"
  obtain j p where p: "gm_get (emailDeliveries s) j = Some p" "precedes p w" using claim_miss [OF run gm w] by blast
  then have "finite ?P" "?P \<noteq> {}" using gm_get_vals [OF p(1)] by auto
  define f :: "EmailDelivery \<Rightarrow> int" where "f = ed_EventSequence"
  have "Min (f ` ?P) \<in> f ` ?P" using \<open>finite ?P\<close> \<open>?P \<noteq> {}\<close> by (intro Min_in) auto
  then obtain q where "Min (f ` ?P) = f q" "q \<in> ?P" by (rule imageE)
  moreover have "\<forall>x \<in> ?P. Min (f ` ?P) \<le> f x" using \<open>finite ?P\<close> by simp
  ultimately have q: "q \<in> ?P" "\<forall>x \<in> ?P. ed_EventSequence q \<le> ed_EventSequence x" by (simp_all add: f_def)
  obtain i where i: "gm_get (emailDeliveries s) i = Some q" using q(1) gm_vals_iff [OF gm] by blast
  have "\<not> ready now q"
  proof
    assume "ready now q"
    then obtain j' x where x: "gm_get (emailDeliveries s) j' = Some x" "precedes x q" using claim_miss [OF run gm i] by blast
    then have "precedes x w" using q(1) by (auto simp: precedes_def)
    then show False using q(2) x gm_get_vals [OF x(1)] by (force simp: precedes_def)
  qed
  then show ?thesis using i q(1) by blast
qed

text \<open>A delivery that is due: unsettled, not waiting for a later time, not under a running lease, not cancelled and with attempts left.\<close>

definition due_email :: "gotime \<Rightarrow> EmailDelivery \<Rightarrow> bool" where
  "due_email now v \<longleftrightarrow> ed_State v \<noteq> ''accepted'' \<and> ed_State v \<noteq> ''dead'' \<and> ed_NextAttemptAt v \<le> now \<and>
     (ed_State v = ''delivering'' \<longrightarrow> ed_LeaseExpiresAt v \<le> now) \<and> ed_AutomaticCancellationCode v = [] \<and> ed_Attempts v < 8"

lemma due_iff: "due_email now v \<longleftrightarrow> ready now v"
  by (auto simp: due_email_def ready_def claimableEmail_def EmailMaxAttempts_def)

text \<open>
  C35. The email queue is safe and does not stall. In every history no delivery has more than eight attempts, waiting ones have attempts
  left, and no two deliveries in flight share a lease token. A claim hands out a delivery that was due, not
  cancelled and not held under a running lease, under a token of its own for 30 seconds; when it belongs to a quota rule every
  earlier message of that rule is accepted or dead at that moment, so a message is never tried before the ones of earlier events have been
  settled (a dead message that an operator replays comes again after later ones); every other delivery is unchanged or
  has been given up for cancellation or exhausted attempts. A claim finds nothing only when every due delivery
  is a quota message held up by a message of the same rule with a smaller sequence number that is itself unsettled and not due. A report is accepted only under the current token, and once.
\<close>

theorem email_queue_safe:
  assumes reach: "email_reach newUUID s" and fresh: "fresh_uuids newUUID"
  shows "(\<forall>k v. gm_get (emailDeliveries s) k = Some v \<longrightarrow> 0 \<le> ed_Attempts v \<and> ed_Attempts v \<le> 8 \<and>
       (ed_State v = ''pending'' \<or> ed_State v = ''retrying'' \<longrightarrow> ed_Attempts v < 8)) \<and>
    (\<forall>k k' t. emailHolder s k = Some t \<longrightarrow> emailHolder s k' = Some t \<longrightarrow> k = k') \<and>
    (\<forall>now owner v s'. ClaimEmailDelivery newUUID now owner s = (Inr v, s') \<longrightarrow>
       (\<exists>w. gm_get (emailDeliveries s) (ed_ID v) = Some w \<and> \<not> settled w \<and> ed_NextAttemptAt w \<le> now \<and>
          (ed_State w = ''delivering'' \<longrightarrow> ed_LeaseExpiresAt w \<le> now) \<and> ed_AutomaticCancellationCode w = [] \<and>
          ed_Attempts v = ed_Attempts w + 1) \<and>
       emailHolder s' (ed_ID v) = Some (ed_LeaseToken v) \<and> ed_LeaseExpiresAt v = now + 30 * second \<and>
       (\<forall>k prior. ed_Kind v = ''repository_quota'' \<longrightarrow> gm_get (emailDeliveries s') k = Some prior \<longrightarrow>
          ed_Kind prior = ''repository_quota'' \<longrightarrow> ed_QuotaRuleID prior = ed_QuotaRuleID v \<longrightarrow>
          ed_EventSequence prior < ed_EventSequence v \<longrightarrow> settled prior) \<and>
       (\<forall>k. k \<noteq> ed_ID v \<longrightarrow> gm_get (emailDeliveries s') k = gm_get (emailDeliveries s) k \<or>
          (\<exists>w w'. gm_get (emailDeliveries s) k = Some w \<and> gm_get (emailDeliveries s') k = Some w' \<and> buried w w'))) \<and>
    (\<forall>now owner e s'. ClaimEmailDelivery newUUID now owner s = (Inl e, s') \<longrightarrow>
       (\<forall>k w. gm_get (emailDeliveries s) k = Some w \<longrightarrow> due_email now w \<longrightarrow>
          ed_Kind w = ''repository_quota'' \<and>
          (\<exists>j prior. gm_get (emailDeliveries s) j = Some prior \<and> ed_Kind prior = ''repository_quota'' \<and>
             ed_QuotaRuleID prior = ed_QuotaRuleID w \<and> ed_EventSequence prior < ed_EventSequence w \<and>
             ed_State prior \<noteq> ''accepted'' \<and> ed_State prior \<noteq> ''dead'' \<and> \<not> due_email now prior))) \<and>
    (\<forall>now i t result s'. FinishEmailDelivery now i t result s = (Inr (), s') \<longrightarrow>
       emailHolder s i = Some t \<and> (\<forall>now' t' result'. \<exists>e. FinishEmailDelivery now' i t' result' s' = (Inl e, s')))"
proof (intro conjI allI impI)
  note ok = email_reach_ok [OF reach fresh]
  note gm = emails_ok_gm [OF ok]
  show "0 \<le> ed_Attempts v" "ed_Attempts v \<le> 8" "ed_State v = ''pending'' \<or> ed_State v = ''retrying'' \<Longrightarrow> ed_Attempts v < 8"
    if "gm_get (emailDeliveries s) k = Some v" for k v
    using emails_okD(2) [OF ok that] by (auto simp: email_ok_def EmailMaxAttempts_def)
  show "k = k'" if "emailHolder s k = Some t" "emailHolder s k' = Some t" for k k' t
    using that ok unfolding emails_ok_def emailHolder_def by (auto split: option.splits if_splits)
  fix now owner v s' assume run: "ClaimEmailDelivery newUUID now owner s = (Inr v, s')"
  note hit = claim_hit [OF run ok]
  show "\<exists>w. gm_get (emailDeliveries s) (ed_ID v) = Some w \<and> \<not> settled w \<and> ed_NextAttemptAt w \<le> now \<and>
      (ed_State w = ''delivering'' \<longrightarrow> ed_LeaseExpiresAt w \<le> now) \<and> ed_AutomaticCancellationCode w = [] \<and>
      ed_Attempts v = ed_Attempts w + 1"
    using hit(1) by (auto simp: ready_def claimableEmail_def settled_def)
  show "emailHolder s' (ed_ID v) = Some (ed_LeaseToken v)" "ed_LeaseExpiresAt v = now + 30 * second"
    using hit(1,2) by (auto simp: emailHolder_def EmailLease_def)
  show "settled prior" if "ed_Kind v = ''repository_quota''" "gm_get (emailDeliveries s') k = Some prior" "ed_Kind prior = ''repository_quota''"
    "ed_QuotaRuleID prior = ed_QuotaRuleID v" "ed_EventSequence prior < ed_EventSequence v" for k prior
    using hit(3) that by blast
  show "gm_get (emailDeliveries s') k = gm_get (emailDeliveries s) k \<or>
      (\<exists>w w'. gm_get (emailDeliveries s) k = Some w \<and> gm_get (emailDeliveries s') k = Some w' \<and> buried w w')" if "k \<noteq> ed_ID v" for k
    using hit(4) that by blast
next
  show "ed_Kind w = ''repository_quota''"
    "\<exists>j prior. gm_get (emailDeliveries s) j = Some prior \<and> ed_Kind prior = ''repository_quota'' \<and> ed_QuotaRuleID prior = ed_QuotaRuleID w \<and>
      ed_EventSequence prior < ed_EventSequence w \<and> ed_State prior \<noteq> ''accepted'' \<and> ed_State prior \<noteq> ''dead'' \<and> \<not> due_email now prior"
    if "ClaimEmailDelivery newUUID now owner s = (Inl e, s')" "gm_get (emailDeliveries s) k = Some w" "due_email now w" for now owner e s' k w
    using claim_miss_first [OF that(1) emails_ok_gm [OF email_reach_ok [OF reach fresh]] that(2) that(3) [unfolded due_iff]]
      claim_miss [OF that(1) emails_ok_gm [OF email_reach_ok [OF reach fresh]] that(2) that(3) [unfolded due_iff]]
    by (auto simp: precedes_def settled_def due_iff)
next
  fix now i t result s' assume "FinishEmailDelivery now i t result s = (Inr (), s')"
  then have run: "finishDelivery (now, result) i t s = (Inr (), s')"
    by (simp add: finishDelivery_def)
  show "emailHolder s i = Some t"
    using emails.finish_ok [OF TrueI run] by simp
  show "\<exists>e. FinishEmailDelivery now' i t' result' s' = (Inl e, s')" for now' t' result'
    using emails.finish_once [OF TrueI run, of "(now', result')" t'] by (simp add: finishDelivery_def)
qed

section \<open>Witness\<close>

definition queuedStore :: quota_store where
  "queuedStore = snd (EnqueueEmailTest 5 \<lparr>er_ID = ''e1'', er_EventID = ''v1'', er_RequestKey = ''k1'', er_TargetID = ''t1'', er_TargetVersion = ''1'',
     er_Scenario = ''test'', er_TemplateVersion = ''1'', er_From = ''gw'', er_ConsoleOrigin = []\<rparr>
     (snd (CreateEmailTarget 4 (zeroEmailTarget\<lparr>et_ID := ''t1'', et_Enabled := True\<rparr>) emptyQuotaStore)))"

lemma queuedStore_reach: "email_reach exampleUUIDs queuedStore"
  unfolding queuedStore_def
  by (rule email_reach.step [OF email_reach.step [OF email_reach.start email_step.create_target] email_step.enqueue])

lemma queuedStore_claim:
  "is_ok (fst (ClaimEmailDelivery exampleUUIDs 6 ''w1'' queuedStore))"
  by code_simp

theorem email_queue_safe_witness:
  "\<exists>v s'. ClaimEmailDelivery exampleUUIDs 6 ''w1'' queuedStore = (Inr v, s') \<and> emailHolder s' (ed_ID v) = Some (ed_LeaseToken v)"
proof -
  obtain v s' where run: "ClaimEmailDelivery exampleUUIDs 6 ''w1'' queuedStore = (Inr v, s')"
    using queuedStore_claim by (cases "ClaimEmailDelivery exampleUUIDs 6 ''w1'' queuedStore") (auto simp: is_ok_iff)
  have "emailHolder s' (ed_ID v) = Some (ed_LeaseToken v)"
    using email_queue_safe [OF queuedStore_reach exampleUUIDs_fresh, THEN conjunct2, THEN conjunct2, THEN conjunct1, rule_format, OF run] by simp
  with run show ?thesis by blast
qed

end
