(* ===== verification/OciGraph.thy ===== *)
theory OciGraph
  imports GoStrings
begin

text \<open>
  Validation of OCI image graphs (\<^verbatim>\<open>internal/ocigraph/graph.go\<close>): decoding of manifests and indexes, and the
  traversal that accepts a set of objects as the exact, complete closure of a root. The functions
  \<^verbatim>\<open>json.Marshal\<close> and \<^verbatim>\<open>json.Unmarshal\<close> are the arguments \<open>marshal\<close> and \<open>unmarshal\<close>: what is proved holds for
  every choice of them.
\<close>

section \<open>Data\<close>

datatype graph_error = ErrUnsupported | ErrInvalid | ErrIncomplete | ErrLimit

definition OCIManifest :: string where
  "OCIManifest = ''application/vnd.oci.image.manifest.v1+json''"

definition OCIIndex :: string where
  "OCIIndex = ''application/vnd.oci.image.index.v1+json''"

definition DockerManifest :: string where
  "DockerManifest = ''application/vnd.docker.distribution.manifest.v2+json''"

definition DockerList :: string where
  "DockerList = ''application/vnd.docker.distribution.manifest.list.v2+json''"

definition MaxDepth :: nat where
  "MaxDepth = 8"

definition MaxObjects :: nat where
  "MaxObjects = 1024"

definition MaxManifestBytes :: nat where
  "MaxManifestBytes = 16 * 1048576"

record Descriptor =
  ds_MediaType :: string
  ds_Digest :: string
  ds_Size :: "int option"
  ds_URLs :: "string list"
  ds_Data :: string

text \<open>A nil slice of layers is \<^const>\<open>None\<close>: the code tells it from an empty one.\<close>

record Document =
  dc_SchemaVersion :: int
  dc_MediaType :: string
  dc_Config :: "Descriptor option"
  dc_Layers :: "Descriptor list option"
  dc_Manifests :: "Descriptor list"
  dc_Subject :: string
  dc_ArtifactType :: string

record Object =
  ob_Digest :: string
  ob_Size :: int
  ob_MediaType :: string
  ob_Document :: "Document option"

definition hexDigits :: string where
  "hexDigits = ''0123456789abcdef''"

text \<open>A string is emptied by \<^verbatim>\<open>strings.Trim\<close> exactly when all its bytes are in the cut set.\<close>

definition ValidDigest :: "string \<Rightarrow> bool" where
  "ValidDigest v \<longleftrightarrow> length v = 71 \<and> hasPrefix v ''sha256:'' \<and> list_all (\<lambda>c. c \<in> set hexDigits) (drop 7 v)"

definition IsManifest :: "string \<Rightarrow> bool" where
  "IsManifest mediaType \<longleftrightarrow> mediaType = OCIManifest \<or> mediaType = DockerManifest"

definition IsIndex :: "string \<Rightarrow> bool" where
  "IsIndex mediaType \<longleftrightarrow> mediaType = OCIIndex \<or> mediaType = DockerList"

definition layersOf :: "Document \<Rightarrow> Descriptor list" where
  "layersOf d = (case dc_Layers d of None \<Rightarrow> [] | Some ls \<Rightarrow> ls)"

definition Dependencies :: "Document \<Rightarrow> Descriptor list" where
  "Dependencies d =
     (if IsIndex (dc_MediaType d) then dc_Manifests d
      else (case dc_Config d of None \<Rightarrow> [] | Some c \<Rightarrow> [c]) @ layersOf d)"

section \<open>Decoding\<close>

definition configTypes :: "string list" where
  "configTypes = [''application/vnd.oci.image.config.v1+json'', ''application/vnd.docker.container.image.v1+json'']"

definition layerTypes :: "string list" where
  "layerTypes =
     [''application/vnd.oci.image.layer.v1.tar'', ''application/vnd.oci.image.layer.v1.tar+gzip'',
      ''application/vnd.oci.image.layer.v1.tar+zstd'', ''application/vnd.docker.image.rootfs.diff.tar.gzip'']"

fun checkDescriptors :: "Descriptor list \<Rightarrow> graph_error option" where
  "checkDescriptors [] = None"
| "checkDescriptors (d # ds) =
     (if \<not> ValidDigest (ds_Digest d) \<or> (case ds_Size d of None \<Rightarrow> True | Some n \<Rightarrow> n < 0) then Some ErrInvalid
      else if ds_URLs d \<noteq> [] \<or> ds_Data d \<noteq> [] then Some ErrUnsupported
      else checkDescriptors ds)"

definition checkMediaTypes :: "string \<Rightarrow> Document \<Rightarrow> graph_error option" where
  "checkMediaTypes mediaType d =
     (if IsIndex mediaType then
        (if list_ex (\<lambda>x. \<not> IsManifest (ds_MediaType x) \<and> \<not> IsIndex (ds_MediaType x)) (dc_Manifests d)
         then Some ErrUnsupported else None)
      else
        (case dc_Config d of
           None \<Rightarrow> None
         | Some c \<Rightarrow>
             if ds_MediaType c \<notin> set configTypes then Some ErrUnsupported
             else if list_ex (\<lambda>x. ds_MediaType x \<notin> set layerTypes) (layersOf d) then Some ErrUnsupported
             else None))"

definition Decode :: "(string \<Rightarrow> Document option) \<Rightarrow> string \<Rightarrow> string \<Rightarrow> graph_error + Document" where
  "Decode unmarshal body mediaType =
     (if body = [] \<or> length body > MaxManifestBytes then Inl ErrLimit
      else case unmarshal body of
        None \<Rightarrow> Inl ErrInvalid
      | Some d \<Rightarrow>
          if dc_SchemaVersion d \<noteq> 2 then Inl ErrInvalid
          else
            let m0 = trimSpace (hd (splitOn (CHR '';'') mediaType));
                m = (if m0 = [] then dc_MediaType d else m0)
            in if dc_MediaType d \<noteq> [] \<and> dc_MediaType d \<noteq> m then Inl ErrInvalid
               else
                 let d = d\<lparr>dc_MediaType := m\<rparr>
                 in if \<not> IsManifest m \<and> \<not> IsIndex m then Inl ErrUnsupported
                    else if dc_ArtifactType d \<noteq> [] \<or> (dc_Subject d \<noteq> [] \<and> dc_Subject d \<noteq> ''null'') then Inl ErrUnsupported
                    else if length (Dependencies d) > MaxObjects then Inl ErrLimit
                    else if (if IsIndex m then dc_Config d \<noteq> None \<or> layersOf d \<noteq> [] \<or> dc_Manifests d = []
                             else dc_Config d = None \<or> dc_Layers d = None \<or> dc_Manifests d \<noteq> [])
                    then Inl ErrInvalid
                    else case checkDescriptors (Dependencies d) of
                           Some e \<Rightarrow> Inl e
                         | None \<Rightarrow> (case checkMediaTypes m d of Some e \<Rightarrow> Inl e | None \<Rightarrow> Inr d))"

section \<open>Traversal\<close>

text \<open>
  The recursive closure of \<^verbatim>\<open>Validate\<close>. The map of known heights is threaded through the calls; a node is
  removed from \<^verbatim>\<open>active\<close> when its call returns, so the active nodes are passed down only. The depth
  bound ends the recursion.
\<close>

function (sequential)
  visit :: "string \<Rightarrow> Object gomap \<Rightarrow> string \<Rightarrow> nat \<Rightarrow> nat gomap \<Rightarrow> string list \<Rightarrow> (graph_error + nat) \<times> nat gomap"
  and visitEach :: "string \<Rightarrow> Object gomap \<Rightarrow> Descriptor list \<Rightarrow> nat \<Rightarrow> nat \<Rightarrow> nat gomap \<Rightarrow> string list
     \<Rightarrow> (graph_error + nat) \<times> nat gomap" where
  "visit root byDigest digest depth heights active =
     (if depth > MaxDepth then (Inl ErrLimit, heights)
      else if digest \<in> set active then (Inl ErrInvalid, heights)
      else case gm_get heights digest of
        Some height \<Rightarrow> if depth + height > MaxDepth then (Inl ErrLimit, heights) else (Inr height, heights)
      | None \<Rightarrow>
          (case gm_get byDigest digest of
             None \<Rightarrow> (Inl ErrIncomplete, heights)
           | Some object \<Rightarrow>
               (case ob_Document object of
                  None \<Rightarrow>
                    if digest = root \<or> IsIndex (ob_MediaType object) \<or> IsManifest (ob_MediaType object)
                    then (Inl ErrInvalid, heights)
                    else (Inr 0, gm_put digest 0 heights)
                | Some doc \<Rightarrow>
                    if dc_MediaType doc \<noteq> ob_MediaType object then (Inl ErrInvalid, heights)
                    else
                      (case visitEach root byDigest (Dependencies doc) depth 0 heights (digest # active) of
                         (Inl e, hs) \<Rightarrow> (Inl e, hs)
                       | (Inr height, hs) \<Rightarrow> (Inr height, gm_put digest height hs)))))"
| "visitEach root byDigest [] depth height heights active = (Inr height, heights)"
| "visitEach root byDigest (d # ds) depth height heights active =
     (case gm_get byDigest (ds_Digest d) of
        None \<Rightarrow> (Inl ErrIncomplete, heights)
      | Some child \<Rightarrow>
          if ds_Size d \<noteq> Some (ob_Size child) \<or> ob_MediaType child \<noteq> ds_MediaType d then (Inl ErrInvalid, heights)
          else
            (case visit root byDigest (ds_Digest d) (depth + 1) heights active of
               (Inl e, hs) \<Rightarrow> (Inl e, hs)
             | (Inr childHeight, hs) \<Rightarrow> visitEach root byDigest ds depth (max height (childHeight + 1)) hs active))"
  by pat_completeness auto
termination
  by (relation "inv_image (less_than <*lex*> less_than <*lex*> less_than)
        (\<lambda>x. case x of
           Inl (_, _, _, depth, _, _) \<Rightarrow> (9 - depth, if depth \<le> 8 then 2 else 0, 0)
         | Inr (_, _, ds, depth, _, _, _) \<Rightarrow> (9 - depth, 1, length ds))")
    (auto simp: MaxDepth_def)

declare visit.simps [simp del] visitEach.simps(2) [simp del]

fun indexObjects ::
  "(Document \<Rightarrow> string option) \<Rightarrow> (string \<Rightarrow> Document option) \<Rightarrow> Object list \<Rightarrow> Object gomap \<Rightarrow> graph_error + Object gomap" where
  "indexObjects marshal unmarshal [] byDigest = Inr byDigest"
| "indexObjects marshal unmarshal (object # os) byDigest =
     (if \<not> ValidDigest (ob_Digest object) \<or> ob_Size object < 0 then Inl ErrInvalid
      else if gm_get byDigest (ob_Digest object) \<noteq> None then Inl ErrInvalid
      else case (case ob_Document object of
                   None \<Rightarrow> None
                 | Some doc \<Rightarrow>
                     (case marshal doc of
                        None \<Rightarrow> Some ErrInvalid
                      | Some encoded \<Rightarrow>
                          (case Decode unmarshal encoded (ob_MediaType object) of Inl e \<Rightarrow> Some e | Inr _ \<Rightarrow> None))) of
             Some e \<Rightarrow> Inl e
           | None \<Rightarrow> indexObjects marshal unmarshal os (gm_put (ob_Digest object) object byDigest))"

definition Validate ::
  "(Document \<Rightarrow> string option) \<Rightarrow> (string \<Rightarrow> Document option) \<Rightarrow> string \<Rightarrow> Object list \<Rightarrow> graph_error option" where
  "Validate marshal unmarshal root objects =
     (if \<not> ValidDigest root \<or> objects = [] then Some ErrInvalid
      else if length objects > MaxObjects then Some ErrLimit
      else case indexObjects marshal unmarshal objects [] of
        Inl e \<Rightarrow> Some e
      | Inr byDigest \<Rightarrow>
          (case visit root byDigest root 0 [] [] of
             (Inl e, heights) \<Rightarrow> Some e
           | (Inr _, heights) \<Rightarrow> if length heights \<noteq> length objects then Some ErrInvalid else None))"

end
