(* ===== verification/OciGraphLaws.thy ===== *)
theory OciGraphLaws
  imports OciGraph
begin

text \<open>
  The traversal decides an abstract property of the graph: the objects are exactly what the root reaches,
  every edge leads to a member that matches its descriptor, and no path from the root is longer than
  the depth bound. Both directions are proved by induction over the calls of the traversal.
\<close>

section \<open>The graph a set of objects describes\<close>

definition edges :: "Object gomap \<Rightarrow> (string \<times> string) set" where
  "edges g = {(a, b). \<exists>object doc d. gm_get g a = Some object \<and> ob_Document object = Some doc \<and>
     d \<in> set (Dependencies doc) \<and> b = ds_Digest d}"

definition matches :: "Object gomap \<Rightarrow> Descriptor \<Rightarrow> bool" where
  "matches g d \<longleftrightarrow> (\<exists>child. gm_get g (ds_Digest d) = Some child \<and> ds_Size d = Some (ob_Size child) \<and>
     ds_MediaType d = ob_MediaType child)"

definition node_ok :: "string \<Rightarrow> Object gomap \<Rightarrow> string \<Rightarrow> Object \<Rightarrow> bool" where
  "node_ok root g digest object \<longleftrightarrow>
     (case ob_Document object of
        None \<Rightarrow> digest \<noteq> root \<and> \<not> IsIndex (ob_MediaType object) \<and> \<not> IsManifest (ob_MediaType object)
      | Some doc \<Rightarrow> dc_MediaType doc = ob_MediaType object \<and> (\<forall>d \<in> set (Dependencies doc). matches g d))"

definition byDigestOf :: "Object list \<Rightarrow> Object gomap" where
  "byDigestOf objects = map (\<lambda>object. (ob_Digest object, object)) objects"

definition object_ok :: "(Document \<Rightarrow> string option) \<Rightarrow> (string \<Rightarrow> Document option) \<Rightarrow> Object \<Rightarrow> bool" where
  "object_ok marshal unmarshal object \<longleftrightarrow>
     ValidDigest (ob_Digest object) \<and> 0 \<le> ob_Size object \<and>
     (\<forall>doc. ob_Document object = Some doc \<longrightarrow>
        (\<exists>encoded decoded. marshal doc = Some encoded \<and> Decode unmarshal encoded (ob_MediaType object) = Inr decoded))"

definition exact_closure :: "string \<Rightarrow> Object list \<Rightarrow> bool" where
  "exact_closure root objects \<longleftrightarrow>
     (let g = byDigestOf objects in
        root \<in> ob_Digest ` set objects \<and>
        (\<forall>object \<in> set objects. node_ok root g (ob_Digest object) object \<and> (root, ob_Digest object) \<in> (edges g)\<^sup>*) \<and>
        (\<forall>n x. (root, x) \<in> edges g ^^ n \<longrightarrow> n \<le> MaxDepth))"

lemma edgesE:
  assumes "(a, b) \<in> edges g"
  obtains object doc d where "gm_get g a = Some object" "ob_Document object = Some doc"
    "d \<in> set (Dependencies doc)" "b = ds_Digest d"
  using assms by (auto simp: edges_def)

lemma edgesI:
  "gm_get g a = Some object \<Longrightarrow> ob_Document object = Some doc \<Longrightarrow> d \<in> set (Dependencies doc) \<Longrightarrow> (a, ds_Digest d) \<in> edges g"
  by (auto simp: edges_def)

section \<open>The table of objects\<close>

lemma indexObjects_iff:
  "indexObjects marshal unmarshal os acc = Inr g \<longleftrightarrow>
     (\<forall>object \<in> set os. object_ok marshal unmarshal object \<and> ob_Digest object \<notin> fst ` set acc) \<and>
     distinct (map ob_Digest os) \<and> g = acc @ byDigestOf os"
proof (induction os arbitrary: acc)
  case Nil
  then show ?case by (auto simp: byDigestOf_def)
next
  case (Cons object os)
  show ?case
  proof (cases "object_ok marshal unmarshal object \<and> ob_Digest object \<notin> fst ` set acc")
    case True
    then have "indexObjects marshal unmarshal (object # os) acc =
        indexObjects marshal unmarshal os (acc @ [(ob_Digest object, object)])"
      by (auto simp: object_ok_def update_absent map_of_eq_None_iff split: option.splits sum.splits)
    then show ?thesis
      using True Cons.IH [of "acc @ [(ob_Digest object, object)]"]
      by (auto simp: byDigestOf_def image_iff)
  next
    case False
    then have "indexObjects marshal unmarshal (object # os) acc \<noteq> Inr g"
      by (force simp: object_ok_def map_of_eq_None_iff split: option.splits sum.splits if_splits)
    with False show ?thesis by auto
  qed
qed

lemma byDigestOf_get:
  "distinct (map ob_Digest os) \<Longrightarrow> gm_get (byDigestOf os) d = Some object \<longleftrightarrow> object \<in> set os \<and> ob_Digest object = d"
  by (induction os) (auto simp: byDigestOf_def image_iff)

section \<open>What a successful traversal has established\<close>

text \<open>A known height is the length of a longest path: every successor is known with a smaller one, and one attains it.\<close>

definition known :: "string \<Rightarrow> Object gomap \<Rightarrow> nat gomap \<Rightarrow> bool" where
  "known root g hs \<longleftrightarrow> gm_ok hs \<and>
     (\<forall>x h. gm_get hs x = Some h \<longrightarrow>
        (\<exists>object. gm_get g x = Some object \<and> node_ok root g x object) \<and>
        (\<forall>c. (x, c) \<in> edges g \<longrightarrow> (\<exists>hc. gm_get hs c = Some hc \<and> hc < h)) \<and>
        (h = 0 \<or> (\<exists>c. (x, c) \<in> edges g \<and> gm_get hs c = Some (h - 1))))"

lemma known_path_bound:
  assumes "known root g hs"
  shows "gm_get hs x = Some h \<Longrightarrow> (x, y) \<in> edges g ^^ n \<Longrightarrow> n \<le> h \<and> gm_get hs y \<noteq> None"
proof (induction n arbitrary: x h)
  case 0
  then show ?case by simp
next
  case (Suc n)
  then obtain c where c: "(x, c) \<in> edges g" "(c, y) \<in> edges g ^^ n"
    by (meson relpow_Suc_D2)
  then obtain hc where "gm_get hs c = Some hc" "hc < h"
    using assms Suc.prems(1) unfolding known_def by blast
  with Suc.IH c(2) show ?case by fastforce
qed

lemma known_attained:
  assumes "known root g hs"
  shows "gm_get hs x = Some h \<Longrightarrow> \<exists>y. (x, y) \<in> edges g ^^ h"
proof (induction h arbitrary: x)
  case 0
  then show ?case by auto
next
  case (Suc h)
  then obtain c where "(x, c) \<in> edges g" "gm_get hs c = Some h"
    using assms unfolding known_def by fastforce
  with Suc.IH show ?case by (meson relpow_Suc_I2)
qed

lemma known_put:
  assumes "known root g hs" and "gm_get hs x = None"
    and "gm_get g x = Some object" and "node_ok root g x object"
    and "\<And>c. (x, c) \<in> edges g \<Longrightarrow> \<exists>hc. gm_get hs c = Some hc \<and> hc < h"
    and "h = 0 \<or> (\<exists>c. (x, c) \<in> edges g \<and> gm_get hs c = Some (h - 1))"
  shows "known root g (gm_put x h hs)"
  unfolding known_def
proof (intro conjI allI impI)
  have keep: "gm_get (gm_put x h hs) c = Some hc" if "gm_get hs c = Some hc" for c hc
    using that assms(2) by auto
  show "gm_ok (gm_put x h hs)"
    using assms(1) by (simp add: known_def)
  fix y k
  assume "gm_get (gm_put x h hs) y = Some k"
  then have or: "y = x \<and> k = h \<or> gm_get hs y = Some k"
    by (auto split: if_splits)
  have "(\<exists>object. gm_get g y = Some object \<and> node_ok root g y object) \<and>
      (\<forall>c. (y, c) \<in> edges g \<longrightarrow> (\<exists>hc. gm_get hs c = Some hc \<and> hc < k)) \<and>
      (k = 0 \<or> (\<exists>c. (y, c) \<in> edges g \<and> gm_get hs c = Some (k - 1)))"
  proof (cases "gm_get hs y = Some k")
    case True
    with assms(1) show ?thesis unfolding known_def by blast
  next
    case False
    with or have "y = x" "k = h" by blast+
    with assms(3-6) show ?thesis by blast
  qed
  then show "\<exists>object. gm_get g y = Some object \<and> node_ok root g y object"
    and "k = 0 \<or> (\<exists>c. (y, c) \<in> edges g \<and> gm_get (gm_put x h hs) c = Some (k - 1))"
    and "\<And>c. (y, c) \<in> edges g \<Longrightarrow> \<exists>hc. gm_get (gm_put x h hs) c = Some hc \<and> hc < k"
    using keep by blast+
qed

text \<open>
  The effect of a successful call: known heights stay, new ones belong to nodes the call reaches, and the
  nodes on the way down are not among them.
\<close>

definition grows :: "Object gomap \<Rightarrow> string list \<Rightarrow> string set \<Rightarrow> nat gomap \<Rightarrow> nat gomap \<Rightarrow> bool" where
  "grows g active from hs hs' \<longleftrightarrow>
     (\<forall>x h. gm_get hs x = Some h \<longrightarrow> gm_get hs' x = Some h) \<and>
     (\<forall>x h. gm_get hs' x = Some h \<longrightarrow> gm_get hs x = Some h \<or> (\<exists>y \<in> from. (y, x) \<in> (edges g)\<^sup>*)) \<and>
     (\<forall>a \<in> set active. gm_get hs a = None \<longrightarrow> gm_get hs' a = None)"

lemma grows_refl [simp]: "grows g active from hs hs"
  by (simp add: grows_def)

lemma grows_trans: "grows g active A hs hs' \<Longrightarrow> grows g active B hs' hs'' \<Longrightarrow> grows g active (A \<union> B) hs hs''"
  unfolding grows_def by (intro conjI allI impI; (metis UnI1 UnI2)?)

lemma growsD: "grows g active from hs hs' \<Longrightarrow> gm_get hs x = Some h \<Longrightarrow> gm_get hs' x = Some h"
  by (simp add: grows_def)

definition clear :: "string list \<Rightarrow> nat gomap \<Rightarrow> bool" where
  "clear active hs \<longleftrightarrow> (\<forall>a \<in> set active. gm_get hs a = None)"

lemma clear_grows: "clear active hs \<Longrightarrow> grows g active from hs hs' \<Longrightarrow> clear active hs'"
  by (auto simp: clear_def grows_def)

definition visited :: "string \<Rightarrow> Object gomap \<Rightarrow> string \<Rightarrow> nat \<Rightarrow> string list \<Rightarrow> nat gomap \<Rightarrow> nat \<Rightarrow> nat gomap \<Rightarrow> bool" where
  "visited root g digest depth active hs h hs' \<longleftrightarrow>
     known root g hs' \<and> gm_get hs' digest = Some h \<and> depth + h \<le> MaxDepth \<and> grows g active {digest} hs hs'"

definition visitedEach ::
  "string \<Rightarrow> Object gomap \<Rightarrow> Descriptor list \<Rightarrow> nat \<Rightarrow> nat \<Rightarrow> string list \<Rightarrow> nat gomap \<Rightarrow> nat \<Rightarrow> nat gomap \<Rightarrow> bool" where
  "visitedEach root g ds depth height active hs h hs' \<longleftrightarrow>
     known root g hs' \<and> height \<le> h \<and> (depth + height \<le> MaxDepth \<longrightarrow> depth + h \<le> MaxDepth) \<and>
     (\<forall>d \<in> set ds. matches g d \<and> (\<exists>hc. gm_get hs' (ds_Digest d) = Some hc \<and> hc < h)) \<and>
     (h = height \<or> (\<exists>d \<in> set ds. gm_get hs' (ds_Digest d) = Some (h - 1))) \<and>
     grows g active (ds_Digest ` set ds) hs hs'"

lemma visit_leaf:
  assumes "known root g hs" and "clear active hs" and "gm_get hs digest = None" and "digest \<notin> set active"
    and "gm_get g digest = Some object" and "ob_Document object = None" and "node_ok root g digest object"
    and "depth \<le> MaxDepth"
  shows "visited root g digest depth active hs 0 (gm_put digest 0 hs)"
proof -
  have "(digest, c) \<notin> edges g" for c
    using assms(5,6) by (auto elim: edgesE)
  then have "known root g (gm_put digest 0 hs)"
    using assms by (intro known_put) auto
  with assms show ?thesis
    by (auto simp: visited_def grows_def clear_def)
qed

lemma visit_node:
  assumes each: "visitedEach root g (Dependencies doc) depth 0 (digest # active) hs h hs'"
    and "clear active hs" and "gm_get hs digest = None" and "digest \<notin> set active"
    and obj: "gm_get g digest = Some object" "ob_Document object = Some doc"
    and "dc_MediaType doc = ob_MediaType object" and "depth \<le> MaxDepth"
  shows "visited root g digest depth active hs h (gm_put digest h hs')"
proof -
  have fresh: "gm_get hs' digest = None"
    using each assms(3) by (simp add: visitedEach_def grows_def)
  have "node_ok root g digest object"
    using each assms(7) obj(2) by (simp add: node_ok_def visitedEach_def)
  moreover have "\<exists>hc. gm_get hs' c = Some hc \<and> hc < h" if "(digest, c) \<in> edges g" for c
    using that each obj by (auto simp: visitedEach_def elim!: edgesE)
  moreover have "h = 0 \<or> (\<exists>c. (digest, c) \<in> edges g \<and> gm_get hs' c = Some (h - 1))"
    using each edgesI [OF obj] unfolding visitedEach_def by blast
  ultimately have "known root g (gm_put digest h hs')"
    using each fresh obj(1) by (intro known_put) (auto simp: visitedEach_def)
  moreover have "grows g active {digest} hs (gm_put digest h hs')"
  proof -
    have step: "(digest, x) \<in> (edges g)\<^sup>*" if "d \<in> set (Dependencies doc)" "(ds_Digest d, x) \<in> (edges g)\<^sup>*" for d x
      using edgesI [OF obj that(1)] that(2) by (rule converse_rtrancl_into_rtrancl)
    have g: "grows g (digest # active) (ds_Digest ` set (Dependencies doc)) hs hs'"
      using each by (simp add: visitedEach_def)
    show ?thesis
      using g assms(3,4) step unfolding grows_def by (auto split: if_splits) blast
  qed
  ultimately show ?thesis
    using each assms(8) by (simp add: visited_def visitedEach_def)
qed

lemma traversal_sound:
  shows "known root g hs \<Longrightarrow> clear active hs \<Longrightarrow> visit root g digest depth hs active = (Inr h, hs') \<Longrightarrow>
      visited root g digest depth active hs h hs'"
    and "known root g hs \<Longrightarrow> clear active hs \<Longrightarrow> visitEach root g ds depth height hs active = (Inr h, hs') \<Longrightarrow>
      visitedEach root g ds depth height active hs h hs'"
proof (induction root g digest depth hs active and root g ds depth height hs active arbitrary: h hs' and h hs'
    rule: visit_visitEach.induct)
  case (1 root g digest depth hs active)
  from "1.prems"(3) have d: "depth \<le> MaxDepth" "digest \<notin> set active"
    by (subst (asm) visit.simps, simp split: if_splits)+
  show ?case
  proof (cases "gm_get hs digest")
    case (Some k)
    with "1.prems" d show ?thesis
      by (subst (asm) visit.simps) (auto simp: visited_def split: if_splits)
  next
    case None
    with "1.prems"(3) d obtain object where obj: "gm_get g digest = Some object"
      by (subst (asm) visit.simps) (auto split: option.splits)
    show ?thesis
    proof (cases "ob_Document object")
      case leaf: None
      with "1.prems"(3) d None obj have "h = 0" "hs' = gm_put digest 0 hs" "node_ok root g digest object"
        by (subst (asm) visit.simps, simp add: node_ok_def split: if_splits)+
      with visit_leaf [OF "1.prems"(1,2) None d(2) obj leaf _ d(1)] show ?thesis by simp
    next
      case (Some doc)
      with "1.prems"(3) d None obj have mt: "dc_MediaType doc = ob_MediaType object"
        by (subst (asm) visit.simps) (simp split: if_splits)
      with "1.prems"(3) d None obj Some obtain hs1
        where each: "visitEach root g (Dependencies doc) depth 0 hs (digest # active) = (Inr h, hs1)" "hs' = gm_put digest h hs1"
        by (subst (asm) visit.simps) (auto split: prod.splits sum.splits)
      have "clear (digest # active) hs"
        using "1.prems"(2) None by (simp add: clear_def)
      then have "visitedEach root g (Dependencies doc) depth 0 (digest # active) hs h hs1"
        using "1.IH" d None obj Some mt each(1) "1.prems"(1) by (simp add: not_less)
      from visit_node [OF this "1.prems"(2) None d(2) obj Some mt d(1)] each(2) show ?thesis by simp
    qed
  qed
next
  case (2 root g depth height hs active)
  then show ?case by (auto simp: visitedEach_def)
next
  case (3 root g d ds depth height hs active)
  from "3.prems"(3) have m: "matches g d"
    by (subst (asm) visitEach.simps) (auto simp: matches_def split: option.splits if_splits)
  then obtain child where child: "gm_get g (ds_Digest d) = Some child" "ds_Size d = Some (ob_Size child)"
    "ob_MediaType child = ds_MediaType d"
    by (auto simp: matches_def)
  with "3.prems"(3) obtain hc hs1 where v: "visit root g (ds_Digest d) (depth + 1) hs active = (Inr hc, hs1)"
    and r: "visitEach root g ds depth (max height (hc + 1)) hs1 active = (Inr h, hs')"
    by (subst (asm) visitEach.simps) (auto split: prod.splits sum.splits)
  have first: "visited root g (ds_Digest d) (depth + 1) active hs hc hs1"
    using "3.IH"(1) [OF child(1) _ "3.prems"(1,2) v] child(2,3) by simp
  then have "known root g hs1" "clear active hs1"
    using clear_grows [OF "3.prems"(2)] by (auto simp: visited_def)
  then have rest: "visitedEach root g ds depth (max height (hc + 1)) active hs1 h hs'"
    using "3.IH"(2) [OF child(1) _ v [symmetric] refl] r child(2,3) by simp
  have "gm_get hs' (ds_Digest d) = Some hc" "hc < h"
    using first rest by (auto simp: visited_def visitedEach_def grows_def)
  moreover have "grows g active (ds_Digest ` set (d # ds)) hs hs'"
    using grows_trans [of g active "{ds_Digest d}" hs hs1 "ds_Digest ` set ds" hs'] first rest
    by (simp add: visited_def visitedEach_def)
  moreover have "h = height \<or> (\<exists>d' \<in> set (d # ds). gm_get hs' (ds_Digest d') = Some (h - 1))"
    using rest \<open>gm_get hs' (ds_Digest d) = Some hc\<close> by (auto simp: visitedEach_def max_def split: if_splits)
  ultimately show ?case
    using first rest m by (auto simp: visited_def visitedEach_def)
qed

section \<open>The traversal of an exact closure succeeds\<close>

definition within :: "string \<Rightarrow> Object gomap \<Rightarrow> bool" where
  "within root g \<longleftrightarrow> (\<forall>x object. gm_get g x = Some object \<longrightarrow> node_ok root g x object) \<and>
     (\<forall>n x. (root, x) \<in> edges g ^^ n \<longrightarrow> n \<le> MaxDepth)"

lemma relpow_cycle: "(a, a) \<in> R ^^ m \<Longrightarrow> (a, a) \<in> R ^^ (m * k)"
proof (induction k)
  case (Suc k)
  then have "(a, a) \<in> R ^^ m O R ^^ (m * k)" by blast
  then show ?case by (simp add: relpow_add)
qed simp

lemma bounded_no_cycle:
  assumes bound: "\<And>n x. (root, x) \<in> R ^^ n \<Longrightarrow> n \<le> b" and "(root, a) \<in> R\<^sup>*"
  shows "(a, a) \<notin> R\<^sup>+"
proof
  assume "(a, a) \<in> R\<^sup>+"
  then obtain m where m: "0 < m" "(a, a) \<in> R ^^ m"
    by (auto simp: trancl_power)
  obtain n where "(root, a) \<in> R ^^ n"
    using assms(2) rtrancl_imp_relpow by metis
  then have "(root, a) \<in> R ^^ n O R ^^ (m * Suc b)"
    using relpow_cycle [OF m(2)] by blast
  then have "n + m * Suc b \<le> b"
    using bound by (simp add: relpow_add)
  with m(1) show False by (cases m) auto
qed

lemma visit_known_complete:
  assumes "within root g" and "known root g hs" and "(root, digest) \<in> edges g ^^ depth" and "gm_get hs digest = Some h"
  shows "depth + h \<le> MaxDepth"
proof -
  obtain y where "(digest, y) \<in> edges g ^^ h"
    using known_attained [OF assms(2,4)] by blast
  with assms(3) have "(root, y) \<in> edges g ^^ (depth + h)"
    by (auto simp: relpow_add)
  with assms(1) show ?thesis unfolding within_def by blast
qed

lemma traversal_complete:
  shows "within root g \<Longrightarrow> known root g hs \<Longrightarrow> clear active hs \<Longrightarrow> (root, digest) \<in> edges g ^^ depth \<Longrightarrow>
      gm_get g digest \<noteq> None \<Longrightarrow> \<forall>a \<in> set active. (a, digest) \<in> (edges g)\<^sup>+ \<Longrightarrow>
      \<exists>h hs'. visit root g digest depth hs active = (Inr h, hs')"
    and "within root g \<Longrightarrow> known root g hs \<Longrightarrow> clear active hs \<Longrightarrow> (root, x) \<in> edges g ^^ depth \<Longrightarrow>
      \<forall>d \<in> set ds. (x, ds_Digest d) \<in> edges g \<and> matches g d \<Longrightarrow> \<forall>a \<in> set active. a = x \<or> (a, x) \<in> (edges g)\<^sup>+ \<Longrightarrow>
      \<exists>h hs'. visitEach root g ds depth height hs active = (Inr h, hs')"
proof (induction root g digest depth hs active and root g ds depth height hs active arbitrary: and x
    rule: visit_visitEach.induct)
  case (1 root g digest depth hs active)
  note within = "1.prems"(1)
  obtain object where obj: "gm_get g digest = Some object"
    using "1.prems"(5) by blast
  then have node: "node_ok root g digest object" and depth: "depth \<le> MaxDepth"
    using within "1.prems"(4) by (auto simp: within_def)
  have acyclic: "digest \<notin> set active"
    using bounded_no_cycle [of root "edges g" MaxDepth digest] within "1.prems"(4,6) relpow_imp_rtrancl
    unfolding within_def by blast
  show ?case
  proof (cases "gm_get hs digest")
    case (Some h)
    with visit_known_complete [OF within "1.prems"(2,4)] depth acyclic show ?thesis
      by (subst visit.simps) simp
  next
    case None
    show ?thesis
    proof (cases "ob_Document object")
      case leaf: None
      with obj None node depth acyclic show ?thesis
        by (subst visit.simps) (simp add: node_ok_def)
    next
      case (Some doc)
      then have mt: "dc_MediaType doc = ob_MediaType object" and deps: "\<forall>d \<in> set (Dependencies doc). matches g d"
        using node by (simp_all add: node_ok_def)
      have "clear (digest # active) hs"
        using "1.prems"(3) None by (simp add: clear_def)
      then have "\<exists>h hs'. visitEach root g (Dependencies doc) depth 0 hs (digest # active) = (Inr h, hs')"
        using "1.IH" [of object doc digest] depth acyclic None obj Some mt within "1.prems"(2,4,6) deps edgesI [OF obj Some]
        by (simp add: not_less)
      with obj None Some mt depth acyclic show ?thesis
        by (subst visit.simps) auto
    qed
  qed
next
  case (2 root g depth height hs active)
  then show ?case by simp
next
  case (3 root g d ds depth height hs active)
  obtain child where child: "gm_get g (ds_Digest d) = Some child"
    and m: "\<not> (ds_Size d \<noteq> Some (ob_Size child) \<or> ob_MediaType child \<noteq> ds_MediaType d)"
    using "3.prems"(5) by (auto simp: matches_def)
  have e: "(x, ds_Digest d) \<in> edges g"
    using "3.prems"(5) by simp
  then have "\<forall>a \<in> set active. (a, ds_Digest d) \<in> (edges g)\<^sup>+" and "(root, ds_Digest d) \<in> edges g ^^ (depth + 1)"
    using "3.prems"(4,6) by (auto intro: trancl_into_trancl)
  then obtain hc hs1 where v: "visit root g (ds_Digest d) (depth + 1) hs active = (Inr hc, hs1)"
    using "3.IH"(1) [OF child m "3.prems"(1-3)] child by blast
  have "visited root g (ds_Digest d) (depth + 1) active hs hc hs1"
    using traversal_sound(1) [OF "3.prems"(2,3) v] .
  then have "known root g hs1" "clear active hs1"
    using clear_grows [OF "3.prems"(3)] by (auto simp: visited_def)
  then have "\<exists>h hs'. visitEach root g ds depth (max height (hc + 1)) hs1 active = (Inr h, hs')"
    using "3.IH"(2) [OF child m v [symmetric] refl "3.prems"(1) _ _ "3.prems"(4) _ "3.prems"(6)] "3.prems"(5) by simp
  with child m v show ?case
    by (subst visitEach.simps) auto
qed

section \<open>The properties of the validation\<close>

lemma known_all:
  assumes ok: "known root g hs" and root: "gm_get hs root \<noteq> None" and "(root, x) \<in> (edges g)\<^sup>*"
  shows "gm_get hs x \<noteq> None"
proof -
  obtain n h where "(root, x) \<in> edges g ^^ n" "gm_get hs root = Some h"
    using assms rtrancl_imp_relpow by (metis option.exhaust)
  then show ?thesis
    using known_path_bound [OF ok] by blast
qed

lemma known_keys:
  assumes "known root (byDigestOf objects) hs" and "distinct (map ob_Digest objects)"
  shows "set (map fst hs) \<subseteq> ob_Digest ` set objects"
proof
  fix x
  assume "x \<in> set (map fst hs)"
  then obtain h where "gm_get hs x = Some h"
    by (metis list.set_map map_of_eq_None_iff option.exhaust)
  then obtain object where "gm_get (byDigestOf objects) x = Some object"
    using assms(1) unfolding known_def by blast
  then have "object \<in> set objects" "ob_Digest object = x"
    using byDigestOf_get [OF assms(2)] by simp_all
  then show "x \<in> ob_Digest ` set objects"
    by auto
qed

lemma full_iff:
  assumes "known root (byDigestOf objects) hs" and d: "distinct (map ob_Digest objects)"
  shows "length hs = length objects \<longleftrightarrow> ob_Digest ` set objects \<subseteq> set (map fst hs)"
proof -
  have len: "length hs = card (set (map fst hs))" "length objects = card (ob_Digest ` set objects)"
    using assms distinct_card [of "map fst hs"] distinct_card [OF d] by (simp_all add: known_def gm_ok_def)
  have sub: "set (map fst hs) \<subseteq> ob_Digest ` set objects"
    using known_keys [OF assms] .
  show ?thesis
  proof
    assume "length hs = length objects"
    then have "set (map fst hs) = ob_Digest ` set objects"
      using sub len by (intro card_subset_eq) auto
    then show "ob_Digest ` set objects \<subseteq> set (map fst hs)" by blast
  next
    assume "ob_Digest ` set objects \<subseteq> set (map fst hs)"
    with sub len show "length hs = length objects"
      by (metis subset_antisym)
  qed
qed

lemma known_Nil: "known root g []" "clear [] hs"
  by (simp_all add: known_def clear_def)

lemma closure_of_traversal:
  assumes v: "visit root (byDigestOf objects) root 0 [] [] = (Inr h, hs)" and full: "length hs = length objects"
    and d: "distinct (map ob_Digest objects)"
  shows "exact_closure root objects"
proof -
  let ?g = "byDigestOf objects"
  have vis: "visited root ?g root 0 [] [] h hs"
    using traversal_sound(1) [OF known_Nil v] .
  then have k: "known root ?g hs" and r: "gm_get hs root = Some h" and b: "h \<le> MaxDepth"
    and gr: "grows ?g [] {root} [] hs"
    by (auto simp: visited_def)
  have "\<exists>h'. gm_get hs (ob_Digest object) = Some h'" if "object \<in> set objects" for object
    using full that unfolding full_iff [OF k d] by (metis image_subset_iff list.set_map map_of_eq_None_iff option.exhaust)
  moreover have "n \<le> MaxDepth" if "(root, x) \<in> edges ?g ^^ n" for n x
    using known_path_bound [OF k r that] b by simp
  moreover have "root \<in> ob_Digest ` set objects"
    using r known_keys [OF k d] by (metis list.set_map map_of_eq_None_iff option.distinct(1) subsetD)
  moreover have "node_ok root ?g (ob_Digest object) object \<and> (root, ob_Digest object) \<in> (edges ?g)\<^sup>*"
    if "object \<in> set objects" "gm_get hs (ob_Digest object) = Some h'" for object h'
  proof
    have "gm_get ?g (ob_Digest object) = Some object"
      using that(1) byDigestOf_get [OF d] by blast
    then show "node_ok root ?g (ob_Digest object) object"
      using k that(2) unfolding known_def by (metis option.inject)
    show "(root, ob_Digest object) \<in> (edges ?g)\<^sup>*"
      using gr that(2) by (auto simp: grows_def)
  qed
  ultimately show ?thesis
    unfolding exact_closure_def Let_def by blast
qed

lemma traversal_of_closure:
  assumes c: "exact_closure root objects" and d: "distinct (map ob_Digest objects)"
  shows "\<exists>h hs. visit root (byDigestOf objects) root 0 [] [] = (Inr h, hs) \<and> length hs = length objects"
proof -
  let ?g = "byDigestOf objects"
  have w: "within root ?g" and r: "gm_get ?g root \<noteq> None"
    using c by (auto simp: exact_closure_def within_def Let_def byDigestOf_get [OF d] image_iff)
  then obtain h hs where v: "visit root ?g root 0 [] [] = (Inr h, hs)"
    using traversal_complete(1) [OF w known_Nil(1) known_Nil(2), of root 0] by auto
  then have k: "known root ?g hs" and hr: "gm_get hs root \<noteq> None"
    using traversal_sound(1) [OF known_Nil v] by (auto simp: visited_def)
  have "ob_Digest ` set objects \<subseteq> set (map fst hs)"
  proof
    fix x
    assume "x \<in> ob_Digest ` set objects"
    then have "(root, x) \<in> (edges ?g)\<^sup>*"
      using c by (auto simp: exact_closure_def Let_def)
    then show "x \<in> set (map fst hs)"
      using known_all [OF k hr] by (simp add: map_of_eq_None_iff)
  qed
  with v full_iff [OF k d] show ?thesis by blast
qed

lemma validate_exact_parts:
  "Validate marshal unmarshal root objects = None \<longleftrightarrow>
     length objects \<le> MaxObjects \<and> (\<forall>object \<in> set objects. object_ok marshal unmarshal object) \<and>
     distinct (map ob_Digest objects) \<and> exact_closure root objects" (is "?accepted \<longleftrightarrow> ?spec")
  "Validate marshal unmarshal root objects = None \<Longrightarrow> acyclic (edges (byDigestOf objects))"
proof -
  have index: "indexObjects marshal unmarshal objects [] = Inr g \<longleftrightarrow>
      (\<forall>object \<in> set objects. object_ok marshal unmarshal object) \<and> distinct (map ob_Digest objects) \<and> g = byDigestOf objects" for g
    using indexObjects_iff [of marshal unmarshal objects "[]" g] by simp
  show iff: "?accepted \<longleftrightarrow> ?spec"
  proof
    assume ?accepted
    then obtain g h hs where "indexObjects marshal unmarshal objects [] = Inr g" "length objects \<le> MaxObjects"
      "visit root g root 0 [] [] = (Inr h, hs)" "length hs = length objects"
      by (auto simp: Validate_def split: if_splits sum.splits prod.splits)
    then show ?spec
      using index closure_of_traversal by auto
  next
    assume spec: ?spec
    then have "indexObjects marshal unmarshal objects [] = Inr (byDigestOf objects)"
      using index by simp
    moreover have "root \<in> ob_Digest ` set objects"
      using spec by (simp add: exact_closure_def Let_def)
    then have "ValidDigest root" "objects \<noteq> []"
      using spec by (auto simp: object_ok_def)
    ultimately show ?accepted
      using traversal_of_closure [of root objects] spec by (auto simp: Validate_def)
  qed
  show "acyclic (edges (byDigestOf objects))" if ?accepted
  proof -
    from that iff have d: "distinct (map ob_Digest objects)" and c: "exact_closure root objects"
      by blast+
    have "(x, x) \<notin> (edges (byDigestOf objects))\<^sup>+" for x
    proof
      assume cyc: "(x, x) \<in> (edges (byDigestOf objects))\<^sup>+"
      then obtain y where "(x, y) \<in> edges (byDigestOf objects)"
        by (meson tranclD)
      then have "(root, x) \<in> (edges (byDigestOf objects))\<^sup>*"
        using c by (auto simp: exact_closure_def Let_def byDigestOf_get [OF d] elim!: edgesE)
      with cyc bounded_no_cycle [of root "edges (byDigestOf objects)" MaxDepth x] c show False
        by (auto simp: exact_closure_def Let_def)
    qed
    then show ?thesis by (simp add: acyclic_def)
  qed
qed

text \<open>
  C7. Validation decides exact closure. A set of objects is accepted exactly when it has at most 1024
  objects with valid, distinct digests whose documents pass decoding, the root is one of them, every
  object is reached from the root, every reference leads to a member with the announced size and media
  type, only other than manifests and indexes lack a document, and no path from the root is longer than eight. An accepted graph
  has no cycle.
\<close>

theorem validate_exact:
  "(Validate marshal unmarshal root objects = None \<longleftrightarrow>
     length objects \<le> MaxObjects \<and> (\<forall>object \<in> set objects. object_ok marshal unmarshal object) \<and>
     distinct (map ob_Digest objects) \<and> exact_closure root objects) \<and>
   (Validate marshal unmarshal root objects = None \<longrightarrow> acyclic (edges (byDigestOf objects)))"
  using validate_exact_parts [of marshal unmarshal root objects] by blast

section \<open>Witness\<close>

definition exampleDigest :: "char \<Rightarrow> string" where
  "exampleDigest c = ''sha256:'' @ replicate 64 c"

definition exampleManifest :: Document where
  "exampleManifest = \<lparr>dc_SchemaVersion = 2, dc_MediaType = OCIManifest,
     dc_Config = Some \<lparr>ds_MediaType = ''application/vnd.oci.image.config.v1+json'', ds_Digest = exampleDigest (CHR ''b''),
       ds_Size = Some 7, ds_URLs = [], ds_Data = []\<rparr>,
     dc_Layers = Some [], dc_Manifests = [], dc_Subject = [], dc_ArtifactType = []\<rparr>"

definition exampleObjects :: "Object list" where
  "exampleObjects =
     [\<lparr>ob_Digest = exampleDigest (CHR ''a''), ob_Size = 2, ob_MediaType = OCIManifest, ob_Document = Some exampleManifest\<rparr>,
      \<lparr>ob_Digest = exampleDigest (CHR ''b''), ob_Size = 7, ob_MediaType = ''application/vnd.oci.image.config.v1+json'',
       ob_Document = None\<rparr>]"

lemma exampleDigest_valid: "c \<in> set hexDigits \<Longrightarrow> ValidDigest (exampleDigest c)"
  by (simp add: ValidDigest_def exampleDigest_def hasPrefix_def list_all_iff)

lemma exampleDigest_inject [simp]: "exampleDigest c = exampleDigest c' \<longleftrightarrow> c = c'"
  by (simp add: exampleDigest_def)

lemma trimSpace_manifest: "trimSpace (hd (splitOn (CHR '';'') OCIManifest)) = OCIManifest"
proof -
  have "find (hasPrefix OCIManifest) spaceRunes = None" "find (hasSuffix OCIManifest) spaceRunes = None"
    by (simp_all add: spaceRunes_def upt_rec hasPrefix_def hasSuffix_def OCIManifest_def)
  then have "trimSpace OCIManifest = OCIManifest"
    by (simp add: trimSpace_def trimLeftSpace.simps trimRightSpace.simps)
  moreover have "hd (splitOn (CHR '';'') OCIManifest) = OCIManifest"
    by (simp add: OCIManifest_def)
  ultimately show ?thesis by simp
qed

lemma exampleManifest_decodes: "\<exists>d. Decode (\<lambda>_. Some exampleManifest) ''{}'' OCIManifest = Inr d"
  by (simp add: Decode_def trimSpace_manifest Let_def exampleManifest_def IsManifest_def IsIndex_def MaxManifestBytes_def
      MaxObjects_def Dependencies_def layersOf_def checkMediaTypes_def configTypes_def exampleDigest_valid hexDigits_def)
    (simp add: OCIManifest_def OCIIndex_def DockerList_def)

lemma exampleObjects_accepted:
  "Validate (\<lambda>_. Some ''{}'') (\<lambda>_. Some exampleManifest) (exampleDigest (CHR ''a'')) exampleObjects = None"
proof -
  obtain d where "Decode (\<lambda>_. Some exampleManifest) ''{}'' OCIManifest = Inr d"
    using exampleManifest_decodes by blast
  moreover have "ob_Document (hd exampleObjects) = Some exampleManifest"
    by (simp add: exampleObjects_def)
  ultimately show ?thesis
    by (simp add: Validate_def exampleObjects_def exampleDigest_valid hexDigits_def MaxObjects_def visit.simps visitEach.simps
        MaxDepth_def Dependencies_def layersOf_def exampleManifest_def IsIndex_def IsManifest_def)
      (simp add: OCIManifest_def OCIIndex_def DockerList_def DockerManifest_def)
qed

theorem validate_exact_witness:
  "exact_closure (exampleDigest (CHR ''a'')) exampleObjects \<and> acyclic (edges (byDigestOf exampleObjects))"
  using validate_exact [of "\<lambda>_. Some ''{}''" "\<lambda>_. Some exampleManifest" "exampleDigest (CHR ''a'')" exampleObjects]
    exampleObjects_accepted by blast

end
