(* ===== verification/CapacityPlan.thy ===== *)
theory CapacityPlan
  imports GoStrings
begin

text \<open>
  Capacity planning (\<^verbatim>\<open>internal/capacityplan/plan.go\<close>): a normalised inventory of references is evaluated
  against observed evidence on repositories, objects and free space. A \<^verbatim>\<open>*int64\<close> is an \<^typ>\<open>int option\<close>; a quantity
  that is unavailable, or leaves the range of \<^verbatim>\<open>int64\<close>, is \<^const>\<open>None\<close>.
\<close>

section \<open>Data\<close>

datatype Status = Sufficient | Insufficient | Unknown

record Reference =
  rf_RepositoryID :: string
  rf_LogicalKey :: string
  rf_ObjectKey :: string
  rf_Digest :: string
  rf_Size :: "int option"

record RepositoryCapacity =
  rc_RepositoryID :: string
  rc_UsedBytes :: "int option"
  rc_QuotaBytes :: "int option"

record Presence =
  pr_Key :: string
  pr_State :: string
  pr_Digest :: string
  pr_Size :: "int option"

record Membership =
  mb_RepositoryID :: string
  mb_Key :: string
  mb_State :: string
  mb_Digest :: string
  mb_Size :: "int option"

record Snapshot =
  sn_TargetID :: string
  sn_ObservedAt :: gotime
  sn_ValidUntil :: gotime
  sn_StoragePoolID :: string
  sn_FreeBytes :: "int option"
  sn_Repositories :: "RepositoryCapacity list"
  sn_Objects :: "Presence list"
  sn_References :: "Membership list"

record PeakBudget =
  pk_StoragePoolID :: string
  pk_DownloadBytes :: "int option"
  pk_UploadBytes :: "int option"
  pk_BackupBytes :: "int option"
  pk_RestoreBytes :: "int option"
  pk_HeadroomBytes :: "int option"

text \<open>A nil list of references is \<^const>\<open>None\<close>: it counts as an incomplete inventory.\<close>

record Plan =
  pl_SchemaVersion :: int
  pl_InventoryID :: string
  pl_Complete :: bool
  pl_TargetID :: string
  pl_References :: "Reference list option"
  pl_Snapshot :: Snapshot
  pl_Peak :: PeakBudget

record RepositoryResult =
  rr_RepositoryID :: string
  rr_Status :: Status
  rr_UsedBytes :: "int option"
  rr_QuotaBytes :: "int option"
  rr_AdditionalBytes :: "int option"
  rr_ProjectedBytes :: "int option"
  rr_KnownMinimumProjectedBytes :: "int option"
  rr_Reasons :: "string list"

record StorageResult =
  sr_Status :: Status
  sr_FreeBytes :: "int option"
  sr_AdditionalBytes :: "int option"
  sr_RequiredFreeBytes :: "int option"
  sr_KnownMinimumFreeBytes :: "int option"
  sr_Peak :: PeakBudget
  sr_Reasons :: "string list"

record Report =
  rp_SchemaVersion :: int
  rp_InputSHA256 :: string
  rp_InventoryID :: string
  rp_CheckedAt :: gotime
  rp_Status :: Status
  rp_Reasons :: "string list"
  rp_Repositories :: "RepositoryResult list"
  rp_Storage :: StorageResult

record repositoryGrowth =
  gr_total :: "int option"
  gr_minimum :: "int option"
  gr_verified :: "int option"
  gr_reasons :: "string list"

type_synonym logicalIdentity = "string \<times> string"

section \<open>Quantities\<close>

definition maxInt64 :: int where
  "maxInt64 = 2 ^ 63 - 1"

definition add :: "int option \<Rightarrow> int option \<Rightarrow> int option" where
  "add a b =
     (case a of
        None \<Rightarrow> None
      | Some x \<Rightarrow> (case b of
          None \<Rightarrow> None
        | Some y \<Rightarrow> if x < 0 \<or> y < 0 \<or> y > maxInt64 - x then None else Some (x + y)))"

definition addMinimum :: "int option \<Rightarrow> int option \<Rightarrow> int option" where
  "addMinimum sofar component = (if component = None then sofar else add sofar component)"

definition nonnegative :: "int option \<Rightarrow> int option" where
  "nonnegative n = (case n of None \<Rightarrow> None | Some x \<Rightarrow> if x < 0 then None else Some x)"

definition sameBytes :: "Reference \<Rightarrow> Reference \<Rightarrow> bool" where
  "sameBytes a b \<longleftrightarrow> rf_Digest a = rf_Digest b \<and> rf_Size a \<noteq> None \<and> rf_Size a = rf_Size b"

definition validKey :: "string \<Rightarrow> bool" where
  "validKey key \<longleftrightarrow> key \<noteq> [] \<and> length key \<le> 4096 \<and> \<not> containsAny key [CHR 0x00, CHR 0x0D, CHR 0x0A]"

definition isHex :: "char \<Rightarrow> bool" where
  "isHex c \<longleftrightarrow> c \<in> set ''0123456789abcdefABCDEF''"

definition validDigest :: "string \<Rightarrow> bool" where
  "validDigest digest \<longleftrightarrow> hasPrefix digest ''sha256:'' \<and> length digest = 71 \<and> list_all isHex (drop 7 digest)"

definition isAlnum :: "char \<Rightarrow> bool" where
  "isAlnum c \<longleftrightarrow> c \<in> set ''ABCDEFGHIJKLMNOPQRSTUVWXYZabcdefghijklmnopqrstuvwxyz0123456789''"

definition identityPattern :: "string \<Rightarrow> bool" where
  "identityPattern s =
     (case s of [] \<Rightarrow> False
      | c # cs \<Rightarrow> isAlnum c \<and> length cs \<le> 127 \<and> list_all (\<lambda>x. isAlnum x \<or> x \<in> set ''._:-'') cs)"

definition combine :: "Status \<Rightarrow> Status \<Rightarrow> Status" where
  "combine a b =
     (if a = Insufficient \<or> b = Insufficient then Insufficient
      else if a = Unknown \<or> b = Unknown then Unknown else Sufficient)"

definition uniqueReasons :: "string list \<Rightarrow> string list" where
  "uniqueReasons reasons = sort (remdups reasons)"

section \<open>The inventory and its evidence\<close>

definition validatePlan :: "Plan \<Rightarrow> gotime \<Rightarrow> string" where
  "validatePlan plan now =
     (if pl_SchemaVersion plan \<noteq> 1 then ''unsupported_schema_version''
      else if \<not> pl_Complete plan \<or> pl_References plan = None \<or> \<not> identityPattern (pl_InventoryID plan)
      then ''inventory_incomplete''
      else if \<not> identityPattern (pl_TargetID plan) \<or> sn_TargetID (pl_Snapshot plan) \<noteq> pl_TargetID plan
      then ''target_identity_unknown''
      else if isZero (sn_ObservedAt (pl_Snapshot plan)) \<or> sn_ObservedAt (pl_Snapshot plan) > now \<or>
              \<not> sn_ValidUntil (pl_Snapshot plan) > now \<or> \<not> sn_ValidUntil (pl_Snapshot plan) > sn_ObservedAt (pl_Snapshot plan)
      then ''snapshot_outside_validity_interval''
      else if \<not> identityPattern (pk_StoragePoolID (pl_Peak plan)) \<or>
              pk_StoragePoolID (pl_Peak plan) \<noteq> sn_StoragePoolID (pl_Snapshot plan)
      then ''storage_pool_identity_unknown''
      else [])"

text \<open>
  The two maps are built entry by entry; a later reference of the same key replaces an equal one. The sum
  type carries the reason of a refusal.
\<close>

fun groupEach ::
  "Reference list \<Rightarrow> (logicalIdentity \<times> Reference) list \<Rightarrow> Reference gomap
     \<Rightarrow> string + ((logicalIdentity \<times> Reference) list \<times> Reference gomap)" where
  "groupEach [] logical physical = Inr (logical, physical)"
| "groupEach (ref # refs) logical physical =
     (if \<not> identityPattern (rf_RepositoryID ref) \<or> \<not> validKey (rf_LogicalKey ref) \<or> \<not> validKey (rf_ObjectKey ref) \<or>
         \<not> validDigest (rf_Digest ref)
      then Inl ''reference_identity_invalid''
      else
        let key = (rf_RepositoryID ref, rf_LogicalKey ref)
        in if (case map_of logical key of None \<Rightarrow> False | Some old \<Rightarrow> rf_ObjectKey old \<noteq> rf_ObjectKey ref \<or> \<not> sameBytes old ref)
           then Inl ''logical_identity_conflict''
           else if (case gm_get physical (rf_ObjectKey ref) of None \<Rightarrow> False | Some old \<Rightarrow> \<not> sameBytes old ref)
           then Inl ''physical_identity_conflict''
           else groupEach refs (AList.update key ref logical) (gm_put (rf_ObjectKey ref) ref physical))"

definition groupReferences :: "Reference list \<Rightarrow> string + ((logicalIdentity \<times> Reference) list \<times> Reference gomap)" where
  "groupReferences refs = groupEach refs [] []"

text \<open>A second observation of a key makes it ambiguous: its entry becomes nil. Reading an absent key gives nil too.\<close>

definition indexOnce :: "('a \<Rightarrow> 'k) \<Rightarrow> 'a list \<Rightarrow> ('k \<times> 'a option) list" where
  "indexOnce key xs =
     foldl (\<lambda>m x. AList.update (key x) (if map_of m (key x) = None then Some x else None) m) [] xs"

definition observed :: "('k \<times> 'a option) list \<Rightarrow> 'k \<Rightarrow> 'a option" where
  "observed m k = (case map_of m k of None \<Rightarrow> None | Some v \<Rightarrow> v)"

definition membershipPresence :: "Membership \<Rightarrow> Presence" where
  "membershipPresence b = \<lparr>pr_Key = mb_Key b, pr_State = mb_State b, pr_Digest = mb_Digest b, pr_Size = mb_Size b\<rparr>"

definition indexSnapshot ::
  "Snapshot \<Rightarrow> (string \<times> Presence option) list \<times> (logicalIdentity \<times> Presence option) list \<times>
     (string \<times> RepositoryCapacity option) list" where
  "indexSnapshot snapshot =
     (indexOnce pr_Key (sn_Objects snapshot),
      map (\<lambda>(k, b). (k, map_option membershipPresence b))
        (indexOnce (\<lambda>b. (mb_RepositoryID b, mb_Key b)) (sn_References snapshot)),
      indexOnce rc_RepositoryID (sn_Repositories snapshot))"

definition presenceDelta :: "Presence option \<Rightarrow> Reference \<Rightarrow> int option \<times> string" where
  "presenceDelta evidence ref =
     (case nonnegative (rf_Size ref) of
        None \<Rightarrow> (None, ''object_size_unknown'')
      | Some bytes \<Rightarrow>
          (case evidence of
             None \<Rightarrow> (None, ''presence_unknown'')
           | Some p \<Rightarrow>
               if pr_State p = ''absent''
               then (if pr_Digest p \<noteq> [] \<or> pr_Size p \<noteq> None then (None, ''absence_evidence_invalid'') else (Some bytes, []))
               else if pr_State p = ''verified''
               then (if pr_Digest p \<noteq> rf_Digest ref \<or> nonnegative (pr_Size p) = None \<or> pr_Size p \<noteq> Some bytes
                     then (None, ''verified_bytes_conflict'') else (Some 0, []))
               else (None, ''presence_unknown'')))"

section \<open>Evaluation\<close>

definition noGrowth :: repositoryGrowth where
  "noGrowth = \<lparr>gr_total = Some 0, gr_minimum = Some 0, gr_verified = Some 0, gr_reasons = []\<rparr>"

text \<open>One round of the loop over the logical map.\<close>

definition logicalDelta ::
  "(string \<times> Presence option) list \<Rightarrow> Presence option \<Rightarrow> Reference \<Rightarrow> int option \<times> string" where
  "logicalDelta objects evidence ref =
     (if map_option pr_State evidence = Some ''verified'' \<and>
         map_option pr_State (observed objects (rf_ObjectKey ref)) = Some ''absent''
      then (None, ''reference_object_missing'')
      else presenceDelta evidence ref)"

definition growOne ::
  "(string \<times> Presence option) list \<Rightarrow> (logicalIdentity \<times> Presence option) list \<Rightarrow> logicalIdentity \<times> Reference
     \<Rightarrow> repositoryGrowth gomap \<Rightarrow> repositoryGrowth gomap" where
  "growOne objects memberships entry growth =
     (let (key, ref) = entry;
          g = (case gm_get growth (fst key) of None \<Rightarrow> noGrowth | Some g \<Rightarrow> g);
          evidence = observed memberships key;
          (delta, why) = logicalDelta objects evidence ref;
          g = g\<lparr>gr_total := add (gr_total g) delta, gr_minimum := addMinimum (gr_minimum g) delta\<rparr>;
          g = (if delta \<noteq> None \<and> map_option pr_State evidence = Some ''verified''
               then g\<lparr>gr_verified := add (gr_verified g) (rf_Size ref)\<rparr> else g);
          g = (if why \<noteq> [] then g\<lparr>gr_reasons := gr_reasons g @ [why]\<rparr> else g)
      in gm_put (fst key) g growth)"

definition repositoryResult :: "string \<Rightarrow> RepositoryCapacity option \<Rightarrow> repositoryGrowth \<Rightarrow> RepositoryResult" where
  "repositoryResult i capacity growth =
     (let used = (case capacity of None \<Rightarrow> None | Some c \<Rightarrow> nonnegative (rc_UsedBytes c));
          quota = (case capacity of None \<Rightarrow> None | Some c \<Rightarrow> nonnegative (rc_QuotaBytes c));
          r = \<lparr>rr_RepositoryID = i, rr_Status = Unknown, rr_UsedBytes = used, rr_QuotaBytes = quota,
               rr_AdditionalBytes = gr_total growth, rr_ProjectedBytes = None, rr_KnownMinimumProjectedBytes = None,
               rr_Reasons = uniqueReasons (gr_reasons growth)\<rparr>
      in if (case used of None \<Rightarrow> False
             | Some u \<Rightarrow> (case gr_verified growth of None \<Rightarrow> True | Some v \<Rightarrow> v > u))
         then r\<lparr>rr_Reasons := rr_Reasons r @ [''verified_membership_exceeds_usage'']\<rparr>
         else
           let projected = add used (gr_total growth);
               knownUsage = (if used = None then gr_verified growth else used);
               minimum = add knownUsage (gr_minimum growth);
               reasons = rr_Reasons r
                 @ (if used = None \<or> quota = None then [''capacity_unknown''] else [])
                 @ (if gr_total growth = None \<or> (used \<noteq> None \<and> projected = None)
                    then [''logical_growth_unknown_or_overflow''] else []);
               r = r\<lparr>rr_ProjectedBytes := projected, rr_KnownMinimumProjectedBytes := minimum, rr_Reasons := reasons\<rparr>
           in if (case quota of None \<Rightarrow> False
                  | Some q \<Rightarrow> q > 0 \<and> (case minimum of None \<Rightarrow> True | Some n \<Rightarrow> n > q))
              then r\<lparr>rr_Status := Insufficient, rr_Reasons := reasons @ [''repository_quota_exceeded'']\<rparr>
              else if used \<noteq> None \<and> quota \<noteq> None \<and> projected \<noteq> None then r\<lparr>rr_Status := Sufficient\<rparr>
              else r)"

definition peakComponents :: "PeakBudget \<Rightarrow> int option list" where
  "peakComponents p =
     [pk_DownloadBytes p, pk_UploadBytes p, pk_BackupBytes p, pk_RestoreBytes p, pk_HeadroomBytes p]"

definition storageResult :: "Plan \<Rightarrow> Reference gomap \<Rightarrow> (string \<times> Presence option) list \<Rightarrow> StorageResult" where
  "storageResult plan physical evidence =
     (let peak = pl_Peak plan;
          free = nonnegative (sn_FreeBytes (pl_Snapshot plan));
          deltas = map (\<lambda>(key, ref). presenceDelta (observed evidence key) ref) physical;
          additional = fold (\<lambda>d acc. add acc (fst d)) deltas (Some 0);
          required = fold (\<lambda>c acc. add acc (nonnegative c)) (peakComponents peak) additional;
          minimum = fold (\<lambda>c acc. addMinimum acc (nonnegative c)) (peakComponents peak)
            (fold (\<lambda>d acc. addMinimum acc (fst d)) deltas (Some 0));
          reasons = filter (\<lambda>r. r \<noteq> []) (map snd deltas)
            @ (if free = None then [''free_space_unknown''] else [])
            @ (if additional = None \<or> required = None then [''physical_growth_or_peak_unknown_or_overflow''] else []);
          exceeded = (case free of None \<Rightarrow> False | Some f \<Rightarrow> (case minimum of None \<Rightarrow> True | Some n \<Rightarrow> n > f));
          status = (if exceeded then Insufficient else if free \<noteq> None \<and> required \<noteq> None then Sufficient else Unknown)
      in \<lparr>sr_Status = status, sr_FreeBytes = free, sr_AdditionalBytes = additional, sr_RequiredFreeBytes = required,
          sr_KnownMinimumFreeBytes = minimum,
          sr_Peak = \<lparr>pk_StoragePoolID = pk_StoragePoolID peak, pk_DownloadBytes = nonnegative (pk_DownloadBytes peak),
            pk_UploadBytes = nonnegative (pk_UploadBytes peak), pk_BackupBytes = nonnegative (pk_BackupBytes peak),
            pk_RestoreBytes = nonnegative (pk_RestoreBytes peak), pk_HeadroomBytes = nonnegative (pk_HeadroomBytes peak)\<rparr>,
          sr_Reasons = uniqueReasons (reasons @ (if exceeded then [''storage_peak_exceeded''] else []))\<rparr>)"

definition zeroPeak :: PeakBudget where
  "zeroPeak = \<lparr>pk_StoragePoolID = [], pk_DownloadBytes = None, pk_UploadBytes = None, pk_BackupBytes = None,
     pk_RestoreBytes = None, pk_HeadroomBytes = None\<rparr>"

definition emptyReport :: "string \<Rightarrow> gotime \<Rightarrow> Report" where
  "emptyReport inventory now =
     \<lparr>rp_SchemaVersion = 1, rp_InputSHA256 = [], rp_InventoryID = inventory, rp_CheckedAt = now, rp_Status = Unknown,
      rp_Reasons = [], rp_Repositories = [],
      rp_Storage = \<lparr>sr_Status = Unknown, sr_FreeBytes = None, sr_AdditionalBytes = None, sr_RequiredFreeBytes = None,
        sr_KnownMinimumFreeBytes = None, sr_Peak = zeroPeak, sr_Reasons = []\<rparr>\<rparr>"

definition Evaluate :: "Plan \<Rightarrow> gotime \<Rightarrow> Report" where
  "Evaluate plan now =
     (let report = emptyReport (if identityPattern (pl_InventoryID plan) then pl_InventoryID plan else []) now;
          reason = validatePlan plan now
      in if reason \<noteq> [] then report\<lparr>rp_Reasons := [reason]\<rparr>
         else case groupReferences (case pl_References plan of None \<Rightarrow> [] | Some refs \<Rightarrow> refs) of
           Inl reason \<Rightarrow> report\<lparr>rp_Reasons := [reason]\<rparr>
         | Inr (logical, physical) \<Rightarrow>
             let (objects, memberships, capacities) = indexSnapshot (pl_Snapshot plan);
                 growth = fold (growOne objects memberships) logical [];
                 results = map (\<lambda>i. repositoryResult i (observed capacities i) (the (gm_get growth i)))
                   (sort (map fst growth));
                 storage = storageResult plan physical objects
             in report\<lparr>rp_Repositories := results, rp_Storage := storage,
                  rp_Status := fold (\<lambda>r st. combine st (rr_Status r)) results (sr_Status storage)\<rparr>)"

end
