(* ===== verification/CapacityLaws.thy ===== *)
theory CapacityLaws
  imports CapacityPlan
begin

text \<open>
  What a capacity report means. The abstract reading of a plan counts each storage object once and each
  logical unit once per repository, and says which of them the evidence shows to be missing; the report's
  verdicts are compared with sums over these sets.
\<close>

section \<open>Sums with an overflow\<close>

lemma add_Some: "add a b = Some n \<longleftrightarrow>
    (\<exists>x y. a = Some x \<and> b = Some y \<and> 0 \<le> x \<and> 0 \<le> y \<and> x + y \<le> maxInt64 \<and> n = x + y)"
  by (auto simp: add_def split: option.splits)

lemma nonnegative_simps [simp]: "nonnegative None = None" "nonnegative (Some x) = (if x < 0 then None else Some x)"
  by (simp_all add: nonnegative_def)

lemma nonnegative_Some [simp]: "nonnegative a = Some x \<longleftrightarrow> a = Some x \<and> 0 \<le> x"
  by (auto simp: nonnegative_def split: option.splits)

lemma nonnegative_Some' [simp]: "Some x = nonnegative a \<longleftrightarrow> a = Some x \<and> 0 \<le> x"
  by (metis nonnegative_Some)

lemma fold_add_Some:
  "fold (\<lambda>d acc. add acc (f d)) ds acc = Some n \<Longrightarrow>
     \<exists>x. acc = Some x \<and> (\<forall>d \<in> set ds. \<exists>y. f d = Some y \<and> 0 \<le> y) \<and> n = x + (\<Sum>d\<leftarrow>ds. the (f d))"
proof (induction ds arbitrary: acc)
  case (Cons d ds)
  then obtain x where x: "add acc (f d) = Some x" "\<forall>d \<in> set ds. \<exists>y. f d = Some y \<and> 0 \<le> y"
    "n = x + (\<Sum>d\<leftarrow>ds. the (f d))"
    by fastforce
  then show ?case by (auto simp: add_Some)
qed simp

text \<open>The part of a sum that is known.\<close>

definition part :: "int option \<Rightarrow> int" where
  "part a = (case a of None \<Rightarrow> 0 | Some x \<Rightarrow> x)"

lemma part_simps [simp]: "part None = 0" "part (Some x) = x"
  by (simp_all add: part_def)

lemma fold_addMinimum:
  assumes "\<forall>d \<in> set ds. \<forall>y. f d = Some y \<longrightarrow> 0 \<le> y" and "0 \<le> x" and "x \<le> maxInt64"
  shows "fold (\<lambda>d acc. addMinimum acc (f d)) ds (Some x) =
     (if x + (\<Sum>d\<leftarrow>ds. part (f d)) \<le> maxInt64 then Some (x + (\<Sum>d\<leftarrow>ds. part (f d))) else None)"
  using assms
proof (induction ds arbitrary: x)
  case (Cons d ds)
  have tail: "0 \<le> (\<Sum>d\<leftarrow>ds. part (f d))"
    using Cons.prems(1) by (intro sum_list_nonneg) (auto simp: part_def split: option.splits)
  have stuck: "fold (\<lambda>d acc. addMinimum acc (f d)) xs None = None" for xs
    by (induction xs) (auto simp: addMinimum_def add_def)
  show ?case
  proof (cases "f d")
    case None
    with Cons show ?thesis by (simp add: addMinimum_def)
  next
    case (Some y)
    with Cons.prems have y: "0 \<le> y" by simp
    show ?thesis
    proof (cases "x + y \<le> maxInt64")
      case True
      with Some y Cons.prems Cons.IH [of "x + y"] show ?thesis
        by (simp add: addMinimum_def add_def algebra_simps)
    next
      case False
      with Some y Cons.prems tail stuck show ?thesis
        by (simp add: addMinimum_def add_def)
    qed
  qed
qed simp

section \<open>Evidence\<close>

text \<open>The only observation of a key; none when there are several.\<close>

definition sole :: "('a \<Rightarrow> 'k) \<Rightarrow> 'a list \<Rightarrow> 'k \<Rightarrow> 'a option" where
  "sole key xs k = (case filter (\<lambda>x. key x = k) xs of [x] \<Rightarrow> Some x | _ \<Rightarrow> None)"

lemma indexOnce_get:
  "map_of (indexOnce key xs) k =
     (case filter (\<lambda>x. key x = k) xs of [] \<Rightarrow> None | [x] \<Rightarrow> Some (Some x) | _ \<Rightarrow> Some None)"
  unfolding indexOnce_def
proof (induction xs rule: rev_induct)
  case (snoc x xs)
  then show ?case
    by (auto simp: AList.update_conv' split: list.splits)
qed simp

lemma observed_indexOnce [simp]: "observed (indexOnce key xs) k = sole key xs k"
  by (auto simp: observed_def sole_def indexOnce_get split: list.splits)

lemma observed_memberships [simp]:
  "observed (map (\<lambda>(k, b). (k, map_option membershipPresence b)) (indexOnce key xs)) k = map_option membershipPresence (sole key xs k)"
  by (auto simp: observed_def sole_def indexOnce_get map_of_map split: list.splits)

section \<open>Units counted once\<close>

definition storageUnit :: "Reference \<Rightarrow> string \<times> string \<times> int option" where
  "storageUnit r = (rf_ObjectKey r, rf_Digest r, rf_Size r)"

definition logicalUnit :: "Reference \<Rightarrow> string \<times> string \<times> string \<times> string \<times> int option" where
  "logicalUnit r = (rf_RepositoryID r, rf_LogicalKey r, storageUnit r)"

definition grouped :: "Reference list \<Rightarrow> (logicalIdentity \<times> Reference) list \<Rightarrow> Reference gomap \<Rightarrow> bool" where
  "grouped refs logical physical \<longleftrightarrow>
     distinct (map fst logical) \<and> distinct (map fst physical) \<and>
     (\<forall>(k, r) \<in> set logical. k = (rf_RepositoryID r, rf_LogicalKey r)) \<and> (\<forall>(k, r) \<in> set physical. k = rf_ObjectKey r) \<and>
     logicalUnit ` snd ` set logical = logicalUnit ` set refs \<and> storageUnit ` snd ` set physical = storageUnit ` set refs"

lemma set_update: "distinct (map fst m) \<Longrightarrow> set (AList.update k v m) = insert (k, v) {(k', w) \<in> set m. k' \<noteq> k}"
  by (induction m) (auto simp: image_iff)

lemma update_units:
  assumes "distinct (map fst m)" and same: "\<And>old. map_of m k = Some old \<Longrightarrow> u old = u v"
  shows "u ` snd ` set (AList.update k v m) = insert (u v) (u ` snd ` set m)"
proof -
  have "u w \<in> insert (u v) (u ` snd ` {(k', w) \<in> set m. k' \<noteq> k})" if "(k', w) \<in> set m" for k' w
  proof (cases "k' = k")
    case True
    with that same [of w] assms(1) show ?thesis by (simp add: map_of_eq_Some_iff)
  next
    case False
    with that show ?thesis by force
  qed
  then show ?thesis
    unfolding set_update [OF assms(1)] by (auto simp: image_iff) blast
qed

lemma update_entries:
  "\<forall>(k, r) \<in> set m. k = f r \<Longrightarrow> \<forall>(k, r) \<in> set (AList.update (f v) v m). k = f r"
  by (induction m) auto

lemma groupEach_grouped:
  "groupEach refs logical physical = Inr (l, p) \<Longrightarrow> grouped done logical physical \<Longrightarrow> grouped (done @ refs) l p"
proof (induction refs logical physical arbitrary: "done" rule: groupEach.induct)
  case (2 ref refs logical physical)
  let ?l = "AList.update (rf_RepositoryID ref, rf_LogicalKey ref) ref logical"
  let ?p = "gm_put (rf_ObjectKey ref) ref physical"
  have run: "groupEach refs ?l ?p = Inr (l, p)"
    and lsame: "\<And>old. map_of logical (rf_RepositoryID ref, rf_LogicalKey ref) = Some old \<Longrightarrow>
      rf_ObjectKey old = rf_ObjectKey ref \<and> sameBytes old ref"
    and psame: "\<And>old. gm_get physical (rf_ObjectKey ref) = Some old \<Longrightarrow> sameBytes old ref"
    using "2.prems"(1) by (auto simp: Let_def split: if_splits)
  have g: "grouped done logical physical" by fact
  have "logicalUnit old = logicalUnit ref" if "map_of logical (rf_RepositoryID ref, rf_LogicalKey ref) = Some old" for old
    using lsame [OF that] g that
    by (auto simp: grouped_def logicalUnit_def storageUnit_def sameBytes_def dest!: map_of_SomeD)
  moreover have "storageUnit old = storageUnit ref" if "gm_get physical (rf_ObjectKey ref) = Some old" for old
    using psame [OF that] g that by (auto simp: grouped_def storageUnit_def sameBytes_def dest!: map_of_SomeD)
  ultimately have "grouped (done @ [ref]) ?l ?p"
    using g update_units [of logical _ logicalUnit ref] update_units [of physical _ storageUnit ref]
      update_entries [of logical "\<lambda>r. (rf_RepositoryID r, rf_LogicalKey r)" ref] update_entries [of physical rf_ObjectKey ref]
    by (simp add: grouped_def AList.distinct_update)
  moreover have "groupEach refs ?l ?p = Inr (l, p) \<Longrightarrow> grouped (done @ [ref]) ?l ?p \<Longrightarrow> grouped ((done @ [ref]) @ refs) l p"
    using "2.IH" [OF _ refl _ _, of "done @ [ref]"] "2.prems"(1) by (auto simp: Let_def split: if_splits)
  ultimately show ?case using run by simp
qed simp

lemma groupReferences_grouped: "groupReferences refs = Inr (l, p) \<Longrightarrow> grouped refs l p"
  using groupEach_grouped [of refs "[]" "[]" l p "[]"] by (simp add: groupReferences_def grouped_def)

section \<open>The abstract reading of a plan\<close>

definition absent :: "Presence option \<Rightarrow> bool" where
  "absent ev \<longleftrightarrow> (\<exists>p. ev = Some p \<and> pr_State p = ''absent'' \<and> pr_Digest p = [] \<and> pr_Size p = None)"

definition verifiedAs :: "Presence option \<Rightarrow> string \<Rightarrow> int \<Rightarrow> bool" where
  "verifiedAs ev digest bytes \<longleftrightarrow> (\<exists>p. ev = Some p \<and> pr_State p = ''verified'' \<and> pr_Digest p = digest \<and> pr_Size p = Some bytes)"

definition accounted :: "Presence option \<Rightarrow> string \<Rightarrow> int option \<Rightarrow> bool" where
  "accounted ev digest n \<longleftrightarrow> (\<exists>b. n = Some b \<and> 0 \<le> b \<and> (absent ev \<or> verifiedAs ev digest b))"

definition missingBytes :: "Presence option \<Rightarrow> int option \<Rightarrow> int" where
  "missingBytes ev n = (if absent ev then part (nonnegative n) else 0)"

definition objectEvidence :: "Plan \<Rightarrow> string \<Rightarrow> Presence option" where
  "objectEvidence plan k = sole pr_Key (sn_Objects (pl_Snapshot plan)) k"

definition memberEvidence :: "Plan \<Rightarrow> logicalIdentity \<Rightarrow> Presence option" where
  "memberEvidence plan k =
     map_option membershipPresence (sole (\<lambda>b. (mb_RepositoryID b, mb_Key b)) (sn_References (pl_Snapshot plan)) k)"

definition storageGrowth :: "Plan \<Rightarrow> Reference list \<Rightarrow> int" where
  "storageGrowth plan refs = (\<Sum>(k, d, n) \<in> storageUnit ` set refs. missingBytes (objectEvidence plan k) n)"

definition knownPeak :: "Plan \<Rightarrow> int" where
  "knownPeak plan = (\<Sum>c\<leftarrow>peakComponents (pl_Peak plan). part (nonnegative c))"

definition logicalUnits :: "Reference list \<Rightarrow> string \<Rightarrow> (string \<times> string \<times> string \<times> string \<times> int option) set" where
  "logicalUnits refs i = {u \<in> logicalUnit ` set refs. fst u = i}"

definition logicalGrowth :: "Plan \<Rightarrow> Reference list \<Rightarrow> string \<Rightarrow> int" where
  "logicalGrowth plan refs i = (\<Sum>(i, k, ob, d, n) \<in> logicalUnits refs i. missingBytes (memberEvidence plan (i, k)) n)"

text \<open>The logical units that are verified members while their object is not observed as absent.\<close>

definition verifiedBytes :: "Plan \<Rightarrow> Reference list \<Rightarrow> string \<Rightarrow> int" where
  "verifiedBytes plan refs i =
     (\<Sum>(i, k, ob, d, n) \<in> logicalUnits refs i.
        if verifiedAs (memberEvidence plan (i, k)) d (part n) \<and> 0 \<le> part n \<and> n \<noteq> None \<and>
           map_option pr_State (objectEvidence plan ob) \<noteq> Some ''absent''
        then part n else 0)"

definition storage_fits :: "Plan \<Rightarrow> Reference list \<Rightarrow> bool" where
  "storage_fits plan refs \<longleftrightarrow>
     (\<forall>r \<in> set refs. accounted (objectEvidence plan (rf_ObjectKey r)) (rf_Digest r) (rf_Size r)) \<and>
     (\<forall>c \<in> set (peakComponents (pl_Peak plan)). \<exists>x. c = Some x \<and> 0 \<le> x) \<and>
     (\<exists>free. sn_FreeBytes (pl_Snapshot plan) = Some free \<and> storageGrowth plan refs + knownPeak plan \<le> free)"

definition repository_fits :: "Plan \<Rightarrow> Reference list \<Rightarrow> string \<Rightarrow> bool" where
  "repository_fits plan refs i \<longleftrightarrow>
     (\<forall>r \<in> set refs. rf_RepositoryID r = i \<longrightarrow>
        accounted (memberEvidence plan (i, rf_LogicalKey r)) (rf_Digest r) (rf_Size r)) \<and>
     (\<exists>c used quota. sole rc_RepositoryID (sn_Repositories (pl_Snapshot plan)) i = Some c \<and>
        rc_UsedBytes c = Some used \<and> 0 \<le> used \<and> rc_QuotaBytes c = Some quota \<and> 0 \<le> quota \<and>
        (quota = 0 \<or> used + logicalGrowth plan refs i \<le> quota))"

definition storage_short :: "Plan \<Rightarrow> Reference list \<Rightarrow> bool" where
  "storage_short plan refs \<longleftrightarrow>
     (\<exists>free. sn_FreeBytes (pl_Snapshot plan) = Some free \<and> 0 \<le> free \<and> storageGrowth plan refs + knownPeak plan > free)"

definition repository_short :: "Plan \<Rightarrow> Reference list \<Rightarrow> string \<Rightarrow> bool" where
  "repository_short plan refs i \<longleftrightarrow>
     (\<exists>c quota. sole rc_RepositoryID (sn_Repositories (pl_Snapshot plan)) i = Some c \<and> rc_QuotaBytes c = Some quota \<and>
        0 < quota \<and>
        (case nonnegative (rc_UsedBytes c) of Some used \<Rightarrow> used | None \<Rightarrow> verifiedBytes plan refs i)
          + logicalGrowth plan refs i > quota)"

section \<open>Deltas\<close>

lemma presenceDelta_Some:
  "fst (presenceDelta ev r) = Some n \<longleftrightarrow>
     accounted ev (rf_Digest r) (rf_Size r) \<and> n = missingBytes ev (rf_Size r)"
  by (auto simp: presenceDelta_def accounted_def missingBytes_def absent_def verifiedAs_def split: option.splits)

lemma part_presenceDelta: "part (fst (presenceDelta ev r)) = missingBytes ev (rf_Size r)"
  by (auto simp: presenceDelta_def missingBytes_def absent_def split: option.splits)

lemma presenceDelta_nonneg: "fst (presenceDelta ev r) = Some n \<Longrightarrow> 0 \<le> n"
  by (auto simp: presenceDelta_def split: option.splits if_splits)

lemma missingBytes_nonneg [simp]: "0 \<le> missingBytes ev n"
  by (cases n) (simp_all add: missingBytes_def)

lemma logicalDelta_Some:
  "fst (logicalDelta objects ev r) = Some n \<Longrightarrow> accounted ev (rf_Digest r) (rf_Size r) \<and> n = missingBytes ev (rf_Size r) \<and> 0 \<le> n"
  by (auto simp: logicalDelta_def presenceDelta_Some missingBytes_nonneg split: if_splits)

lemma part_logicalDelta: "part (fst (logicalDelta objects ev r)) = missingBytes ev (rf_Size r)"
  by (auto simp: logicalDelta_def part_presenceDelta missingBytes_def absent_def)

text \<open>A sum over a map of references, counted by units.\<close>

lemma sum_units:
  assumes "distinct (map fst m)" and "\<And>k r. (k, r) \<in> set m \<Longrightarrow> k = key (u r)"
    and "\<And>k r. (k, r) \<in> set m \<Longrightarrow> f (k, r) = h (u r)"
  shows "(\<Sum>e\<leftarrow>m. f e) = (\<Sum>x \<in> u ` snd ` set m. h x)"
proof -
  have "map fst m = map key (map (u \<circ> snd) m)"
    using assms(2) by auto
  then have "distinct (map (u \<circ> snd) m)"
    using assms(1) distinct_map by metis
  then have "(\<Sum>x\<leftarrow>map (u \<circ> snd) m. h x) = (\<Sum>x \<in> set (map (u \<circ> snd) m). h x)"
    by (rule sum_list_distinct_conv_sum_set)
  moreover have "map f m = map h (map (u \<circ> snd) m)"
    using assms(3) by auto
  ultimately have "(\<Sum>e\<leftarrow>m. f e) = (\<Sum>x \<in> set (map (u \<circ> snd) m). h x)"
    by (simp only:)
  then show ?thesis by (simp add: image_image)
qed

section \<open>Storage\<close>

lemma storage_growth_sum:
  assumes "grouped refs logical physical"
  shows "(\<Sum>e\<leftarrow>physical. missingBytes (objectEvidence plan (fst e)) (rf_Size (snd e))) = storageGrowth plan refs"
proof -
  have "distinct (map fst physical)" and "\<And>k r. (k, r) \<in> set physical \<Longrightarrow> k = fst (storageUnit r)"
    and u: "storageUnit ` snd ` set physical = storageUnit ` set refs"
    using assms by (auto simp: grouped_def storageUnit_def)
  from sum_units [where key = fst and u = storageUnit, OF this(1,2), of "\<lambda>e. missingBytes (objectEvidence plan (fst e)) (rf_Size (snd e))"
      "\<lambda>(k, d, n). missingBytes (objectEvidence plan k) n"] this(2) u
  show ?thesis by (auto simp: storageUnit_def storageGrowth_def)
qed

lemma fold_add_units:
  "fold (\<lambda>d acc. add acc (fst d)) (map f xs) acc = fold (\<lambda>x acc. add acc (fst (f x))) xs acc"
  "fold (\<lambda>d acc. addMinimum acc (fst d)) (map f xs) acc = fold (\<lambda>x acc. addMinimum acc (fst (f x))) xs acc"
  by (simp_all add: fold_map o_def)

text \<open>The two running sums of the storage evaluation.\<close>

lemma storage_minimum:
  assumes "grouped refs logical physical"
  shows "sr_KnownMinimumFreeBytes (storageResult plan physical (indexOnce pr_Key (sn_Objects (pl_Snapshot plan)))) =
     (if storageGrowth plan refs + knownPeak plan \<le> maxInt64 then Some (storageGrowth plan refs + knownPeak plan) else None)"
proof -
  let ?f = "\<lambda>e. fst (presenceDelta (objectEvidence plan (fst e)) (snd e))"
  let ?cs = "peakComponents (pl_Peak plan)"
  have sums: "(\<Sum>c\<leftarrow>map ?f physical @ map nonnegative ?cs. part c) = storageGrowth plan refs + knownPeak plan"
    using storage_growth_sum [OF assms, of plan] by (simp add: part_presenceDelta knownPeak_def o_def)
  have "sr_KnownMinimumFreeBytes (storageResult plan physical (indexOnce pr_Key (sn_Objects (pl_Snapshot plan)))) =
      fold (\<lambda>c acc. addMinimum acc c) (map ?f physical @ map nonnegative ?cs) (Some 0)"
    by (simp add: storageResult_def Let_def objectEvidence_def [symmetric] fold_map o_def case_prod_beta)
  also have "\<dots> = (if 0 + (\<Sum>c\<leftarrow>map ?f physical @ map nonnegative ?cs. part c) \<le> maxInt64
      then Some (0 + (\<Sum>c\<leftarrow>map ?f physical @ map nonnegative ?cs. part c)) else None)"
    by (rule fold_addMinimum) (auto simp: maxInt64_def dest!: sym [of "Some _"] dest: presenceDelta_nonneg)
  finally show ?thesis using sums by simp
qed

lemma storage_required:
  assumes "grouped refs logical physical"
    and "sr_RequiredFreeBytes (storageResult plan physical (indexOnce pr_Key (sn_Objects (pl_Snapshot plan)))) = Some n"
  shows "\<forall>r \<in> set refs. accounted (objectEvidence plan (rf_ObjectKey r)) (rf_Digest r) (rf_Size r)"
    and "\<forall>c \<in> set (peakComponents (pl_Peak plan)). \<exists>x. c = Some x \<and> 0 \<le> x"
proof -
  let ?f = "\<lambda>e. fst (presenceDelta (objectEvidence plan (fst e)) (snd e))"
  have "fold (\<lambda>c acc. add acc (nonnegative c)) (peakComponents (pl_Peak plan))
      (fold (\<lambda>e acc. add acc (?f e)) physical (Some 0)) = Some n"
    using assms(2) by (simp add: storageResult_def Let_def objectEvidence_def [symmetric] fold_map o_def case_prod_beta)
  then obtain x where x: "fold (\<lambda>e acc. add acc (?f e)) physical (Some 0) = Some x"
    and "\<forall>c \<in> set (peakComponents (pl_Peak plan)). \<exists>y. nonnegative c = Some y \<and> 0 \<le> y"
    using fold_add_Some [of nonnegative] by blast
  then show "\<forall>c \<in> set (peakComponents (pl_Peak plan)). \<exists>x. c = Some x \<and> 0 \<le> x"
    by (metis nonnegative_Some)
  have known: "\<forall>e \<in> set physical. accounted (objectEvidence plan (fst e)) (rf_Digest (snd e)) (rf_Size (snd e))"
    using fold_add_Some [OF x] by (auto simp: presenceDelta_Some)
  show "\<forall>r \<in> set refs. accounted (objectEvidence plan (rf_ObjectKey r)) (rf_Digest r) (rf_Size r)"
  proof
    fix r
    assume "r \<in> set refs"
    then have "storageUnit r \<in> storageUnit ` snd ` set physical"
      using assms(1) by (simp add: grouped_def)
    then obtain e where e: "e \<in> set physical" "storageUnit (snd e) = storageUnit r"
      by (metis (no_types, lifting) imageE)
    then have "fst e = rf_ObjectKey (snd e)"
      using assms(1) by (auto simp: grouped_def)
    with known e show "accounted (objectEvidence plan (rf_ObjectKey r)) (rf_Digest r) (rf_Size r)"
      by (auto simp: storageUnit_def)
  qed
qed

lemma storageResult_status:
  "sr_Status (storageResult plan physical ev) =
     (let st = storageResult plan physical ev
      in if (case sr_FreeBytes st of None \<Rightarrow> False
             | Some f \<Rightarrow> (case sr_KnownMinimumFreeBytes st of None \<Rightarrow> True | Some n \<Rightarrow> n > f))
         then Insufficient
         else if sr_FreeBytes st \<noteq> None \<and> sr_RequiredFreeBytes st \<noteq> None then Sufficient else Unknown)"
  by (simp only: storageResult_def Let_def StorageResult.select_convs)

lemma storage_sound:
  fixes plan :: Plan
  assumes "grouped refs logical physical"
  defines "st \<equiv> storageResult plan physical (indexOnce pr_Key (sn_Objects (pl_Snapshot plan)))"
  shows "sr_Status st = Sufficient \<Longrightarrow> storage_fits plan refs"
    and "sr_Status st = Insufficient \<Longrightarrow> (\<And>f. sn_FreeBytes (pl_Snapshot plan) = Some f \<Longrightarrow> f \<le> maxInt64) \<Longrightarrow>
      storage_short plan refs"
proof -
  note minimum = storage_minimum [OF assms(1), of plan, folded st_def]
  have status: "sr_Status st =
      (if (case sr_FreeBytes st of None \<Rightarrow> False | Some f \<Rightarrow> (case sr_KnownMinimumFreeBytes st of None \<Rightarrow> True | Some n \<Rightarrow> n > f))
       then Insufficient else if sr_FreeBytes st \<noteq> None \<and> sr_RequiredFreeBytes st \<noteq> None then Sufficient else Unknown)"
    unfolding st_def by (subst storageResult_status) (simp only: Let_def)
  have free: "sr_FreeBytes st = nonnegative (sn_FreeBytes (pl_Snapshot plan))"
    by (simp add: st_def storageResult_def Let_def)
  show "storage_fits plan refs" if suff: "sr_Status st = Sufficient"
  proof -
    obtain n f where "sr_RequiredFreeBytes st = Some n" and f: "sr_FreeBytes st = Some f"
      and "\<exists>k. sr_KnownMinimumFreeBytes st = Some k \<and> k \<le> f"
      using suff unfolding status by (fastforce split: if_splits option.splits)
    then show ?thesis
      using storage_required [OF assms(1), of plan n] minimum free
      by (auto simp: storage_fits_def st_def split: if_splits)
  qed
  show "storage_short plan refs" if ins: "sr_Status st = Insufficient"
    and "\<And>f. sn_FreeBytes (pl_Snapshot plan) = Some f \<Longrightarrow> f \<le> maxInt64"
  proof -
    obtain f where "sr_FreeBytes st = Some f" "\<And>k. sr_KnownMinimumFreeBytes st = Some k \<Longrightarrow> k > f"
      using ins unfolding status by (fastforce split: if_splits option.splits)
    then show ?thesis
      using minimum free that(2) by (force simp: storage_short_def split: if_splits)
  qed
qed

section \<open>Repositories\<close>

text \<open>The growth of one repository, as the loop over the logical map accumulates it.\<close>

definition grown :: "repositoryGrowth gomap \<Rightarrow> string \<Rightarrow> repositoryGrowth" where
  "grown growth i = (case gm_get growth i of None \<Rightarrow> noGrowth | Some g \<Rightarrow> g)"

definition heldBytes :: "(string \<times> Presence option) list \<Rightarrow> Presence option \<Rightarrow> Reference \<Rightarrow> int option" where
  "heldBytes objects ev ref =
     (if fst (logicalDelta objects ev ref) \<noteq> None \<and> map_option pr_State ev = Some ''verified'' then rf_Size ref else None)"

lemma heldBytes_nonneg: "heldBytes objects ev ref = Some n \<Longrightarrow> 0 \<le> n"
  using logicalDelta_Some [of objects ev ref] by (auto simp: heldBytes_def accounted_def split: if_splits)

lemma growOne_fields:
  assumes "grown (growOne objects memberships e growth) (fst (fst e)) = g'"
  defines "g \<equiv> grown growth (fst (fst e))"
    and "ev \<equiv> observed memberships (fst e)"
  shows "gr_total g' = add (gr_total g) (fst (logicalDelta objects ev (snd e)))"
    and "gr_minimum g' = addMinimum (gr_minimum g) (fst (logicalDelta objects ev (snd e)))"
    and "gr_verified g' = addMinimum (gr_verified g) (heldBytes objects ev (snd e))"
proof -
  have size: "rf_Size (snd e) \<noteq> None" if "fst (logicalDelta objects ev (snd e)) \<noteq> None"
    using that logicalDelta_Some [of objects ev "snd e"] by (auto simp: accounted_def)
  show "gr_total g' = add (gr_total g) (fst (logicalDelta objects ev (snd e)))"
    and "gr_minimum g' = addMinimum (gr_minimum g) (fst (logicalDelta objects ev (snd e)))"
    and "gr_verified g' = addMinimum (gr_verified g) (heldBytes objects ev (snd e))"
    using assms(1) size
    by (auto simp: grown_def growOne_def g_def ev_def heldBytes_def addMinimum_def Let_def case_prod_beta split: if_splits)
qed

lemma growOne_other [simp]: "i \<noteq> fst (fst e) \<Longrightarrow> grown (growOne objects memberships e growth) i = grown growth i"
  by (simp add: grown_def growOne_def Let_def case_prod_beta)

lemma fold_growOne_field:
  assumes "\<And>e growth. F (grown (growOne objects memberships e growth) (fst (fst e))) = step e (F (grown growth (fst (fst e))))"
  shows "F (grown (fold (growOne objects memberships) es growth) i) =
    fold step (filter (\<lambda>e. fst (fst e) = i) es) (F (grown growth i))"
proof (induction es arbitrary: growth)
  case (Cons e es)
  then show ?case using assms [of e growth] by auto
qed simp

lemmas fold_growOne =
  fold_growOne_field [of gr_total, OF growOne_fields(1) [OF refl]]
  fold_growOne_field [of gr_minimum, OF growOne_fields(2) [OF refl]]
  fold_growOne_field [of gr_verified, OF growOne_fields(3) [OF refl]]

lemma fold_growOne_keys:
  "set (map fst (fold (growOne objects memberships) es growth)) = set (map fst growth) \<union> fst ` fst ` set es"
proof (induction es arbitrary: growth)
  case (Cons e es)
  have "set (map fst (growOne objects memberships e growth)) = insert (fst (fst e)) (set (map fst growth))"
    by (simp add: growOne_def Let_def case_prod_beta AList.dom_update)
  with Cons show ?case by (auto simp del: set_map)
qed simp

lemma logical_units_sum:
  assumes "grouped refs logical physical"
    and "\<And>k r. (k, r) \<in> set logical \<Longrightarrow> f (k, r) = h (logicalUnit r)"
  shows "(\<Sum>e\<leftarrow>filter (\<lambda>e. fst (fst e) = i) logical. f e) = (\<Sum>x \<in> logicalUnits refs i. h x)"
proof -
  let ?es = "filter (\<lambda>e. fst (fst e) = i) logical"
  let ?key = "\<lambda>u :: string \<times> string \<times> string \<times> string \<times> int option. (fst u, fst (snd u))"
  have key: "k = ?key (logicalUnit r)" if "(k, r) \<in> set logical" for k r
    using assms(1) that by (auto simp: grouped_def logicalUnit_def)
  have "distinct (map fst ?es)"
    using assms(1) by (simp add: grouped_def distinct_map inj_on_def)
  then have "(\<Sum>e\<leftarrow>?es. f e) = (\<Sum>x \<in> logicalUnit ` snd ` set ?es. h x)"
    using key assms(2) by (intro sum_units [where key = ?key]) auto
  moreover have "logicalUnit ` snd ` set ?es = logicalUnits refs i"
  proof -
    have "logicalUnit ` snd ` set ?es = {u \<in> logicalUnit ` snd ` set logical. fst u = i}"
      using key by force
    then show ?thesis
      using assms(1) by (simp add: grouped_def logicalUnits_def)
  qed
  ultimately show ?thesis by simp
qed

text \<open>The sums a repository's growth holds after the loop.\<close>

lemma repository_growth:
  fixes plan :: Plan and i :: string
  assumes g: "grouped refs logical physical"
    and idx: "indexSnapshot (pl_Snapshot plan) = (objects, memberships, capacities)"
  defines "gr \<equiv> grown (fold (growOne objects memberships) logical []) i"
  shows "gr_total gr = Some n \<Longrightarrow>
      (\<forall>r \<in> set refs. rf_RepositoryID r = i \<longrightarrow> accounted (memberEvidence plan (i, rf_LogicalKey r)) (rf_Digest r) (rf_Size r)) \<and>
      n = logicalGrowth plan refs i"
    and "gr_minimum gr = (if logicalGrowth plan refs i \<le> maxInt64 then Some (logicalGrowth plan refs i) else None)"
    and "gr_verified gr = (if verifiedBytes plan refs i \<le> maxInt64 then Some (verifiedBytes plan refs i) else None)"
proof -
  let ?es = "filter (\<lambda>e. fst (fst e) = i) logical"
  have ev: "observed memberships k = memberEvidence plan k" and ob: "observed objects k' = objectEvidence plan k'" for k k'
    using idx by (auto simp: indexSnapshot_def memberEvidence_def objectEvidence_def)
  let ?d = "\<lambda>e. fst (logicalDelta objects (memberEvidence plan (fst e)) (snd e))"
  let ?v = "\<lambda>e. heldBytes objects (memberEvidence plan (fst e)) (snd e)"
  have key: "k = (rf_RepositoryID r, rf_LogicalKey r)" if "(k, r) \<in> set logical" for k r
    using g that by (auto simp: grouped_def)
  have growth: "(\<Sum>e\<leftarrow>?es. missingBytes (memberEvidence plan (fst e)) (rf_Size (snd e))) = logicalGrowth plan refs i"
    unfolding logicalGrowth_def
    by (rule logical_units_sum [OF g]) (auto simp: logicalUnit_def storageUnit_def dest!: key)
  have held: "(\<Sum>e\<leftarrow>?es. part (?v e)) = verifiedBytes plan refs i"
    unfolding verifiedBytes_def
    by (rule logical_units_sum [OF g])
      (auto simp: logicalUnit_def storageUnit_def heldBytes_def logicalDelta_def presenceDelta_def verifiedAs_def ob part_def
        split: option.splits dest!: key)
  have start: "grown [] i = noGrowth"
    by (simp add: grown_def)
  show "gr_minimum gr = (if logicalGrowth plan refs i \<le> maxInt64 then Some (logicalGrowth plan refs i) else None)"
    using fold_addMinimum [of ?es ?d 0] growth logicalDelta_Some
    by (force simp: gr_def fold_growOne(2) ev start noGrowth_def part_logicalDelta maxInt64_def)
  show "gr_verified gr = (if verifiedBytes plan refs i \<le> maxInt64 then Some (verifiedBytes plan refs i) else None)"
    using fold_addMinimum [of ?es ?v 0] held heldBytes_nonneg
    by (force simp: gr_def fold_growOne(3) ev start noGrowth_def maxInt64_def)
  show "(\<forall>r \<in> set refs. rf_RepositoryID r = i \<longrightarrow> accounted (memberEvidence plan (i, rf_LogicalKey r)) (rf_Digest r) (rf_Size r)) \<and>
      n = logicalGrowth plan refs i" if "gr_total gr = Some n"
  proof -
    from that have f: "fold (\<lambda>e acc. add acc (?d e)) ?es (Some 0) = Some n"
      by (simp add: gr_def fold_growOne(1) ev start noGrowth_def)
    then have known: "\<forall>e \<in> set ?es. accounted (memberEvidence plan (fst e)) (rf_Digest (snd e)) (rf_Size (snd e)) \<and>
        ?d e = Some (missingBytes (memberEvidence plan (fst e)) (rf_Size (snd e)))"
      using fold_add_Some [OF f] logicalDelta_Some by fastforce
    then have "map (\<lambda>e. the (?d e)) ?es = map (\<lambda>e. missingBytes (memberEvidence plan (fst e)) (rf_Size (snd e))) ?es"
      by simp
    then have "n = logicalGrowth plan refs i"
      using fold_add_Some [OF f] growth by (metis (no_types, lifting) add_0 option.inject)
    moreover have "accounted (memberEvidence plan (i, rf_LogicalKey r)) (rf_Digest r) (rf_Size r)"
      if "r \<in> set refs" "rf_RepositoryID r = i" for r
    proof -
      have "logicalUnit r \<in> logicalUnit ` snd ` set logical"
        using g that(1) by (simp add: grouped_def)
      then obtain k r' where "(k, r') \<in> set logical" "logicalUnit r' = logicalUnit r"
        by force
      with key [of k r'] known that(2) show ?thesis
        by (force simp: logicalUnit_def storageUnit_def)
    qed
    ultimately show ?thesis by blast
  qed
qed

lemma repository_sound:
  fixes plan :: Plan and i :: string
  assumes g: "grouped refs logical physical"
    and idx: "indexSnapshot (pl_Snapshot plan) = (objects, memberships, capacities)"
  defines "gr \<equiv> grown (fold (growOne objects memberships) logical []) i"
  shows "rr_Status (repositoryResult i (observed capacities i) gr) = Sufficient \<Longrightarrow> repository_fits plan refs i"
    and "rr_Status (repositoryResult i (observed capacities i) gr) = Insufficient \<Longrightarrow>
      (\<And>c q. c \<in> set (sn_Repositories (pl_Snapshot plan)) \<Longrightarrow> rc_QuotaBytes c = Some q \<Longrightarrow> q \<le> maxInt64) \<Longrightarrow>
      repository_short plan refs i"
proof -
  note growth = repository_growth [OF g idx, of i, folded gr_def]
  let ?G = "logicalGrowth plan refs i"
  have cap: "observed capacities i = sole rc_RepositoryID (sn_Repositories (pl_Snapshot plan)) i"
    using idx by (auto simp: indexSnapshot_def)
  show "repository_fits plan refs i" if suff: "rr_Status (repositoryResult i (observed capacities i) gr) = Sufficient"
  proof -
    obtain c used quota n where c: "observed capacities i = Some c" "nonnegative (rc_UsedBytes c) = Some used"
      "nonnegative (rc_QuotaBytes c) = Some quota" "gr_total gr = Some n"
      and bound: "quota > 0 \<Longrightarrow> \<exists>k. add (Some used) (gr_minimum gr) = Some k \<and> k \<le> quota"
      using suff
      by (auto simp: repositoryResult_def Let_def add_Some simp del: nonnegative_Some nonnegative_Some'
          split: if_splits option.splits)
    have "quota = 0 \<or> used + ?G \<le> quota"
      using bound c(3) growth(2) by (cases "quota > 0") (auto simp: add_Some split: if_splits)
    then show ?thesis
      using growth(1) [OF c(4)] c(1-3) cap unfolding repository_fits_def by auto
  qed
  show "repository_short plan refs i" if ins: "rr_Status (repositoryResult i (observed capacities i) gr) = Insufficient"
    and range: "\<And>c q. c \<in> set (sn_Repositories (pl_Snapshot plan)) \<Longrightarrow> rc_QuotaBytes c = Some q \<Longrightarrow> q \<le> maxInt64"
  proof -
    obtain c quota where c: "observed capacities i = Some c" "nonnegative (rc_QuotaBytes c) = Some quota" "0 < quota"
      and big: "case add (if nonnegative (rc_UsedBytes c) = None then gr_verified gr else nonnegative (rc_UsedBytes c))
        (gr_minimum gr) of None \<Rightarrow> True | Some k \<Rightarrow> k > quota"
      using ins
      by (fastforce simp: repositoryResult_def Let_def simp del: nonnegative_Some nonnegative_Some' split: if_splits option.splits)
    have in_list: "c \<in> set (sn_Repositories (pl_Snapshot plan))"
      using c(1) cap by (auto simp: sole_def split: list.splits dest!: filter_eq_ConsD)
    then have q: "quota \<le> maxInt64" "rc_QuotaBytes c = Some quota"
      using range c(2) by auto
    have G: "0 \<le> ?G" and V: "0 \<le> verifiedBytes plan refs i"
      unfolding logicalGrowth_def verifiedBytes_def by (auto intro!: sum_nonneg)
    have "(case nonnegative (rc_UsedBytes c) of Some used \<Rightarrow> used | None \<Rightarrow> verifiedBytes plan refs i) + ?G > quota"
    proof (cases "nonnegative (rc_UsedBytes c)")
      case None
      then show ?thesis
        using big growth(2,3) q(1) G V by (fastforce simp: add_def split: if_splits)
    next
      case (Some used)
      then show ?thesis
        using big growth(2) q(1) G by (fastforce simp: add_def split: if_splits)
    qed
    then show ?thesis
      using c cap q(2) by (auto simp: repository_short_def)
  qed
qed

section \<open>The property of a report\<close>

lemma combine_iff:
  "combine a b = Sufficient \<longleftrightarrow> a = Sufficient \<and> b = Sufficient"
  "combine a b = Insufficient \<longleftrightarrow> a = Insufficient \<or> b = Insufficient"
  by (cases a; cases b; simp add: combine_def)+

lemma fold_combine:
  "fold (\<lambda>r st. combine st (rr_Status r)) rs st = Sufficient \<longleftrightarrow> st = Sufficient \<and> (\<forall>r \<in> set rs. rr_Status r = Sufficient)"
  "fold (\<lambda>r st. combine st (rr_Status r)) rs st = Insufficient \<longleftrightarrow> st = Insufficient \<or> (\<exists>r \<in> set rs. rr_Status r = Insufficient)"
  by (induction rs arbitrary: st) (simp_all add: combine_iff)

lemma fold_combine_over:
  assumes "set is = S"
  shows "fold (\<lambda>r st. combine st (rr_Status r)) (map f is) st = Sufficient \<longleftrightarrow> st = Sufficient \<and> (\<forall>i \<in> S. rr_Status (f i) = Sufficient)"
    and "fold (\<lambda>r st. combine st (rr_Status r)) (map f is) st = Insufficient \<longleftrightarrow>
      st = Insufficient \<or> (\<exists>i \<in> S. rr_Status (f i) = Insufficient)"
  using assms by (auto simp: fold_combine)

lemma grouped_repositories:
  assumes "grouped refs logical physical"
  shows "fst ` fst ` set logical = rf_RepositoryID ` set refs"
proof -
  have "fst ` fst ` set logical = fst ` logicalUnit ` snd ` set logical"
    using assms unfolding image_image by (intro image_cong) (auto simp: grouped_def logicalUnit_def)
  also have "\<dots> = fst ` logicalUnit ` set refs"
    using assms by (simp add: grouped_def)
  finally show ?thesis by (simp add: image_image logicalUnit_def)
qed

lemma evaluated_ids:
  assumes "grouped refs logical physical"
  shows "set (sort (map fst (fold (growOne objects memberships) logical []))) = rf_RepositoryID ` set refs"
  using fold_growOne_keys [of objects memberships logical "[]"] grouped_repositories [OF assms] by simp

text \<open>A report with a verdict went through the whole evaluation.\<close>

lemma evaluated:
  assumes "rp_Status (Evaluate plan now) \<noteq> Unknown"
  obtains refs logical physical objects memberships capacities where
    "pl_References plan = Some refs" "validatePlan plan now = []" "grouped refs logical physical"
    "indexSnapshot (pl_Snapshot plan) = (objects, memberships, capacities)"
    "rp_Status (Evaluate plan now) =
       fold (\<lambda>r st. combine st (rr_Status r))
         (map (\<lambda>i. repositoryResult i (observed capacities i) (grown (fold (growOne objects memberships) logical []) i))
           (sort (map fst (fold (growOne objects memberships) logical []))))
         (sr_Status (storageResult plan physical (indexOnce pr_Key (sn_Objects (pl_Snapshot plan)))))"
proof -
  have valid: "validatePlan plan now = []"
    using assms by (auto simp: Evaluate_def emptyReport_def Let_def split: if_splits)
  then obtain refs where refs: "pl_References plan = Some refs"
    by (auto simp: validatePlan_def split: if_splits)
  obtain logical physical where gr: "groupReferences refs = Inr (logical, physical)"
    using assms valid refs by (cases "groupReferences refs") (auto simp: Evaluate_def emptyReport_def Let_def)
  obtain objects memberships capacities where idx: "indexSnapshot (pl_Snapshot plan) = (objects, memberships, capacities)"
    by (metis prod.exhaust)
  let ?growth = "fold (growOne objects memberships) logical []"
  have "the (gm_get ?growth i) = grown ?growth i" if "i \<in> set (map fst ?growth)" for i
    using that by (cases "gm_get ?growth i") (auto simp: grown_def map_of_eq_None_iff)
  then have results: "map (\<lambda>i. repositoryResult i (observed capacities i) (the (gm_get ?growth i))) (sort (map fst ?growth)) =
      map (\<lambda>i. repositoryResult i (observed capacities i) (grown ?growth i)) (sort (map fst ?growth))"
    by (intro map_cong) auto
  have "objects = indexOnce pr_Key (sn_Objects (pl_Snapshot plan))"
    using idx by (simp add: indexSnapshot_def)
  moreover have "rp_Status (Evaluate plan now) =
       fold (\<lambda>r st. combine st (rr_Status r))
         (map (\<lambda>i. repositoryResult i (observed capacities i) (the (gm_get ?growth i))) (sort (map fst ?growth)))
         (sr_Status (storageResult plan physical objects))"
    using valid refs gr idx by (simp add: Evaluate_def Let_def)
  ultimately have "rp_Status (Evaluate plan now) =
       fold (\<lambda>r st. combine st (rr_Status r))
         (map (\<lambda>i. repositoryResult i (observed capacities i) (grown ?growth i)) (sort (map fst ?growth)))
         (sr_Status (storageResult plan physical (indexOnce pr_Key (sn_Objects (pl_Snapshot plan)))))"
    unfolding results by simp
  with that refs valid groupReferences_grouped [OF gr] idx show ?thesis by blast
qed

lemma evaluate_sufficient:
  assumes suff: "rp_Status (Evaluate plan now) = Sufficient"
  shows "\<exists>refs. pl_References plan = Some refs \<and> validatePlan plan now = [] \<and>
    storage_fits plan refs \<and> (\<forall>r \<in> set refs. repository_fits plan refs (rf_RepositoryID r))"
proof -
  have "rp_Status (Evaluate plan now) \<noteq> Unknown"
    using suff by simp
  then obtain refs logical physical objects memberships capacities where ev:
    "pl_References plan = Some refs" "validatePlan plan now = []" "grouped refs logical physical"
    "indexSnapshot (pl_Snapshot plan) = (objects, memberships, capacities)"
    "rp_Status (Evaluate plan now) =
       fold (\<lambda>r st. combine st (rr_Status r))
         (map (\<lambda>i. repositoryResult i (observed capacities i) (grown (fold (growOne objects memberships) logical []) i))
           (sort (map fst (fold (growOne objects memberships) logical []))))
         (sr_Status (storageResult plan physical (indexOnce pr_Key (sn_Objects (pl_Snapshot plan)))))"
    by (rule evaluated)
  have all: "sr_Status (storageResult plan physical (indexOnce pr_Key (sn_Objects (pl_Snapshot plan)))) = Sufficient"
    "\<forall>i \<in> rf_RepositoryID ` set refs. rr_Status (repositoryResult i (observed capacities i)
        (grown (fold (growOne objects memberships) logical []) i)) = Sufficient"
    using fold_combine_over(1) [OF evaluated_ids [OF ev(3)], THEN iffD1, OF ev(5) [symmetric, unfolded suff]] by blast+
  have "repository_fits plan refs (rf_RepositoryID r)" if "r \<in> set refs" for r
    using repository_sound(1) [OF ev(3,4)] all(2) that by blast
  moreover have "storage_fits plan refs"
    using storage_sound(1) [OF ev(3) all(1)] .
  ultimately show ?thesis
    using ev(1,2) by blast
qed

lemma evaluate_insufficient:
  assumes ins: "rp_Status (Evaluate plan now) = Insufficient"
    and f: "\<And>f. sn_FreeBytes (pl_Snapshot plan) = Some f \<Longrightarrow> f \<le> maxInt64"
    and q: "\<And>c q. c \<in> set (sn_Repositories (pl_Snapshot plan)) \<Longrightarrow> rc_QuotaBytes c = Some q \<Longrightarrow> q \<le> maxInt64"
  shows "\<exists>refs. pl_References plan = Some refs \<and>
    (storage_short plan refs \<or> (\<exists>r \<in> set refs. repository_short plan refs (rf_RepositoryID r)))"
proof -
  have "rp_Status (Evaluate plan now) \<noteq> Unknown"
    using ins by simp
  then obtain refs logical physical objects memberships capacities where ev:
    "pl_References plan = Some refs" "validatePlan plan now = []" "grouped refs logical physical"
    "indexSnapshot (pl_Snapshot plan) = (objects, memberships, capacities)"
    "rp_Status (Evaluate plan now) =
       fold (\<lambda>r st. combine st (rr_Status r))
         (map (\<lambda>i. repositoryResult i (observed capacities i) (grown (fold (growOne objects memberships) logical []) i))
           (sort (map fst (fold (growOne objects memberships) logical []))))
         (sr_Status (storageResult plan physical (indexOnce pr_Key (sn_Objects (pl_Snapshot plan)))))"
    by (rule evaluated)
  consider "sr_Status (storageResult plan physical (indexOnce pr_Key (sn_Objects (pl_Snapshot plan)))) = Insufficient"
    | i where "i \<in> rf_RepositoryID ` set refs"
        "rr_Status (repositoryResult i (observed capacities i) (grown (fold (growOne objects memberships) logical []) i)) = Insufficient"
    using fold_combine_over(2) [OF evaluated_ids [OF ev(3)], THEN iffD1, OF ev(5) [symmetric, unfolded ins]] by blast
  then show ?thesis
  proof cases
    case 1
    with storage_sound(2) [OF ev(3) 1 f] ev(1) show ?thesis by blast
  next
    case 2
    have "repository_short plan refs i"
      by (rule repository_sound(2) [OF ev(3,4) 2(2)]) (rule q)
    with 2(1) ev(1) show ?thesis by blast
  qed
qed

lemma capacity_verdicts_justified_parts:
  shows "rp_Status (Evaluate plan now) = Sufficient \<Longrightarrow>
      \<exists>refs. pl_References plan = Some refs \<and> pl_Complete plan \<and>
        sn_ObservedAt (pl_Snapshot plan) \<le> now \<and> now < sn_ValidUntil (pl_Snapshot plan) \<and>
        sn_TargetID (pl_Snapshot plan) = pl_TargetID plan \<and>
        sn_StoragePoolID (pl_Snapshot plan) = pk_StoragePoolID (pl_Peak plan) \<and>
        storage_fits plan refs \<and> (\<forall>r \<in> set refs. repository_fits plan refs (rf_RepositoryID r))"
    and "rp_Status (Evaluate plan now) = Insufficient \<Longrightarrow>
      (\<And>f. sn_FreeBytes (pl_Snapshot plan) = Some f \<Longrightarrow> f < 2 ^ 63) \<Longrightarrow>
      (\<And>c q. c \<in> set (sn_Repositories (pl_Snapshot plan)) \<Longrightarrow> rc_QuotaBytes c = Some q \<Longrightarrow> q < 2 ^ 63) \<Longrightarrow>
      \<exists>refs. pl_References plan = Some refs \<and>
        (storage_short plan refs \<or> (\<exists>r \<in> set refs. repository_short plan refs (rf_RepositoryID r)))"
proof -
  show "\<exists>refs. pl_References plan = Some refs \<and> pl_Complete plan \<and>
        sn_ObservedAt (pl_Snapshot plan) \<le> now \<and> now < sn_ValidUntil (pl_Snapshot plan) \<and>
        sn_TargetID (pl_Snapshot plan) = pl_TargetID plan \<and>
        sn_StoragePoolID (pl_Snapshot plan) = pk_StoragePoolID (pl_Peak plan) \<and>
        storage_fits plan refs \<and> (\<forall>r \<in> set refs. repository_fits plan refs (rf_RepositoryID r))"
    if "rp_Status (Evaluate plan now) = Sufficient"
    using evaluate_sufficient [OF that] by (auto simp: validatePlan_def split: if_splits)
qed (rule evaluate_insufficient; force simp: maxInt64_def)

text \<open>
  C9. The verdicts of a capacity plan are justified. A report says sufficient only for a complete inventory and a
  snapshot of the same target and storage pool that is valid now, when every object and every membership is accounted for, the
  bytes of the absent objects, each counted once, together with all five peak budgets fit into the
  free space, and in every repository the used bytes and the bytes of its absent units fit into the
  quota unless that is disabled. It says insufficient only when already the quantities that are known
  exceed the free space or the quota of some repository; unknown ones are never counted as needed or as free.
\<close>

theorem capacity_verdicts_justified:
  "(rp_Status (Evaluate plan now) = Sufficient \<longrightarrow>
      (\<exists>refs. pl_References plan = Some refs \<and> pl_Complete plan \<and>
        sn_ObservedAt (pl_Snapshot plan) \<le> now \<and> now < sn_ValidUntil (pl_Snapshot plan) \<and>
        sn_TargetID (pl_Snapshot plan) = pl_TargetID plan \<and>
        sn_StoragePoolID (pl_Snapshot plan) = pk_StoragePoolID (pl_Peak plan) \<and>
        storage_fits plan refs \<and> (\<forall>r \<in> set refs. repository_fits plan refs (rf_RepositoryID r)))) \<and>
   (rp_Status (Evaluate plan now) = Insufficient \<longrightarrow>
      (\<forall>f. sn_FreeBytes (pl_Snapshot plan) = Some f \<longrightarrow> f < 2 ^ 63) \<longrightarrow>
      (\<forall>c \<in> set (sn_Repositories (pl_Snapshot plan)). \<forall>q. rc_QuotaBytes c = Some q \<longrightarrow> q < 2 ^ 63) \<longrightarrow>
      (\<exists>refs. pl_References plan = Some refs \<and>
        (storage_short plan refs \<or> (\<exists>r \<in> set refs. repository_short plan refs (rf_RepositoryID r)))))"
  using capacity_verdicts_justified_parts [of plan now] by blast

section \<open>Witness\<close>

definition exampleReference :: Reference where
  "exampleReference = \<lparr>rf_RepositoryID = ''r1'', rf_LogicalKey = ''k'', rf_ObjectKey = ''o'',
     rf_Digest = ''sha256:'' @ replicate 64 (CHR ''a''), rf_Size = Some 5\<rparr>"

definition examplePlan :: Plan where
  "examplePlan = \<lparr>pl_SchemaVersion = 1, pl_InventoryID = ''i'', pl_Complete = True, pl_TargetID = ''t'',
     pl_References = Some [exampleReference],
     pl_Snapshot = \<lparr>sn_TargetID = ''t'', sn_ObservedAt = 1, sn_ValidUntil = 9, sn_StoragePoolID = ''p'', sn_FreeBytes = Some 10,
       sn_Repositories = [\<lparr>rc_RepositoryID = ''r1'', rc_UsedBytes = Some 3, rc_QuotaBytes = Some 8\<rparr>],
       sn_Objects = [\<lparr>pr_Key = ''o'', pr_State = ''absent'', pr_Digest = [], pr_Size = None\<rparr>],
       sn_References = [\<lparr>mb_RepositoryID = ''r1'', mb_Key = ''k'', mb_State = ''absent'', mb_Digest = [], mb_Size = None\<rparr>]\<rparr>,
     pl_Peak = \<lparr>pk_StoragePoolID = ''p'', pk_DownloadBytes = Some 1, pk_UploadBytes = Some 1, pk_BackupBytes = Some 1,
       pk_RestoreBytes = Some 1, pk_HeadroomBytes = Some 1\<rparr>\<rparr>"

lemma examplePlan_fields:
  "pl_References examplePlan = Some [exampleReference]" "rf_RepositoryID exampleReference = ''r1''"
  by (simp_all add: examplePlan_def exampleReference_def)

lemma examplePlan_sufficient: "rp_Status (Evaluate examplePlan 5) = Sufficient"
proof -
  have "validatePlan examplePlan 5 = []"
    by (simp add: validatePlan_def examplePlan_def identityPattern_def isAlnum_def isZero_def)
  moreover have "groupReferences [exampleReference] = Inr ([((''r1'', ''k''), exampleReference)], [(''o'', exampleReference)])"
    by (simp add: groupReferences_def exampleReference_def identityPattern_def isAlnum_def validKey_def containsAny_def
        validDigest_def hasPrefix_def list_all_iff isHex_def)
  ultimately show ?thesis
    by (simp add: Evaluate_def examplePlan_fields Let_def)
      (simp add: examplePlan_def exampleReference_def emptyReport_def indexSnapshot_def indexOnce_def growOne_def
        observed_def logicalDelta_def presenceDelta_def membershipPresence_def noGrowth_def add_def addMinimum_def maxInt64_def
        repositoryResult_def storageResult_def peakComponents_def combine_def Let_def)
qed

theorem capacity_verdicts_justified_witness:
  "storage_fits examplePlan [exampleReference] \<and> repository_fits examplePlan [exampleReference] ''r1''"
  using capacity_verdicts_justified [THEN conjunct1, rule_format, OF examplePlan_sufficient] by (simp add: examplePlan_fields)

end
