(* ===== verification/HttpErrorRate.thy ===== *)
theory HttpErrorRate
  imports Prelude "HOL-Library.Word"
begin

text \<open>
  The HTTP error-rate observer (\<^verbatim>\<open>internal/httperrorrate/observer.go\<close>): a bounded window of cumulative counters and
  the snapshot computed from it. Counters are 64-bit words, whose subtraction and addition wrap around.
\<close>

section \<open>Data\<close>

definition Window :: duration where
  "Window = 5 * minute"

definition SampleInterval :: duration where
  "SampleInterval = 15 * second"

definition MaxSampleAge :: duration where
  "MaxSampleAge = 30 * second"

definition MinimumRequests :: "64 word" where
  "MinimumRequests = 20"

definition MaxSafeCount :: "64 word" where
  "MaxSafeCount = 2 ^ 53 - 1"

definition ClassCount :: nat where
  "ClassCount = 10"

definition StatusCount :: nat where
  "StatusCount = 5"

definition maxSamples :: nat where
  "maxSamples = nat (Window div SampleInterval) + 2"

text \<open>
  A \<^verbatim>\<open>Counters\<close> array is the list of its rows. The coverage is kept in nanoseconds, and the ratio as the two
  counts whose quotient the code reports.
\<close>

type_synonym Counters = "64 word list list"

record RateSnapshot =
  rs_InstanceID :: string
  rs_SessionID :: string
  rs_CheckedAt :: gotime
  rs_State :: string
  rs_Reason :: string
  rs_SampleAt :: "gotime option"
  rs_WindowStart :: "gotime option"
  rs_WindowEnd :: "gotime option"
  rs_Coverage :: "duration option"
  rs_Requests :: "64 word option"
  rs_Errors :: "64 word option"
  rs_Ratio :: "(64 word \<times> 64 word) option"

record rate_sample =
  sm_at :: gotime
  sm_counters :: Counters

record Observer =
  ob_instanceID :: string
  ob_sessionID :: string
  ob_samples :: "rate_sample list"
  ob_warmupReason :: string

definition NewObserver :: "string \<Rightarrow> string \<Rightarrow> Observer" where
  "NewObserver instanceID sessionID =
     \<lparr>ob_instanceID = instanceID, ob_sessionID = sessionID, ob_samples = [], ob_warmupReason = ''warming_up''\<rparr>"

section \<open>Sampling\<close>

definition decreased :: "Counters \<Rightarrow> Counters \<Rightarrow> bool" where
  "decreased before after \<longleftrightarrow>
     list_ex (\<lambda>(b, a). list_ex (\<lambda>(x, y). y < x) (zip b a)) (zip before after)"

definition resetObserver :: "string \<Rightarrow> Observer \<Rightarrow> Observer" where
  "resetObserver reason ob = ob\<lparr>ob_samples := [], ob_warmupReason := reason\<rparr>"

definition appendSample :: "gotime \<Rightarrow> Counters \<Rightarrow> Observer \<Rightarrow> Observer" where
  "appendSample at counters ob =
     (let samples = ob_samples ob @ [\<lparr>sm_at = at, sm_counters = counters\<rparr>]
      in ob\<lparr>ob_samples := (if length samples > maxSamples then drop (length samples - maxSamples) samples else samples)\<rparr>)"

definition Record :: "gotime \<Rightarrow> string \<Rightarrow> Counters \<Rightarrow> Observer \<Rightarrow> Observer" where
  "Record at sessionID counters ob =
     (if ob_instanceID ob = [] \<or> sessionID = [] \<or> isZero at
      then (resetObserver ''source_unavailable'' ob)\<lparr>ob_sessionID := sessionID\<rparr>
      else
        let ob = (if sessionID \<noteq> ob_sessionID ob then (resetObserver ''session_changed'' ob)\<lparr>ob_sessionID := sessionID\<rparr> else ob)
        in if ob_samples ob = [] then appendSample at counters ob
           else
             let prev = last (ob_samples ob)
             in if at < sm_at prev then appendSample at counters (resetObserver ''clock_invalid'' ob)
                else if decreased (sm_counters prev) counters then appendSample at counters (resetObserver ''counter_reset'' ob)
                else if at - sm_at prev > MaxSampleAge then appendSample at counters (resetObserver ''sampling_gap'' ob)
                else if at = sm_at prev then ob
                else appendSample at counters ob)"

section \<open>Snapshots\<close>

fun scanWindow :: "gotime \<Rightarrow> rate_sample list \<Rightarrow> rate_sample \<times> bool \<Rightarrow> rate_sample \<times> bool" where
  "scanWindow cutoff [] acc = acc"
| "scanWindow cutoff (s # ss) acc = (if sm_at s > cutoff then acc else scanWindow cutoff ss (s, True))"

text \<open>The cells of both arrays in the order of the nested loops, marked when they count server errors.\<close>

definition cells :: "Counters \<Rightarrow> Counters \<Rightarrow> (bool \<times> 64 word \<times> 64 word) list" where
  "cells late early = concat (map (\<lambda>(l, e). map (\<lambda>(s, x, y). (s = StatusCount - 1, x, y)) (zip [0..<StatusCount] (zip l e))) (zip late early))"

fun countCells :: "64 word \<Rightarrow> 64 word \<Rightarrow> (bool \<times> 64 word \<times> 64 word) list \<Rightarrow> (64 word \<times> 64 word) option" where
  "countCells sofar errors [] = Some (sofar, errors)"
| "countCells sofar errors ((isError, x, y) # cs) =
     (let delta = x - y
      in if delta > MaxSafeCount - sofar then None
         else countCells (sofar + delta) (if isError then errors + delta else errors) cs)"

text \<open>\<^const>\<open>None\<close> is the dereference of a nil pointer.\<close>

definition classify :: "RateSnapshot \<Rightarrow> RateSnapshot option" where
  "classify r =
     (case rs_Requests r of
        None \<Rightarrow> None
      | Some requests \<Rightarrow>
          if requests = 0 then Some (r\<lparr>rs_Reason := ''no_traffic''\<rparr>)
          else if requests < MinimumRequests then Some (r\<lparr>rs_Reason := ''low_sample''\<rparr>)
          else (case rs_Errors r of
                  None \<Rightarrow> None
                | Some errors \<Rightarrow> Some (r\<lparr>rs_State := ''available'', rs_Reason := [], rs_Ratio := Some (errors, requests)\<rparr>)))"

definition finishSnapshot :: "gotime \<Rightarrow> gotime \<Rightarrow> bool \<Rightarrow> RateSnapshot \<Rightarrow> RateSnapshot option" where
  "finishSnapshot now lastAt complete r =
     (if now - lastAt > MaxSampleAge then Some (r\<lparr>rs_State := ''stale'', rs_Reason := ''sample_stale''\<rparr>)
      else if \<not> complete then Some r
      else classify r)"

definition Snapshot :: "gotime \<Rightarrow> Observer \<Rightarrow> RateSnapshot option" where
  "Snapshot now ob =
     (let r = \<lparr>rs_InstanceID = ob_instanceID ob, rs_SessionID = ob_sessionID ob, rs_CheckedAt = now, rs_State = ''unknown'',
               rs_Reason = ''source_unavailable'', rs_SampleAt = None, rs_WindowStart = None, rs_WindowEnd = None,
               rs_Coverage = None, rs_Requests = None, rs_Errors = None, rs_Ratio = None\<rparr>
      in if ob_samples ob = [] then Some r
         else
           let final = last (ob_samples ob); r = r\<lparr>rs_SampleAt := Some (sm_at final)\<rparr>
           in if now < sm_at final \<or> isZero now then Some (r\<lparr>rs_Reason := ''clock_invalid''\<rparr>)
              else
                let (start, complete) = scanWindow (sm_at final - Window) (ob_samples ob) (hd (ob_samples ob), False);
                    coverage = sm_at final - sm_at start;
                    r = r\<lparr>rs_WindowStart := Some (sm_at start), rs_WindowEnd := Some (sm_at final), rs_Coverage := Some coverage,
                          rs_Reason := ob_warmupReason ob\<rparr>
                in if coverage > 0
                   then (case countCells 0 0 (cells (sm_counters final) (sm_counters start)) of
                           None \<Rightarrow> Some (r\<lparr>rs_Reason := ''count_overflow''\<rparr>)
                         | Some (requests, errors) \<Rightarrow>
                             finishSnapshot now (sm_at final) complete (r\<lparr>rs_Requests := Some requests, rs_Errors := Some errors\<rparr>))
                   else finishSnapshot now (sm_at final) complete r)"

end
