(* ===== verification/HttpErrorRateLaws.thy ===== *)
theory HttpErrorRateLaws
  imports HttpErrorRate
begin

text \<open>
  What a reported error ratio means: the window of every reachable observer is bounded, gapless and free
  of counter resets, and the counts of a snapshot are the exact differences of the counters at its boundaries.
\<close>

section \<open>Counters\<close>

definition counters_ok :: "Counters \<Rightarrow> bool" where
  "counters_ok c \<longleftrightarrow> length c = ClassCount \<and> (\<forall>row \<in> set c. length row = StatusCount)"

definition requestsBetween :: "Counters \<Rightarrow> Counters \<Rightarrow> nat" where
  "requestsBetween early late =
     (\<Sum>c < ClassCount. \<Sum>s < StatusCount. unat (late ! c ! s) - unat (early ! c ! s))"

definition errorsBetween :: "Counters \<Rightarrow> Counters \<Rightarrow> nat" where
  "errorsBetween early late =
     (\<Sum>c < ClassCount. unat (late ! c ! (StatusCount - 1)) - unat (early ! c ! (StatusCount - 1)))"

definition counters_le :: "Counters \<Rightarrow> Counters \<Rightarrow> bool" where
  "counters_le early late \<longleftrightarrow> (\<forall>c < ClassCount. \<forall>s < StatusCount. early ! c ! s \<le> late ! c ! s)"

lemma counters_le_trans: "counters_le a b \<Longrightarrow> counters_le b c \<Longrightarrow> counters_le a c"
  unfolding counters_le_def by (meson order_trans)

lemma not_decreased:
  assumes "counters_ok a" and "counters_ok b" and "\<not> decreased a b"
  shows "counters_le a b"
  unfolding counters_le_def
proof (intro allI impI)
  fix c s
  assume c: "c < ClassCount" and s: "s < StatusCount"
  with assms have len: "length a = ClassCount" "length b = ClassCount" "length (a ! c) = StatusCount" "length (b ! c) = StatusCount"
    by (simp_all add: counters_ok_def)
  have "(a ! c, b ! c) \<in> set (zip a b)" "(a ! c ! s, b ! c ! s) \<in> set (zip (a ! c) (b ! c))"
    using c s len by (force simp: set_zip)+
  with assms(3) show "a ! c ! s \<le> b ! c ! s"
    by (fastforce simp: decreased_def list_ex_iff not_less)
qed

lemma zip_rows:
  assumes "length xs = n" and "length ys = n"
  shows "zip xs ys = map (\<lambda>i. (xs ! i, ys ! i)) [0..<n]"
  using assms by (intro nth_equalityI) auto

lemma cells_rows:
  assumes "counters_ok late" and "counters_ok early"
  shows "cells late early =
     concat (map (\<lambda>c. map (\<lambda>s. (s = StatusCount - 1, late ! c ! s, early ! c ! s)) [0..<StatusCount]) [0..<ClassCount])"
proof -
  have "zip late early = map (\<lambda>c. (late ! c, early ! c)) [0..<ClassCount]"
    using assms by (intro zip_rows) (simp_all add: counters_ok_def)
  moreover have "map (\<lambda>(s, x, y). (s = StatusCount - 1, x, y)) (zip [0..<StatusCount] (zip (late ! c) (early ! c))) =
      map (\<lambda>s. (s = StatusCount - 1, late ! c ! s, early ! c ! s)) [0..<StatusCount]" if "c < ClassCount" for c
    using assms that by (intro nth_equalityI) (auto simp: counters_ok_def)
  ultimately show ?thesis
    unfolding cells_def by (auto simp: o_def intro!: arg_cong [where f = concat] map_cong)
qed

lemma sum_list_concat: "sum_list (concat xss) = (\<Sum>xs\<leftarrow>xss. sum_list (xs :: nat list))"
  by (induction xss) simp_all

lemma cells_sums:
  assumes "counters_ok late" and "counters_ok early"
  shows "(\<Sum>(b, x, y)\<leftarrow>cells late early. unat x - unat y) = requestsBetween early late"
    and "(\<Sum>(b, x, y)\<leftarrow>cells late early. if b then unat x - unat y else 0) = errorsBetween early late"
proof -
  have pos: "StatusCount - 1 < StatusCount"
    by (simp add: StatusCount_def)
  show "(\<Sum>(b, x, y)\<leftarrow>cells late early. unat x - unat y) = requestsBetween early late"
    by (simp add: cells_rows [OF assms] requestsBetween_def map_concat sum_list_concat o_def
        interv_sum_list_conv_sum_set_nat atLeast0LessThan)
  have "(\<Sum>s < StatusCount. if s = StatusCount - 1 then unat (late ! c ! s) - unat (early ! c ! s) else 0) =
      unat (late ! c ! (StatusCount - 1)) - unat (early ! c ! (StatusCount - 1))" for c
    using pos by (simp add: sum.delta)
  then show "(\<Sum>(b, x, y)\<leftarrow>cells late early. if b then unat x - unat y else 0) = errorsBetween early late"
    by (simp add: cells_rows [OF assms] errorsBetween_def map_concat sum_list_concat o_def
        interv_sum_list_conv_sum_set_nat atLeast0LessThan)
qed

lemma cells_le:
  assumes "counters_ok late" and "counters_ok early" and "counters_le early late" and "(b, x, y) \<in> set (cells late early)"
  shows "y \<le> x"
  using assms by (auto simp: cells_rows counters_le_def)

lemma countCells_exact:
  assumes "\<forall>(b, x, y) \<in> set cs. y \<le> x" and "unat t \<le> 2 ^ 53 - 1" and "unat e \<le> unat t" and "countCells t e cs = Some (t', e')"
  shows "unat t' = unat t + (\<Sum>(b, x, y)\<leftarrow>cs. unat x - unat y) \<and>
     unat e' = unat e + (\<Sum>(b, x, y)\<leftarrow>cs. if b then unat x - unat y else 0) \<and> unat t' \<le> 2 ^ 53 - 1 \<and> unat e' \<le> unat t'"
  using assms
proof (induction t e cs rule: countCells.induct)
  case (2 t e isError x y cs)
  let ?d = "x - y"
  have d: "unat ?d = unat x - unat y"
    using "2.prems"(1) by (simp add: unat_sub)
  have "unat MaxSafeCount = 2 ^ 53 - 1"
    by (simp add: MaxSafeCount_def)
  moreover have "t \<le> MaxSafeCount"
    using "2.prems"(2) by (simp add: word_le_nat_alt MaxSafeCount_def)
  ultimately have room: "unat (MaxSafeCount - t) = 2 ^ 53 - 1 - unat t"
    by (simp add: unat_sub)
  have ok: "\<not> ?d > MaxSafeCount - t"
    using "2.prems"(4) by (auto simp: Let_def split: if_splits)
  then have bound: "unat t + unat ?d \<le> 2 ^ 53 - 1"
    using room "2.prems"(2) by (simp add: word_less_nat_alt)
  then have sum: "unat (t + ?d) = unat t + unat ?d"
    by (intro unat_add_lem [THEN iffD1]) simp
  have esum: "unat (e + ?d) = unat e + unat ?d"
    using bound "2.prems"(3) by (intro unat_add_lem [THEN iffD1]) simp
  have run: "countCells (t + ?d) (if isError then e + ?d else e) cs = Some (t', e')"
    using "2.prems"(4) ok by (simp add: Let_def)
  have "unat t' = unat (t + ?d) + (\<Sum>(b, x, y)\<leftarrow>cs. unat x - unat y) \<and>
      unat e' = unat (if isError then e + ?d else e) + (\<Sum>(b, x, y)\<leftarrow>cs. if b then unat x - unat y else 0) \<and>
      unat t' \<le> 2 ^ 53 - 1 \<and> unat e' \<le> unat t'"
    using "2.IH" [OF refl ok _ _ _ run] "2.prems"(1,3) bound sum esum by (cases isError) auto
  then show ?case
    using sum esum d by (cases isError) auto
qed simp

section \<open>The window\<close>

definition follows :: "rate_sample \<Rightarrow> rate_sample \<Rightarrow> bool" where
  "follows a b \<longleftrightarrow> sm_at a < sm_at b \<and> sm_at b - sm_at a \<le> MaxSampleAge \<and> counters_le (sm_counters a) (sm_counters b)"

definition window_ok :: "rate_sample list \<Rightarrow> bool" where
  "window_ok ss \<longleftrightarrow> length ss \<le> maxSamples \<and> (\<forall>s \<in> set ss. counters_ok (sm_counters s)) \<and> successively follows ss"

inductive observer_reach :: "string \<Rightarrow> string \<Rightarrow> Observer \<Rightarrow> bool" for instanceID sessionID where
  start: "observer_reach instanceID sessionID (NewObserver instanceID sessionID)"
| sampled: "observer_reach instanceID sessionID ob \<Longrightarrow> counters_ok counters \<Longrightarrow>
    observer_reach instanceID sessionID (Record at session counters ob)"

lemma successively_drop: "successively P xs \<Longrightarrow> successively P (drop n xs)"
  by (metis append_take_drop_id successively_append_iff)

lemma window_ok_append:
  assumes "window_ok (ob_samples ob)" and "counters_ok counters"
    and "ob_samples ob \<noteq> [] \<Longrightarrow> follows (last (ob_samples ob)) \<lparr>sm_at = at, sm_counters = counters\<rparr>"
  shows "window_ok (ob_samples (appendSample at counters ob))"
proof -
  let ?ss = "ob_samples ob @ [\<lparr>sm_at = at, sm_counters = counters\<rparr>]"
  have "successively follows ?ss"
    using assms by (auto simp: window_ok_def successively_append_iff)
  moreover have "\<forall>s \<in> set ?ss. counters_ok (sm_counters s)"
    using assms by (simp add: window_ok_def)
  moreover have "set (drop n ?ss) \<subseteq> set ?ss" for n
    by (rule set_drop_subset)
  ultimately show ?thesis
    unfolding appendSample_def window_ok_def Let_def
    by (simp del: drop_append set_append add: successively_drop subset_iff)
qed

lemma window_ok_reset [simp]: "window_ok (ob_samples (resetObserver reason ob))"
  by (simp add: resetObserver_def window_ok_def)

lemma reset_samples [simp]: "ob_samples (resetObserver reason ob) = []"
  by (simp add: resetObserver_def)

lemma window_ok_Record:
  assumes "window_ok (ob_samples ob)" and "counters_ok counters"
  shows "window_ok (ob_samples (Record at session counters ob))"
proof -
  let ?ob = "if session \<noteq> ob_sessionID ob then (resetObserver ''session_changed'' ob)\<lparr>ob_sessionID := session\<rparr> else ob"
  have ok: "window_ok (ob_samples ?ob)"
    using assms(1) by (simp add: window_ok_def)
  have "follows (last (ob_samples ?ob)) \<lparr>sm_at = at, sm_counters = counters\<rparr>"
    if "ob_samples ?ob \<noteq> []" "\<not> at < sm_at (last (ob_samples ?ob))" "\<not> decreased (sm_counters (last (ob_samples ?ob))) counters"
      "\<not> at - sm_at (last (ob_samples ?ob)) > MaxSampleAge" "at \<noteq> sm_at (last (ob_samples ?ob))"
    using that ok assms(2) not_decreased [of "sm_counters (last (ob_samples ?ob))" counters]
    by (auto simp: follows_def window_ok_def)
  then show ?thesis
    using ok assms(2) window_ok_append [of ?ob counters at] window_ok_append [of "resetObserver r ?ob" counters at for r]
    by (auto simp: Record_def Let_def window_ok_def resetObserver_def)
qed

lemma observer_reach_ok: "observer_reach i se ob \<Longrightarrow> window_ok (ob_samples ob)"
proof (induction rule: observer_reach.induct)
  case start
  then show ?case by (simp add: NewObserver_def window_ok_def)
next
  case (sampled ob counters at session)
  show ?case by (rule window_ok_Record [OF sampled.IH sampled.hyps(2)])
qed

text \<open>The start of the window is the last sample that is at least as old as the window is long.\<close>

lemma scanWindow_eq:
  "scanWindow cutoff ss acc =
     (let old = takeWhile (\<lambda>s. sm_at s \<le> cutoff) ss in if old = [] then acc else (last old, True))"
  by (induction cutoff ss acc rule: scanWindow.induct) (auto simp: Let_def)

lemma window_later:
  assumes "successively follows (a # ss)" and "b \<in> set ss"
  shows "sm_at a < sm_at b \<and> counters_le (sm_counters a) (sm_counters b)"
  using assms
proof (induction ss arbitrary: a)
  case (Cons c ss)
  show ?case
  proof (cases "b = c")
    case True
    with Cons.prems show ?thesis by (simp add: follows_def)
  next
    case False
    with Cons.prems Cons.IH [of c] have "sm_at c < sm_at b \<and> counters_le (sm_counters c) (sm_counters b)"
      by simp
    with Cons.prems show ?thesis
      using counters_le_trans by (auto simp: follows_def)
  qed
qed simp

lemma window_positive: "0 < Window" "0 < MaxSampleAge"
  by (simp_all add: Window_def MaxSampleAge_def)

lemma window_bounds:
  assumes ok: "successively follows ss" "ss \<noteq> []"
    and scan: "scanWindow (sm_at (last ss) - Window) ss (hd ss, False) = (start, complete)"
  shows "start \<in> set ss" "counters_le (sm_counters start) (sm_counters (last ss))" "sm_at start \<le> sm_at (last ss)"
    and "complete \<Longrightarrow> Window \<le> sm_at (last ss) - sm_at start \<and> sm_at (last ss) - sm_at start < Window + MaxSampleAge"
proof -
  let ?old = "takeWhile (\<lambda>s. sm_at s \<le> sm_at (last ss) - Window) ss"
  have from_start: "counters_le (sm_counters s) (sm_counters (last ss)) \<and> sm_at s \<le> sm_at (last ss)" if s: "s \<in> set ss" for s
  proof -
    obtain pre post where ss: "ss = pre @ s # post"
      using s by (meson split_list)
    then have "successively follows (s # post)"
      using ok(1) by (simp add: successively_append_iff)
    then show ?thesis
      using window_later [of s post "last ss"] ss by (cases "post = []") (auto simp: counters_le_def)
  qed
  show "start \<in> set ss"
  proof (cases "?old = []")
    case True
    with scan hd_in_set [OF ok(2)] show ?thesis by (auto simp: scanWindow_eq)
  next
    case False
    with scan have "start = last ?old" by (simp add: scanWindow_eq Let_def)
    with last_in_set [OF False] show ?thesis
      using set_takeWhileD [of "last ?old" "\<lambda>s. sm_at s \<le> sm_at (last ss) - Window" ss] by blast
  qed
  then show "counters_le (sm_counters start) (sm_counters (last ss))" "sm_at start \<le> sm_at (last ss)"
    using from_start by blast+
  show "Window \<le> sm_at (last ss) - sm_at start \<and> sm_at (last ss) - sm_at start < Window + MaxSampleAge" if complete
  proof -
    have old: "?old \<noteq> []" "start = last ?old"
      using scan that by (auto simp: scanWindow_eq Let_def split: if_splits)
    then have early: "sm_at start \<le> sm_at (last ss) - Window"
      using last_in_set [OF old(1)] set_takeWhileD [of start "\<lambda>s. sm_at s \<le> sm_at (last ss) - Window" ss] by simp
    have "dropWhile (\<lambda>s. sm_at s \<le> sm_at (last ss) - Window) ss \<noteq> []"
      using last_in_set [OF ok(2)] window_positive(1) by (auto simp: dropWhile_eq_Nil_conv intro!: bexI [of _ "last ss"])
    then obtain next_one post where post: "dropWhile (\<lambda>s. sm_at s \<le> sm_at (last ss) - Window) ss = next_one # post"
      by (meson neq_Nil_conv)
    then have late: "\<not> sm_at next_one \<le> sm_at (last ss) - Window"
      by (metis hd_dropWhile list.distinct(1) list.sel(1))
    have "ss = ?old @ next_one # post"
      using post by (metis takeWhile_dropWhile_id)
    then have "follows start next_one"
      using ok(1) old by (metis last.simps list.distinct(1) list.sel(1) successively_append_iff)
    with early late show ?thesis by (auto simp: follows_def)
  qed
qed

section \<open>The property of snapshots\<close>

text \<open>A snapshot of a non-empty window at a valid time, reduced to the counts between its boundaries.\<close>

lemma Snapshot_window:
  assumes ok: "window_ok (ob_samples ob)" and ne: "ob_samples ob \<noteq> []"
    and now: "\<not> (now < sm_at (last (ob_samples ob)) \<or> isZero now)"
    and scan: "scanWindow (sm_at (last (ob_samples ob)) - Window) (ob_samples ob) (hd (ob_samples ob), False) = (start, complete)"
  shows "\<exists>r. Snapshot now ob = Some r \<and>
     (\<forall>e n. rs_Ratio r = Some (e, n) \<longrightarrow>
        complete \<and> now - sm_at (last (ob_samples ob)) \<le> MaxSampleAge \<and> n \<ge> MinimumRequests \<and>
        rs_WindowStart r = Some (sm_at start) \<and> rs_WindowEnd r = Some (sm_at (last (ob_samples ob))) \<and>
        countCells 0 0 (cells (sm_counters (last (ob_samples ob))) (sm_counters start)) = Some (n, e))"
proof -
  have "0 < sm_at (last (ob_samples ob)) - sm_at start" if complete
    using window_bounds(4) [OF _ ne scan that] ok window_positive by (simp add: window_ok_def)
  then show ?thesis
    using ne now scan
    by (auto simp: Snapshot_def Let_def finishSnapshot_def classify_def case_prod_beta not_less split: option.splits if_splits)
qed

lemma error_ratio_exact_parts:
  assumes "observer_reach instanceID sessionID ob"
  shows "length (ob_samples ob) \<le> 22" and "\<exists>r. Snapshot now ob = Some r"
    and "Snapshot now ob = Some r \<Longrightarrow> rs_Ratio r = Some (errors, requests) \<Longrightarrow>
      \<exists>start final. start \<in> set (ob_samples ob) \<and> final \<in> set (ob_samples ob) \<and>
        rs_WindowStart r = Some (sm_at start) \<and> rs_WindowEnd r = Some (sm_at final) \<and>
        5 * minute \<le> sm_at final - sm_at start \<and> sm_at final - sm_at start < 5 * minute + 30 * second \<and>
        0 \<le> now - sm_at final \<and> now - sm_at final \<le> 30 * second \<and>
        counters_le (sm_counters start) (sm_counters final) \<and>
        unat requests = requestsBetween (sm_counters start) (sm_counters final) \<and>
        unat errors = errorsBetween (sm_counters start) (sm_counters final) \<and>
        20 \<le> unat requests \<and> unat requests < 2 ^ 53 \<and> errors \<le> requests"
proof -
  have ok: "window_ok (ob_samples ob)"
    using assms by (rule observer_reach_ok)
  then show "length (ob_samples ob) \<le> 22"
    by (simp add: window_ok_def maxSamples_def Window_def SampleInterval_def)
  let ?ss = "ob_samples ob"
  obtain start complete where scan: "scanWindow (sm_at (last ?ss) - Window) ?ss (hd ?ss, False) = (start, complete)"
    by fastforce
  have empty: "\<exists>r. Snapshot now ob = Some r \<and> rs_Ratio r = None"
    if "?ss = [] \<or> now < sm_at (last ?ss) \<or> isZero now"
    using that by (auto simp: Snapshot_def Let_def)
  show "\<exists>r. Snapshot now ob = Some r"
    using empty Snapshot_window [OF ok _ _ scan] by blast
  assume s: "Snapshot now ob = Some r" and q: "rs_Ratio r = Some (errors, requests)"
  then have ne: "?ss \<noteq> []" and valid: "\<not> (now < sm_at (last ?ss) \<or> isZero now)"
    using empty by fastforce+
  note w = Snapshot_window [OF ok ne valid scan]
  then have facts: complete "now - sm_at (last ?ss) \<le> MaxSampleAge" "requests \<ge> MinimumRequests"
    "rs_WindowStart r = Some (sm_at start)" "rs_WindowEnd r = Some (sm_at (last ?ss))"
    and count: "countCells 0 0 (cells (sm_counters (last ?ss)) (sm_counters start)) = Some (requests, errors)"
    using s q by auto
  have succ: "successively follows ?ss"
    using ok by (simp add: window_ok_def)
  note bounds = window_bounds [OF succ ne scan]
  have cok: "counters_ok (sm_counters (last ?ss))" "counters_ok (sm_counters start)"
    using ok ne bounds(1) by (simp_all add: window_ok_def)
  have "unat requests = requestsBetween (sm_counters start) (sm_counters (last ?ss)) \<and>
      unat errors = errorsBetween (sm_counters start) (sm_counters (last ?ss)) \<and> unat requests \<le> 2 ^ 53 - 1 \<and> unat errors \<le> unat requests"
    using countCells_exact [OF _ _ _ count] cells_le [OF cok bounds(2)] cells_sums [OF cok] by auto
  moreover have "20 \<le> unat requests"
    using facts(3) by (simp add: MinimumRequests_def word_le_nat_alt)
  ultimately show "\<exists>start final. start \<in> set ?ss \<and> final \<in> set ?ss \<and>
        rs_WindowStart r = Some (sm_at start) \<and> rs_WindowEnd r = Some (sm_at final) \<and>
        5 * minute \<le> sm_at final - sm_at start \<and> sm_at final - sm_at start < 5 * minute + 30 * second \<and>
        0 \<le> now - sm_at final \<and> now - sm_at final \<le> 30 * second \<and>
        counters_le (sm_counters start) (sm_counters final) \<and>
        unat requests = requestsBetween (sm_counters start) (sm_counters final) \<and>
        unat errors = errorsBetween (sm_counters start) (sm_counters final) \<and>
        20 \<le> unat requests \<and> unat requests < 2 ^ 53 \<and> errors \<le> requests"
    using bounds facts valid ne
    by (intro exI [of _ start] exI [of _ "last ?ss"]) (auto simp: Window_def MaxSampleAge_def word_le_nat_alt)
qed

text \<open>
  C12. The error ratio is exact. Whatever samples have been recorded, an observer keeps at most 22 of them
  and computing a snapshot never dereferences a missing value. When the snapshot reports a ratio, its
  window lies between two kept samples, is at least five minutes and less than five and a half minutes
  long and ended at most 30 seconds ago; its counts are at least 20 and at most \<^verbatim>\<open>2^53-1\<close> requests, and are the exact sums of the
  increases of all counters, respectively of the server-error counters, none of which was reset in between.
\<close>

theorem error_ratio_exact:
  assumes "observer_reach instanceID sessionID ob"
  shows "length (ob_samples ob) \<le> 22 \<and> (\<exists>r. Snapshot now ob = Some r) \<and>
    (\<forall>r errors requests. Snapshot now ob = Some r \<longrightarrow> rs_Ratio r = Some (errors, requests) \<longrightarrow>
      (\<exists>start final. start \<in> set (ob_samples ob) \<and> final \<in> set (ob_samples ob) \<and>
        rs_WindowStart r = Some (sm_at start) \<and> rs_WindowEnd r = Some (sm_at final) \<and>
        5 * minute \<le> sm_at final - sm_at start \<and> sm_at final - sm_at start < 5 * minute + 30 * second \<and>
        0 \<le> now - sm_at final \<and> now - sm_at final \<le> 30 * second \<and>
        counters_le (sm_counters start) (sm_counters final) \<and>
        unat requests = requestsBetween (sm_counters start) (sm_counters final) \<and>
        unat errors = errorsBetween (sm_counters start) (sm_counters final) \<and>
        20 \<le> unat requests \<and> unat requests < 2 ^ 53 \<and> errors \<le> requests))"
  by (intro conjI allI impI error_ratio_exact_parts [OF assms])

section \<open>Witness\<close>

definition exampleCounters :: "64 word \<Rightarrow> Counters" where
  "exampleCounters n = replicate 10 (replicate 5 n)"

definition exampleObserver :: Observer where
  "exampleObserver =
     fold (\<lambda>k. Record (1 + int k * 30 * second) ''s'' (exampleCounters (of_nat (3 * k)))) [0..<11] (NewObserver ''i'' ''s'')"

lemma exampleCounters_ok: "counters_ok (exampleCounters n)"
  by (simp add: counters_ok_def exampleCounters_def ClassCount_def StatusCount_def)

lemma exampleObserver_reach: "observer_reach ''i'' ''s'' exampleObserver"
proof -
  have run: "observer_reach ''i'' ''s'' (fold (\<lambda>k. Record (at k) ''s'' (exampleCounters (c k))) ks ob)"
    if "observer_reach ''i'' ''s'' ob" for at c ob and ks :: "nat list"
    using that
    by (induction ks arbitrary: ob) (auto intro: observer_reach.sampled exampleCounters_ok)
  show ?thesis
    unfolding exampleObserver_def by (rule run [OF observer_reach.start])
qed

lemma exampleCounters_grow: "a \<le> b \<Longrightarrow> \<not> decreased (exampleCounters a) (exampleCounters b)"
  by (simp add: decreased_def exampleCounters_def list_ex_iff)

lemma exampleObserver_samples:
  "exampleObserver = \<lparr>ob_instanceID = ''i'', ob_sessionID = ''s'',
     ob_samples = map (\<lambda>k. \<lparr>sm_at = 1 + int k * 30 * second, sm_counters = exampleCounters (of_nat (3 * k))\<rparr>) [0..<11],
     ob_warmupReason = ''warming_up''\<rparr>"
  by (simp add: exampleObserver_def NewObserver_def upt_rec Record_def appendSample_def Let_def isZero_def MaxSampleAge_def
      maxSamples_def Window_def SampleInterval_def exampleCounters_grow)

lemma exampleObserver_counts: "countCells 0 0 (cells (exampleCounters 30) (exampleCounters 0)) = Some (1500, 300)"
  by code_simp

lemma exampleObserver_ratio: "map_option rs_Ratio (Snapshot (10 + 300 * second) exampleObserver) = Some (Some (300, 1500))"
  by (simp add: exampleObserver_samples upt_rec Snapshot_def Let_def isZero_def Window_def exampleObserver_counts
      finishSnapshot_def classify_def MaxSampleAge_def MinimumRequests_def)

theorem error_ratio_exact_witness:
  "\<exists>start final. start \<in> set (ob_samples exampleObserver) \<and> final \<in> set (ob_samples exampleObserver) \<and>
     requestsBetween (sm_counters start) (sm_counters final) = 1500 \<and> errorsBetween (sm_counters start) (sm_counters final) = 300"
proof -
  obtain r where r: "Snapshot (10 + 300 * second) exampleObserver = Some r" "rs_Ratio r = Some (300, 1500)"
    using exampleObserver_ratio by auto
  obtain start final where "start \<in> set (ob_samples exampleObserver)" "final \<in> set (ob_samples exampleObserver)"
    "unat (1500 :: 64 word) = requestsBetween (sm_counters start) (sm_counters final)"
    "unat (300 :: 64 word) = errorsBetween (sm_counters start) (sm_counters final)"
    using error_ratio_exact [OF exampleObserver_reach, THEN conjunct2, THEN conjunct2, rule_format, OF r] by blast
  moreover have "unat (1500 :: 64 word) = 1500" "unat (300 :: 64 word) = 300"
    by simp_all
  ultimately show ?thesis by metis
qed

end
