(* ===== verification/Quarantine.thy ===== *)
theory Quarantine
  imports Webhooks GoStrings
begin

text \<open>
  Artifact quarantine: the decisions kept per immutable identity (\<^verbatim>\<open>artifact_quarantine.go\<close>,
  \<^verbatim>\<open>memory_artifact_quarantine.go\<close>), the admission check of every distribution
  (\<^verbatim>\<open>artifact_distribution_admission.go\<close>) and the read policy of a repository (\<^verbatim>\<open>quarantine_read_policy.go\<close>).
\<close>

section \<open>Data\<close>

type_synonym ArtifactQuarantineState = string

abbreviation ArtifactQuarantineStateQuarantined :: ArtifactQuarantineState where
  "ArtifactQuarantineStateQuarantined \<equiv> ''quarantined''"
abbreviation ArtifactQuarantineStateReleased :: ArtifactQuarantineState where
  "ArtifactQuarantineStateReleased \<equiv> ''released''"

record ArtifactQuarantine =
  aq_RepositoryID :: string
  aq_Format :: Format
  aq_Coordinate :: string
  aq_Digest :: string
  aq_State :: ArtifactQuarantineState
  aq_Reason :: string
  aq_UpdatedBy :: string
  aq_Version :: string
  aq_QuarantinedAt :: gotime
  aq_ReleasedAt :: gotime
  aq_UpdatedAt :: gotime

record ArtifactQuarantineWebhookData =
  qd_RepositoryID :: string
  qd_Format :: Format
  qd_Coordinate :: string
  qd_Digest :: string
  qd_State :: ArtifactQuarantineState
  qd_Reason :: string
  qd_Actor :: string
  qd_Version :: string

record RepositoryQuarantineReadPolicy =
  qp_Version :: string
  qp_Enabled :: bool

record quarantine_store = webhook_store +
  artifactQuarantines :: "ArtifactQuarantine gomap"
  quarantineReadPolicies :: "RepositoryQuarantineReadPolicy gomap"

section \<open>Validity of a decision\<close>

text \<open>
  \<^verbatim>\<open>utf8.RuneCountInString\<close>: a well-formed encoding counts once, every byte that does not start one counts once
  as well. \<open>runeWidth\<close> is the number of bytes the next rune takes.
\<close>

definition runeWidth :: "nat list \<Rightarrow> nat" where
  "runeWidth bs =
     (case bs of
        b # c # rest \<Rightarrow>
          if 0xC2 \<le> b \<and> b \<le> 0xDF \<and> 0x80 \<le> c \<and> c \<le> 0xBF then 2
          else (case rest of
             d # rest' \<Rightarrow>
               if 0xE0 \<le> b \<and> b \<le> 0xEF \<and> (if b = 0xE0 then 0xA0 else 0x80) \<le> c \<and> c \<le> (if b = 0xED then 0x9F else 0xBF)
                  \<and> 0x80 \<le> d \<and> d \<le> 0xBF then 3
               else (case rest' of
                  e # _ \<Rightarrow>
                    if 0xF0 \<le> b \<and> b \<le> 0xF4 \<and> (if b = 0xF0 then 0x90 else 0x80) \<le> c \<and> c \<le> (if b = 0xF4 then 0x8F else 0xBF)
                       \<and> 0x80 \<le> d \<and> d \<le> 0xBF \<and> 0x80 \<le> e \<and> e \<le> 0xBF then 4
                    else 1
                | [] \<Rightarrow> 1)
           | [] \<Rightarrow> 1)
      | _ \<Rightarrow> 1)"

lemma runeWidth_pos: "0 < runeWidth bs"
  by (auto simp: runeWidth_def split: list.split)

function runeCount :: "nat list \<Rightarrow> nat" where
  "runeCount bs = (if bs = [] then 0 else 1 + runeCount (drop (runeWidth bs) bs))"
  by pat_completeness auto
termination
  by (relation "measure length") (use runeWidth_pos in \<open>auto simp: diff_less\<close>)

declare runeCount.simps [simp del]

definition runes :: "string \<Rightarrow> nat" where
  "runes s = runeCount (map of_char s)"

definition scopeChar :: "char \<Rightarrow> bool" where
  "scopeChar c \<longleftrightarrow> c \<in> set ''abcdefghijklmnopqrstuvwxyz0123456789''"

definition ValidAPTPublicationScope :: "string \<Rightarrow> bool" where
  "ValidAPTPublicationScope v \<longleftrightarrow> \<not> (v = [] \<or> length v > 128 \<or> \<not> scopeChar (hd v)) \<and>
     list_all (\<lambda>r. scopeChar r \<or> r \<in> set ''-+.'') v"

definition ValidAPTObjectName :: "string \<Rightarrow> bool" where
  "ValidAPTObjectName v \<longleftrightarrow> v \<noteq> [] \<and> length v \<le> 255 \<and> CHR ''/'' \<notin> set v \<and> hasSuffix v ''.deb''"

definition ValidAPTRepositoryPath :: "string \<Rightarrow> bool" where
  "ValidAPTRepositoryPath path =
     (if path = [] \<or> length path > 2048 \<or> hasPrefix path ''/'' \<or> nul \<in> set path
         \<or> containsAny path [CHR 0x5C, CHR 0x0D, CHR 0x0A, CHR 0x09, CHR 0x3F, CHR 0x23] then False
      else
        let segments = splitOn (CHR ''/'') path
        in if length segments < 2 \<or> hd segments \<noteq> ''dists'' \<and> hd segments \<noteq> ''pool'' then False
           else list_all (\<lambda>g. \<not> (g = [] \<or> g = ''.'' \<or> g = ''..'')) segments)"

definition APTPoolPath :: "string \<Rightarrow> string \<Rightarrow> string \<Rightarrow> string" where
  "APTPoolPath component packageName objectName =
     (let prefix = (if hasPrefix packageName ''lib'' \<and> length packageName \<ge> 4 then take 4 packageName else take 1 packageName)
      in ''pool/'' @ component @ ''/'' @ prefix @ ''/'' @ packageName @ ''/'' @ objectName)"

definition ValidAPTArtifactCoordinate :: "string \<Rightarrow> bool" where
  "ValidAPTArtifactCoordinate coordinate =
     (let parts = splitOn (CHR ''/'') coordinate
      in length parts = 5 \<and> parts ! 0 = ''pool'' \<and> ValidAPTPublicationScope (parts ! 1) \<and> ValidAPTRepositoryPath coordinate \<and>
         ValidAPTObjectName (parts ! 4) \<and> parts ! 3 \<noteq> [] \<and> APTPoolPath (parts ! 1) (parts ! 3) (parts ! 4) = coordinate)"

definition validConanQuarantineAnchor :: "string \<Rightarrow> bool" where
  "validConanQuarantineAnchor coordinate =
     (case cutAt (CHR ''#'') coordinate of
        (_, None) \<Rightarrow> False
      | (reference, Some revision) \<Rightarrow>
          if revision = [] \<or> revision = ''.'' \<or> revision = ''..'' \<or> containsAny revision [CHR 0x2F, CHR 0x5C, CHR 0x23] then False
          else
            let parts = splitOn (CHR ''/'') reference
            in if length parts \<noteq> 4 then False
               else list_all (\<lambda>part. \<not> (part = [] \<or> part = ''.'' \<or> part = ''..'' \<or> containsAny part [CHR 0x5C, CHR 0x23])) parts)"

text \<open>The formats of \<^verbatim>\<open>supportedFormatProfiles\<close>, all a lookup needs to know of the profiles.\<close>

definition IsSupportedFormat :: "Format \<Rightarrow> bool" where
  "IsSupportedFormat fmt \<longleftrightarrow> fmt \<in> set [FormatOCI, FormatMaven, FormatConan, FormatRaw, FormatNPM, FormatPyPI, FormatGo, FormatCargo, FormatAPT]"

definition validArtifactQuarantine :: "ArtifactQuarantine \<Rightarrow> bool" where
  "validArtifactQuarantine v =
     (if aq_RepositoryID v = [] \<or> (\<not> IsSupportedFormat (aq_Format v) \<and> aq_Format v \<noteq> FormatCargo) \<or> trimSpace (aq_Coordinate v) = []
         \<or> runes (aq_Coordinate v) > 1024 \<or> nul \<in> set (aq_Coordinate v) then False
      else if aq_Format v = FormatAPT \<and> \<not> ValidAPTArtifactCoordinate (aq_Coordinate v) then False
      else if aq_Format v = FormatConan \<and> \<not> validConanQuarantineAnchor (aq_Coordinate v) then False
      else if length (aq_Digest v) \<noteq> length ''sha256:'' + 64 \<or> \<not> hasPrefix (aq_Digest v) ''sha256:'' then False
      else if \<not> list_all (\<lambda>c. c \<in> set ''0123456789abcdef'') (drop (length ''sha256:'') (aq_Digest v)) then False
      else if aq_State v \<noteq> ArtifactQuarantineStateQuarantined \<and> aq_State v \<noteq> ArtifactQuarantineStateReleased then False
      else if trimSpace (aq_Reason v) = [] \<or> runes (aq_Reason v) > 1024 \<or> nul \<in> set (aq_Reason v) then False
      else trimSpace (aq_UpdatedBy v) \<noteq> [] \<and> runes (aq_UpdatedBy v) \<le> 512 \<and> nul \<notin> set (aq_UpdatedBy v))"

section \<open>Decisions\<close>

definition artifactQuarantineKey :: "string \<Rightarrow> Format \<Rightarrow> string \<Rightarrow> string \<Rightarrow> string" where
  "artifactQuarantineKey repositoryID fmt coordinate digest = repositoryID @ nul # fmt @ nul # coordinate @ nul # digest"

text \<open>\<open>marshal\<close> is \<^verbatim>\<open>json.Marshal\<close> on the data of the event, \<open>i\<close> the identifier drawn for it.\<close>

definition artifactQuarantineWebhookEvent :: "(ArtifactQuarantineWebhookData \<Rightarrow> string) \<Rightarrow> string \<Rightarrow> ArtifactQuarantine \<Rightarrow> WebhookEvent" where
  "artifactQuarantineWebhookEvent marshal i v =
     \<lparr>we_ID = i,
      we_Type = (if aq_State v = ArtifactQuarantineStateReleased then ''artifact.released'' else ''artifact.quarantined''),
      we_OccurredAt = aq_UpdatedAt v,
      we_Data = marshal \<lparr>qd_RepositoryID = aq_RepositoryID v, qd_Format = aq_Format v, qd_Coordinate = aq_Coordinate v,
        qd_Digest = aq_Digest v, qd_State = aq_State v, qd_Reason = aq_Reason v, qd_Actor = aq_UpdatedBy v,
        qd_Version = aq_Version v\<rparr>\<rparr>"

definition GetArtifactQuarantine ::
  "string \<Rightarrow> Format \<Rightarrow> string \<Rightarrow> string \<Rightarrow> 'z quarantine_store_scheme \<Rightarrow> ArtifactQuarantine result" where
  "GetArtifactQuarantine repositoryID fmt coordinate digest s =
     (case gm_get (artifactQuarantines s) (artifactQuarantineKey repositoryID fmt coordinate digest) of
        None \<Rightarrow> Inl ErrNotFound
      | Some v \<Rightarrow> Inr v)"

text \<open>
  \<open>clock n\<close> is the \<open>n\<close>-th reading of the clock during the call: the first dates the decision, the second the change,
  the third would date an event without a time.
\<close>

definition storeQuarantine ::
  "(nat \<Rightarrow> string) \<Rightarrow> (ArtifactQuarantineWebhookData \<Rightarrow> string) \<Rightarrow> gotime \<Rightarrow> ArtifactQuarantine \<Rightarrow> 'z quarantine_store_scheme
     \<Rightarrow> 'z quarantine_store_scheme" where
  "storeQuarantine newUUID marshal now v s =
     (let s = s\<lparr>artifactQuarantines := gm_put (artifactQuarantineKey (aq_RepositoryID v) (aq_Format v) (aq_Coordinate v) (aq_Digest v)) v
                (artifactQuarantines s)\<rparr>
      in snd (enqueueWebhookEventLocked newUUID now (artifactQuarantineWebhookEvent marshal (newUUID (uuidsDrawn s)) v)
           (s\<lparr>uuidsDrawn := Suc (uuidsDrawn s)\<rparr>)))"

definition ReplaceArtifactQuarantine ::
  "(nat \<Rightarrow> string) \<Rightarrow> (ArtifactQuarantineWebhookData \<Rightarrow> string) \<Rightarrow> (nat \<Rightarrow> gotime) \<Rightarrow> ArtifactQuarantine \<Rightarrow> string
     \<Rightarrow> 'z quarantine_store_scheme \<Rightarrow> ArtifactQuarantine result \<times> 'z quarantine_store_scheme" where
  "ReplaceArtifactQuarantine newUUID marshal clock v expectedVersion s =
     (if \<not> validArtifactQuarantine v then (Inl ErrInvalidArtifactQuarantine, s)
      else
        case gm_get (artifactQuarantines s) (artifactQuarantineKey (aq_RepositoryID v) (aq_Format v) (aq_Coordinate v) (aq_Digest v)) of
          None \<Rightarrow>
            if expectedVersion \<noteq> ''0'' then (Inl ErrNotFound, s)
            else if aq_State v \<noteq> ArtifactQuarantineStateQuarantined then (Inl ErrInvalidArtifactQuarantine, s)
            else
              let v = v\<lparr>aq_Version := ''1'', aq_QuarantinedAt := clock 0, aq_ReleasedAt := zeroTime, aq_UpdatedAt := clock 0\<rparr>
              in (Inr v, storeQuarantine newUUID marshal (clock 1) v s)
        | Some current \<Rightarrow>
            if aq_Version current \<noteq> expectedVersion then (Inl ErrVersionConflict, s)
            else
              let v = v\<lparr>aq_Version := nextHostedGroupVersion (aq_Version current)\<rparr>;
                  v = (if aq_State v = ArtifactQuarantineStateQuarantined
                       then v\<lparr>aq_QuarantinedAt := (if aq_State current \<noteq> ArtifactQuarantineStateQuarantined then clock 0
                                                   else aq_QuarantinedAt current), aq_ReleasedAt := zeroTime\<rparr>
                       else v\<lparr>aq_QuarantinedAt := aq_QuarantinedAt current, aq_ReleasedAt := clock 0\<rparr>);
                  v = v\<lparr>aq_UpdatedAt := clock 1\<rparr>
              in (Inr v, storeQuarantine newUUID marshal (clock 2) v s))"

section \<open>Admission\<close>

definition sortedUniqueDigests :: "string list \<Rightarrow> string list" where
  "sortedUniqueDigests values = sort (remdups (filter (\<lambda>v. v \<noteq> []) values))"

text \<open>The loop over the digests; \<open>get\<close> is the lookup of the store.\<close>

fun admitEach :: "(string \<Rightarrow> ArtifactQuarantine result) \<Rightarrow> string list \<Rightarrow> bool result" where
  "admitEach get [] = Inr True"
| "admitEach get (d # ds) =
     (case get d of
        Inl e \<Rightarrow> if e = ErrNotFound then admitEach get ds else Inl e
      | Inr v \<Rightarrow> if aq_State v = ArtifactQuarantineStateQuarantined then Inr False else admitEach get ds)"

definition ArtifactDistributionAllowedForDigests ::
  "string \<Rightarrow> Format \<Rightarrow> string \<Rightarrow> string list \<Rightarrow> 'z quarantine_store_scheme \<Rightarrow> bool result" where
  "ArtifactDistributionAllowedForDigests repositoryID fmt coordinate digests s =
     admitEach (\<lambda>d. GetArtifactQuarantine repositoryID fmt coordinate d s) (sortedUniqueDigests digests)"

definition ArtifactDistributionAllowed ::
  "string \<Rightarrow> Format \<Rightarrow> string \<Rightarrow> string \<Rightarrow> 'z quarantine_store_scheme \<Rightarrow> bool result" where
  "ArtifactDistributionAllowed repositoryID fmt coordinate digest s =
     ArtifactDistributionAllowedForDigests repositoryID fmt coordinate [digest] s"

section \<open>Read policies\<close>

definition DefaultRepositoryQuarantineReadPolicy :: RepositoryQuarantineReadPolicy where
  "DefaultRepositoryQuarantineReadPolicy = \<lparr>qp_Version = ''1'', qp_Enabled = False\<rparr>"

definition GetRepositoryQuarantineReadPolicy ::
  "string \<Rightarrow> 'z quarantine_store_scheme \<Rightarrow> RepositoryQuarantineReadPolicy result" where
  "GetRepositoryQuarantineReadPolicy repositoryID s =
     (if gm_get (hostedRepositories s) repositoryID = None then Inl ErrNotFound
      else case gm_get (quarantineReadPolicies s) repositoryID of
             Some policy \<Rightarrow> Inr policy
           | None \<Rightarrow> Inr DefaultRepositoryQuarantineReadPolicy)"

definition ReplaceRepositoryQuarantineReadPolicy ::
  "string \<Rightarrow> RepositoryQuarantineReadPolicy \<Rightarrow> string \<Rightarrow> 'z quarantine_store_scheme
     \<Rightarrow> RepositoryQuarantineReadPolicy result \<times> 'z quarantine_store_scheme" where
  "ReplaceRepositoryQuarantineReadPolicy repositoryID policy expectedVersion s =
     (if gm_get (hostedRepositories s) repositoryID = None then (Inl ErrNotFound, s)
      else
        let current = (case gm_get (quarantineReadPolicies s) repositoryID of
                         Some current \<Rightarrow> current | None \<Rightarrow> DefaultRepositoryQuarantineReadPolicy)
        in if qp_Version current \<noteq> expectedVersion then (Inl ErrVersionConflict, s)
           else let policy = policy\<lparr>qp_Version := nextHostedGroupVersion (qp_Version current)\<rparr>
                in (Inr policy, s\<lparr>quarantineReadPolicies := gm_put repositoryID policy (quarantineReadPolicies s)\<rparr>))"

fun readBlockedEach :: "(string \<Rightarrow> ArtifactQuarantine result) \<Rightarrow> string list \<Rightarrow> bool result" where
  "readBlockedEach get [] = Inr False"
| "readBlockedEach get (d # ds) =
     (case get d of
        Inl e \<Rightarrow> if e = ErrNotFound then readBlockedEach get ds else Inl e
      | Inr v \<Rightarrow> if aq_State v = ArtifactQuarantineStateQuarantined then Inr True else readBlockedEach get ds)"

definition QuarantinedArtifactReadBlocked ::
  "string \<Rightarrow> Format \<Rightarrow> string \<Rightarrow> string list \<Rightarrow> 'z quarantine_store_scheme \<Rightarrow> bool result" where
  "QuarantinedArtifactReadBlocked repositoryID fmt coordinate digests s =
     (case GetRepositoryQuarantineReadPolicy repositoryID s of
        Inl e \<Rightarrow> Inl e
      | Inr policy \<Rightarrow>
          if \<not> qp_Enabled policy then Inr False
          else readBlockedEach (\<lambda>d. GetArtifactQuarantine repositoryID fmt coordinate d s) digests)"

definition emptyQuarantineStore :: quarantine_store where
  "emptyQuarantineStore = webhook_store.extend emptyWebhookStore \<lparr>artifactQuarantines = [], quarantineReadPolicies = []\<rparr>"

end
