(* ===== verification/Replication.thy ===== *)
theory Replication
  imports Quarantine Lifecycle
begin

text \<open>
  The durable queue of replication plans (\<^verbatim>\<open>memory_replication.go\<close>): creation under an idempotency key, claiming
  with leases, checkpoints, completion, retry, parking and cancellation, with the webhook events of Cargo
  replications (\<^verbatim>\<open>cargo_distribution_webhooks.go\<close>).
\<close>

section \<open>Data\<close>

record ReplicationPlan =
  pl_APTTargetSuite :: string
  pl_ID :: string
  pl_SourceRepositoryID :: string
  pl_TargetRepositoryID :: string
  pl_Format :: Format
  pl_Coordinate :: string
  pl_Digest :: string
  pl_IdempotencyKey :: string
  pl_State :: string
  pl_LastError :: string
  pl_CreatedAt :: gotime
  pl_StartedAt :: gotime
  pl_CompletedAt :: gotime
  pl_NextAttemptAt :: gotime
  pl_LeaseExpiresAt :: gotime
  pl_LeaseToken :: string
  pl_Attempts :: int
  pl_MaxAttempts :: int

record ReplicationCheckpoint =
  ck_PlanID :: string
  ck_SourceObjectKey :: string
  ck_ObjectKey :: string
  ck_Digest :: string
  ck_State :: string
  ck_LastError :: string
  ck_Size :: int
  ck_ByteOffset :: int
  ck_Attempts :: int
  ck_VerifiedAt :: gotime
  ck_UpdatedAt :: gotime

record replication_store = quarantine_store +
  replicationPlans :: "ReplicationPlan gomap"
  replicationKeys :: "string gomap"
  replicationChecks :: "ReplicationCheckpoint gomap gomap"

definition zeroReplicationPlan :: ReplicationPlan where
  "zeroReplicationPlan = \<lparr>pl_APTTargetSuite = [], pl_ID = [], pl_SourceRepositoryID = [], pl_TargetRepositoryID = [], pl_Format = [],
     pl_Coordinate = [], pl_Digest = [], pl_IdempotencyKey = [], pl_State = [], pl_LastError = [], pl_CreatedAt = zeroTime,
     pl_StartedAt = zeroTime, pl_CompletedAt = zeroTime, pl_NextAttemptAt = zeroTime, pl_LeaseExpiresAt = zeroTime,
     pl_LeaseToken = [], pl_Attempts = 0, pl_MaxAttempts = 0\<rparr>"

definition replicationLeaseDuration :: duration where
  "replicationLeaseDuration = 10 * minute"

definition replicationMaxAttempts :: int where
  "replicationMaxAttempts = 3"

definition ArtifactQuarantinedReason :: string where
  "ArtifactQuarantinedReason = ''artifact_quarantined''"

definition ReplicationSnapshotChangedReason :: string where
  "ReplicationSnapshotChangedReason = ''replication_snapshot_changed''"

section \<open>Creation\<close>

definition replicationCheckpointValues :: "ReplicationCheckpoint gomap \<Rightarrow> ReplicationCheckpoint list" where
  "replicationCheckpointValues checks = sort_key ck_ObjectKey (gm_vals checks)"

definition sourceKey :: "ReplicationCheckpoint \<Rightarrow> string" where
  "sourceKey c = (if ck_SourceObjectKey c = [] then ck_ObjectKey c else ck_SourceObjectKey c)"

definition sameCheckpoint :: "ReplicationCheckpoint \<Rightarrow> ReplicationCheckpoint \<Rightarrow> bool" where
  "sameCheckpoint got want \<longleftrightarrow> \<not> (sourceKey got \<noteq> sourceKey want \<or> ck_ObjectKey got \<noteq> ck_ObjectKey want \<or>
     ck_Digest got \<noteq> ck_Digest want \<or> ck_Size got \<noteq> ck_Size want)"

definition equivalentReplicationCheckpoints :: "ReplicationCheckpoint list \<Rightarrow> ReplicationCheckpoint list \<Rightarrow> bool" where
  "equivalentReplicationCheckpoints existing requested =
     (if length existing \<noteq> length requested then False
      else list_all (\<lambda>(got, want). sameCheckpoint got want) (zip existing (sort_key ck_ObjectKey requested)))"

definition samePlan :: "ReplicationPlan \<Rightarrow> ReplicationPlan \<Rightarrow> bool" where
  "samePlan existing p \<longleftrightarrow> pl_SourceRepositoryID existing = pl_SourceRepositoryID p \<and>
     pl_TargetRepositoryID existing = pl_TargetRepositoryID p \<and> pl_Format existing = pl_Format p \<and>
     pl_Coordinate existing = pl_Coordinate p \<and> pl_Digest existing = pl_Digest p \<and> pl_APTTargetSuite existing = pl_APTTargetSuite p"

definition replayablePark :: "ReplicationPlan \<Rightarrow> bool" where
  "replayablePark existing \<longleftrightarrow> pl_State existing = ''failed'' \<and>
     (pl_LastError existing = ArtifactQuarantinedReason \<or>
      pl_Format existing = FormatPyPI \<and> pl_LastError existing = ReplicationSnapshotChangedReason) \<and>
     isZero (pl_NextAttemptAt existing) \<and> pl_Attempts existing < pl_MaxAttempts existing"

definition refreshedCheckpoint :: "string \<Rightarrow> gotime \<Rightarrow> ReplicationCheckpoint \<Rightarrow> ReplicationCheckpoint" where
  "refreshedCheckpoint i now c = c\<lparr>ck_PlanID := i, ck_SourceObjectKey := sourceKey c, ck_State := ''pending'', ck_ByteOffset := 0,
     ck_Attempts := 0, ck_LastError := [], ck_VerifiedAt := zeroTime, ck_UpdatedAt := now\<rparr>"

definition resumedPlan :: "gotime \<Rightarrow> ReplicationPlan \<Rightarrow> ReplicationPlan" where
  "resumedPlan now p = p\<lparr>pl_State := ''pending'', pl_LastError := [], pl_StartedAt := zeroTime, pl_CompletedAt := zeroTime,
     pl_NextAttemptAt := now, pl_LeaseToken := [], pl_LeaseExpiresAt := zeroTime\<rparr>"

definition createdCheckpoint :: "string \<Rightarrow> gotime \<Rightarrow> ReplicationCheckpoint \<Rightarrow> ReplicationCheckpoint" where
  "createdCheckpoint i now c = c\<lparr>ck_PlanID := i, ck_State := ''pending'', ck_UpdatedAt := now\<rparr>"

text \<open>Filling a new map from a list: a later checkpoint with the same object key replaces an earlier one.\<close>

definition checkpointMap :: "(ReplicationCheckpoint \<Rightarrow> ReplicationCheckpoint) \<Rightarrow> ReplicationCheckpoint list \<Rightarrow> ReplicationCheckpoint gomap" where
  "checkpointMap f checks = fold (\<lambda>c m. gm_put (ck_ObjectKey c) (f c) m) checks []"

definition CreateReplicationPlan ::
  "gotime \<Rightarrow> ReplicationPlan \<Rightarrow> ReplicationCheckpoint list \<Rightarrow> 'z replication_store_scheme
     \<Rightarrow> (ReplicationPlan \<times> bool) result \<times> 'z replication_store_scheme" where
  "CreateReplicationPlan now p checks s =
     (let key = joinKey2 (pl_TargetRepositoryID p) (pl_IdempotencyKey p);
          i = (case gm_get (replicationKeys s) key of None \<Rightarrow> [] | Some i \<Rightarrow> i)
      in if i \<noteq> [] then
           let existing = (case gm_get (replicationPlans s) i of None \<Rightarrow> zeroReplicationPlan | Some e \<Rightarrow> e);
               stored = (case gm_get (replicationChecks s) i of None \<Rightarrow> [] | Some m \<Rightarrow> m);
               refreshablePyPIReplay = (samePlan existing p \<and> pl_Format existing = FormatPyPI \<and> replayablePark existing)
           in if \<not> samePlan existing p \<or>
                 \<not> refreshablePyPIReplay \<and> \<not> equivalentReplicationCheckpoints (replicationCheckpointValues stored) checks
              then (Inl ErrIdempotencyConflict, s)
              else if replayablePark existing then
                let s = (if refreshablePyPIReplay
                         then s\<lparr>replicationChecks := gm_put i (checkpointMap (refreshedCheckpoint i now) checks) (replicationChecks s)\<rparr>
                         else s);
                    existing = resumedPlan now existing
                in (Inr (existing, True), s\<lparr>replicationPlans := gm_put i existing (replicationPlans s)\<rparr>)
              else (Inr (existing, True), s)
         else
           let p = p\<lparr>pl_State := ''pending'', pl_CreatedAt := now,
                     pl_MaxAttempts := (if pl_MaxAttempts p \<le> 0 then replicationMaxAttempts
                                        else if pl_MaxAttempts p > 10 then 10 else pl_MaxAttempts p)\<rparr>
           in (Inr (p, False),
               s\<lparr>replicationPlans := gm_put (pl_ID p) p (replicationPlans s),
                 replicationKeys := gm_put key (pl_ID p) (replicationKeys s),
                 replicationChecks := gm_put (pl_ID p) (checkpointMap (createdCheckpoint (pl_ID p) now) checks) (replicationChecks s)\<rparr>))"

section \<open>Events\<close>

text \<open>\<open>now\<close> is the reading of the clock for a plan without a completion time, \<open>i\<close> the identifier drawn for the event.\<close>

definition cargoReplicationWebhookEvent :: "env \<Rightarrow> gotime \<Rightarrow> ReplicationPlan \<Rightarrow> string \<Rightarrow> WebhookEvent option" where
  "cargoReplicationWebhookEvent e now plan i =
     (if pl_Format plan \<noteq> FormatCargo \<or>
         pl_State plan \<noteq> ''completed'' \<and> (pl_State plan \<noteq> ''failed'' \<or> \<not> isZero (pl_NextAttemptAt plan))
      then None
      else
        let eventType = (if pl_State plan = ''failed'' then ''cargo.replication.failed'' else ''cargo.replication.completed'');
            data = env_marshalCargo e
              \<lparr>cd_OperationID = pl_ID plan, cd_Kind = ''replication'', cd_Format = FormatCargo,
               cd_SourceRepositoryID = pl_SourceRepositoryID plan, cd_TargetRepositoryID = pl_TargetRepositoryID plan,
               cd_Coordinate = pl_Coordinate plan, cd_Digest = pl_Digest plan, cd_State = pl_State plan, cd_Attempts = pl_Attempts plan\<rparr>;
            occurred = (if isZero (pl_CompletedAt plan) then now else pl_CompletedAt plan)
        in Some \<lparr>we_ID = i, we_Type = eventType, we_OccurredAt = occurred, we_Data = data\<rparr>)"

text \<open>The tail of every operation that ends an attempt: the plan is stored and its event, if it has one, is raised.\<close>

definition storeFinishedPlan ::
  "env \<Rightarrow> gotime \<Rightarrow> string \<Rightarrow> ReplicationPlan \<Rightarrow> 'z replication_store_scheme \<Rightarrow> 'z replication_store_scheme" where
  "storeFinishedPlan e now i p s =
     (let s = s\<lparr>replicationPlans := gm_put i p (replicationPlans s)\<rparr>
      in case cargoReplicationWebhookEvent e now p (env_UUID e (uuidsDrawn s)) of
           None \<Rightarrow> s
         | Some event \<Rightarrow>
             snd (enqueueWebhookEventLocked (env_UUID e) now event (s\<lparr>uuidsDrawn := Suc (uuidsDrawn s)\<rparr>)))"

section \<open>Claiming\<close>

definition leaseLapsed :: "gotime \<Rightarrow> ReplicationPlan \<Rightarrow> bool" where
  "leaseLapsed before p \<longleftrightarrow> \<not> (pl_State p \<noteq> ''running'' \<or> isZero (pl_LeaseExpiresAt p) \<or> pl_LeaseExpiresAt p > before)"

definition expirePlan :: "gotime \<Rightarrow> ReplicationPlan \<Rightarrow> ReplicationPlan" where
  "expirePlan before p = p\<lparr>pl_State := ''failed'', pl_LeaseToken := [], pl_LeaseExpiresAt := zeroTime,
     pl_LastError := ''replication worker lease expired'',
     pl_NextAttemptAt := (if pl_Attempts p \<ge> pl_MaxAttempts p then zeroTime else before)\<rparr>"

text \<open>The loop over the map and the number of plans it recovered; \<open>now\<close> is the clock of the events it raises.\<close>

fun recoverEach ::
  "env \<Rightarrow> gotime \<Rightarrow> gotime \<Rightarrow> (string \<times> ReplicationPlan) list \<Rightarrow> 'z replication_store_scheme \<Rightarrow> int \<times> 'z replication_store_scheme" where
  "recoverEach e now before [] s = (0, s)"
| "recoverEach e now before ((i, p) # ps) s =
     (if leaseLapsed before p
      then let (n, s) = recoverEach e now before ps (storeFinishedPlan e now i (expirePlan before p) s) in (n + 1, s)
      else recoverEach e now before ps s)"

definition recoverExpiredReplicationPlansLocked ::
  "env \<Rightarrow> gotime \<Rightarrow> gotime \<Rightarrow> 'z replication_store_scheme \<Rightarrow> int \<times> 'z replication_store_scheme" where
  "recoverExpiredReplicationPlansLocked e now before s = recoverEach e now before (replicationPlans s) s"

definition RecoverExpiredReplicationPlans ::
  "env \<Rightarrow> gotime \<Rightarrow> gotime \<Rightarrow> 'z replication_store_scheme \<Rightarrow> int \<times> 'z replication_store_scheme" where
  "RecoverExpiredReplicationPlans e now before s = recoverExpiredReplicationPlansLocked e now before s"

definition claimablePlan :: "gotime \<Rightarrow> Format \<Rightarrow> ReplicationPlan \<Rightarrow> bool" where
  "claimablePlan now fmt p =
     (let nextAttemptDue = (\<not> isZero (pl_NextAttemptAt p) \<and> \<not> now < pl_NextAttemptAt p);
          claimable = (pl_State p = ''pending'' \<and> (isZero (pl_NextAttemptAt p) \<or> nextAttemptDue) \<or>
                       pl_State p = ''failed'' \<and> nextAttemptDue)
      in (fmt = [] \<or> pl_Format p = fmt) \<and> claimable \<and> pl_Attempts p < pl_MaxAttempts p)"

definition startPlan :: "gotime \<Rightarrow> string \<Rightarrow> ReplicationPlan \<Rightarrow> ReplicationPlan" where
  "startPlan now token p = p\<lparr>pl_State := ''running'', pl_StartedAt := now, pl_CompletedAt := zeroTime, pl_NextAttemptAt := zeroTime,
     pl_Attempts := pl_Attempts p + 1, pl_LeaseToken := token, pl_LeaseExpiresAt := now + replicationLeaseDuration\<rparr>"

text \<open>\<open>taken\<close> is the length of the result so far; a negative limit is never reached.\<close>

fun claimPlans ::
  "(nat \<Rightarrow> string) \<Rightarrow> gotime \<Rightarrow> int \<Rightarrow> Format \<Rightarrow> int \<Rightarrow> (string \<times> ReplicationPlan) list \<Rightarrow> 'z replication_store_scheme
     \<Rightarrow> ReplicationPlan list \<times> 'z replication_store_scheme" where
  "claimPlans newUUID now limit fmt taken [] s = ([], s)"
| "claimPlans newUUID now limit fmt taken ((i, p) # ps) s =
     (if taken = limit then ([], s)
      else if claimablePlan now fmt p then
        let p = startPlan now (newUUID (uuidsDrawn s)) p;
            s = s\<lparr>uuidsDrawn := Suc (uuidsDrawn s), replicationPlans := gm_put i p (replicationPlans s)\<rparr>;
            (out, s) = claimPlans newUUID now limit fmt (taken + 1) ps s
        in (p # out, s)
      else claimPlans newUUID now limit fmt taken ps s)"

text \<open>The plans are visited by creation time; among equal times the order of the map is kept.\<close>

definition sortReplicationPlanIDs :: "ReplicationPlan gomap \<Rightarrow> (string \<times> ReplicationPlan) list" where
  "sortReplicationPlanIDs plans = sort_key (\<lambda>(i, p). pl_CreatedAt p) plans"

definition claimReplicationPlans ::
  "env \<Rightarrow> (nat \<Rightarrow> gotime) \<Rightarrow> int \<Rightarrow> Format \<Rightarrow> 'z replication_store_scheme \<Rightarrow> ReplicationPlan list \<times> 'z replication_store_scheme" where
  "claimReplicationPlans e clock limit fmt s =
     (let now = clock 0;
          s = snd (recoverExpiredReplicationPlansLocked e (clock 1) now s)
      in claimPlans (env_UUID e) now limit fmt 0 (sortReplicationPlanIDs (replicationPlans s)) s)"

definition ClaimReplicationPlans ::
  "env \<Rightarrow> (nat \<Rightarrow> gotime) \<Rightarrow> int \<Rightarrow> 'z replication_store_scheme \<Rightarrow> ReplicationPlan list \<times> 'z replication_store_scheme" where
  "ClaimReplicationPlans e clock limit s = claimReplicationPlans e clock limit [] s"

definition ClaimReplicationPlansByFormat ::
  "env \<Rightarrow> (nat \<Rightarrow> gotime) \<Rightarrow> Format \<Rightarrow> int \<Rightarrow> 'z replication_store_scheme \<Rightarrow> ReplicationPlan list \<times> 'z replication_store_scheme" where
  "ClaimReplicationPlansByFormat e clock fmt limit s = claimReplicationPlans e clock limit fmt s"

section \<open>Reading\<close>

definition ListReplicationPlans :: "string \<Rightarrow> int \<Rightarrow> 'z replication_store_scheme \<Rightarrow> ReplicationPlan list" where
  "ListReplicationPlans repositoryID limit s =
     (let limit = (if limit \<le> 0 \<or> limit > 100 then 100 else limit);
          plans = filter (\<lambda>p. pl_SourceRepositoryID p = repositoryID \<or> pl_TargetRepositoryID p = repositoryID) (gm_vals (replicationPlans s))
      in take (nat limit) (sort_key (\<lambda>p. - pl_CreatedAt p) plans))"

definition GetReplicationPlan :: "string \<Rightarrow> string \<Rightarrow> 'z replication_store_scheme \<Rightarrow> ReplicationPlan result" where
  "GetReplicationPlan repositoryID i s =
     (case gm_get (replicationPlans s) i of
        None \<Rightarrow> Inl ErrNotFound
      | Some p \<Rightarrow> if pl_SourceRepositoryID p \<noteq> repositoryID \<and> pl_TargetRepositoryID p \<noteq> repositoryID then Inl ErrNotFound else Inr p)"

definition ListReplicationCheckpoints :: "string \<Rightarrow> 'z replication_store_scheme \<Rightarrow> ReplicationCheckpoint list result" where
  "ListReplicationCheckpoints i s =
     (case gm_get (replicationChecks s) i of
        None \<Rightarrow> Inl ErrNotFound
      | Some m \<Rightarrow> Inr (sort_key ck_ObjectKey (gm_vals m)))"

section \<open>Work under a lease\<close>

text \<open>\<open>clock n\<close> is the \<open>n\<close>-th reading of the clock during a call.\<close>

definition planLeaseLive :: "gotime \<Rightarrow> string \<Rightarrow> ReplicationPlan \<Rightarrow> bool" where
  "planLeaseLive now token p \<longleftrightarrow> \<not> (pl_State p \<noteq> ''running'' \<or> pl_LeaseToken p = [] \<or> pl_LeaseToken p \<noteq> token \<or>
     \<not> isZero (pl_LeaseExpiresAt p) \<and> \<not> now < pl_LeaseExpiresAt p)"

definition leasedPlan :: "gotime \<Rightarrow> string \<Rightarrow> string \<Rightarrow> 'z replication_store_scheme \<Rightarrow> ReplicationPlan option" where
  "leasedPlan now i token s =
     (case gm_get (replicationPlans s) i of None \<Rightarrow> None | Some p \<Rightarrow> if planLeaseLive now token p then Some p else None)"

definition UpdateReplicationCheckpointWithLease ::
  "(nat \<Rightarrow> gotime) \<Rightarrow> ReplicationCheckpoint \<Rightarrow> string \<Rightarrow> 'z replication_store_scheme \<Rightarrow> unit result \<times> 'z replication_store_scheme" where
  "UpdateReplicationCheckpointWithLease clock c token s =
     (case leasedPlan (clock 0) (ck_PlanID c) token s of
        None \<Rightarrow> (Inl ErrNotFound, s)
      | Some p \<Rightarrow>
          (case gm_get (replicationChecks s) (ck_PlanID c) of
             None \<Rightarrow> (Inl ErrNotFound, s)
           | Some m \<Rightarrow>
               (case gm_get m (ck_ObjectKey c) of
                  None \<Rightarrow> (Inl ErrNotFound, s)
                | Some _ \<Rightarrow>
                    let c = c\<lparr>ck_UpdatedAt := clock 1\<rparr>;
                        p = p\<lparr>pl_LeaseExpiresAt := ck_UpdatedAt c + replicationLeaseDuration\<rparr>
                    in (Inr (), s\<lparr>replicationChecks := gm_put (ck_PlanID c) (gm_put (ck_ObjectKey c) c m) (replicationChecks s),
                                  replicationPlans := gm_put (ck_PlanID c) p (replicationPlans s)\<rparr>))))"

definition RenewReplicationPlanLease ::
  "gotime \<Rightarrow> string \<Rightarrow> string \<Rightarrow> 'z replication_store_scheme \<Rightarrow> unit result \<times> 'z replication_store_scheme" where
  "RenewReplicationPlanLease now i token s =
     (case leasedPlan now i token s of
        None \<Rightarrow> (Inl ErrNotFound, s)
      | Some p \<Rightarrow> (Inr (), s\<lparr>replicationPlans := gm_put i (p\<lparr>pl_LeaseExpiresAt := now + replicationLeaseDuration\<rparr>) (replicationPlans s)\<rparr>))"

text \<open>The check made when the lease fence is taken for reading; claiming and recovery take it for writing.\<close>

definition LockReplicationPlanLease :: "gotime \<Rightarrow> string \<Rightarrow> string \<Rightarrow> 'z replication_store_scheme \<Rightarrow> unit result" where
  "LockReplicationPlanLease now i token s = (case leasedPlan now i token s of None \<Rightarrow> Inl ErrNotFound | Some _ \<Rightarrow> Inr ())"

definition finishReplication ::
  "env \<Rightarrow> (nat \<Rightarrow> gotime) \<Rightarrow> string \<Rightarrow> string \<Rightarrow> string \<Rightarrow> string \<Rightarrow> 'z replication_store_scheme \<Rightarrow> unit result \<times> 'z replication_store_scheme" where
  "finishReplication e clock i state msg token s =
     (case leasedPlan (clock 0) i token s of
        None \<Rightarrow> (Inl ErrNotFound, s)
      | Some p \<Rightarrow>
          (Inr (), storeFinishedPlan e (clock 2) i
             (p\<lparr>pl_State := state, pl_LastError := msg, pl_CompletedAt := clock 1, pl_LeaseToken := [], pl_LeaseExpiresAt := zeroTime\<rparr>) s))"

definition CompleteReplicationPlanWithLease ::
  "env \<Rightarrow> (nat \<Rightarrow> gotime) \<Rightarrow> string \<Rightarrow> string \<Rightarrow> 'z replication_store_scheme \<Rightarrow> unit result \<times> 'z replication_store_scheme" where
  "CompleteReplicationPlanWithLease e clock i token s = finishReplication e clock i ''completed'' [] token s"

definition failedPlan :: "gotime \<Rightarrow> string \<Rightarrow> ReplicationPlan \<Rightarrow> ReplicationPlan" where
  "failedPlan now msg p = p\<lparr>pl_State := ''failed'', pl_LastError := msg, pl_CompletedAt := now, pl_LeaseToken := [],
     pl_LeaseExpiresAt := zeroTime, pl_NextAttemptAt := (if pl_Attempts p \<ge> pl_MaxAttempts p then zeroTime else now)\<rparr>"

definition FailReplicationPlanWithLease ::
  "env \<Rightarrow> (nat \<Rightarrow> gotime) \<Rightarrow> string \<Rightarrow> string \<Rightarrow> string \<Rightarrow> 'z replication_store_scheme \<Rightarrow> unit result \<times> 'z replication_store_scheme" where
  "FailReplicationPlanWithLease e clock i msg token s =
     (case leasedPlan (clock 0) i token s of
        None \<Rightarrow> (Inl ErrNotFound, s)
      | Some p \<Rightarrow> (Inr (), storeFinishedPlan e (clock 2) i (failedPlan (clock 1) msg p) s))"

definition parkedPlan :: "gotime \<Rightarrow> string \<Rightarrow> ReplicationPlan \<Rightarrow> ReplicationPlan" where
  "parkedPlan now msg p = p\<lparr>pl_State := ''failed'', pl_LastError := msg, pl_CompletedAt := now, pl_NextAttemptAt := zeroTime,
     pl_LeaseToken := [], pl_LeaseExpiresAt := zeroTime, pl_Attempts := (if pl_Attempts p > 0 then pl_Attempts p - 1 else pl_Attempts p)\<rparr>"

definition ParkReplicationPlanWithLease ::
  "env \<Rightarrow> (nat \<Rightarrow> gotime) \<Rightarrow> string \<Rightarrow> string \<Rightarrow> string \<Rightarrow> 'z replication_store_scheme \<Rightarrow> unit result \<times> 'z replication_store_scheme" where
  "ParkReplicationPlanWithLease e clock i msg token s =
     (case leasedPlan (clock 0) i token s of
        None \<Rightarrow> (Inl ErrNotFound, s)
      | Some p \<Rightarrow> (Inr (), storeFinishedPlan e (clock 2) i (parkedPlan (clock 1) msg p) s))"

definition CancelReplicationPlan ::
  "gotime \<Rightarrow> string \<Rightarrow> string \<Rightarrow> 'z replication_store_scheme \<Rightarrow> unit result \<times> 'z replication_store_scheme" where
  "CancelReplicationPlan now repositoryID i s =
     (case gm_get (replicationPlans s) i of
        None \<Rightarrow> (Inl ErrNotFound, s)
      | Some p \<Rightarrow>
          if pl_SourceRepositoryID p \<noteq> repositoryID \<and> pl_TargetRepositoryID p \<noteq> repositoryID then (Inl ErrNotFound, s)
          else if pl_State p \<noteq> ''pending'' \<and> pl_State p \<noteq> ''failed'' then (Inl ErrNotFound, s)
          else (Inr (), s\<lparr>replicationPlans := gm_put i (p\<lparr>pl_State := ''cancelled'', pl_CompletedAt := now\<rparr>) (replicationPlans s)\<rparr>))"

definition emptyReplicationStore :: replication_store where
  "emptyReplicationStore = quarantine_store.extend emptyQuarantineStore \<lparr>replicationPlans = [], replicationKeys = [], replicationChecks = []\<rparr>"

end
