(* ===== verification/ObjectStore.thy ===== *)
theory ObjectStore
  imports Prelude
begin

text \<open>
  The byte store port (\<^verbatim>\<open>internal/objectstore/store.go\<close>) and its in-memory implementation. Objects are lists of bytes; \<open>sha\<close> is
  the hexadecimal SHA-256 of a byte list, any function here. Contexts are not cancelled.
\<close>

record Info =
  in_Size :: int
  in_Digest :: string

text \<open>A reader yields its bytes and then an error or, without one, the end of the stream; closing it may fail as well.\<close>

record reader =
  rd_Bytes :: string
  rd_Err :: "error option"
  rd_CloseErr :: "error option"

definition bytesReader :: "string \<Rightarrow> reader" where
  "bytesReader b = \<lparr>rd_Bytes = b, rd_Err = None, rd_CloseErr = None\<rparr>"

section \<open>The in-memory store\<close>

type_synonym memory_objects = "string gomap"

definition ObjectGet :: "string \<Rightarrow> memory_objects \<Rightarrow> string result" where
  "ObjectGet key s = (case gm_get s key of None \<Rightarrow> Inl ErrObjectNotFound | Some v \<Rightarrow> Inr v)"

definition ObjectPut :: "string \<Rightarrow> string \<Rightarrow> memory_objects \<Rightarrow> error option \<times> memory_objects" where
  "ObjectPut key v s = (None, gm_put key v s)"

definition ObjectOpen :: "string \<Rightarrow> memory_objects \<Rightarrow> (reader \<times> int) result" where
  "ObjectOpen key s =
     (case gm_get s key of None \<Rightarrow> Inl ErrObjectNotFound | Some v \<Rightarrow> Inr (bytesReader v, int (length v)))"

definition ObjectStat :: "(string \<Rightarrow> string) \<Rightarrow> string \<Rightarrow> memory_objects \<Rightarrow> Info result" where
  "ObjectStat sha key s =
     (case ObjectGet key s of
        Inl e \<Rightarrow> Inl e
      | Inr v \<Rightarrow> Inr \<lparr>in_Size = int (length v), in_Digest = ''sha256:'' @ sha v\<rparr>)"

definition ObjectOpenRange :: "string \<Rightarrow> int \<Rightarrow> int \<Rightarrow> memory_objects \<Rightarrow> (reader \<times> int) result" where
  "ObjectOpenRange key offset len s =
     (case gm_get s key of
        None \<Rightarrow> Inl ErrObjectNotFound
      | Some v \<Rightarrow>
          let n = int (length v)
          in if offset < 0 \<or> len < 0 \<or> offset > n \<or> len > n - offset then Inl (ErrText ''object range is out of bounds'')
             else Inr (bytesReader (take (nat len) (drop (nat offset) v)), n))"

text \<open>The result carries the bytes that were read from the reader.\<close>

definition ObjectPutReader :: "string \<Rightarrow> reader \<Rightarrow> int \<Rightarrow> memory_objects \<Rightarrow> (error option \<times> string) \<times> memory_objects" where
  "ObjectPutReader key r n s =
     (case rd_Err r of
        Some e \<Rightarrow> ((Some e, rd_Bytes r), s)
      | None \<Rightarrow> let (e, s) = ObjectPut key (rd_Bytes r) s in ((e, rd_Bytes r), s))"

definition ObjectPutVerifiedReader :: "string \<Rightarrow> reader \<Rightarrow> int \<Rightarrow> string \<Rightarrow> memory_objects \<Rightarrow> (error option \<times> string) \<times> memory_objects" where
  "ObjectPutVerifiedReader key r n digest s = ObjectPutReader key r n s"

definition ObjectSetVerifiedDigest :: "string \<Rightarrow> string \<Rightarrow> memory_objects \<Rightarrow> error option \<times> memory_objects" where
  "ObjectSetVerifiedDigest key digest s = (None, s)"

definition ObjectDelete :: "string \<Rightarrow> memory_objects \<Rightarrow> error option \<times> memory_objects" where
  "ObjectDelete key s = (None, gm_del key s)"

definition ObjectList :: "string \<Rightarrow> memory_objects \<Rightarrow> string list" where
  "ObjectList start s = filter (\<lambda>key. hasPrefix key start) (map fst s)"

section \<open>The port\<close>

text \<open>The operations of the interface \<^verbatim>\<open>Store\<close> that move replicated objects, on a state of any type.\<close>

record 'o object_store =
  os_Stat :: "string \<Rightarrow> 'o \<Rightarrow> Info result"
  os_Open :: "string \<Rightarrow> 'o \<Rightarrow> (reader \<times> int) result"
  os_PutReader :: "string \<Rightarrow> reader \<Rightarrow> int \<Rightarrow> 'o \<Rightarrow> (error option \<times> string) \<times> 'o"
  os_SetVerifiedDigest :: "string \<Rightarrow> string \<Rightarrow> 'o \<Rightarrow> error option \<times> 'o"
  os_Delete :: "string \<Rightarrow> 'o \<Rightarrow> error option \<times> 'o"

definition memoryObjectStore :: "(string \<Rightarrow> string) \<Rightarrow> memory_objects object_store" where
  "memoryObjectStore sha =
     \<lparr>os_Stat = ObjectStat sha, os_Open = ObjectOpen, os_PutReader = ObjectPutReader,
      os_SetVerifiedDigest = ObjectSetVerifiedDigest, os_Delete = ObjectDelete\<rparr>"

text \<open>
  What a client relies on: the size and digest a store reports are those of the bytes it holds, a reader that ends
  without an error delivered all of them, a write that succeeded stored what it read, and no operation touches another
  key.
\<close>

locale object_store_laws =
  fixes st :: "'o object_store" and contents :: "'o \<Rightarrow> string \<Rightarrow> string option" and sha :: "string \<Rightarrow> string"
  assumes stat_found: "os_Stat st k w = Inr info \<Longrightarrow> \<exists>b. contents w k = Some b \<and> in_Size info = int (length b) \<and>
      (in_Digest info = [] \<or> in_Digest info = ''sha256:'' @ sha b)"
    and stat_missing: "os_Stat st k w = Inl ErrObjectNotFound \<Longrightarrow> contents w k = None"
    and open_reads: "os_Open st k w = Inr (r, n) \<Longrightarrow> rd_Err r = None \<Longrightarrow> contents w k = Some (rd_Bytes r)"
    and put_stores: "os_PutReader st k r n w = ((None, used), w') \<Longrightarrow> contents w' k = Some used"
    and put_frame: "os_PutReader st k r n w = (x, w') \<Longrightarrow> j \<noteq> k \<Longrightarrow> contents w' j = contents w j"
    and digest_frame: "os_SetVerifiedDigest st k d w = (e, w') \<Longrightarrow> contents w' = contents w"
    and delete_frame: "os_Delete st k w = (e, w') \<Longrightarrow> j \<noteq> k \<Longrightarrow> contents w' j = contents w j"

interpretation memory_object_store: object_store_laws "memoryObjectStore sha" gm_get sha for sha
  by unfold_locales
    (auto simp: memoryObjectStore_def ObjectStat_def ObjectGet_def ObjectOpen_def ObjectPutReader_def ObjectPut_def
      ObjectSetVerifiedDigest_def ObjectDelete_def bytesReader_def split: option.splits)

end
