(* ===== verification/ReplicationWorker.thy ===== *)
theory ReplicationWorker
  imports Replication ObjectStore LifecycleRuntime
begin

text \<open>
  The worker that carries out replication plans (\<^verbatim>\<open>internal/replication/worker.go\<close>): it copies the objects of a plan
  between byte stores, records verified checkpoints under its lease, and publishes and completes the plan.
\<close>

section \<open>Data\<close>

text \<open>
  The state the worker acts on: the repository store, the objects, the state of the format-specific publication, and
  the number of readings of the clock so far.
\<close>

record ('o, 'p) world =
  rw_Store :: replication_store
  rw_Objects :: 'o
  rw_Published :: 'p
  rw_Reads :: nat

text \<open>
  The fields of \<^verbatim>\<open>Worker\<close>; its \<^verbatim>\<open>Store\<close> is the in-memory store. \<open>wk_LockObject\<close> says whether object keys are locked. Metrics
  and the unused chunk size are left out.
\<close>

record ('o, 'p) Worker =
  wk_Source :: "'o object_store option"
  wk_Destination :: "'o object_store option"
  wk_Format :: Format
  wk_Publish :: "(ReplicationPlan \<Rightarrow> ReplicationCheckpoint list \<Rightarrow> 'p \<Rightarrow> error option \<times> 'p) option"
  wk_LockObject :: bool
  wk_AdmissionSnapshot :: "(ReplicationPlan \<Rightarrow> ReplicationCheckpoint list \<Rightarrow> 'p \<Rightarrow> (string list \<times> bool) result) option"

text \<open>
  What the environment decides during one plan: the times of the heartbeat, and the errors with which taking the advisory locks
  may fail.
\<close>

record circumstances =
  ci_Beats :: "gotime list"
  ci_LockEarly :: "error option"
  ci_LockObjects :: "error option"
  ci_LockFinal :: "error option"

type_synonym clock = "nat \<Rightarrow> gotime"

text \<open>A call of the store with the next readings of the clock.\<close>

definition storeCall :: "clock \<Rightarrow> (clock \<Rightarrow> replication_store \<Rightarrow> 'r \<times> replication_store) \<Rightarrow> ('o, 'p) world \<Rightarrow> 'r \<times> ('o, 'p) world" where
  "storeCall clock f w =
     (let (r, s) = f (\<lambda>n. clock (rw_Reads w + n)) (rw_Store w)
      in (r, w\<lparr>rw_Store := s, rw_Reads := rw_Reads w + 4\<rparr>))"

definition errOf :: "unit result \<Rightarrow> error option" where
  "errOf r = (case r of Inl e \<Rightarrow> Some e | Inr _ \<Rightarrow> None)"

definition wrapped :: "string \<Rightarrow> error \<Rightarrow> error" where
  "wrapped msg e = ErrText (msg @ '': '' @ errorText e)"

section \<open>Copying one object\<close>

definition isHexDigit :: "char \<Rightarrow> bool" where
  "isHexDigit c \<longleftrightarrow> c \<in> set ''0123456789abcdefABCDEF''"

definition validSHA256 :: "string \<Rightarrow> bool" where
  "validSHA256 v =
     (if \<not> hasPrefix v ''sha256:'' \<or> length v \<noteq> length ''sha256:'' + 64 then False
      else list_all isHexDigit (trimPrefix v ''sha256:''))"

definition objectDigestMatches :: "(string \<Rightarrow> string) \<Rightarrow> 'o object_store \<Rightarrow> string \<Rightarrow> int \<Rightarrow> string \<Rightarrow> 'o \<Rightarrow> bool result" where
  "objectDigestMatches sha st key n digest objs =
     (case os_Open st key objs of
        Inl e \<Rightarrow> Inl e
      | Inr (reader, openedSize) \<Rightarrow>
          (case rd_Err reader of
             Some e \<Rightarrow> Inl e
           | None \<Rightarrow>
               (case rd_CloseErr reader of
                  Some e \<Rightarrow> Inl e
                | None \<Rightarrow> Inr (openedSize = n \<and> int (length (rd_Bytes reader)) = n \<and> ''sha256:'' @ sha (rd_Bytes reader) = digest))))"

definition verifyCheckpoint :: "clock \<Rightarrow> ReplicationCheckpoint \<Rightarrow> string \<Rightarrow> ('o, 'p) world \<Rightarrow> error option \<times> ('o, 'p) world" where
  "verifyCheckpoint clock c token w =
     (let (r, w) = storeCall clock (\<lambda>t. UpdateReplicationCheckpointWithLease (\<lambda>n. t (Suc n))
            (c\<lparr>ck_ByteOffset := ck_Size c, ck_State := ''verified'', ck_LastError := [], ck_VerifiedAt := t 0\<rparr>) token) w
      in (errOf r, w))"

text \<open>Recording the digest of the destination object and the checkpoint, the tail of both ways to a verified copy.\<close>

definition recordVerified ::
  "clock \<Rightarrow> 'o object_store \<Rightarrow> string \<Rightarrow> ReplicationCheckpoint \<Rightarrow> string \<Rightarrow> ('o, 'p) world \<Rightarrow> error option \<times> ('o, 'p) world" where
  "recordVerified clock dst msg c token w =
     (let (e, objs) = os_SetVerifiedDigest dst (ck_ObjectKey c) (ck_Digest c) (rw_Objects w);
          w = w\<lparr>rw_Objects := objs\<rparr>
      in case e of
           Some e \<Rightarrow> (Some (wrapped msg e), w)
         | None \<Rightarrow> verifyCheckpoint clock c token w)"

definition transferObject ::
  "(string \<Rightarrow> string) \<Rightarrow> clock \<Rightarrow> 'o object_store \<Rightarrow> 'o object_store \<Rightarrow> ReplicationCheckpoint \<Rightarrow> string \<Rightarrow> ('o, 'p) world
     \<Rightarrow> error option \<times> ('o, 'p) world" where
  "transferObject sha clock src dst c token w =
     (case os_Open src (sourceKey c) (rw_Objects w) of
        Inl e \<Rightarrow> (Some (wrapped ''open source'' e), w)
      | Inr (reader, openedSize) \<Rightarrow>
          if openedSize \<noteq> ck_Size c then (Some (ErrText ''source size mismatch''), w)
          else
            let ((putErr, used), objs) = os_PutReader dst (ck_ObjectKey c) reader (ck_Size c) (rw_Objects w);
                w = w\<lparr>rw_Objects := objs\<rparr>
            in case putErr of
                 Some e \<Rightarrow> (Some (wrapped ''write destination'' e), w)
               | None \<Rightarrow>
                   if rd_CloseErr reader \<noteq> None \<or> int (length used) \<noteq> ck_Size c \<or> ''sha256:'' @ sha used \<noteq> ck_Digest c
                   then (Some (ErrText ''source sha256 verification failed''),
                         w\<lparr>rw_Objects := snd (os_Delete dst (ck_ObjectKey c) (rw_Objects w))\<rparr>)
                   else recordVerified clock dst ''record destination digest'' c token w)"

definition copyCheckpoint ::
  "(string \<Rightarrow> string) \<Rightarrow> clock \<Rightarrow> 'o object_store \<Rightarrow> 'o object_store \<Rightarrow> ReplicationCheckpoint \<Rightarrow> string \<Rightarrow> ('o, 'p) world
     \<Rightarrow> error option \<times> ('o, 'p) world" where
  "copyCheckpoint sha clock src dst c token w =
     (if ck_Size c < 0 \<or> ck_ByteOffset c < 0 \<or> ck_ByteOffset c > ck_Size c \<or> \<not> validSHA256 (ck_Digest c)
      then (Some (ErrText ''invalid checkpoint''), w)
      else
        case os_Stat src (sourceKey c) (rw_Objects w) of
          Inl e \<Rightarrow> (Some (wrapped ''stat source'' e), w)
        | Inr info \<Rightarrow>
            if in_Size info \<noteq> ck_Size c then (Some (ErrText ''source size mismatch''), w)
            else
              (case os_Stat dst (ck_ObjectKey c) (rw_Objects w) of
                 Inr info \<Rightarrow>
                   if in_Size info = ck_Size c then
                     (case (if in_Digest info = ck_Digest c then Inr True
                            else if in_Digest info = [] then objectDigestMatches sha dst (ck_ObjectKey c) (ck_Size c) (ck_Digest c) (rw_Objects w)
                            else Inr False) of
                        Inl e \<Rightarrow> (Some (wrapped ''verify existing destination object'' e), w)
                      | Inr False \<Rightarrow> (Some (ErrText ''destination object conflicts with checkpoint''), w)
                      | Inr True \<Rightarrow> recordVerified clock dst ''record existing destination digest'' c token w)
                   else if in_Size info > ck_Size c then (Some (ErrText ''destination object conflicts with checkpoint''), w)
                   else transferObject sha clock src dst c token w
               | Inl e \<Rightarrow>
                   if e \<noteq> ErrObjectNotFound then (Some (wrapped ''stat destination object'' e), w)
                   else transferObject sha clock src dst c token w))"

text \<open>The loop over the checkpoints stops at the first object that cannot be copied.\<close>

fun copyEach ::
  "(string \<Rightarrow> string) \<Rightarrow> clock \<Rightarrow> 'o object_store \<Rightarrow> 'o object_store \<Rightarrow> string \<Rightarrow> ReplicationCheckpoint list \<Rightarrow> ('o, 'p) world
     \<Rightarrow> (ReplicationCheckpoint \<times> error) option \<times> ('o, 'p) world" where
  "copyEach sha clock src dst token [] w = (None, w)"
| "copyEach sha clock src dst token (c # cs) w =
     (if ck_State c = ''verified'' then copyEach sha clock src dst token cs w
      else case copyCheckpoint sha clock src dst c token w of
             (Some e, w) \<Rightarrow> (Some (c, e), w)
           | (None, w) \<Rightarrow> copyEach sha clock src dst token cs w)"

section \<open>One plan\<close>

definition failPlan :: "env \<Rightarrow> clock \<Rightarrow> string \<Rightarrow> string \<Rightarrow> string \<Rightarrow> ('o, 'p) world \<Rightarrow> error option \<times> ('o, 'p) world" where
  "failPlan e clock i message token w =
     (let (r, w) = storeCall clock (\<lambda>t. FailReplicationPlanWithLease e t i message token) w in (errOf r, w))"

definition parkPlan :: "env \<Rightarrow> clock \<Rightarrow> string \<Rightarrow> string \<Rightarrow> string \<Rightarrow> ('o, 'p) world \<Rightarrow> error option \<times> ('o, 'p) world" where
  "parkPlan e clock i message token w =
     (let (r, w) = storeCall clock (\<lambda>t. ParkReplicationPlanWithLease e t i message token) w in (errOf r, w))"

definition replicationAdmissionDigests :: "ReplicationPlan \<Rightarrow> ReplicationCheckpoint list \<Rightarrow> string list" where
  "replicationAdmissionDigests plan checks =
     (if pl_Format plan \<noteq> FormatPyPI \<and> pl_Format plan \<noteq> FormatGo then [pl_Digest plan]
      else pl_Digest plan # map ck_Digest checks)"

text \<open>
  The renewals of the heartbeat goroutine. They are made before the work they run beside; all they do is to move the
  end of the lease. The result is what \<^verbatim>\<open>heartbeat.stop\<close> returns when it is first called.
\<close>

fun heartbeat :: "string \<Rightarrow> string \<Rightarrow> gotime list \<Rightarrow> replication_store \<Rightarrow> error option \<times> replication_store" where
  "heartbeat i token [] s = (None, s)"
| "heartbeat i token (t # ts) s =
     (case RenewReplicationPlanLease t i token s of
        (Inl e, s) \<Rightarrow> (Some e, s)
      | (Inr _, s) \<Rightarrow> heartbeat i token ts s)"

text \<open>Stopping the heartbeat before a report: its error takes the place of the report.\<close>

definition unlessLost :: "error option \<Rightarrow> (('o, 'p) world \<Rightarrow> error option \<times> ('o, 'p) world) \<Rightarrow> ('o, 'p) world \<Rightarrow> error option \<times> ('o, 'p) world" where
  "unlessLost leaseErr f w = (case leaseErr of Some e \<Rightarrow> (Some e, w) | None \<Rightarrow> f w)"

definition copyFailed ::
  "env \<Rightarrow> clock \<Rightarrow> ReplicationPlan \<Rightarrow> error option \<Rightarrow> ReplicationCheckpoint \<Rightarrow> error \<Rightarrow> ('o, 'p) world \<Rightarrow> error option \<times> ('o, 'p) world" where
  "copyFailed e clock plan leaseErr c err w =
     unlessLost leaseErr (\<lambda>w.
       let c = (case ListReplicationCheckpoints (pl_ID plan) (rw_Store w) of
                  Inl _ \<Rightarrow> c
                | Inr persisted \<Rightarrow> (case find (\<lambda>d. ck_ObjectKey d = ck_ObjectKey c) persisted of None \<Rightarrow> c | Some d \<Rightarrow> d));
           c = c\<lparr>ck_State := ''failed'', ck_Attempts := ck_Attempts c + 1, ck_LastError := errorText err\<rparr>;
           (r, w) = storeCall clock (\<lambda>t. UpdateReplicationCheckpointWithLease t c (pl_LeaseToken plan)) w
       in case r of
            Inl e' \<Rightarrow> (Some e', w)
          | Inr _ \<Rightarrow> failPlan e clock (pl_ID plan) (''replication checkpoint failed: '' @ ck_ObjectKey c) (pl_LeaseToken plan) w) w"

text \<open>Completing the plan under the lease fence; \<open>act\<close> is the publication, if there is one.\<close>

definition finishPlan ::
  "env \<Rightarrow> clock \<Rightarrow> ReplicationPlan \<Rightarrow> error option \<Rightarrow> ('p \<Rightarrow> error option \<times> 'p) option \<Rightarrow> ('o, 'p) world \<Rightarrow> error option \<times> ('o, 'p) world" where
  "finishPlan e clock plan leaseErr act w =
     (case storeCall clock (\<lambda>t s. (LockReplicationPlanLease (t 0) (pl_ID plan) (pl_LeaseToken plan) s, s)) w of
        (Inl err, w) \<Rightarrow> (Some (case leaseErr of Some le \<Rightarrow> le | None \<Rightarrow> err), w)
      | (Inr _, w) \<Rightarrow>
          let (err, pub) = (case act of None \<Rightarrow> (None, rw_Published w) | Some publish \<Rightarrow> publish (rw_Published w));
              w = w\<lparr>rw_Published := pub\<rparr>
          in if err \<noteq> None
             then unlessLost leaseErr (failPlan e clock (pl_ID plan) ''publish replicated artifacts failed'' (pl_LeaseToken plan)) w
             else
               let (r, w) = storeCall clock (\<lambda>t. CompleteReplicationPlanWithLease e t (pl_ID plan) (pl_LeaseToken plan)) w
               in case r of
                    Inr _ \<Rightarrow> (None, w)
                  | Inl completeErr \<Rightarrow> (Some (case leaseErr of Some le \<Rightarrow> le | None \<Rightarrow> completeErr), w))"

text \<open>
  The final admission and the publication. The lock names of the final admission, coordinates or digests, do not matter:
  taking them succeeds or fails.
\<close>

definition publishAdmitted ::
  "env \<Rightarrow> clock \<Rightarrow> ('o, 'p) Worker \<Rightarrow> circumstances \<Rightarrow> ReplicationPlan \<Rightarrow> error option
     \<Rightarrow> (ReplicationPlan \<Rightarrow> ReplicationCheckpoint list \<Rightarrow> 'p \<Rightarrow> error option \<times> 'p) \<Rightarrow> ReplicationCheckpoint list \<Rightarrow> ('o, 'p) world
     \<Rightarrow> error option \<times> ('o, 'p) world" where
  "publishAdmitted e clock wk circ plan leaseErr publish checks w =
     (let fail = (\<lambda>msg. unlessLost leaseErr (failPlan e clock (pl_ID plan) msg (pl_LeaseToken plan)));
          park = (\<lambda>msg. unlessLost leaseErr (parkPlan e clock (pl_ID plan) msg (pl_LeaseToken plan)))
      in if ci_LockFinal circ \<noteq> None then fail ''coordinate artifact quarantine failed'' w
         else
           case (case wk_AdmissionSnapshot wk of
                   None \<Rightarrow> Inr (replicationAdmissionDigests plan checks, True)
                 | Some snapshot \<Rightarrow> snapshot plan checks (rw_Published w)) of
             Inl _ \<Rightarrow> fail ''reload distribution admission identities failed'' w
           | Inr (digests, unchanged) \<Rightarrow>
               (case ArtifactDistributionAllowedForDigests (pl_SourceRepositoryID plan) (pl_Format plan) (pl_Coordinate plan)
                       digests (rw_Store w) of
                  Inl _ \<Rightarrow> fail ''evaluate artifact quarantine failed'' w
                | Inr False \<Rightarrow> park ArtifactQuarantinedReason w
                | Inr True \<Rightarrow>
                    if \<not> unchanged then park ReplicationSnapshotChangedReason w
                    else finishPlan e clock plan leaseErr (Some (publish plan checks)) w))"

definition publishPlan ::
  "env \<Rightarrow> clock \<Rightarrow> ('o, 'p) Worker \<Rightarrow> circumstances \<Rightarrow> ReplicationPlan \<Rightarrow> error option
     \<Rightarrow> (ReplicationPlan \<Rightarrow> ReplicationCheckpoint list \<Rightarrow> 'p \<Rightarrow> error option \<times> 'p) \<Rightarrow> ('o, 'p) world \<Rightarrow> error option \<times> ('o, 'p) world" where
  "publishPlan e clock wk circ plan leaseErr publish w =
     (let fail = (\<lambda>msg. unlessLost leaseErr (failPlan e clock (pl_ID plan) msg (pl_LeaseToken plan)))
      in case ListReplicationCheckpoints (pl_ID plan) (rw_Store w) of
           Inl _ \<Rightarrow> fail ''reload verified replication checkpoints failed'' w
         | Inr checks \<Rightarrow>
             if checks = [] then fail ''replication plan has no checkpoints'' w
             else
               (case find (\<lambda>c. ck_State c \<noteq> ''verified'') checks of
                  Some c \<Rightarrow> fail (''replication checkpoint is not verified: '' @ ck_ObjectKey c) w
                | None \<Rightarrow>
                    (case storeCall clock (\<lambda>t. UpdateReplicationCheckpointWithLease t (last checks) (pl_LeaseToken plan)) w of
                       (Inl err, w) \<Rightarrow> (Some err, w)
                     | (Inr _, w) \<Rightarrow> publishAdmitted e clock wk circ plan leaseErr publish checks w)))"

definition runPlan ::
  "env \<Rightarrow> (string \<Rightarrow> string) \<Rightarrow> clock \<Rightarrow> ('o, 'p) Worker \<Rightarrow> circumstances \<Rightarrow> ReplicationPlan \<Rightarrow> ('o, 'p) world
     \<Rightarrow> error option \<times> ('o, 'p) world" where
  "runPlan e sha clock wk circ plan w =
     (case (wk_Source wk, wk_Destination wk) of
        (Some src, Some dst) \<Rightarrow>
          (case storeCall clock (\<lambda>t. RenewReplicationPlanLease (t 0) (pl_ID plan) (pl_LeaseToken plan)) w of
             (Inl err, w) \<Rightarrow> (Some err, w)
           | (Inr _, w) \<Rightarrow>
               let (leaseErr, s) = heartbeat (pl_ID plan) (pl_LeaseToken plan) (ci_Beats circ) (rw_Store w);
                   w = w\<lparr>rw_Store := s\<rparr>;
                   fail = (\<lambda>msg. unlessLost leaseErr (failPlan e clock (pl_ID plan) msg (pl_LeaseToken plan)));
                   park = (\<lambda>msg. unlessLost leaseErr (parkPlan e clock (pl_ID plan) msg (pl_LeaseToken plan)))
               in case ListReplicationCheckpoints (pl_ID plan) (rw_Store w) of
                    Inl _ \<Rightarrow> fail ''load replication checkpoints failed'' w
                  | Inr checks \<Rightarrow>
                      if pl_Coordinate plan = [] \<or> pl_Digest plan = [] then fail ''replication artifact identity is unavailable'' w
                      else if ci_LockEarly circ \<noteq> None then fail ''coordinate artifact quarantine failed'' w
                      else
                        case ArtifactDistributionAllowedForDigests (pl_SourceRepositoryID plan) (pl_Format plan) (pl_Coordinate plan)
                               (replicationAdmissionDigests plan checks) (rw_Store w) of
                          Inl _ \<Rightarrow> fail ''evaluate artifact quarantine failed'' w
                        | Inr False \<Rightarrow> park ArtifactQuarantinedReason w
                        | Inr True \<Rightarrow>
                            if wk_LockObject wk \<and> ci_LockObjects circ \<noteq> None then fail ''replication object coordination failed'' w
                            else
                              (case copyEach sha clock src dst (pl_LeaseToken plan) checks w of
                                 (Some (c, err), w) \<Rightarrow> copyFailed e clock plan leaseErr c err w
                               | (None, w) \<Rightarrow>
                                   (case wk_Publish wk of
                                      Some publish \<Rightarrow> publishPlan e clock wk circ plan leaseErr publish w
                                    | None \<Rightarrow> finishPlan e clock plan leaseErr None w)))
      | _ \<Rightarrow> failPlan e clock (pl_ID plan) ''replication worker is not configured'' (pl_LeaseToken plan) w)"

section \<open>A run\<close>

fun runPlans ::
  "env \<Rightarrow> (string \<Rightarrow> string) \<Rightarrow> clock \<Rightarrow> ('o, 'p) Worker \<Rightarrow> (ReplicationPlan \<Rightarrow> circumstances) \<Rightarrow> ReplicationPlan list \<Rightarrow> ('o, 'p) world
     \<Rightarrow> error option \<times> ('o, 'p) world" where
  "runPlans e sha clock wk circ [] w = (None, w)"
| "runPlans e sha clock wk circ (plan # plans) w =
     (case runPlan e sha clock wk (circ plan) plan w of
        (Some err, w) \<Rightarrow> (Some err, w)
      | (None, w) \<Rightarrow> runPlans e sha clock wk circ plans w)"

definition Run ::
  "env \<Rightarrow> (string \<Rightarrow> string) \<Rightarrow> clock \<Rightarrow> ('o, 'p) Worker \<Rightarrow> (ReplicationPlan \<Rightarrow> circumstances) \<Rightarrow> int \<Rightarrow> ('o, 'p) world
     \<Rightarrow> error option \<times> ('o, 'p) world" where
  "Run e sha clock wk circ limit w =
     (let (plans, w) = storeCall clock
            (\<lambda>t. if wk_Format wk = [] then ClaimReplicationPlans e t limit else ClaimReplicationPlansByFormat e t (wk_Format wk) limit) w
      in runPlans e sha clock wk circ plans w)"

end
