(* ===== verification/QuarantineLaws.thy ===== *)
theory QuarantineLaws
  imports Quarantine WebhookLaws
begin

text \<open>
  Admission follows exactly the last decision about each identity: decisions are keyed injectively, guarded by their
  version, and read back by the admission check and by the read policy.
\<close>

section \<open>Keys\<close>

definition nulFree :: "string \<Rightarrow> bool" where
  "nulFree s \<longleftrightarrow> nul \<notin> set s"

lemma rev_sep_inject:
  assumes "nul \<notin> set b" "nul \<notin> set b'"
  shows "a @ nul # b = a' @ nul # b' \<longleftrightarrow> a = a' \<and> b = b'"
  using append_sep_inject [of nul "rev b" "rev b'" "rev a" "rev a'"] assms
  by (metis (no_types, lifting) append.assoc append_Cons append_Nil rev.simps(2) rev_append rev_is_rev_conv set_rev)

lemma artifactQuarantineKey_inject:
  assumes "nulFree f" "nulFree c" "nulFree d" "nulFree f'" "nulFree c'" "nulFree d'"
  shows "artifactQuarantineKey r f c d = artifactQuarantineKey r' f' c' d' \<longleftrightarrow> r = r' \<and> f = f' \<and> c = c' \<and> d = d'"
proof -
  note free = assms [unfolded nulFree_def]
  have key: "artifactQuarantineKey r f c d = ((r @ nul # f) @ nul # c) @ nul # d" for r f c d
    by (simp add: artifactQuarantineKey_def)
  show ?thesis
    unfolding key rev_sep_inject [OF free(3,6)] rev_sep_inject [OF free(2,5)] rev_sep_inject [OF free(1,4)] by simp
qed

definition identityOf :: "ArtifactQuarantine \<Rightarrow> string \<times> Format \<times> string \<times> string" where
  "identityOf v = (aq_RepositoryID v, aq_Format v, aq_Coordinate v, aq_Digest v)"

lemma list_all_nulFree: "list_all (\<lambda>c. c \<in> A) h \<Longrightarrow> nul \<notin> A \<Longrightarrow> nul \<notin> set h"
  by (auto simp: list_all_iff)

lemma valid_nulFree:
  assumes "validArtifactQuarantine v"
  shows "nulFree (aq_Format v)" "nulFree (aq_Coordinate v)" "nulFree (aq_Digest v)"
proof -
  have "IsSupportedFormat (aq_Format v) \<or> aq_Format v = FormatCargo" and c: "nul \<notin> set (aq_Coordinate v)"
    and d: "hasPrefix (aq_Digest v) ''sha256:''" "list_all (\<lambda>c. c \<in> set ''0123456789abcdef'') (drop (length ''sha256:'') (aq_Digest v))"
    using assms unfolding validArtifactQuarantine_def by (simp_all split: if_splits)
  then show "nulFree (aq_Format v)" "nulFree (aq_Coordinate v)"
    by (auto simp: IsSupportedFormat_def nulFree_def nul_def)
  obtain h where h: "aq_Digest v = ''sha256:'' @ h"
    using d(1) by (auto simp: hasPrefix_iff)
  have "list_all (\<lambda>c. c \<in> set ''0123456789abcdef'') h"
    using d(2) unfolding h by simp
  then have "nul \<notin> set h"
    by (rule list_all_nulFree) (simp add: nul_def)
  then show "nulFree (aq_Digest v)"
    unfolding h nulFree_def by (simp add: nul_def)
qed

section \<open>Decisions\<close>

lemma fanOut_quarantine_frame [simp]:
  "artifactQuarantines (fanOut uuid event vs s) = artifactQuarantines s"
  "quarantineReadPolicies (fanOut uuid event vs s) = quarantineReadPolicies s"
  "hostedRepositories (fanOut uuid event vs s) = hostedRepositories s"
  for s :: "'z quarantine_store_scheme"
  by (induction vs arbitrary: s) (simp_all add: Let_def)

lemma storeQuarantine_fields [simp]:
  "artifactQuarantines (storeQuarantine uuid marshal now v s) =
     gm_put (artifactQuarantineKey (aq_RepositoryID v) (aq_Format v) (aq_Coordinate v) (aq_Digest v)) v (artifactQuarantines s)"
  "quarantineReadPolicies (storeQuarantine uuid marshal now v s) = quarantineReadPolicies s"
  "hostedRepositories (storeQuarantine uuid marshal now v s) = hostedRepositories s"
  by (simp_all add: storeQuarantine_def enqueueWebhookEventLocked_def Let_def)

definition quarantineVersion :: "string \<times> Format \<times> string \<times> string \<Rightarrow> 'z quarantine_store_scheme \<Rightarrow> string option" where
  "quarantineVersion i s = (case i of (r, f, c, d) \<Rightarrow>
     case gm_get (artifactQuarantines s) (artifactQuarantineKey r f c d) of None \<Rightarrow> Some ''0'' | Some v \<Rightarrow> Some (aq_Version v))"

lemma next_zero [simp]: "nextHostedGroupVersion ''0'' = ''1''"
  by (rule nextHostedGroupVersion_first) (simp add: parseInt64_def parseUint64_def is_digit_def digit_val_def)

text \<open>An accepted decision replaces exactly the one under its key, keeps its identity and state and takes the next version.\<close>

lemma replace_accepted:
  assumes "ReplaceArtifactQuarantine uuid marshal clock v ver s = (Inr w, s')"
  shows "validArtifactQuarantine v" "identityOf w = identityOf v" "aq_State w = aq_State v"
    "quarantineVersion (identityOf v) s = Some ver" "aq_Version w = nextHostedGroupVersion ver"
    "artifactQuarantines s' = gm_put (artifactQuarantineKey (aq_RepositoryID v) (aq_Format v) (aq_Coordinate v) (aq_Digest v)) w (artifactQuarantines s)"
    "quarantineReadPolicies s' = quarantineReadPolicies s" "hostedRepositories s' = hostedRepositories s"
  using assms
  by (auto simp: ReplaceArtifactQuarantine_def identityOf_def quarantineVersion_def Let_def split: if_splits option.splits)

lemma replace_refused: "ReplaceArtifactQuarantine uuid marshal clock v ver s = (Inl e, s') \<Longrightarrow> s' = s"
  by (auto simp: ReplaceArtifactQuarantine_def Let_def split: if_splits option.splits)

text \<open>Storing a decision raises one event, delivered to every subscription that accepts it.\<close>

lemma enqueue_fans_out:
  fixes s :: "'z webhook_store_scheme"
  assumes "fresh_uuids uuid" and "webhook_ok uuid s" and "we_ID event \<noteq> []" and "\<not> isZero (we_OccurredAt event)" and "uuidsDrawn s \<le> n"
  shows "webhookDeliveries (snd (enqueueWebhookEventLocked uuid now event (s\<lparr>uuidsDrawn := n\<rparr>))) = webhookDeliveries s @
      map (\<lambda>(n, x). (uuid n, newDelivery event x (uuid n)))
        (enumerate n (filter (\<lambda>x. webhookSubscriptionAccepts x (we_Type event)) (gm_vals (webhookSubscriptions s))))"
    and "gm_get (webhookEvents (snd (enqueueWebhookEventLocked uuid now event (s\<lparr>uuidsDrawn := n\<rparr>)))) (we_ID event) = Some event"
proof -
  have frame: "webhookEvents (fanOut uuid event vs s) = webhookEvents s" for vs and s :: "'z webhook_store_scheme"
    by (induction vs arbitrary: s) (simp_all add: Let_def)
  show "gm_get (webhookEvents (snd (enqueueWebhookEventLocked uuid now event (s\<lparr>uuidsDrawn := n\<rparr>)))) (we_ID event) = Some event"
    using assms(3,4) by (simp add: enqueueWebhookEventLocked_def Let_def frame)
  show "webhookDeliveries (snd (enqueueWebhookEventLocked uuid now event (s\<lparr>uuidsDrawn := n\<rparr>))) = webhookDeliveries s @
      map (\<lambda>(n, x). (uuid n, newDelivery event x (uuid n)))
        (enumerate n (filter (\<lambda>x. webhookSubscriptionAccepts x (we_Type event)) (gm_vals (webhookSubscriptions s))))"
    using assms(3-5) ok_unused [OF assms(2,1)] by (simp add: enqueueWebhookEventLocked_def Let_def fanOut_eq [OF assms(1)])
qed

text \<open>The event of a decision, written out.\<close>

definition announcement :: "(ArtifactQuarantineWebhookData \<Rightarrow> string) \<Rightarrow> string \<Rightarrow> ArtifactQuarantine \<Rightarrow> WebhookEvent" where
  "announcement marshal i w =
     \<lparr>we_ID = i, we_Type = (if aq_State w = ''released'' then ''artifact.released'' else ''artifact.quarantined''), we_OccurredAt = aq_UpdatedAt w,
      we_Data = marshal \<lparr>qd_RepositoryID = aq_RepositoryID w, qd_Format = aq_Format w, qd_Coordinate = aq_Coordinate w, qd_Digest = aq_Digest w,
        qd_State = aq_State w, qd_Reason = aq_Reason w, qd_Actor = aq_UpdatedBy w, qd_Version = aq_Version w\<rparr>\<rparr>"

definition announced :: "(nat \<Rightarrow> string) \<Rightarrow> WebhookEvent \<Rightarrow> 'z webhook_store_scheme \<Rightarrow> 'z webhook_store_scheme \<Rightarrow> bool" where
  "announced uuid event s s' \<longleftrightarrow> gm_get (webhookEvents s') (we_ID event) = Some event \<and>
     webhookDeliveries s' = webhookDeliveries s @
       map (\<lambda>(n, x). (uuid n, newDelivery event x (uuid n)))
         (enumerate (Suc (uuidsDrawn s)) (filter (\<lambda>x. webhookSubscriptionAccepts x (we_Type event)) (gm_vals (webhookSubscriptions s))))"

lemma replace_announced:
  assumes run: "ReplaceArtifactQuarantine uuid marshal clock v ver s = (Inr w, s')" and fresh: "fresh_uuids uuid" and ok: "webhook_ok uuid s"
    and clock: "\<And>n. clock n \<noteq> 0"
  shows "announced uuid (announcement marshal (uuid (uuidsDrawn s)) w) s s'"
proof -
  have at: "aq_UpdatedAt w \<noteq> 0" and store: "\<exists>now. s' = storeQuarantine uuid marshal now w s"
    using run clock by (auto simp: ReplaceArtifactQuarantine_def Let_def split: if_splits option.splits)
  obtain now where s': "s' = storeQuarantine uuid marshal now w s" using store by blast
  let ?t = "s\<lparr>artifactQuarantines := gm_put (artifactQuarantineKey (aq_RepositoryID w) (aq_Format w) (aq_Coordinate w) (aq_Digest w)) w
                (artifactQuarantines s)\<rparr>"
  let ?e = "announcement marshal (uuid (uuidsDrawn s)) w"
  have e: "artifactQuarantineWebhookEvent marshal (uuid (uuidsDrawn s)) w = ?e"
    by (simp add: artifactQuarantineWebhookEvent_def announcement_def)
  have "webhook_ok uuid ?t" using ok by (simp add: webhook_ok_def)
  note fan = enqueue_fans_out [OF fresh this, of ?e "Suc (uuidsDrawn s)" now]
  have "we_ID ?e \<noteq> []" "\<not> isZero (we_OccurredAt ?e)"
    using fresh at by (simp_all add: announcement_def fresh_uuids_def isZero_def)
  with fan show ?thesis
    by (simp add: s' storeQuarantine_def Let_def e announced_def)
qed

text \<open>Updates of one identity, as the interface sees them.\<close>

definition decide :: "(nat \<Rightarrow> string) \<Rightarrow> (ArtifactQuarantineWebhookData \<Rightarrow> string) \<Rightarrow> string \<times> Format \<times> string \<times> string
    \<Rightarrow> (nat \<Rightarrow> gotime) \<times> ArtifactQuarantine \<Rightarrow> string \<Rightarrow> 'z quarantine_store_scheme \<Rightarrow> ArtifactQuarantine result \<times> 'z quarantine_store_scheme" where
  "decide uuid marshal i a ver s =
     (if identityOf (snd a) = i then ReplaceArtifactQuarantine uuid marshal (fst a) (snd a) ver s else (Inl ErrNotFound, s))"

interpretation decisions: cas_update "quarantineVersion i" "decide uuid marshal i" for i uuid marshal
proof unfold_locales
  show "quarantineVersion i s = Some ver \<and> quarantineVersion i s' = Some (nextHostedGroupVersion ver)"
    if "decide uuid marshal i a ver s = (Inr w, s')" for a ver w and s s' :: "'z quarantine_store_scheme"
  proof -
    have i: "i = identityOf (snd a)" and r: "ReplaceArtifactQuarantine uuid marshal (fst a) (snd a) ver s = (Inr w, s')"
      using that by (auto simp: decide_def split: if_splits)
    from replace_accepted [OF r] show ?thesis
      by (simp add: i quarantineVersion_def identityOf_def)
  qed
  show "s' = s" if "decide uuid marshal i a ver s = (Inl e, s')" for a ver e and s s' :: "'z quarantine_store_scheme"
    using that by (auto simp: decide_def split: if_splits dest: replace_refused)
qed

definition readPolicyVersion :: "string \<Rightarrow> 'z quarantine_store_scheme \<Rightarrow> string option" where
  "readPolicyVersion r s = (case GetRepositoryQuarantineReadPolicy r s of Inl _ \<Rightarrow> None | Inr p \<Rightarrow> Some (qp_Version p))"

interpretation read_policies: cas_update "readPolicyVersion r" "ReplaceRepositoryQuarantineReadPolicy r" for r
  by unfold_locales
    (auto simp: ReplaceRepositoryQuarantineReadPolicy_def GetRepositoryQuarantineReadPolicy_def readPolicyVersion_def Let_def
      split: option.splits if_splits)

section \<open>Admission\<close>

definition quarantined :: "'z quarantine_store_scheme \<Rightarrow> string \<Rightarrow> Format \<Rightarrow> string \<Rightarrow> string \<Rightarrow> bool" where
  "quarantined s r f c d \<longleftrightarrow> (\<exists>v. gm_get (artifactQuarantines s) (artifactQuarantineKey r f c d) = Some v \<and>
     aq_State v = ArtifactQuarantineStateQuarantined)"

lemma admitEach_iff:
  "admitEach (\<lambda>d. GetArtifactQuarantine r f c d s) ds = Inr (\<forall>d \<in> set ds. \<not> quarantined s r f c d)"
  by (induction ds) (auto simp: GetArtifactQuarantine_def quarantined_def split: option.splits)

lemma readBlockedEach_iff:
  "readBlockedEach (\<lambda>d. GetArtifactQuarantine r f c d s) ds = Inr (\<exists>d \<in> set ds. quarantined s r f c d)"
  by (induction ds) (auto simp: GetArtifactQuarantine_def quarantined_def split: option.splits)

lemma admission_iff:
  "ArtifactDistributionAllowedForDigests r f c ds s = Inr (\<forall>d \<in> set ds. d = [] \<or> \<not> quarantined s r f c d)"
  by (auto simp: ArtifactDistributionAllowedForDigests_def admitEach_iff sortedUniqueDigests_def)

lemma quarantined_after:
  assumes run: "ReplaceArtifactQuarantine uuid marshal clock v ver s = (Inr w, s')"
    and "nulFree f" "nulFree c" "nulFree d"
  shows "quarantined s' r f c d \<longleftrightarrow>
    (if (r, f, c, d) = identityOf v then aq_State v = ArtifactQuarantineStateQuarantined else quarantined s r f c d)"
proof -
  note w = replace_accepted [OF run]
  have "artifactQuarantineKey r f c d = artifactQuarantineKey (aq_RepositoryID v) (aq_Format v) (aq_Coordinate v) (aq_Digest v)
      \<longleftrightarrow> (r, f, c, d) = identityOf v"
    using artifactQuarantineKey_inject [OF assms(2-4) valid_nulFree [OF w(1)]] by (simp add: identityOf_def)
  then show ?thesis
    using w(3) by (simp add: quarantined_def w(6))
qed

text \<open>
  C36. Quarantine is exact. An accepted decision about one artifact identity (repository, format, coordinate and
  digest) was valid, is stored under the next version and announced: one event that names the new state, reason, actor and version is recorded,
  with one pending delivery for every subscription that accepts it. Afterwards distribution of a set of digests under a coordinate is admitted if and
  only if none of them is quarantined, where the
  identity just decided counts by its new state and every other identity by the state it had before; in a repository whose read
  policy is enabled, reads are blocked by exactly the same rule, and elsewhere never. No decision is lost: an
  update of the same identity that was prepared against the version just replaced is refused and changes nothing.
\<close>

theorem quarantine_exact:
  assumes run: "ReplaceArtifactQuarantine uuid marshal clock v ver s = (Inr w, s')"
    and free: "nulFree f" "nulFree c" "\<forall>d \<in> set ds. d \<noteq> [] \<and> nulFree d"
    and repo: "gm_get (hostedRepositories s) r \<noteq> None"
    and queue: "fresh_uuids uuid" "webhook_ok uuid s" "\<forall>n. clock n \<noteq> 0"
  shows "let bad = (\<lambda>d. if (r, f, c, d) = identityOf v then aq_State v = ArtifactQuarantineStateQuarantined else quarantined s r f c d)
    in validArtifactQuarantine v \<and> identityOf w = identityOf v \<and> aq_State w = aq_State v \<and> aq_Reason w = aq_Reason v \<and> aq_UpdatedBy w = aq_UpdatedBy v \<and>
      aq_Version w = nextHostedGroupVersion ver \<and> GetArtifactQuarantine (aq_RepositoryID v) (aq_Format v) (aq_Coordinate v) (aq_Digest v) s' = Inr w \<and>
      announced uuid (announcement marshal (uuid (uuidsDrawn s)) w) s s' \<and>
      ArtifactDistributionAllowedForDigests r f c ds s' = Inr (\<forall>d \<in> set ds. \<not> bad d) \<and>
      QuarantinedArtifactReadBlocked r f c ds s' =
        Inr ((\<exists>p. gm_get (quarantineReadPolicies s) r = Some p \<and> qp_Enabled p) \<and> (\<exists>d \<in> set ds. bad d)) \<and>
      (\<forall>clock' v'. identityOf v' = identityOf v \<longrightarrow> (\<exists>e. ReplaceArtifactQuarantine uuid marshal clock' v' ver s' = (Inl e, s')))"
proof -
  note w = replace_accepted [OF run]
  have after: "quarantined s' r f c d \<longleftrightarrow>
      (if (r, f, c, d) = identityOf v then aq_State v = ArtifactQuarantineStateQuarantined else quarantined s r f c d)" if "d \<in> set ds" for d
    using quarantined_after [OF run free(1,2)] free(3) that by blast
  have admitted: "ArtifactDistributionAllowedForDigests r f c ds s' = Inr (\<forall>d \<in> set ds. \<not> quarantined s' r f c d)"
    using free(3) by (auto simp: admission_iff)
  have policy: "GetRepositoryQuarantineReadPolicy r s' = GetRepositoryQuarantineReadPolicy r s"
    by (simp add: GetRepositoryQuarantineReadPolicy_def w(7,8))
  have blocked: "QuarantinedArtifactReadBlocked r f c ds s' =
      Inr ((\<exists>p. gm_get (quarantineReadPolicies s) r = Some p \<and> qp_Enabled p) \<and> (\<exists>d \<in> set ds. quarantined s' r f c d))"
    using repo unfolding QuarantinedArtifactReadBlocked_def policy
    by (auto simp: GetRepositoryQuarantineReadPolicy_def DefaultRepositoryQuarantineReadPolicy_def readBlockedEach_iff split: option.splits)
  have stale: "\<exists>e. ReplaceArtifactQuarantine uuid marshal clock' v' ver s' = (Inl e, s')" if "identityOf v' = identityOf v" for clock' v'
    using decisions.no_lost_update [of uuid marshal "identityOf v" "(clock, v)" ver s w s' "(clock', v')"] run that by (simp add: decide_def)
  have kept: "aq_Reason w = aq_Reason v \<and> aq_UpdatedBy w = aq_UpdatedBy v"
    using run by (auto simp: ReplaceArtifactQuarantine_def Let_def split: if_splits option.splits)
  have told: "announced uuid (announcement marshal (uuid (uuidsDrawn s)) w) s s'"
    by (rule replace_announced [OF run queue(1,2)]) (use queue(3) in simp)
  have read: "GetArtifactQuarantine (aq_RepositoryID v) (aq_Format v) (aq_Coordinate v) (aq_Digest v) s' = Inr w"
    by (simp add: GetArtifactQuarantine_def w(6))
  show ?thesis
    unfolding Let_def admitted blocked using after stale w(1-3,5) kept told read by simp
qed

section \<open>Witness\<close>

definition exampleQuarantine :: ArtifactQuarantine where
  "exampleQuarantine = \<lparr>aq_RepositoryID = ''r1'', aq_Format = FormatRaw, aq_Coordinate = ''a/b'',
     aq_Digest = ''sha256:'' @ replicate 64 (CHR ''a''), aq_State = ArtifactQuarantineStateQuarantined, aq_Reason = ''cve'',
     aq_UpdatedBy = ''alice'', aq_Version = [], aq_QuarantinedAt = 0, aq_ReleasedAt = 0, aq_UpdatedAt = 0\<rparr>"

definition exampleQuarantineStore :: quarantine_store where
  "exampleQuarantineStore = emptyQuarantineStore\<lparr>hostedRepositories := [(''r1'', zeroHostedRepository)],
     quarantineReadPolicies := [(''r1'', \<lparr>qp_Version = ''2'', qp_Enabled = True\<rparr>)]\<rparr>"

lemma exampleQuarantine_accepted:
  "is_ok (fst (ReplaceArtifactQuarantine exampleUUID (\<lambda>_. []) (\<lambda>_. 5) exampleQuarantine ''0'' exampleQuarantineStore))"
  by code_simp

theorem quarantine_exact_witness:
  "\<exists>w s'. ReplaceArtifactQuarantine exampleUUID (\<lambda>_. []) (\<lambda>_. 5) exampleQuarantine ''0'' exampleQuarantineStore = (Inr w, s') \<and>
     ArtifactDistributionAllowedForDigests ''r1'' FormatRaw ''a/b'' [aq_Digest exampleQuarantine] s' = Inr False \<and>
     QuarantinedArtifactReadBlocked ''r1'' FormatRaw ''a/b'' [aq_Digest exampleQuarantine] s' = Inr True"
proof -
  obtain w s' where run: "ReplaceArtifactQuarantine exampleUUID (\<lambda>_. []) (\<lambda>_. 5) exampleQuarantine ''0'' exampleQuarantineStore = (Inr w, s')"
    using exampleQuarantine_accepted
    by (cases "ReplaceArtifactQuarantine exampleUUID (\<lambda>_. []) (\<lambda>_. 5) exampleQuarantine ''0'' exampleQuarantineStore") (auto simp: is_ok_iff)
  have "nulFree FormatRaw" "nulFree ''a/b''" "\<forall>d \<in> set [aq_Digest exampleQuarantine]. d \<noteq> [] \<and> nulFree d"
    "gm_get (hostedRepositories exampleQuarantineStore) ''r1'' \<noteq> None" "fresh_uuids exampleUUID" "webhook_ok exampleUUID exampleQuarantineStore"
    "\<forall>n. (\<lambda>_. 5 :: gotime) n \<noteq> 0"
    using exampleUUID_fresh by (simp_all add: nulFree_def nul_def exampleQuarantine_def exampleQuarantineStore_def emptyQuarantineStore_def webhook_ok_def webhook_store.defs hosted_store.defs emptyWebhookStore_def)
  from quarantine_exact [OF run this(1-6), simplified] run show ?thesis
    by (simp add: Let_def identityOf_def exampleQuarantine_def exampleQuarantineStore_def)
qed

end
