(* ===== verification/ReplicationLaws.thy ===== *)
theory ReplicationLaws
  imports Replication QuarantineLaws
begin

text \<open>
  The invariant of the replication queue over every history of its operations, what a claim hands out, the fencing of reports
  by lease tokens, and the idempotency of plan creation.
\<close>

section \<open>The invariant\<close>

definition running :: "ReplicationPlan \<Rightarrow> bool" where
  "running p \<longleftrightarrow> pl_State p = ''running''"

definition plan_ok :: "(nat \<Rightarrow> string) \<Rightarrow> nat \<Rightarrow> ReplicationPlan \<Rightarrow> bool" where
  "plan_ok uuid n p \<longleftrightarrow>
     0 \<le> pl_Attempts p \<and> pl_Attempts p \<le> pl_MaxAttempts p \<and> 1 \<le> pl_MaxAttempts p \<and> pl_MaxAttempts p \<le> 10 \<and>
     pl_State p \<in> {''pending'', ''running'', ''failed'', ''completed'', ''cancelled''} \<and>
     (pl_State p = ''pending'' \<or> pl_State p = ''failed'' \<and> pl_NextAttemptAt p \<noteq> zeroTime \<longrightarrow> pl_Attempts p < pl_MaxAttempts p) \<and>
     (if running p then 1 \<le> pl_Attempts p \<and> pl_LeaseToken p \<in> uuid ` {..<n} else pl_LeaseToken p = [] \<and> pl_LeaseExpiresAt p = zeroTime)"

definition plans_ok :: "(nat \<Rightarrow> string) \<Rightarrow> nat \<Rightarrow> ReplicationPlan gomap \<Rightarrow> bool" where
  "plans_ok uuid n m \<longleftrightarrow> gm_ok m \<and>
     (\<forall>i p. gm_get m i = Some p \<longrightarrow> plan_ok uuid n p \<and> pl_ID p = i \<and> i \<in> uuid ` {..<n}) \<and>
     (\<forall>i j p q. gm_get m i = Some p \<longrightarrow> gm_get m j = Some q \<longrightarrow> running p \<longrightarrow> running q \<longrightarrow> pl_LeaseToken p = pl_LeaseToken q \<longrightarrow> i = j)"

definition planKey :: "ReplicationPlan \<Rightarrow> string" where
  "planKey p = joinKey2 (pl_TargetRepositoryID p) (pl_IdempotencyKey p)"

definition checks_ok :: "string \<Rightarrow> ReplicationCheckpoint gomap \<Rightarrow> bool" where
  "checks_ok i m \<longleftrightarrow> gm_ok m \<and> (\<forall>k c. gm_get m k = Some c \<longrightarrow> ck_ObjectKey c = k \<and> ck_PlanID c = i)"

definition replication_ok :: "(nat \<Rightarrow> string) \<Rightarrow> 'z replication_store_scheme \<Rightarrow> bool" where
  "replication_ok uuid s \<longleftrightarrow> plans_ok uuid (uuidsDrawn s) (replicationPlans s) \<and>
     (\<forall>k i. gm_get (replicationKeys s) k = Some i \<longleftrightarrow> (\<exists>p. gm_get (replicationPlans s) i = Some p \<and> planKey p = k)) \<and>
     (\<forall>i. gm_get (replicationPlans s) i = None \<longleftrightarrow> gm_get (replicationChecks s) i = None) \<and>
     (\<forall>i m. gm_get (replicationChecks s) i = Some m \<longrightarrow> checks_ok i m)"

text \<open>
  The requests of the interface leave the fields the queue maintains at their zero values, draw a new identifier and name every
  object once.
\<close>

definition requested :: "string \<Rightarrow> ReplicationPlan \<Rightarrow> bool" where
  "requested i p \<longleftrightarrow> pl_ID p = i \<and> pl_LeaseToken p = [] \<and> pl_LeaseExpiresAt p = zeroTime \<and> pl_NextAttemptAt p = zeroTime \<and>
     pl_StartedAt p = zeroTime \<and> pl_CompletedAt p = zeroTime \<and> pl_LastError p = [] \<and> pl_Attempts p = 0"

inductive replication_step :: "env \<Rightarrow> 'z replication_store_scheme \<Rightarrow> 'z replication_store_scheme \<Rightarrow> bool" for e where
  create: "requested (env_UUID e (uuidsDrawn s)) p \<Longrightarrow>
    replication_step e s (snd (CreateReplicationPlan now p checks (s\<lparr>uuidsDrawn := Suc (uuidsDrawn s)\<rparr>)))"
| claim: "replication_step e s (snd (claimReplicationPlans e clock limit fmt s))"
| recover: "replication_step e s (snd (RecoverExpiredReplicationPlans e now before s))"
| checkpoint: "replication_step e s (snd (UpdateReplicationCheckpointWithLease clock c token s))"
| renew: "replication_step e s (snd (RenewReplicationPlanLease now i token s))"
| complete: "replication_step e s (snd (CompleteReplicationPlanWithLease e clock i token s))"
| fail: "replication_step e s (snd (FailReplicationPlanWithLease e clock i msg token s))"
| park: "replication_step e s (snd (ParkReplicationPlanWithLease e clock i msg token s))"
| cancel: "replication_step e s (snd (CancelReplicationPlan now repositoryID i s))"
| quarantine: "replication_step e s (snd (ReplaceArtifactQuarantine (env_UUID e) marshal clock v ver s))"
| webhook: "replication_step e s (snd (enqueueWebhookEventLocked (env_UUID e) now event s))"

inductive replication_reach :: "env \<Rightarrow> replication_store \<Rightarrow> bool" for e where
  start: "replication_reach e emptyReplicationStore"
| step: "replication_reach e s \<Longrightarrow> replication_step e s s' \<Longrightarrow> replication_reach e s'"

lemma plan_ok_mono: "plan_ok uuid n p \<Longrightarrow> n \<le> n' \<Longrightarrow> plan_ok uuid n' p"
  by (fastforce simp: plan_ok_def split: if_splits)

lemma plans_okD:
  assumes "plans_ok uuid n m"
  shows "gm_ok m"
    and "gm_get m i = Some p \<Longrightarrow> plan_ok uuid n p" "gm_get m i = Some p \<Longrightarrow> pl_ID p = i" "gm_get m i = Some p \<Longrightarrow> i \<in> uuid ` {..<n}"
    and "gm_get m i = Some p \<Longrightarrow> gm_get m j = Some q \<Longrightarrow> running p \<Longrightarrow> running q \<Longrightarrow> pl_LeaseToken p = pl_LeaseToken q \<Longrightarrow> i = j"
  using assms unfolding plans_ok_def by blast+

lemma plans_ok_mono: "plans_ok uuid n m \<Longrightarrow> n \<le> n' \<Longrightarrow> plans_ok uuid n' m"
  unfolding plans_ok_def by (fastforce intro: plan_ok_mono)

lemma plans_ok_put:
  assumes ok: "plans_ok uuid n m" and p: "plan_ok uuid n p" "pl_ID p = i" "i \<in> uuid ` {..<n}"
    and sole: "\<And>j q. running p \<Longrightarrow> gm_get m j = Some q \<Longrightarrow> running q \<Longrightarrow> pl_LeaseToken q = pl_LeaseToken p \<Longrightarrow> j = i"
  shows "plans_ok uuid n (gm_put i p m)"
  unfolding plans_ok_def
proof (intro conjI allI impI)
  show "gm_ok (gm_put i p m)" using plans_okD(1) [OF ok] by simp
  show "plan_ok uuid n q" "pl_ID q = j" "j \<in> uuid ` {..<n}" if "gm_get (gm_put i p m) j = Some q" for j q
    using that p plans_okD(2-4) [OF ok] by (auto split: if_splits)
  show "j = k" if "gm_get (gm_put i p m) j = Some q" "gm_get (gm_put i p m) k = Some r" "running q" "running r"
    "pl_LeaseToken q = pl_LeaseToken r" for j k q r
    using that sole plans_okD(5) [OF ok] by (auto split: if_splits)
qed

lemma replication_okD:
  assumes "replication_ok uuid s"
  shows "plans_ok uuid (uuidsDrawn s) (replicationPlans s)"
    and "gm_get (replicationKeys s) k = Some i \<longleftrightarrow> (\<exists>p. gm_get (replicationPlans s) i = Some p \<and> planKey p = k)"
    and "gm_get (replicationPlans s) i = None \<longleftrightarrow> gm_get (replicationChecks s) i = None"
    and "gm_get (replicationChecks s) i = Some m \<Longrightarrow> checks_ok i m"
  using assms unfolding replication_ok_def by blast+

lemma replication_ok_empty: "replication_ok uuid emptyReplicationStore"
  by (simp add: replication_ok_def plans_ok_def emptyReplicationStore_def quarantine_store.defs)

lemma replication_ok_cong:
  assumes "replication_ok uuid s" "replicationPlans t = replicationPlans s" "replicationKeys t = replicationKeys s"
    "replicationChecks t = replicationChecks s" "uuidsDrawn s \<le> uuidsDrawn t"
  shows "replication_ok uuid t"
  using assms plans_ok_mono [OF _ assms(5)] unfolding replication_ok_def by auto

text \<open>Rewriting a stored plan, with or without a new lease.\<close>

lemma replication_ok_put:
  assumes ok: "replication_ok uuid s" and old: "gm_get (replicationPlans s) i = Some q"
    and p: "plan_ok uuid (uuidsDrawn t) p" "pl_ID p = i" "planKey p = planKey q"
    and sole: "\<And>j r. running p \<Longrightarrow> gm_get (replicationPlans s) j = Some r \<Longrightarrow> running r \<Longrightarrow> pl_LeaseToken r = pl_LeaseToken p \<Longrightarrow> j = i"
    and t: "replicationPlans t = gm_put i p (replicationPlans s)" "replicationKeys t = replicationKeys s"
      "replicationChecks t = replicationChecks s" "uuidsDrawn s \<le> uuidsDrawn t"
  shows "replication_ok uuid t"
proof -
  have plans: "plans_ok uuid (uuidsDrawn t) (replicationPlans s)"
    using replication_okD(1) [OF ok] t(4) by (rule plans_ok_mono)
  have "plans_ok uuid (uuidsDrawn t) (replicationPlans t)"
    unfolding t(1) by (rule plans_ok_put [OF plans p(1,2) plans_okD(4) [OF plans old]]) (rule sole)
  moreover have "gm_get (replicationKeys t) k = Some j \<longleftrightarrow> (\<exists>r. gm_get (replicationPlans t) j = Some r \<and> planKey r = k)" for k j
    using replication_okD(2) [OF ok] old p(3) by (auto simp: t(1,2))
  moreover have "gm_get (replicationPlans t) j = None \<longleftrightarrow> gm_get (replicationChecks t) j = None" for j
    using replication_okD(3) [OF ok, of j] old by (auto simp: t(1,3))
  ultimately show ?thesis
    using replication_okD(4) [OF ok] unfolding replication_ok_def by (simp add: t(3))
qed

section \<open>Storing a finished plan\<close>

lemma fanOut_replication_frame [simp]:
  "replicationPlans (fanOut uuid event vs s) = replicationPlans s"
  "replicationKeys (fanOut uuid event vs s) = replicationKeys s"
  "replicationChecks (fanOut uuid event vs s) = replicationChecks s"
  for s :: "'z replication_store_scheme"
  by (induction vs arbitrary: s) (simp_all add: Let_def)

lemma enqueue_replication_frame [simp]:
  "replicationPlans (snd (enqueueWebhookEventLocked uuid now event s)) = replicationPlans s"
  "replicationKeys (snd (enqueueWebhookEventLocked uuid now event s)) = replicationKeys s"
  "replicationChecks (snd (enqueueWebhookEventLocked uuid now event s)) = replicationChecks s"
  "artifactQuarantines (snd (enqueueWebhookEventLocked uuid now event s)) = artifactQuarantines s"
  for s :: "'z replication_store_scheme"
  by (simp_all add: enqueueWebhookEventLocked_def Let_def)

lemma storeFinishedPlan_fields [simp]:
  "replicationPlans (storeFinishedPlan e now i p s) = gm_put i p (replicationPlans s)"
  "replicationKeys (storeFinishedPlan e now i p s) = replicationKeys s"
  "replicationChecks (storeFinishedPlan e now i p s) = replicationChecks s"
  "artifactQuarantines (storeFinishedPlan e now i p s) = artifactQuarantines s"
  by (simp_all add: storeFinishedPlan_def Let_def split: option.splits)

lemma storeFinishedPlan_draws: "uuidsDrawn s \<le> uuidsDrawn (storeFinishedPlan e now i p s)"
proof -
  have "uuidsDrawn s \<le> uuidsDrawn (snd (enqueueWebhookEventLocked (env_UUID e) now ev
      (s\<lparr>replicationPlans := m, uuidsDrawn := Suc (uuidsDrawn s)\<rparr>)))" for ev m
    using enqueue_draws [of "s\<lparr>replicationPlans := m, uuidsDrawn := Suc (uuidsDrawn s)\<rparr>"] by (auto dest: Suc_leD)
  then show ?thesis
    by (simp add: storeFinishedPlan_def Let_def split: option.splits)
qed

lemma storeFinishedPlan_ok:
  assumes "replication_ok uuid s" "gm_get (replicationPlans s) i = Some q" "plan_ok uuid (uuidsDrawn s) p" "\<not> running p"
    "pl_ID p = i" "planKey p = planKey q"
  shows "replication_ok uuid (storeFinishedPlan e now i p s)"
  using assms storeFinishedPlan_draws [of s e now i p]
  by (intro replication_ok_put [OF assms(1,2), of _ p]) (auto intro: plan_ok_mono)

lemma ended_plan_ok:
  assumes "plan_ok uuid n p" "running p"
  shows "plan_ok uuid n (expirePlan before p)" "plan_ok uuid n (failedPlan now msg p)" "plan_ok uuid n (parkedPlan now msg p)"
    "plan_ok uuid n (p\<lparr>pl_State := ''completed'', pl_LastError := msg, pl_CompletedAt := now, pl_LeaseToken := [], pl_LeaseExpiresAt := zeroTime\<rparr>)"
  using assms by (auto simp: plan_ok_def running_def expirePlan_def failedPlan_def parkedPlan_def)

lemma ended_plan_fields [simp]:
  "\<not> running (expirePlan before p)" "\<not> running (failedPlan now msg p)" "\<not> running (parkedPlan now msg p)"
  "pl_ID (expirePlan before p) = pl_ID p" "pl_ID (failedPlan now msg p) = pl_ID p" "pl_ID (parkedPlan now msg p) = pl_ID p"
  "planKey (expirePlan before p) = planKey p" "planKey (failedPlan now msg p) = planKey p" "planKey (parkedPlan now msg p) = planKey p"
  "pl_CreatedAt (expirePlan before p) = pl_CreatedAt p"
  by (simp_all add: running_def expirePlan_def failedPlan_def parkedPlan_def planKey_def)

section \<open>Recovery\<close>

definition recovered :: "gotime \<Rightarrow> ReplicationPlan \<Rightarrow> ReplicationPlan" where
  "recovered before p = (if leaseLapsed before p then expirePlan before p else p)"

lemma leaseLapsed_running: "leaseLapsed before p \<Longrightarrow> running p"
  by (simp add: leaseLapsed_def running_def)

lemma recoverEach_result:
  assumes "replication_ok (env_UUID e) s" "distinct (map fst ps)" "\<forall>(i, p) \<in> set ps. gm_get (replicationPlans s) i = Some p"
  shows "let t = snd (recoverEach e now before ps s) in replication_ok (env_UUID e) t \<and> uuidsDrawn s \<le> uuidsDrawn t \<and>
    replicationKeys t = replicationKeys s \<and> replicationChecks t = replicationChecks s \<and> artifactQuarantines t = artifactQuarantines s \<and>
    (\<forall>i. gm_get (replicationPlans t) i =
       (case map_of ps i of Some p \<Rightarrow> Some (recovered before p) | None \<Rightarrow> gm_get (replicationPlans s) i))"
  using assms
proof (induction ps arbitrary: s)
  case (Cons x ps)
  obtain i p where x: "x = (i, p)" by force
  have get: "gm_get (replicationPlans s) i = Some p" and new: "i \<notin> fst ` set ps" and absent: "map_of ps i = None"
    and rest: "distinct (map fst ps)" "\<forall>(i, p) \<in> set ps. gm_get (replicationPlans s) i = Some p"
    using Cons.prems(2,3) x by (auto simp: map_of_eq_None_iff)
  show ?case
  proof (cases "leaseLapsed before p")
    case True
    let ?s = "storeFinishedPlan e now i (expirePlan before p) s"
    note plan = plans_okD(2,3) [OF replication_okD(1) [OF Cons.prems(1)] get]
    have ok: "replication_ok (env_UUID e) ?s"
      using ended_plan_ok(1) [OF plan(1) leaseLapsed_running [OF True]] plan(2)
      by (intro storeFinishedPlan_ok [OF Cons.prems(1) get]) simp_all
    have "\<forall>(j, q) \<in> set ps. gm_get (replicationPlans ?s) j = Some q"
      using rest(2) new by (auto simp: rev_image_eqI)
    note IH = Cons.IH [OF ok rest(1) this]
    have step: "snd (recoverEach e now before (x # ps) s) = snd (recoverEach e now before ps ?s)"
      using True by (simp add: x case_prod_beta)
    show ?thesis
      unfolding step using IH absent True storeFinishedPlan_draws [of s e now i "expirePlan before p"]
      by (auto simp: Let_def x recovered_def intro: order_trans split: option.splits)
  next
    case False
    then have step: "recoverEach e now before (x # ps) s = recoverEach e now before ps s"
      by (simp add: x)
    show ?thesis
      unfolding step using Cons.IH [OF Cons.prems(1) rest] absent False get
      by (auto simp: Let_def x recovered_def split: option.splits)
  qed
qed simp

lemma recover_result:
  assumes ok: "replication_ok (env_UUID e) s" and t: "t = snd (recoverExpiredReplicationPlansLocked e now before s)"
  shows "replication_ok (env_UUID e) t" "uuidsDrawn s \<le> uuidsDrawn t" "replicationKeys t = replicationKeys s"
    "replicationChecks t = replicationChecks s" "artifactQuarantines t = artifactQuarantines s"
    "gm_get (replicationPlans t) i = map_option (recovered before) (gm_get (replicationPlans s) i)"
proof -
  have gm: "gm_ok (replicationPlans s)"
    using plans_okD(1) [OF replication_okD(1) [OF ok]] .
  then have "distinct (map fst (replicationPlans s))" "\<forall>(i, p) \<in> set (replicationPlans s). gm_get (replicationPlans s) i = Some p"
    by (auto simp: gm_get_iff) (simp add: gm_ok_def)
  note all = recoverEach_result [OF ok this, of now before]
  then show "replication_ok (env_UUID e) t" "uuidsDrawn s \<le> uuidsDrawn t" "replicationKeys t = replicationKeys s"
    "replicationChecks t = replicationChecks s" "artifactQuarantines t = artifactQuarantines s"
    by (simp_all add: t recoverExpiredReplicationPlansLocked_def Let_def)
  show "gm_get (replicationPlans t) i = map_option (recovered before) (gm_get (replicationPlans s) i)"
    using all by (auto simp: t recoverExpiredReplicationPlansLocked_def Let_def split: option.splits)
qed

section \<open>Claims\<close>

text \<open>The plans a claim starts, each with the next identifier as its token.\<close>

fun startAll :: "(nat \<Rightarrow> string) \<Rightarrow> gotime \<Rightarrow> nat \<Rightarrow> (string \<times> ReplicationPlan) list \<Rightarrow> (string \<times> ReplicationPlan) list" where
  "startAll uuid now n [] = []"
| "startAll uuid now n ((i, p) # ps) = (i, startPlan now (uuid n) p) # startAll uuid now (Suc n) ps"

definition chosen :: "int \<Rightarrow> int \<Rightarrow> 'a list \<Rightarrow> 'a list" where
  "chosen limit taken xs = (if limit < taken then xs else take (nat (limit - taken)) xs)"

definition putAll :: "(string \<times> 'v) list \<Rightarrow> 'v gomap \<Rightarrow> 'v gomap" where
  "putAll xs m = fold (\<lambda>(i, p). gm_put i p) xs m"

lemma putAll_simps [simp]: "putAll [] m = m" "putAll ((i, p) # xs) m = putAll xs (gm_put i p m)"
  by (simp_all add: putAll_def)

lemma putAll_get: "distinct (map fst xs) \<Longrightarrow> gm_get (putAll xs m) i = (case map_of xs i of Some p \<Rightarrow> Some p | None \<Rightarrow> gm_get m i)"
proof (induction xs arbitrary: m)
  case (Cons x xs)
  obtain j p where x: "x = (j, p)" by force
  have "map_of xs j = None"
    using Cons.prems by (simp add: x map_of_eq_None_iff)
  with Cons show ?case
    by (auto simp: x split: option.splits)
qed simp

lemma chosen_Cons: "taken \<noteq> limit \<Longrightarrow> chosen limit taken (x # xs) = x # chosen limit (taken + 1) xs"
proof -
  assume "taken \<noteq> limit"
  moreover have "nat (limit - taken) = Suc (nat (limit - (taken + 1)))" if "taken < limit"
    using that by simp
  ultimately show ?thesis by (cases "limit < taken") (auto simp: chosen_def)
qed

lemma chosen_full [simp]: "chosen limit limit xs = []"
  by (simp add: chosen_def)

lemma chosen_Nil [simp]: "chosen limit taken [] = []"
  by (simp add: chosen_def)

lemma claimPlans_eq:
  "claimPlans uuid now limit fmt taken ps s =
     (let L = startAll uuid now (uuidsDrawn s) (chosen limit taken (filter (\<lambda>(i, p). claimablePlan now fmt p) ps))
      in (map snd L, s\<lparr>uuidsDrawn := uuidsDrawn s + length L, replicationPlans := putAll L (replicationPlans s)\<rparr>))"
proof (induction ps arbitrary: taken s)
  case (Cons x ps)
  obtain i p where x: "x = (i, p)" by force
  show ?case
  proof (cases "taken = limit \<or> \<not> claimablePlan now fmt p")
    case True
    then show ?thesis using Cons by (auto simp: x Let_def)
  next
    case False
    then show ?thesis using Cons by (simp add: x Let_def chosen_Cons case_prod_beta)
  qed
qed simp

lemma startAll_fst [simp]: "map fst (startAll uuid now n ps) = map fst ps" "length (startAll uuid now n ps) = length ps"
  by (induction uuid now n ps rule: startAll.induct) simp_all

lemma startAll_mem:
  "(i, q) \<in> set (startAll uuid now n ps) \<Longrightarrow> \<exists>p k. (i, p) \<in> set ps \<and> n \<le> k \<and> k < n + length ps \<and> q = startPlan now (uuid k) p"
proof (induction uuid now n ps rule: startAll.induct)
  case (2 uuid now n j p ps)
  then show ?case
    by (auto; force dest: Suc_leD)
qed simp

lemma startPlan_fields [simp]:
  "running (startPlan now token p)" "pl_ID (startPlan now token p) = pl_ID p" "planKey (startPlan now token p) = planKey p"
  "pl_LeaseToken (startPlan now token p) = token" "pl_CreatedAt (startPlan now token p) = pl_CreatedAt p"
  "pl_Attempts (startPlan now token p) = pl_Attempts p + 1" "pl_MaxAttempts (startPlan now token p) = pl_MaxAttempts p"
  "pl_LeaseExpiresAt (startPlan now token p) = now + replicationLeaseDuration" "pl_Format (startPlan now token p) = pl_Format p"
  by (simp_all add: running_def startPlan_def planKey_def)

lemma unused_lease:
  assumes "fresh_uuids uuid" "plans_ok uuid n m" "gm_get m i = Some p" "running p" "n \<le> k"
  shows "pl_LeaseToken p \<noteq> uuid k"
proof -
  have "pl_LeaseToken p \<in> uuid ` {..<n}"
    using plans_okD(2) [OF assms(2,3)] assms(4) by (simp add: plan_ok_def)
  with assms(1,5) show ?thesis by (auto simp: fresh_uuids_def inj_eq)
qed

lemma startAll_ok:
  assumes "fresh_uuids uuid" "replication_ok uuid s" "distinct (map fst ps)"
    "\<forall>(i, p) \<in> set ps. gm_get (replicationPlans s) i = Some p \<and> pl_Attempts p < pl_MaxAttempts p"
  shows "replication_ok uuid (s\<lparr>uuidsDrawn := uuidsDrawn s + length ps,
    replicationPlans := putAll (startAll uuid now (uuidsDrawn s) ps) (replicationPlans s)\<rparr>)"
  using assms(2-)
proof (induction ps arbitrary: s)
  case (Cons x ps)
  obtain i p where x: "x = (i, p)" by force
  let ?s = "s\<lparr>uuidsDrawn := Suc (uuidsDrawn s), replicationPlans := gm_put i (startPlan now (uuid (uuidsDrawn s)) p) (replicationPlans s)\<rparr>"
  have get: "gm_get (replicationPlans s) i = Some p" "pl_Attempts p < pl_MaxAttempts p" and new: "i \<notin> fst ` set ps"
    using Cons.prems(2,3) x by auto
  note plans = replication_okD(1) [OF Cons.prems(1)]
  have "plan_ok uuid (Suc (uuidsDrawn s)) (startPlan now (uuid (uuidsDrawn s)) p)"
    using plans_okD(2) [OF plans get(1)] get(2) by (auto simp: plan_ok_def startPlan_def running_def)
  then have ok: "replication_ok uuid ?s"
    using plans_okD(3) [OF plans get(1)] unused_lease [OF assms(1) plans]
    by (intro replication_ok_put [OF Cons.prems(1) get(1)]) auto
  have "\<forall>(j, q) \<in> set ps. gm_get (replicationPlans ?s) j = Some q \<and> pl_Attempts q < pl_MaxAttempts q"
    using Cons.prems(3) new by (auto simp: x rev_image_eqI)
  from Cons.IH [OF ok _ this] Cons.prems(2) show ?case
    by (simp add: x)
qed simp

definition candidates :: "gotime \<Rightarrow> Format \<Rightarrow> ReplicationPlan gomap \<Rightarrow> (string \<times> ReplicationPlan) list" where
  "candidates now fmt m = filter (\<lambda>(i, p). claimablePlan now fmt p) (sortReplicationPlanIDs m)"

lemma candidates_facts:
  assumes "gm_ok m"
  shows "distinct (map fst (candidates now fmt m))" "sorted (map (\<lambda>(i, p). pl_CreatedAt p) (candidates now fmt m))"
    "(i, p) \<in> set (candidates now fmt m) \<longleftrightarrow> gm_get m i = Some p \<and> claimablePlan now fmt p"
proof -
  have "distinct (map fst (sortReplicationPlanIDs m))"
    using assms distinct_map_sort_filter [of fst m _ "\<lambda>_. True"] by (simp add: sortReplicationPlanIDs_def gm_ok_def)
  then show "distinct (map fst (candidates now fmt m))"
    by (simp add: candidates_def distinct_map_filter)
  show "sorted (map (\<lambda>(i, p). pl_CreatedAt p) (candidates now fmt m))"
    unfolding candidates_def sortReplicationPlanIDs_def by (rule sorted_filter) simp
  show "(i, p) \<in> set (candidates now fmt m) \<longleftrightarrow> gm_get m i = Some p \<and> claimablePlan now fmt p"
    using assms by (auto simp: candidates_def sortReplicationPlanIDs_def gm_get_iff)
qed

lemma chosen_prefix: "\<exists>rest. xs = chosen limit taken xs @ rest \<and> (rest \<noteq> [] \<longrightarrow> int (length (chosen limit taken xs)) = limit - taken)"
proof (cases "limit < taken")
  case False
  have "length (take (nat (limit - taken)) xs) = nat (limit - taken)" if "drop (nat (limit - taken)) xs \<noteq> []"
    using that by simp
  with False show ?thesis
    by (intro exI [of _ "drop (nat (limit - taken)) xs"]) (simp add: chosen_def)
qed (simp add: chosen_def)

lemma chosen_length: "taken \<le> limit \<Longrightarrow> int (length (chosen limit taken xs)) \<le> limit - taken"
  by (auto simp: chosen_def)

text \<open>A claim is a recovery followed by starting a prefix of the candidates in order of creation.\<close>

definition claimBase :: "env \<Rightarrow> (nat \<Rightarrow> gotime) \<Rightarrow> 'z replication_store_scheme \<Rightarrow> 'z replication_store_scheme" where
  "claimBase e clock s = snd (recoverExpiredReplicationPlansLocked e (clock 1) (clock 0) s)"

definition claimChoice :: "env \<Rightarrow> (nat \<Rightarrow> gotime) \<Rightarrow> int \<Rightarrow> Format \<Rightarrow> 'z replication_store_scheme \<Rightarrow> (string \<times> ReplicationPlan) list" where
  "claimChoice e clock limit fmt s = chosen limit 0 (candidates (clock 0) fmt (replicationPlans (claimBase e clock s)))"

definition claimStarts :: "env \<Rightarrow> (nat \<Rightarrow> gotime) \<Rightarrow> int \<Rightarrow> Format \<Rightarrow> 'z replication_store_scheme \<Rightarrow> (string \<times> ReplicationPlan) list" where
  "claimStarts e clock limit fmt s =
     startAll (env_UUID e) (clock 0) (uuidsDrawn (claimBase e clock s)) (claimChoice e clock limit fmt s)"

lemma claim_eq:
  "claimReplicationPlans e clock limit fmt s =
     (map snd (claimStarts e clock limit fmt s),
      (claimBase e clock s)\<lparr>uuidsDrawn := uuidsDrawn (claimBase e clock s) + length (claimChoice e clock limit fmt s),
        replicationPlans := putAll (claimStarts e clock limit fmt s) (replicationPlans (claimBase e clock s))\<rparr>)"
  by (simp add: claimReplicationPlans_def claimPlans_eq claimBase_def claimStarts_def claimChoice_def candidates_def Let_def)

lemma claim_choice:
  assumes ok: "replication_ok (env_UUID e) s"
  shows "\<exists>rest. candidates (clock 0) fmt (replicationPlans (claimBase e clock s)) = claimChoice e clock limit fmt s @ rest \<and>
      (rest \<noteq> [] \<longrightarrow> int (length (claimChoice e clock limit fmt s)) = limit)"
    and "0 \<le> limit \<Longrightarrow> int (length (claimChoice e clock limit fmt s)) \<le> limit"
    and "distinct (map fst (claimChoice e clock limit fmt s))"
    and "(i, p) \<in> set (claimChoice e clock limit fmt s) \<Longrightarrow>
      gm_get (replicationPlans (claimBase e clock s)) i = Some p \<and> claimablePlan (clock 0) fmt p"
proof -
  have gm: "gm_ok (replicationPlans (claimBase e clock s))"
    using recover_result(1) [OF ok claimBase_def] replication_okD(1) plans_okD(1) by blast
  let ?C = "candidates (clock 0) fmt (replicationPlans (claimBase e clock s))" and ?L = "claimChoice e clock limit fmt s"
  show split: "\<exists>rest. ?C = ?L @ rest \<and> (rest \<noteq> [] \<longrightarrow> int (length ?L) = limit)"
    using chosen_prefix [of ?C limit 0] by (simp add: claimChoice_def)
  show "0 \<le> limit \<Longrightarrow> int (length ?L) \<le> limit"
    using chosen_length [of 0 limit ?C] by (simp add: claimChoice_def)
  obtain rest where C: "?C = ?L @ rest" using split by blast
  have "distinct (map fst ?C)"
    by (rule candidates_facts(1) [OF gm])
  then show "distinct (map fst ?L)" unfolding C by simp
  show "gm_get (replicationPlans (claimBase e clock s)) i = Some p \<and> claimablePlan (clock 0) fmt p" if "(i, p) \<in> set ?L"
  proof -
    have "(i, p) \<in> set ?C" unfolding C using that by simp
    then show ?thesis by (simp only: candidates_facts(3) [OF gm])
  qed
qed

lemma plan_claim_ok:
  assumes fresh: "fresh_uuids (env_UUID e)" and ok: "replication_ok (env_UUID e) s"
  shows "replication_ok (env_UUID e) (snd (claimReplicationPlans e clock limit fmt s))"
proof -
  have "\<forall>(i, p) \<in> set (claimChoice e clock limit fmt s).
      gm_get (replicationPlans (claimBase e clock s)) i = Some p \<and> pl_Attempts p < pl_MaxAttempts p"
    using claim_choice(4) [OF ok] by (auto simp: claimablePlan_def Let_def)
  from startAll_ok [OF fresh recover_result(1) [OF ok claimBase_def] claim_choice(3) [OF ok] this]
  show ?thesis by (simp add: claim_eq claimStarts_def)
qed

section \<open>Creation\<close>

lemma checkpointMap_ok:
  assumes "\<And>c. ck_ObjectKey (f c) = ck_ObjectKey c" "\<And>c. ck_PlanID (f c) = i"
  shows "checks_ok i (checkpointMap f checks)"
proof -
  have keep: "checks_ok i m \<Longrightarrow> checks_ok i (fold (\<lambda>c m. gm_put (ck_ObjectKey c) (f c) m) checks m)" for m
  proof (induction checks arbitrary: m)
    case (Cons c cs)
    have "checks_ok i (gm_put (ck_ObjectKey c) (f c) m)"
      using Cons.prems assms(1) [of c] assms(2) [of c] by (auto simp: checks_ok_def split: if_splits)
    with Cons.IH show ?case by simp
  qed simp
  show ?thesis
    unfolding checkpointMap_def by (rule keep) (simp add: checks_ok_def)
qed

lemma checkpoint_fields [simp]:
  "ck_ObjectKey (createdCheckpoint i now c) = ck_ObjectKey c" "ck_PlanID (createdCheckpoint i now c) = i"
  "ck_ObjectKey (refreshedCheckpoint i now c) = ck_ObjectKey c" "ck_PlanID (refreshedCheckpoint i now c) = i"
  "sameCheckpoint (createdCheckpoint i now c) c" "sameCheckpoint (refreshedCheckpoint i now c) c"
  by (simp_all add: createdCheckpoint_def refreshedCheckpoint_def sameCheckpoint_def sourceKey_def)

lemma sort_key_map: "sort_key k (map f xs) = map f (sort_key (\<lambda>x. k (f x)) xs)"
proof (induction xs)
  case (Cons x xs)
  have "insort_key k (f x) (map f ys) = map f (insort_key (\<lambda>x. k (f x)) x ys)" for ys
    by (induction ys) auto
  with Cons show ?case by simp
qed simp

lemma checkpointMap_distinct:
  assumes "distinct (map ck_ObjectKey checks)"
  shows "checkpointMap f checks = map (\<lambda>c. (ck_ObjectKey c, f c)) checks"
proof -
  have "fold (\<lambda>c m. gm_put (ck_ObjectKey c) (f c) m) cs m = m @ map (\<lambda>c. (ck_ObjectKey c, f c)) cs"
    if "distinct (map ck_ObjectKey cs)" "\<forall>c \<in> set cs. gm_get m (ck_ObjectKey c) = None" for cs m
    using that
  proof (induction cs arbitrary: m)
    case (Cons c cs)
    have "gm_put (ck_ObjectKey c) (f c) m = m @ [(ck_ObjectKey c, f c)]"
      using Cons.prems(2) by (simp add: update_absent)
    moreover have "\<forall>d \<in> set cs. gm_get (m @ [(ck_ObjectKey c, f c)]) (ck_ObjectKey d) = None"
      using Cons.prems by (auto simp: map_add_def) (metis imageI)
    ultimately show ?case using Cons by simp
  qed simp
  from this [of checks "[]"] assms show ?thesis by (simp add: checkpointMap_def)
qed

lemma equivalent_stored:
  assumes "distinct (map ck_ObjectKey checks)" "\<And>c. ck_ObjectKey (f c) = ck_ObjectKey c" "\<And>c. sameCheckpoint (f c) c"
  shows "equivalentReplicationCheckpoints (replicationCheckpointValues (checkpointMap f checks)) checks"
proof -
  have "replicationCheckpointValues (checkpointMap f checks) = map f (sort_key ck_ObjectKey checks)"
    using assms(1) by (simp add: replicationCheckpointValues_def checkpointMap_distinct o_def sort_key_map assms(2))
  then show ?thesis
    using assms(3) by (simp add: equivalentReplicationCheckpoints_def list_all_iff) (auto simp: in_set_zip)
qed

definition createdPlan :: "gotime \<Rightarrow> ReplicationPlan \<Rightarrow> ReplicationPlan" where
  "createdPlan now p = p\<lparr>pl_State := ''pending'', pl_CreatedAt := now,
     pl_MaxAttempts := (if pl_MaxAttempts p \<le> 0 then replicationMaxAttempts else if pl_MaxAttempts p > 10 then 10 else pl_MaxAttempts p)\<rparr>"

definition createdStore :: "gotime \<Rightarrow> ReplicationPlan \<Rightarrow> ReplicationCheckpoint list \<Rightarrow> 'z replication_store_scheme \<Rightarrow> 'z replication_store_scheme" where
  "createdStore now p checks s =
     s\<lparr>replicationPlans := gm_put (pl_ID p) (createdPlan now p) (replicationPlans s),
       replicationKeys := gm_put (planKey p) (pl_ID p) (replicationKeys s),
       replicationChecks := gm_put (pl_ID p) (checkpointMap (createdCheckpoint (pl_ID p) now) checks) (replicationChecks s)\<rparr>"

definition refreshes :: "ReplicationPlan \<Rightarrow> bool" where
  "refreshes q \<longleftrightarrow> pl_Format q = FormatPyPI \<and> replayablePark q"

definition resumedStore :: "gotime \<Rightarrow> ReplicationPlan \<Rightarrow> ReplicationCheckpoint list \<Rightarrow> 'z replication_store_scheme \<Rightarrow> 'z replication_store_scheme" where
  "resumedStore now q checks s =
     s\<lparr>replicationChecks := (if refreshes q then gm_put (pl_ID q) (checkpointMap (refreshedCheckpoint (pl_ID q) now) checks) (replicationChecks s)
                              else replicationChecks s),
       replicationPlans := gm_put (pl_ID q) (resumedPlan now q) (replicationPlans s)\<rparr>"

definition storedChecks :: "string \<Rightarrow> 'z replication_store_scheme \<Rightarrow> ReplicationCheckpoint gomap" where
  "storedChecks i s = (case gm_get (replicationChecks s) i of None \<Rightarrow> [] | Some m \<Rightarrow> m)"

text \<open>What a request does, by the plan that already has its key.\<close>

lemma create_new:
  assumes "fresh_uuids uuid" "replication_ok uuid s" "\<And>i q. gm_get (replicationPlans s) i = Some q \<Longrightarrow> planKey q \<noteq> planKey p"
  shows "CreateReplicationPlan now p checks s = (Inr (createdPlan now p, False), createdStore now p checks s)"
proof -
  have "gm_get (replicationKeys s) (planKey p) = None"
    using replication_okD(2) [OF assms(2), of "planKey p"] assms(3) by (metis option.exhaust)
  then show ?thesis
    by (simp add: CreateReplicationPlan_def createdStore_def createdPlan_def planKey_def Let_def)
qed

lemma create_again:
  assumes fresh: "fresh_uuids uuid" and ok: "replication_ok uuid s" and q: "gm_get (replicationPlans s) i = Some q" "planKey q = planKey p"
  shows "CreateReplicationPlan now p checks s =
    (if \<not> samePlan q p \<or> \<not> refreshes q \<and> \<not> equivalentReplicationCheckpoints (replicationCheckpointValues (storedChecks i s)) checks
     then (Inl ErrIdempotencyConflict, s)
     else if replayablePark q then (Inr (resumedPlan now q, True), resumedStore now q checks s)
     else (Inr (q, True), s))"
proof -
  have key: "gm_get (replicationKeys s) (joinKey2 (pl_TargetRepositoryID p) (pl_IdempotencyKey p)) = Some i"
    using replication_okD(2) [OF ok, of "planKey q" i] q by (auto simp: planKey_def)
  have "i \<in> uuid ` {..<uuidsDrawn s}" and id: "pl_ID q = i"
    using plans_okD(3,4) [OF replication_okD(1) [OF ok] q(1)] by auto
  then have "i \<noteq> []"
    using fresh by (metis fresh_uuids_def imageE)
  with key q(1) id show ?thesis
    by (auto simp: CreateReplicationPlan_def Let_def storedChecks_def refreshes_def resumedStore_def)
qed

lemma created_ok:
  assumes ok: "replication_ok uuid s" and p: "requested i p" "i \<in> uuid ` {..<uuidsDrawn s}" "gm_get (replicationPlans s) i = None"
    and new: "\<And>j q. gm_get (replicationPlans s) j = Some q \<Longrightarrow> planKey q \<noteq> planKey p"
  shows "replication_ok uuid (createdStore now p checks s)"
proof -
  have id: "pl_ID p = i" and idle: "\<not> running (createdPlan now p)" "pl_ID (createdPlan now p) = i" "planKey (createdPlan now p) = planKey p"
    using p(1) by (simp_all add: requested_def running_def createdPlan_def planKey_def)
  have "plan_ok uuid (uuidsDrawn s) (createdPlan now p)"
    using p(1) by (auto simp: plan_ok_def createdPlan_def running_def requested_def replicationMaxAttempts_def)
  from plans_ok_put [OF replication_okD(1) [OF ok] this idle(2) p(2)] idle(1)
  have "plans_ok uuid (uuidsDrawn s) (gm_put i (createdPlan now p) (replicationPlans s))" by blast
  moreover have "(if k = planKey p then Some i else gm_get (replicationKeys s) k) = Some j \<longleftrightarrow>
      (\<exists>r. (if j = i then Some (createdPlan now p) else gm_get (replicationPlans s) j) = Some r \<and> planKey r = k)" for k j
    using replication_okD(2) [OF ok, of k j] new p(3) idle(3) by auto
  moreover have "checks_ok i (checkpointMap (createdCheckpoint i now) checks)"
    by (rule checkpointMap_ok) simp_all
  ultimately show ?thesis
    using replication_okD(3,4) [OF ok] unfolding replication_ok_def createdStore_def by (auto simp: id split: if_splits)
qed

lemma resumed_ok:
  assumes ok: "replication_ok uuid s" and q: "gm_get (replicationPlans s) i = Some q" "replayablePark q"
  shows "replication_ok uuid (resumedStore now q checks s)"
proof -
  note plan = plans_okD(2,3) [OF replication_okD(1) [OF ok] q(1)]
  let ?s = "s\<lparr>replicationChecks := (if refreshes q then gm_put i (checkpointMap (refreshedCheckpoint i now) checks) (replicationChecks s)
      else replicationChecks s)\<rparr>"
  have "checks_ok i (checkpointMap (refreshedCheckpoint i now) checks)"
    by (rule checkpointMap_ok) simp_all
  then have mid: "replication_ok uuid ?s"
    using ok q(1) replication_okD(3) [OF ok, of i] unfolding replication_ok_def by auto
  have "plan_ok uuid (uuidsDrawn s) (resumedPlan now q)"
    using plan(1) q(2) by (auto simp: plan_ok_def running_def resumedPlan_def replayablePark_def)
  then show ?thesis
    using plan(2) q(1) by (intro replication_ok_put [OF mid, of i q _ "resumedPlan now q"])
      (auto simp: resumedStore_def resumedPlan_def running_def planKey_def)
qed

lemma create_ok:
  assumes fresh: "fresh_uuids uuid" and ok: "replication_ok uuid s" and p: "requested (uuid (uuidsDrawn s)) p"
  shows "replication_ok uuid (snd (CreateReplicationPlan now p checks (s\<lparr>uuidsDrawn := Suc (uuidsDrawn s)\<rparr>)))"
proof -
  let ?s = "s\<lparr>uuidsDrawn := Suc (uuidsDrawn s)\<rparr>"
  have ok': "replication_ok uuid ?s"
    by (rule replication_ok_cong [OF ok]) simp_all
  show ?thesis
  proof (cases "\<exists>i q. gm_get (replicationPlans s) i = Some q \<and> planKey q = planKey p")
    case True
    then obtain i q where q: "gm_get (replicationPlans ?s) i = Some q" "planKey q = planKey p" by auto
    show ?thesis
      unfolding create_again [OF fresh ok' q] using ok' resumed_ok [OF ok' q(1)] by simp
  next
    case False
    have "uuid (uuidsDrawn s) \<notin> uuid ` {..<uuidsDrawn s}"
      using fresh by (auto simp: fresh_uuids_def inj_eq)
    then have absent: "gm_get (replicationPlans s) (uuid (uuidsDrawn s)) = None"
      using plans_okD(4) [OF replication_okD(1) [OF ok]] by (metis option.exhaust)
    have "CreateReplicationPlan now p checks ?s = (Inr (createdPlan now p, False), createdStore now p checks ?s)"
      using False by (intro create_new [OF fresh ok']) auto
    moreover have "replication_ok uuid (createdStore now p checks ?s)"
      using False absent by (intro created_ok [OF ok' p]) auto
    ultimately show ?thesis by simp
  qed
qed

section \<open>Work under a lease\<close>

lemma leasedPlan_Some:
  assumes "leasedPlan now i token s = Some p"
  shows "gm_get (replicationPlans s) i = Some p" "running p" "pl_LeaseToken p = token" "token \<noteq> []"
  using assms by (auto simp: leasedPlan_def planLeaseLive_def running_def split: option.splits if_splits)

lemma extended_ok:
  assumes ok: "replication_ok uuid s" and p: "gm_get (replicationPlans s) i = Some p" "running p"
    and t: "replicationPlans t = gm_put i (p\<lparr>pl_LeaseExpiresAt := x\<rparr>) (replicationPlans s)" "replicationKeys t = replicationKeys s"
      "replicationChecks t = replicationChecks s" "uuidsDrawn t = uuidsDrawn s"
  shows "replication_ok uuid t"
proof (rule replication_ok_put [OF ok p(1) _ _ _ _ t(1-3)])
  note plans = replication_okD(1) [OF ok]
  show "plan_ok uuid (uuidsDrawn t) (p\<lparr>pl_LeaseExpiresAt := x\<rparr>)" "pl_ID (p\<lparr>pl_LeaseExpiresAt := x\<rparr>) = i"
    using plans_okD(2,3) [OF plans p(1)] p(2) by (auto simp: plan_ok_def running_def t(4))
  show "planKey (p\<lparr>pl_LeaseExpiresAt := x\<rparr>) = planKey p" "uuidsDrawn s \<le> uuidsDrawn t"
    by (simp_all add: planKey_def t(4))
  show "j = i" if "gm_get (replicationPlans s) j = Some r" "running r" "pl_LeaseToken r = pl_LeaseToken (p\<lparr>pl_LeaseExpiresAt := x\<rparr>)" for j r
    using plans_okD(5) [OF plans that(1) p(1) that(2) p(2)] that(3) by simp
qed

lemma renew_ok:
  assumes "replication_ok uuid s"
  shows "replication_ok uuid (snd (RenewReplicationPlanLease now i token s))"
proof (cases "leasedPlan now i token s")
  case (Some p)
  show ?thesis
    by (rule extended_ok [OF assms leasedPlan_Some(1,2) [OF Some]]) (simp_all add: RenewReplicationPlanLease_def Some)
qed (simp add: RenewReplicationPlanLease_def assms)

lemma checkpoint_update_cases:
  assumes "UpdateReplicationCheckpointWithLease clock c token s = (r, s')"
  obtains "r = Inl ErrNotFound" "s' = s"
  | p m d where "r = Inr ()" "leasedPlan (clock 0) (ck_PlanID c) token s = Some p" "gm_get (replicationChecks s) (ck_PlanID c) = Some m"
      "gm_get m (ck_ObjectKey c) = Some d"
      "s' = s\<lparr>replicationChecks := gm_put (ck_PlanID c) (gm_put (ck_ObjectKey c) (c\<lparr>ck_UpdatedAt := clock 1\<rparr>) m) (replicationChecks s),
        replicationPlans := gm_put (ck_PlanID c) (p\<lparr>pl_LeaseExpiresAt := clock 1 + replicationLeaseDuration\<rparr>) (replicationPlans s)\<rparr>"
  using assms by (auto simp: UpdateReplicationCheckpointWithLease_def Let_def split: option.splits)

lemma checkpoint_update_ok:
  assumes ok: "replication_ok uuid s" and run: "UpdateReplicationCheckpointWithLease clock c token s = (r, s')"
  shows "replication_ok uuid s'"
  using run
proof (cases rule: checkpoint_update_cases)
  case 1
  then show ?thesis using ok by simp
next
  case (2 p m d)
  let ?m = "gm_put (ck_ObjectKey c) (c\<lparr>ck_UpdatedAt := clock 1\<rparr>) m"
  let ?s = "s\<lparr>replicationChecks := gm_put (ck_PlanID c) ?m (replicationChecks s)\<rparr>"
  have "checks_ok (ck_PlanID c) ?m"
    using replication_okD(4) [OF ok 2(3)] by (auto simp: checks_ok_def split: if_splits)
  then have mid: "replication_ok uuid ?s"
    using ok replication_okD(3) [OF ok, of "ck_PlanID c"] leasedPlan_Some(1) [OF 2(2)] unfolding replication_ok_def by auto
  show ?thesis
    by (rule extended_ok [OF mid]) (use leasedPlan_Some [OF 2(2)] 2(5) in auto)
qed

datatype plan_report = Completed | Failed string | Parked string

definition reportPlan :: "env \<Rightarrow> (nat \<Rightarrow> gotime) \<times> plan_report \<Rightarrow> string \<Rightarrow> string \<Rightarrow> 'z replication_store_scheme
    \<Rightarrow> unit result \<times> 'z replication_store_scheme" where
  "reportPlan e c i token s =
     (case snd c of
        Completed \<Rightarrow> CompleteReplicationPlanWithLease e (fst c) i token s
      | Failed msg \<Rightarrow> FailReplicationPlanWithLease e (fst c) i msg token s
      | Parked msg \<Rightarrow> ParkReplicationPlanWithLease e (fst c) i msg token s)"

text \<open>An accepted report ends the attempt of a plan leased under its token.\<close>

lemma reportPlan_cases:
  assumes "reportPlan e c i token s = (r, s')"
  obtains "r = Inl ErrNotFound" "s' = s"
  | p q where "r = Inr ()" "leasedPlan (fst c 0) i token s = Some p" "s' = storeFinishedPlan e (fst c 2) i q s"
      "\<not> running q" "pl_ID q = pl_ID p" "planKey q = planKey p" "\<And>uuid n. plan_ok uuid n p \<Longrightarrow> plan_ok uuid n q"
proof (cases "leasedPlan (fst c 0) i token s")
  case None
  with assms have "r = Inl ErrNotFound" "s' = s"
    by (auto simp: reportPlan_def CompleteReplicationPlanWithLease_def finishReplication_def FailReplicationPlanWithLease_def
      ParkReplicationPlanWithLease_def split: plan_report.splits)
  then show ?thesis using that(1) by blast
next
  case (Some p)
  note run = leasedPlan_Some(2) [OF Some]
  show ?thesis
  proof (cases "snd c")
    case Completed
    let ?q = "p\<lparr>pl_State := ''completed'', pl_LastError := [], pl_CompletedAt := fst c 1, pl_LeaseToken := [], pl_LeaseExpiresAt := zeroTime\<rparr>"
    have "\<not> running ?q" "planKey ?q = planKey p" by (simp_all add: running_def planKey_def)
    then show ?thesis
      using that(2) [of p ?q] assms Some Completed ended_plan_ok(4) [OF _ run, where msg = "[]"]
      by (simp add: reportPlan_def CompleteReplicationPlanWithLease_def finishReplication_def)
  next
    case (Failed msg)
    then show ?thesis
      using that(2) [of p "failedPlan (fst c 1) msg p"] assms Some ended_plan_ok(2) [OF _ run]
      by (simp add: reportPlan_def FailReplicationPlanWithLease_def)
  next
    case (Parked msg)
    then show ?thesis
      using that(2) [of p "parkedPlan (fst c 1) msg p"] assms Some ended_plan_ok(3) [OF _ run]
      by (simp add: reportPlan_def ParkReplicationPlanWithLease_def)
  qed
qed

lemma report_ok:
  assumes ok: "replication_ok uuid s" and run: "reportPlan e c i token s = (r, s')"
  shows "replication_ok uuid s'"
  using run
proof (cases rule: reportPlan_cases)
  case 1
  then show ?thesis using ok by simp
next
  case (2 p q)
  note get = leasedPlan_Some(1) [OF 2(2)]
  show ?thesis
    unfolding 2(3) using storeFinishedPlan_ok [OF ok get, of q] 2 plans_okD(2,3) [OF replication_okD(1) [OF ok] get] by simp
qed

lemma reported_ok: "replication_ok uuid s \<Longrightarrow> replication_ok uuid (snd (reportPlan e c i token s))"
  using report_ok prod.collapse by metis

lemma cancel_ok: "replication_ok uuid s \<Longrightarrow> replication_ok uuid (snd (CancelReplicationPlan now r i s))"
proof -
  assume ok: "replication_ok uuid s"
  have "replication_ok uuid (s\<lparr>replicationPlans := gm_put i (p\<lparr>pl_State := ''cancelled'', pl_CompletedAt := now\<rparr>) (replicationPlans s)\<rparr>)"
    if p: "gm_get (replicationPlans s) i = Some p" "pl_State p = ''pending'' \<or> pl_State p = ''failed''" for p
    using p plans_okD(2,3) [OF replication_okD(1) [OF ok] p(1)]
    by (intro replication_ok_put [OF ok p(1)]) (auto simp: plan_ok_def running_def planKey_def)
  then show ?thesis
    using ok by (auto simp: CancelReplicationPlan_def split: option.splits)
qed

section \<open>Every history\<close>

lemma replace_replication_frame:
  fixes s :: "'z replication_store_scheme"
  shows "replicationPlans (snd (ReplaceArtifactQuarantine uuid marshal clock v ver s)) = replicationPlans s"
    "replicationKeys (snd (ReplaceArtifactQuarantine uuid marshal clock v ver s)) = replicationKeys s"
    "replicationChecks (snd (ReplaceArtifactQuarantine uuid marshal clock v ver s)) = replicationChecks s"
    "uuidsDrawn s \<le> uuidsDrawn (snd (ReplaceArtifactQuarantine uuid marshal clock v ver s))"
proof -
  have frame: "replicationPlans (storeQuarantine uuid marshal now w s) = replicationPlans s"
    "replicationKeys (storeQuarantine uuid marshal now w s) = replicationKeys s"
    "replicationChecks (storeQuarantine uuid marshal now w s) = replicationChecks s" for now w
    by (simp_all add: storeQuarantine_def Let_def)
  have draws: "uuidsDrawn s \<le> uuidsDrawn (storeQuarantine uuid marshal now w s)" for now w
    unfolding storeQuarantine_def Let_def by (rule order_trans [OF _ enqueue_draws]) simp
  show "replicationPlans (snd (ReplaceArtifactQuarantine uuid marshal clock v ver s)) = replicationPlans s"
    "replicationKeys (snd (ReplaceArtifactQuarantine uuid marshal clock v ver s)) = replicationKeys s"
    "replicationChecks (snd (ReplaceArtifactQuarantine uuid marshal clock v ver s)) = replicationChecks s"
    "uuidsDrawn s \<le> uuidsDrawn (snd (ReplaceArtifactQuarantine uuid marshal clock v ver s))"
    by (auto simp: ReplaceArtifactQuarantine_def Let_def frame draws split: option.splits)
qed

lemma replication_step_ok:
  assumes step: "replication_step e s s'" and fresh: "fresh_uuids (env_UUID e)" and ok: "replication_ok (env_UUID e) s"
  shows "replication_ok (env_UUID e) s'"
  using step
proof cases
  case (create p now checks)
  then show ?thesis using create_ok [OF fresh ok] by simp
next
  case (claim clock limit fmt)
  then show ?thesis using plan_claim_ok [OF fresh ok] by simp
next
  case (recover now before)
  then show ?thesis using recover_result(1) [OF ok refl] by (simp add: RecoverExpiredReplicationPlans_def)
next
  case (checkpoint clock c token)
  then show ?thesis using checkpoint_update_ok [OF ok prod.collapse [symmetric]] by simp
next
  case (renew now i token)
  then show ?thesis using renew_ok [OF ok] by simp
next
  case (complete clock i token)
  then show ?thesis using reported_ok [OF ok, of e "(clock, Completed)" i token] by (simp add: reportPlan_def)
next
  case (fail clock i msg token)
  then show ?thesis using reported_ok [OF ok, of e "(clock, Failed msg)" i token] by (simp add: reportPlan_def)
next
  case (park clock i msg token)
  then show ?thesis using reported_ok [OF ok, of e "(clock, Parked msg)" i token] by (simp add: reportPlan_def)
next
  case (cancel now repositoryID i)
  then show ?thesis using cancel_ok [OF ok] by simp
next
  case (quarantine marshal clock v ver)
  show ?thesis unfolding quarantine by (rule replication_ok_cong [OF ok]) (rule replace_replication_frame)+
next
  case (webhook now event)
  show ?thesis unfolding webhook by (rule replication_ok_cong [OF ok]) (simp_all add: enqueue_draws)
qed

lemma replication_reach_ok: "replication_reach e s \<Longrightarrow> fresh_uuids (env_UUID e) \<Longrightarrow> replication_ok (env_UUID e) s"
  by (induction rule: replication_reach.induct) (auto intro: replication_ok_empty replication_step_ok)

section \<open>Leases\<close>

definition planHolder :: "'z replication_store_scheme \<Rightarrow> string \<Rightarrow> string option" where
  "planHolder s i = (case gm_get (replicationPlans s) i of None \<Rightarrow> None | Some p \<Rightarrow> if running p then Some (pl_LeaseToken p) else None)"

interpretation plan_leases: lease_fence planHolder "reportPlan e" "\<lambda>_. True" for e
proof unfold_locales
  show "planHolder s i = Some t \<and> planHolder s' i = None" if "reportPlan e c i t s = (Inr r, s')"
    for c i t r and s s' :: "'z replication_store_scheme"
    using that
  proof (cases rule: reportPlan_cases)
    case (2 p q)
    then show ?thesis using leasedPlan_Some [OF 2(2)] by (simp add: planHolder_def)
  qed simp
  show "s' = s" if "reportPlan e c i t s = (Inl err, s')" for c i t err and s s' :: "'z replication_store_scheme"
    using that by (cases rule: reportPlan_cases) simp_all
qed simp

text \<open>What the claim finds in the store it starts from, after the lapsed leases have been recovered.\<close>

lemma recovered_claimable: "running (recovered before p) \<Longrightarrow> recovered before p = p"
  by (auto simp: recovered_def)

lemma recovered_fields [simp]:
  "pl_ID (recovered before p) = pl_ID p" "pl_CreatedAt (recovered before p) = pl_CreatedAt p" "pl_Attempts (recovered before p) = pl_Attempts p"
  "pl_MaxAttempts (recovered before p) = pl_MaxAttempts p"
  by (simp_all add: recovered_def expirePlan_def)

lemma claimed_plan:
  assumes fresh: "fresh_uuids (env_UUID e)" and ok: "replication_ok (env_UUID e) s"
    and run: "claimReplicationPlans e clock limit fmt s = (out, s')" and p: "p \<in> set out"
  shows "\<exists>q. gm_get (replicationPlans s) (pl_ID p) = Some q \<and> claimablePlan (clock 0) fmt (recovered (clock 0) q) \<and>
      pl_Attempts p = pl_Attempts q + 1 \<and> pl_Attempts p \<le> pl_MaxAttempts p \<and> pl_CreatedAt p = pl_CreatedAt q" (is ?from)
    and "planHolder s' (pl_ID p) = Some (pl_LeaseToken p)" "pl_LeaseExpiresAt p = clock 0 + replicationLeaseDuration"
    and "(pl_ID p, p) \<in> set (claimStarts e clock limit fmt s)" "gm_get (replicationPlans s') (pl_ID p) = Some p"
proof -
  obtain i where mem: "(i, p) \<in> set (claimStarts e clock limit fmt s)"
    using p run by (auto simp: claim_eq)
  obtain r k where r: "(i, r) \<in> set (claimChoice e clock limit fmt s)" "p = startPlan (clock 0) (env_UUID e k) r"
    using startAll_mem [OF mem [unfolded claimStarts_def]] by blast
  note ch = claim_choice(4) [OF ok r(1)]
  obtain q where q: "gm_get (replicationPlans s) i = Some q" "r = recovered (clock 0) q"
    using ch recover_result(6) [where i = i, OF ok claimBase_def] by auto
  have id: "pl_ID p = i"
    using plans_okD(3) [OF replication_okD(1) [OF ok] q(1)] by (simp add: r(2) q(2))
  have "pl_Attempts r < pl_MaxAttempts r" using ch by (simp add: claimablePlan_def Let_def)
  then show ?from
    unfolding id using q ch by (intro exI [of _ q]) (simp add: r(2))
  show "(pl_ID p, p) \<in> set (claimStarts e clock limit fmt s)" using mem by (simp add: id)
  have dist: "distinct (map fst (claimStarts e clock limit fmt s))"
    using claim_choice(3) [OF ok] by (simp add: claimStarts_def)
  then have "map_of (claimStarts e clock limit fmt s) i = Some p"
    using mem by simp
  then show get: "gm_get (replicationPlans s') (pl_ID p) = Some p"
    using run dist by (auto simp: id claim_eq putAll_get)
  show "planHolder s' (pl_ID p) = Some (pl_LeaseToken p)" "pl_LeaseExpiresAt p = clock 0 + replicationLeaseDuration"
    using get by (simp_all add: planHolder_def r(2))
qed

lemma unclaimed_plan:
  assumes ok: "replication_ok (env_UUID e) s" and run: "claimReplicationPlans e clock limit fmt s = (out, s')"
    and q: "gm_get (replicationPlans s) i = Some q" "i \<notin> fst ` set (claimStarts e clock limit fmt s)"
  shows "gm_get (replicationPlans s') i = Some (recovered (clock 0) q)"
    and "claimablePlan (clock 0) fmt (recovered (clock 0) q) \<Longrightarrow>
      int (length out) = limit \<and> (\<forall>p \<in> set out. pl_CreatedAt p \<le> pl_CreatedAt q)"
proof -
  let ?t = "claimBase e clock s" and ?L = "claimChoice e clock limit fmt s"
  have base: "gm_get (replicationPlans ?t) i = Some (recovered (clock 0) q)"
    using recover_result(6) [where i = i, OF ok claimBase_def] q(1) by simp
  have dist: "distinct (map fst (claimStarts e clock limit fmt s))"
    using claim_choice(3) [OF ok] by (simp add: claimStarts_def)
  have "map_of (claimStarts e clock limit fmt s) i = None"
    using q(2) by (simp add: map_of_eq_None_iff)
  then show "gm_get (replicationPlans s') i = Some (recovered (clock 0) q)"
    using run dist base by (auto simp: claim_eq putAll_get)
  assume due: "claimablePlan (clock 0) fmt (recovered (clock 0) q)"
  have gm: "gm_ok (replicationPlans ?t)"
    using recover_result(1) [OF ok claimBase_def] replication_okD(1) plans_okD(1) by blast
  obtain rest where rest: "candidates (clock 0) fmt (replicationPlans ?t) = ?L @ rest" "rest \<noteq> [] \<longrightarrow> int (length ?L) = limit"
    using claim_choice(1) [OF ok] by blast
  have "(i, recovered (clock 0) q) \<in> set (?L @ rest)"
    using base due unfolding rest(1) [symmetric] by (simp only: candidates_facts(3) [OF gm])
  moreover have "map fst (claimStarts e clock limit fmt s) = map fst ?L"
    by (simp add: claimStarts_def)
  then have "i \<notin> fst ` set ?L"
    using q(2) by (metis list.set_map)
  ultimately have left: "(i, recovered (clock 0) q) \<in> set rest" by force
  have "sorted (map (\<lambda>(i, p). pl_CreatedAt p) (?L @ rest))"
    using candidates_facts(2) [OF gm, where now = "clock 0" and fmt = fmt] unfolding rest(1) .
  then have order: "pl_CreatedAt p \<le> pl_CreatedAt q" if "(j, p) \<in> set ?L" for j p
    using that left by (fastforce simp: sorted_append)
  have "pl_CreatedAt p \<le> pl_CreatedAt q" if mem: "p \<in> set out" for p
  proof -
    obtain j where "(j, p) \<in> set (startAll (env_UUID e) (clock 0) (uuidsDrawn ?t) ?L)"
      using mem run by (auto simp: claim_eq claimStarts_def)
    then obtain r k where "(j, r) \<in> set ?L" "p = startPlan (clock 0) (env_UUID e k) r"
      using startAll_mem by blast
    then show ?thesis using order by simp
  qed
  moreover have "int (length out) = limit"
    using run rest(2) left by (auto simp: claim_eq claimStarts_def)
  ultimately show "int (length out) = limit \<and> (\<forall>p \<in> set out. pl_CreatedAt p \<le> pl_CreatedAt q)" by blast
qed

text \<open>
  C37. Claims of replication plans are exclusive and fair. In every history a claim returns different plans, no more than a limit that
  is not negative; each was due at the time of the claim (after plans with a lapsed lease have been given back), gets one more
  attempt within its maximum and is leased for ten minutes under the returned token. A plan whose lease is still running is
  untouched. A due plan is passed over only when the limit is used up, and then by plans created no later than it.
\<close>

theorem replication_claim_fair:
  assumes "replication_reach e s" "fresh_uuids (env_UUID e)" "claimReplicationPlans e clock limit fmt s = (out, s')"
  shows "distinct (map pl_ID out) \<and> (0 \<le> limit \<longrightarrow> int (length out) \<le> limit) \<and>
    (\<forall>p \<in> set out. (\<exists>q. gm_get (replicationPlans s) (pl_ID p) = Some q \<and> claimablePlan (clock 0) fmt (recovered (clock 0) q) \<and>
        pl_Attempts p = pl_Attempts q + 1 \<and> pl_Attempts p \<le> pl_MaxAttempts p \<and> pl_CreatedAt p = pl_CreatedAt q) \<and>
      planHolder s' (pl_ID p) = Some (pl_LeaseToken p) \<and> pl_LeaseExpiresAt p = clock 0 + 10 * minute) \<and>
    (\<forall>i q. gm_get (replicationPlans s) i = Some q \<longrightarrow> running q \<longrightarrow> \<not> leaseLapsed (clock 0) q \<longrightarrow> gm_get (replicationPlans s') i = Some q) \<and>
    (\<forall>i q. gm_get (replicationPlans s) i = Some q \<longrightarrow> claimablePlan (clock 0) fmt (recovered (clock 0) q) \<longrightarrow> i \<notin> pl_ID ` set out \<longrightarrow>
      int (length out) = limit \<and> (\<forall>p \<in> set out. pl_CreatedAt p \<le> pl_CreatedAt q))"
proof -
  note ok = replication_reach_ok [OF assms(1,2)] and run = assms(3)
  let ?S = "claimStarts e clock limit fmt s"
  have out: "out = map snd ?S" using run by (simp add: claim_eq)
  have ids: "map pl_ID out = map fst ?S"
    unfolding out map_map
  proof (rule map_cong [OF refl])
    fix x assume x: "x \<in> set ?S"
    obtain i p where ip: "x = (i, p)" by force
    obtain r k where r: "(i, r) \<in> set (claimChoice e clock limit fmt s)" "p = startPlan (clock 0) (env_UUID e k) r"
      using startAll_mem [OF x [unfolded claimStarts_def ip]] by blast
    have "replication_ok (env_UUID e) (claimBase e clock s)"
      by (rule recover_result(1) [OF ok claimBase_def])
    then show "(pl_ID \<circ> snd) x = fst x"
      using claim_choice(4) [OF ok r(1)] plans_okD(3) [OF replication_okD(1)] by (auto simp: ip r(2))
  qed
  then have idset: "pl_ID ` set out = fst ` set ?S"
    by (metis list.set_map)
  have "distinct (map pl_ID out)" "0 \<le> limit \<longrightarrow> int (length out) \<le> limit"
    unfolding ids using claim_choice(2,3) [OF ok] by (simp_all add: out claimStarts_def)
  moreover note claimed_plan [OF assms(2) ok run]
  moreover have "gm_get (replicationPlans s') i = Some q"
    if "gm_get (replicationPlans s) i = Some q" "running q" "\<not> leaseLapsed (clock 0) q" for i q
  proof -
    have same: "recovered (clock 0) q = q" using that(3) by (simp add: recovered_def)
    then have "\<not> claimablePlan (clock 0) fmt (recovered (clock 0) q)"
      using that(2) by (simp add: claimablePlan_def running_def Let_def)
    then have "i \<notin> pl_ID ` set out"
      using claimed_plan(1) [OF assms(2) ok run] that(1) by force
    then show ?thesis
      using unclaimed_plan(1) [OF ok run that(1)] same idset by simp
  qed
  moreover note unclaimed_plan(2) [OF ok run, folded idset]
  ultimately show ?thesis
    unfolding replicationLeaseDuration_def by blast
qed

text \<open>
  C38. Replication work is fenced. In every history a plan has between one and ten attempts and has used no more of them, no two
  running plans share a lease token, and every plan that waits has an attempt left. A report that a plan is completed, failed or to
  be parked, is accepted only under the token of the running lease and once per lease; and a checkpoint is written
  only under that token, into its own plan, which stays leased to the same worker.
\<close>

theorem replication_work_fenced:
  assumes "replication_reach e s" "fresh_uuids (env_UUID e)"
  shows "(\<forall>i p. gm_get (replicationPlans s) i = Some p \<longrightarrow> 0 \<le> pl_Attempts p \<and> pl_Attempts p \<le> pl_MaxAttempts p \<and>
      1 \<le> pl_MaxAttempts p \<and> pl_MaxAttempts p \<le> 10 \<and> (pl_State p = ''pending'' \<longrightarrow> pl_Attempts p < pl_MaxAttempts p)) \<and>
    (\<forall>i j t. planHolder s i = Some t \<longrightarrow> planHolder s j = Some t \<longrightarrow> i = j) \<and>
    (\<forall>c i t s'. reportPlan e c i t s = (Inr (), s') \<longrightarrow> planHolder s i = Some t \<and>
      (\<forall>c' t'. \<exists>err. reportPlan e c' i t' s' = (Inl err, s'))) \<and>
    (\<forall>clock c t s'. UpdateReplicationCheckpointWithLease clock c t s = (Inr (), s') \<longrightarrow>
      planHolder s (ck_PlanID c) = Some t \<and> (\<forall>i. planHolder s' i = planHolder s i) \<and>
      (\<forall>i. i \<noteq> ck_PlanID c \<longrightarrow> gm_get (replicationChecks s') i = gm_get (replicationChecks s) i))"
proof (intro conjI allI impI)
  note ok = replication_reach_ok [OF assms]
  note plans = replication_okD(1) [OF ok]
  show "0 \<le> pl_Attempts p" "pl_Attempts p \<le> pl_MaxAttempts p" "1 \<le> pl_MaxAttempts p" "pl_MaxAttempts p \<le> 10"
    "pl_State p = ''pending'' \<Longrightarrow> pl_Attempts p < pl_MaxAttempts p" if "gm_get (replicationPlans s) i = Some p" for i p
    using plans_okD(2) [OF plans that] by (auto simp: plan_ok_def)
  show "i = j" if "planHolder s i = Some t" "planHolder s j = Some t" for i j t
    using that plans_okD(5) [OF plans] by (auto simp: planHolder_def split: option.splits if_splits)
  fix c i t s' assume run: "reportPlan e c i t s = (Inr (), s')"
  show "planHolder s i = Some t" using plan_leases.finish_ok [OF TrueI run] by simp
  show "\<exists>err. reportPlan e c' i t' s' = (Inl err, s')" for c' t'
    using plan_leases.finish_once [OF TrueI run] .
next
  fix clock c t s' assume "UpdateReplicationCheckpointWithLease clock c t s = (Inr (), s')"
  then obtain p m where p: "leasedPlan (clock 0) (ck_PlanID c) t s = Some p"
    and s': "s' = s\<lparr>replicationChecks := gm_put (ck_PlanID c) m (replicationChecks s),
        replicationPlans := gm_put (ck_PlanID c) (p\<lparr>pl_LeaseExpiresAt := clock 1 + replicationLeaseDuration\<rparr>) (replicationPlans s)\<rparr>"
  proof (cases rule: checkpoint_update_cases)
    case (2 p m d)
    show ?thesis by (rule that [OF 2(2) 2(5)])
  qed simp
  note lease = leasedPlan_Some [OF p]
  show "planHolder s (ck_PlanID c) = Some t" "planHolder s' i = planHolder s i" for i
    using lease by (simp_all add: planHolder_def s' running_def)
  show "gm_get (replicationChecks s') i = gm_get (replicationChecks s) i" if "i \<noteq> ck_PlanID c" for i
    using that by (simp add: s')
qed

text \<open>
  C39. Plan creation is idempotent. In every history an accepted request leaves exactly one plan with its target and key, the one it
  returns, and reports whether that plan existed before; nothing is created twice. A repeated request returns the existing plan
  with its identity, creation time, attempts and maximum, for the same artifact, and changes no other plan; unless the plan
  was parked it changes nothing at all. Sending the same request again immediately returns the same plan and changes nothing.
\<close>

theorem replication_create_idempotent:
  assumes "replication_reach e s" "fresh_uuids (env_UUID e)" "requested (env_UUID e (uuidsDrawn s)) p" "distinct (map ck_ObjectKey checks)"
    "CreateReplicationPlan now p checks (s\<lparr>uuidsDrawn := Suc (uuidsDrawn s)\<rparr>) = (Inr (q, replayed), s')"
  shows "gm_get (replicationPlans s') (pl_ID q) = Some q \<and>
    (\<forall>i. i \<noteq> pl_ID q \<longrightarrow> gm_get (replicationPlans s') i = gm_get (replicationPlans s) i) \<and>
    (\<forall>i r. gm_get (replicationPlans s') i = Some r \<longrightarrow> planKey r = planKey p \<longrightarrow> i = pl_ID q) \<and>
    (replayed \<longleftrightarrow> (\<exists>i r. gm_get (replicationPlans s) i = Some r \<and> planKey r = planKey p)) \<and>
    (replayed \<longrightarrow> samePlan q p \<and> (\<exists>r. gm_get (replicationPlans s) (pl_ID q) = Some r \<and> pl_Attempts q = pl_Attempts r \<and>
      pl_MaxAttempts q = pl_MaxAttempts r \<and> pl_CreatedAt q = pl_CreatedAt r \<and>
      (\<not> replayablePark r \<longrightarrow> q = r \<and> replicationPlans s' = replicationPlans s \<and> replicationChecks s' = replicationChecks s))) \<and>
    (\<forall>now' i. CreateReplicationPlan now' (p\<lparr>pl_ID := i\<rparr>) checks s' = (Inr (q, True), s'))"
proof -
  let ?s = "s\<lparr>uuidsDrawn := Suc (uuidsDrawn s)\<rparr>"
  note base = replication_reach_ok [OF assms(1,2)]
  have ok: "replication_ok (env_UUID e) ?s"
    by (rule replication_ok_cong [OF base]) simp_all
  have ok': "replication_ok (env_UUID e) s'"
    using create_ok [OF assms(2) base assms(3), of now checks] assms(5) by simp
  have sole: "i = j" if "gm_get (replicationPlans s') i = Some a" "gm_get (replicationPlans s') j = Some b" "planKey a = planKey b" for i j a b
    using replication_okD(2) [OF ok'] that by (metis option.inject)
  have repeat: "CreateReplicationPlan now' (p\<lparr>pl_ID := i\<rparr>) checks s' = (Inr (q, True), s')"
    if "gm_get (replicationPlans s') (pl_ID q) = Some q" "planKey q = planKey p" "samePlan q p" "\<not> replayablePark q"
      "equivalentReplicationCheckpoints (replicationCheckpointValues (storedChecks (pl_ID q) s')) checks" for now' i
    using create_again [OF assms(2) ok' that(1), of "p\<lparr>pl_ID := i\<rparr>" now' checks] that by (simp add: planKey_def samePlan_def)
  show ?thesis
  proof (cases "\<exists>i r. gm_get (replicationPlans s) i = Some r \<and> planKey r = planKey p")
    case True
    then obtain r where r: "gm_get (replicationPlans ?s) (pl_ID r) = Some r" "planKey r = planKey p"
      using plans_okD(3) [OF replication_okD(1) [OF base]] by auto
    note again = create_again [OF assms(2) ok r, of now checks, unfolded assms(5)]
    then have same: "samePlan r p" and eqv: "refreshes r \<or> equivalentReplicationCheckpoints (replicationCheckpointValues (storedChecks (pl_ID r) ?s)) checks"
      by (auto split: if_splits)
    show ?thesis
    proof (cases "replayablePark r")
      case True
      then have q: "q = resumedPlan now r" "replayed" and s': "s' = resumedStore now r checks ?s"
        using again same eqv by (simp_all split: if_splits)
      have fields: "pl_ID q = pl_ID r" "planKey q = planKey p" "samePlan q p" "\<not> replayablePark q" "pl_Attempts q = pl_Attempts r"
        "pl_MaxAttempts q = pl_MaxAttempts r" "pl_CreatedAt q = pl_CreatedAt r"
        using r(2) same by (simp_all add: q(1) resumedPlan_def planKey_def samePlan_def replayablePark_def)
      have get: "gm_get (replicationPlans s') (pl_ID q) = Some q" "\<And>i. i \<noteq> pl_ID q \<Longrightarrow> gm_get (replicationPlans s') i = gm_get (replicationPlans s) i"
        using fields(1) by (simp_all add: s' resumedStore_def q(1))
      have "equivalentReplicationCheckpoints (replicationCheckpointValues (storedChecks (pl_ID q) s')) checks"
        using eqv equivalent_stored [OF assms(4), of "refreshedCheckpoint (pl_ID r) now"]
        by (auto simp: s' resumedStore_def storedChecks_def fields(1))
      from repeat [OF get(1) fields(2-4) this] show ?thesis
        using get fields r True q(2) \<open>\<exists>i r. _\<close> sole [OF _ get(1)] by auto
    next
      case False
      then have q: "q = r" "replayed" and s': "s' = ?s"
        using again same eqv by (simp_all split: if_splits)
      have get: "gm_get (replicationPlans s') (pl_ID q) = Some q" "planKey q = planKey p" "samePlan q p" "\<not> replayablePark q"
        "equivalentReplicationCheckpoints (replicationCheckpointValues (storedChecks (pl_ID q) s')) checks"
        using r same False eqv by (simp_all add: q(1) s' refreshes_def)
      have plans: "replicationPlans s' = replicationPlans s" "replicationChecks s' = replicationChecks s" by (simp_all add: s')
      have "\<forall>i a. gm_get (replicationPlans s') i = Some a \<longrightarrow> planKey a = planKey p \<longrightarrow> i = pl_ID q"
        using sole [OF _ get(1)] get(2) by simp
      moreover have "\<forall>now' i. CreateReplicationPlan now' (p\<lparr>pl_ID := i\<rparr>) checks s' = (Inr (q, True), s')"
        using repeat [OF get] by blast
      moreover have "gm_get (replicationPlans s) (pl_ID q) = Some r"
        using r(1) by (simp add: q(1))
      ultimately show ?thesis
        using get(1,3) q(2) \<open>\<exists>i r. _\<close> plans unfolding q(1) by simp
    qed
  next
    case False
    then have run: "CreateReplicationPlan now p checks ?s = (Inr (createdPlan now p, False), createdStore now p checks ?s)"
      by (intro create_new [OF assms(2) ok]) auto
    then have q: "q = createdPlan now p" "\<not> replayed" and s': "s' = createdStore now p checks ?s"
      using assms(5) by simp_all
    have fields: "pl_ID q = pl_ID p" "planKey q = planKey p" "samePlan q p" "\<not> replayablePark q"
      by (simp_all add: q(1) createdPlan_def planKey_def samePlan_def replayablePark_def)
    have get: "gm_get (replicationPlans s') (pl_ID q) = Some q" "\<And>i. i \<noteq> pl_ID q \<Longrightarrow> gm_get (replicationPlans s') i = gm_get (replicationPlans s) i"
      using fields(1) by (simp_all add: s' createdStore_def q(1))
    have "equivalentReplicationCheckpoints (replicationCheckpointValues (storedChecks (pl_ID q) s')) checks"
      using equivalent_stored [OF assms(4), of "createdCheckpoint (pl_ID p) now"] by (simp add: s' createdStore_def storedChecks_def fields(1))
    from repeat [OF get(1) fields(2-4) this] show ?thesis
      using get fields False q(2) sole [OF _ get(1)] by auto
  qed
qed

section \<open>Witnesses\<close>

definition replicationEnv :: env where
  "replicationEnv = \<lparr>env_UUID = exampleUUID, env_marshalCargo = (\<lambda>_. [])\<rparr>"

definition examplePlanRequest :: "nat \<Rightarrow> ReplicationPlan" where
  "examplePlanRequest n = zeroReplicationPlan\<lparr>pl_ID := exampleUUID n, pl_SourceRepositoryID := ''a'', pl_TargetRepositoryID := ''b'',
     pl_Format := FormatRaw, pl_Coordinate := ''f'', pl_Digest := ''d'', pl_IdempotencyKey := ''k''\<rparr>"

definition exampleCheckpoint :: ReplicationCheckpoint where
  "exampleCheckpoint = \<lparr>ck_PlanID = [], ck_SourceObjectKey = ''x'', ck_ObjectKey = ''y'', ck_Digest = ''d'', ck_State = [],
     ck_LastError = [], ck_Size = 3, ck_ByteOffset = 0, ck_Attempts = 0, ck_VerifiedAt = 0, ck_UpdatedAt = 0\<rparr>"

definition examplePlanned :: replication_store where
  "examplePlanned = snd (CreateReplicationPlan 5 (examplePlanRequest 0) [exampleCheckpoint] (emptyReplicationStore\<lparr>uuidsDrawn := 1\<rparr>))"

lemma replicationEnv_fresh: "fresh_uuids (env_UUID replicationEnv)"
  by (simp add: replicationEnv_def exampleUUID_fresh)

lemma examplePlanRequest_requested: "requested (env_UUID replicationEnv n) (examplePlanRequest n)"
  by (simp add: requested_def replicationEnv_def examplePlanRequest_def zeroReplicationPlan_def)

lemma examplePlanned_reach: "replication_reach replicationEnv examplePlanned"
proof -
  have "uuidsDrawn emptyReplicationStore = 0"
    by (simp add: emptyReplicationStore_def emptyQuarantineStore_def emptyWebhookStore_def emptyHostedStore_def
      quarantine_store.defs webhook_store.defs hosted_store.defs)
  then show ?thesis
    unfolding examplePlanned_def
    using replication_reach.step [OF replication_reach.start replication_step.create, of replicationEnv "examplePlanRequest 0" 5 "[exampleCheckpoint]"]
      examplePlanRequest_requested [of 0] by simp
qed

theorem replication_claim_fair_witness:
  "\<exists>out s'. claimReplicationPlans replicationEnv (\<lambda>_. 6) 1 FormatRaw examplePlanned = (out, s') \<and> out \<noteq> [] \<and> distinct (map pl_ID out) \<and>
     int (length out) \<le> 1"
proof (cases "claimReplicationPlans replicationEnv (\<lambda>_. 6) 1 FormatRaw examplePlanned")
  case (Pair out s')
  have "fst (claimReplicationPlans replicationEnv (\<lambda>_. 6) 1 FormatRaw examplePlanned) \<noteq> []"
    by code_simp
  with Pair replication_claim_fair [OF examplePlanned_reach replicationEnv_fresh Pair] show ?thesis by auto
qed

definition exampleClaimed :: replication_store where
  "exampleClaimed = snd (claimReplicationPlans replicationEnv (\<lambda>_. 6) 1 FormatRaw examplePlanned)"

theorem replication_work_fenced_witness:
  "\<exists>s'. reportPlan replicationEnv (\<lambda>_. 7, Completed) (exampleUUID 0) (exampleUUID 1) exampleClaimed = (Inr (), s') \<and>
     planHolder exampleClaimed (exampleUUID 0) = Some (exampleUUID 1)"
proof -
  have reach: "replication_reach replicationEnv exampleClaimed"
    unfolding exampleClaimed_def by (rule replication_reach.step [OF examplePlanned_reach replication_step.claim])
  have "is_ok (fst (reportPlan replicationEnv (\<lambda>_. 7, Completed) (exampleUUID 0) (exampleUUID 1) exampleClaimed))"
    by code_simp
  then obtain s' where run: "reportPlan replicationEnv (\<lambda>_. 7, Completed) (exampleUUID 0) (exampleUUID 1) exampleClaimed = (Inr (), s')"
    by (cases "reportPlan replicationEnv (\<lambda>_. 7, Completed) (exampleUUID 0) (exampleUUID 1) exampleClaimed") (auto simp: is_ok_iff)
  with replication_work_fenced [OF reach replicationEnv_fresh, THEN conjunct2, THEN conjunct2, THEN conjunct1, rule_format, OF run]
  show ?thesis by blast
qed

theorem replication_create_idempotent_witness:
  "\<exists>q s'. CreateReplicationPlan 7 (examplePlanRequest 1) [exampleCheckpoint] (examplePlanned\<lparr>uuidsDrawn := Suc (uuidsDrawn examplePlanned)\<rparr>) =
      (Inr (q, True), s') \<and> samePlan q (examplePlanRequest 1)"
proof -
  have drawn: "uuidsDrawn examplePlanned = 1" by code_simp
  have ok: "(case fst (CreateReplicationPlan 7 (examplePlanRequest 1) [exampleCheckpoint] (examplePlanned\<lparr>uuidsDrawn := Suc 1\<rparr>)) of
      Inl _ \<Rightarrow> False | Inr (q, replayed) \<Rightarrow> replayed)"
    by code_simp
  then obtain q s' where run: "CreateReplicationPlan 7 (examplePlanRequest 1) [exampleCheckpoint] (examplePlanned\<lparr>uuidsDrawn := Suc (uuidsDrawn examplePlanned)\<rparr>) =
      (Inr (q, True), s')"
    unfolding drawn
    by (cases "CreateReplicationPlan 7 (examplePlanRequest 1) [exampleCheckpoint] (examplePlanned\<lparr>uuidsDrawn := Suc 1\<rparr>)") (auto split: sum.splits)
  have "requested (env_UUID replicationEnv (uuidsDrawn examplePlanned)) (examplePlanRequest 1)"
    using examplePlanRequest_requested [of 1] by (simp add: drawn)
  from replication_create_idempotent [OF examplePlanned_reach replicationEnv_fresh this _ run] run show ?thesis by simp
qed

end
