(* ===== verification/ReplicationWorkerLaws.thy ===== *)
theory ReplicationWorkerLaws
  imports ReplicationWorker ReplicationLaws
begin

text \<open>
  What a run of the replication worker guarantees: a verified checkpoint stands for the right bytes at the destination, only
  plans all of whose objects are verified are completed, and nothing unverified or quarantined is published.
\<close>

section \<open>Delivered objects\<close>

definition holds :: "(string \<Rightarrow> string) \<Rightarrow> (string \<Rightarrow> string option) \<Rightarrow> ReplicationCheckpoint \<Rightarrow> bool" where
  "holds sha content c \<longleftrightarrow> (\<exists>b. content (ck_ObjectKey c) = Some b \<and> int (length b) = ck_Size c \<and> ck_Digest c = ''sha256:'' @ sha b)"

definition checkpointOf :: "'z replication_store_scheme \<Rightarrow> string \<Rightarrow> string \<Rightarrow> ReplicationCheckpoint \<Rightarrow> bool" where
  "checkpointOf s i k c \<longleftrightarrow> (\<exists>m. gm_get (replicationChecks s) i = Some m \<and> gm_get m k = Some c)"

definition verified :: "ReplicationCheckpoint \<Rightarrow> bool" where
  "verified c \<longleftrightarrow> ck_State c = ''verified''"

definition sameObject :: "ReplicationCheckpoint \<Rightarrow> ReplicationCheckpoint \<Rightarrow> bool" where
  "sameObject c d \<longleftrightarrow> ck_Digest c = ck_Digest d \<and> ck_Size c = ck_Size d"

text \<open>
  The state between two calls of the worker: the queue is in order, verified checkpoints are backed by bytes, object keys name
  content (two checkpoints for the same key agree on digest and size), and completed plans are verified throughout.
\<close>

definition world_ok :: "(nat \<Rightarrow> string) \<Rightarrow> (string \<Rightarrow> string) \<Rightarrow> ('o \<Rightarrow> string \<Rightarrow> string option) \<Rightarrow> ('o, 'p) world \<Rightarrow> bool" where
  "world_ok uuid sha contents w \<longleftrightarrow> replication_ok uuid (rw_Store w) \<and>
     (\<forall>i k c. checkpointOf (rw_Store w) i k c \<longrightarrow> verified c \<longrightarrow> holds sha (contents (rw_Objects w)) c) \<and>
     (\<forall>i j k c d. checkpointOf (rw_Store w) i k c \<longrightarrow> checkpointOf (rw_Store w) j k d \<longrightarrow> sameObject c d) \<and>
     (\<forall>i p k c. gm_get (replicationPlans (rw_Store w)) i = Some p \<longrightarrow> pl_State p = ''completed'' \<longrightarrow> checkpointOf (rw_Store w) i k c \<longrightarrow> verified c)"

lemma world_okD:
  assumes "world_ok uuid sha contents w"
  shows "replication_ok uuid (rw_Store w)"
    and "checkpointOf (rw_Store w) i k c \<Longrightarrow> verified c \<Longrightarrow> holds sha (contents (rw_Objects w)) c"
    and "checkpointOf (rw_Store w) i k c \<Longrightarrow> checkpointOf (rw_Store w) j k d \<Longrightarrow> sameObject c d"
    and "gm_get (replicationPlans (rw_Store w)) i = Some p \<Longrightarrow> pl_State p = ''completed'' \<Longrightarrow> checkpointOf (rw_Store w) i k c \<Longrightarrow> verified c"
  using assms unfolding world_ok_def by blast+

lemma checkpointOf_key: "replication_ok uuid s \<Longrightarrow> checkpointOf s i k c \<Longrightarrow> ck_ObjectKey c = k \<and> ck_PlanID c = i"
  unfolding checkpointOf_def using replication_okD(4) by (fastforce simp: checks_ok_def)

lemma checkpointOf_fun: "checkpointOf s i k c \<Longrightarrow> checkpointOf s i k d \<Longrightarrow> c = d"
  by (auto simp: checkpointOf_def)

lemma checkpointOf_cong: "replicationChecks s' = replicationChecks s \<Longrightarrow> checkpointOf s' = checkpointOf s"
  by (intro ext) (simp add: checkpointOf_def)

lemma listed_checkpoints:
  assumes ok: "replication_ok uuid s" and run: "ListReplicationCheckpoints i s = Inr checks"
  shows "c \<in> set checks \<longleftrightarrow> checkpointOf s i (ck_ObjectKey c) c" and "distinct (map ck_ObjectKey checks)"
proof -
  obtain m where m: "gm_get (replicationChecks s) i = Some m" "checks = sort_key ck_ObjectKey (gm_vals m)"
    using run by (auto simp: ListReplicationCheckpoints_def split: option.splits)
  have mok: "gm_ok m" "\<And>k c. gm_get m k = Some c \<Longrightarrow> ck_ObjectKey c = k"
    using replication_okD(4) [OF ok m(1)] by (auto simp: checks_ok_def)
  have "c \<in> set checks \<longleftrightarrow> (\<exists>k. gm_get m k = Some c)"
    using gm_vals_iff [OF mok(1), of c] by (simp add: m(2))
  then show "c \<in> set checks \<longleftrightarrow> checkpointOf s i (ck_ObjectKey c) c"
    using mok(2) m(1) by (auto simp: checkpointOf_def)
  have "distinct (map ck_ObjectKey (gm_vals m))"
    by (rule distinct_vals_by [OF mok])
  then show "distinct (map ck_ObjectKey checks)"
    using distinct_map_sort_filter [of ck_ObjectKey "gm_vals m" ck_ObjectKey "\<lambda>_. True"] by (simp add: m(2))
qed

section \<open>Calls of the store\<close>

text \<open>Two worlds that differ in the plans and the clock only.\<close>

definition bookkept :: "('o, 'p) world \<Rightarrow> ('o, 'p) world \<Rightarrow> bool" where
  "bookkept w w' \<longleftrightarrow> rw_Objects w' = rw_Objects w \<and> rw_Published w' = rw_Published w \<and>
     replicationChecks (rw_Store w') = replicationChecks (rw_Store w) \<and> artifactQuarantines (rw_Store w') = artifactQuarantines (rw_Store w)"

lemma world_ok_store:
  assumes ok: "world_ok uuid sha contents w" and s': "replication_ok uuid (rw_Store w')" "bookkept w w'"
    and compl: "\<And>i p k c. gm_get (replicationPlans (rw_Store w')) i = Some p \<Longrightarrow> pl_State p = ''completed'' \<Longrightarrow>
      checkpointOf (rw_Store w) i k c \<Longrightarrow>
      (\<exists>q. gm_get (replicationPlans (rw_Store w)) i = Some q \<and> pl_State q = ''completed'') \<or> verified c"
  shows "world_ok uuid sha contents w'"
proof -
  have c: "checkpointOf (rw_Store w') = checkpointOf (rw_Store w)" and o': "rw_Objects w' = rw_Objects w"
    using s'(2) by (auto simp: bookkept_def intro: checkpointOf_cong)
  have "verified d" if "gm_get (replicationPlans (rw_Store w')) i = Some p" "pl_State p = ''completed''" "checkpointOf (rw_Store w) i k d" for i p k d
    using compl [OF that] world_okD(4) [OF ok _ _ that(3)] by auto
  then show ?thesis
    unfolding world_ok_def c o' using s'(1) world_okD(2,3) [OF ok] by (intro conjI allI impI)
qed

lemma storeCall_eq: "storeCall clock f w = (r, w') \<longleftrightarrow>
    (\<exists>s. f (\<lambda>n. clock (rw_Reads w + n)) (rw_Store w) = (r, s) \<and> w' = w\<lparr>rw_Store := s, rw_Reads := rw_Reads w + 4\<rparr>)"
  by (auto simp: storeCall_def split: prod.splits)

lemma completed_put:
  assumes "gm_get (gm_put i q m) j = Some p" "pl_State p = ''completed''" "pl_State q \<noteq> ''completed''"
  shows "\<exists>r. gm_get m j = Some r \<and> pl_State r = ''completed''"
  using assms by (auto split: if_splits)

text \<open>A failed or parked plan.\<close>

lemma report_world:
  assumes ok: "world_ok (env_UUID e) sha contents w" and run: "storeCall clock (\<lambda>t. reportPlan e (t, r) i token) w = (x, w')"
    and compl: "r = Completed \<Longrightarrow> \<forall>k c. checkpointOf (rw_Store w) i k c \<longrightarrow> verified c"
  shows "world_ok (env_UUID e) sha contents w' \<and> bookkept w w'"
proof -
  obtain s where s: "reportPlan e (\<lambda>n. clock (rw_Reads w + n), r) i token (rw_Store w) = (x, s)"
    and w': "w' = w\<lparr>rw_Store := s, rw_Reads := rw_Reads w + 4\<rparr>"
    using run by (auto simp: storeCall_eq)
  have rok: "replication_ok (env_UUID e) (rw_Store w')"
    using report_ok [OF world_okD(1) [OF ok] s] by (simp add: w')
  have book: "bookkept w w'"
    using s by (cases rule: reportPlan_cases) (simp_all add: bookkept_def w')
  have keep: "(\<exists>q. gm_get (replicationPlans (rw_Store w)) j = Some q \<and> pl_State q = ''completed'') \<or> verified c"
    if "gm_get (replicationPlans (rw_Store w')) j = Some p" "pl_State p = ''completed''" "checkpointOf (rw_Store w) j k c" for j p k c
  proof (cases "r = Completed \<and> j = i")
    case True
    then show ?thesis using compl that(3) by blast
  next
    case False
    have "gm_get (replicationPlans s) j = gm_get (replicationPlans (rw_Store w)) j \<or> pl_State p \<noteq> ''completed''"
      using s that(1) False
      by (auto simp: w' reportPlan_def CompleteReplicationPlanWithLease_def finishReplication_def FailReplicationPlanWithLease_def
        ParkReplicationPlanWithLease_def failedPlan_def parkedPlan_def split: plan_report.splits option.splits if_splits)
    then show ?thesis using that(1,2) by (auto simp: w')
  qed
  show ?thesis
    by (rule conjI [OF world_ok_store [OF ok rok book] book]) (rule keep)
qed

lemma report_calls:
  "(\<lambda>t. FailReplicationPlanWithLease e t i msg token) = (\<lambda>t. reportPlan e (t, Failed msg) i token)"
  "(\<lambda>t. ParkReplicationPlanWithLease e t i msg token) = (\<lambda>t. reportPlan e (t, Parked msg) i token)"
  "(\<lambda>t. CompleteReplicationPlanWithLease e t i token) = (\<lambda>t. reportPlan e (t, Completed) i token)"
  by (rule ext, rule ext, simp add: reportPlan_def)+

lemma failPlan_world:
  assumes "world_ok (env_UUID e) sha contents w" "failPlan e clock i msg token w = (x, w')"
  shows "world_ok (env_UUID e) sha contents w' \<and> bookkept w w'"
  using assms(2) report_world [OF assms(1), of clock "Failed msg" i token]
  unfolding failPlan_def report_calls by (auto split: prod.splits)

lemma parkPlan_world:
  assumes "world_ok (env_UUID e) sha contents w" "parkPlan e clock i msg token w = (x, w')"
  shows "world_ok (env_UUID e) sha contents w' \<and> bookkept w w'"
  using assms(2) report_world [OF assms(1), of clock "Parked msg" i token]
  unfolding parkPlan_def report_calls by (auto split: prod.splits)

lemma unlessLost_world:
  assumes "world_ok uuid sha contents w" "unlessLost leaseErr f w = (x, w')"
    and "\<And>y. f w = (y, w') \<Longrightarrow> world_ok uuid sha contents w' \<and> bookkept w w'"
  shows "world_ok uuid sha contents w' \<and> bookkept w w'"
  using assms by (auto simp: unlessLost_def bookkept_def split: option.splits)

lemma renew_world:
  assumes ok: "world_ok uuid sha contents w" and s: "RenewReplicationPlanLease now i token (rw_Store w) = (r, s)"
  shows "world_ok uuid sha contents (w\<lparr>rw_Store := s, rw_Reads := n\<rparr>) \<and> bookkept w (w\<lparr>rw_Store := s, rw_Reads := n\<rparr>)"
proof -
  let ?w = "w\<lparr>rw_Store := s, rw_Reads := n\<rparr>"
  have rok: "replication_ok uuid (rw_Store ?w)"
    using renew_ok [OF world_okD(1) [OF ok], of now i token] s by simp
  have book: "bookkept w ?w"
    using s by (auto simp: bookkept_def RenewReplicationPlanLease_def split: option.splits)
  have "\<exists>q. gm_get (replicationPlans (rw_Store w)) j = Some q \<and> pl_State q = ''completed''"
    if "gm_get (replicationPlans (rw_Store ?w)) j = Some p" "pl_State p = ''completed''" for j p
    using that s leasedPlan_Some(1) [of now i token "rw_Store w"]
    by (cases "leasedPlan now i token (rw_Store w)") (auto simp: RenewReplicationPlanLease_def split: if_splits)
  then show ?thesis
    using world_ok_store [OF ok rok book] book by blast
qed

lemma heartbeat_world:
  "world_ok uuid sha contents w \<Longrightarrow> heartbeat i token beats (rw_Store w) = (x, s) \<Longrightarrow>
     world_ok uuid sha contents (w\<lparr>rw_Store := s\<rparr>) \<and> bookkept w (w\<lparr>rw_Store := s\<rparr>)"
proof (induction beats arbitrary: w)
  case (Cons t beats)
  obtain r s1 where r: "RenewReplicationPlanLease t i token (rw_Store w) = (r, s1)" by force
  have step: "world_ok uuid sha contents (w\<lparr>rw_Store := s1\<rparr>)" "bookkept w (w\<lparr>rw_Store := s1\<rparr>)"
    using renew_world [OF Cons.prems(1) r, of "rw_Reads w"] by simp_all
  show ?case
    using Cons.IH [OF step(1)] Cons.prems(2) r step by (auto simp: bookkept_def split: sum.splits)
qed (auto simp: bookkept_def)

section \<open>Checkpoints\<close>

text \<open>Every checkpoint stays for its object, and verified ones stay verified.\<close>

definition kept :: "'z replication_store_scheme \<Rightarrow> 'z replication_store_scheme \<Rightarrow> bool" where
  "kept s s' \<longleftrightarrow> (\<forall>i k d. checkpointOf s i k d \<longrightarrow> (\<exists>d'. checkpointOf s' i k d' \<and> sameObject d' d \<and> (verified d \<longrightarrow> verified d'))) \<and>
     (\<forall>i k d'. checkpointOf s' i k d' \<longrightarrow> (\<exists>d. checkpointOf s i k d)) \<and> artifactQuarantines s' = artifactQuarantines s"

definition known :: "'z replication_store_scheme \<Rightarrow> ReplicationCheckpoint \<Rightarrow> bool" where
  "known s c \<longleftrightarrow> (\<exists>d. checkpointOf s (ck_PlanID c) (ck_ObjectKey c) d \<and> sameObject c d)"

lemma sameObject_simps [simp]: "sameObject c c" "sameObject (c\<lparr>ck_UpdatedAt := t\<rparr>) d = sameObject c d"
  by (simp_all add: sameObject_def)

lemma sameObject_trans: "sameObject a b \<Longrightarrow> sameObject b c \<Longrightarrow> sameObject a c" "sameObject a b \<Longrightarrow> sameObject b a"
  by (simp_all add: sameObject_def)

lemma checkpoints_kept_refl [simp]: "kept s s"
  unfolding kept_def using sameObject_simps(1) by blast

lemma checkpoints_kept_trans: "kept s t \<Longrightarrow> kept t u \<Longrightarrow> kept s u"
  unfolding kept_def using sameObject_trans(1) by (metis (no_types, lifting))

lemma known_kept: "known s c \<Longrightarrow> kept s t \<Longrightarrow> known t c"
  unfolding known_def kept_def using sameObject_trans by (metis (no_types, lifting))

lemma kept_bookkept: "bookkept w w' \<Longrightarrow> kept (rw_Store w) (rw_Store w')"
  unfolding bookkept_def using checkpointOf_cong [of "rw_Store w'" "rw_Store w"] by (auto simp: kept_def)

lemma updated_checkpoints:
  assumes run: "UpdateReplicationCheckpointWithLease clock c token s = (r, s')"
  shows "r \<noteq> Inr () \<Longrightarrow> s' = s"
    and "r = Inr () \<Longrightarrow> checkpointOf s' i k x \<longleftrightarrow>
      (if i = ck_PlanID c \<and> k = ck_ObjectKey c then x = c\<lparr>ck_UpdatedAt := clock 1\<rparr> else checkpointOf s i k x)"
    and "artifactQuarantines s' = artifactQuarantines s"
    and "gm_get (replicationPlans s') j = Some p \<Longrightarrow> pl_State p = ''completed'' \<Longrightarrow> gm_get (replicationPlans s) j = Some p"
    and "r = Inr () \<Longrightarrow> gm_get (replicationPlans s') (ck_PlanID c) = Some p \<Longrightarrow> pl_State p = ''running''"
proof -
  have "(r \<noteq> Inr () \<longrightarrow> s' = s) \<and> (r = Inr () \<longrightarrow> (checkpointOf s' i k x \<longleftrightarrow>
      (if i = ck_PlanID c \<and> k = ck_ObjectKey c then x = c\<lparr>ck_UpdatedAt := clock 1\<rparr> else checkpointOf s i k x))) \<and>
      artifactQuarantines s' = artifactQuarantines s \<and>
      (gm_get (replicationPlans s') j = Some p \<longrightarrow> pl_State p = ''completed'' \<longrightarrow> gm_get (replicationPlans s) j = Some p) \<and>
      (r = Inr () \<longrightarrow> gm_get (replicationPlans s') (ck_PlanID c) = Some p \<longrightarrow> pl_State p = ''running'')"
    using run
  proof (cases rule: checkpoint_update_cases)
    case (2 q m d)
    have "pl_State q = ''running''" using leasedPlan_Some(2) [OF 2(2)] by (simp add: running_def)
    then show ?thesis using 2(3) unfolding 2(1,5) by (auto simp: checkpointOf_def split: if_splits)
  qed simp
  then show "r \<noteq> Inr () \<Longrightarrow> s' = s" "r = Inr () \<Longrightarrow> checkpointOf s' i k x \<longleftrightarrow>
      (if i = ck_PlanID c \<and> k = ck_ObjectKey c then x = c\<lparr>ck_UpdatedAt := clock 1\<rparr> else checkpointOf s i k x)"
    "artifactQuarantines s' = artifactQuarantines s"
    "gm_get (replicationPlans s') j = Some p \<Longrightarrow> pl_State p = ''completed'' \<Longrightarrow> gm_get (replicationPlans s) j = Some p"
    "r = Inr () \<Longrightarrow> gm_get (replicationPlans s') (ck_PlanID c) = Some p \<Longrightarrow> pl_State p = ''running''"
    by blast+
qed

lemma update_world:
  assumes ok: "world_ok uuid sha contents w" and run: "UpdateReplicationCheckpointWithLease clock c token (rw_Store w) = (r, s)"
    and c: "known (rw_Store w) c" "verified c \<Longrightarrow> holds sha (contents (rw_Objects w)) c"
  shows "world_ok uuid sha contents (w\<lparr>rw_Store := s, rw_Reads := n\<rparr>)"
    and "verified c \<Longrightarrow> kept (rw_Store w) s"
    and "r = Inr () \<Longrightarrow> checkpointOf s (ck_PlanID c) (ck_ObjectKey c) (c\<lparr>ck_UpdatedAt := clock 1\<rparr>)"
proof -
  note upd = updated_checkpoints [OF run]
  have rok: "replication_ok uuid s"
    by (rule checkpoint_update_ok [OF world_okD(1) [OF ok] run])
  obtain d where d: "checkpointOf (rw_Store w) (ck_PlanID c) (ck_ObjectKey c) d" "sameObject c d"
    using c(1) by (auto simp: known_def)
  let ?w = "w\<lparr>rw_Store := s, rw_Reads := n\<rparr>" and ?c = "c\<lparr>ck_UpdatedAt := clock 1\<rparr>"
  show "r = Inr () \<Longrightarrow> checkpointOf s (ck_PlanID c) (ck_ObjectKey c) ?c"
    using upd(2) by simp
  have from_old: "\<exists>y. checkpointOf (rw_Store w) i k y \<and> sameObject x y" if "checkpointOf s i k x" for i k x
    using that upd(1) upd(2) [of i k x] d by (cases "r = Inr ()") (auto split: if_splits intro: sameObject_simps)
  show "kept (rw_Store w) s" if "verified c"
  proof (cases "r = Inr ()")
    case True
    have "\<exists>d'. checkpointOf s i k d' \<and> sameObject d' y \<and> (verified y \<longrightarrow> verified d')" if y: "checkpointOf (rw_Store w) i k y" for i k y
    proof (cases "i = ck_PlanID c \<and> k = ck_ObjectKey c")
      case here: True
      then have "y = d" using checkpointOf_fun y d(1) by blast
      moreover have "checkpointOf s i k ?c" using upd(2) [OF True, of i k ?c] here by simp
      moreover have "verified ?c" using \<open>verified c\<close> by (simp add: verified_def)
      ultimately show ?thesis using d(2) by (intro exI [of _ ?c]) simp
    next
      case False
      then have "checkpointOf s i k y" using upd(2) [OF True, of i k y] y by auto
      then show ?thesis by (intro exI [of _ y]) simp
    qed
    moreover have "\<forall>i k x. checkpointOf s i k x \<longrightarrow> (\<exists>y. checkpointOf (rw_Store w) i k y)"
      using from_old by blast
    ultimately show ?thesis unfolding kept_def using upd(3) by simp
  qed (use upd(1) in simp)
  have "holds sha (contents (rw_Objects w)) x" if "checkpointOf s i k x" "verified x" for i k x
    using that upd(1) upd(2) [of i k x] world_okD(2) [OF ok] c(2)
    by (cases "r = Inr ()") (auto simp: holds_def verified_def split: if_splits)
  moreover have "sameObject x y" if "checkpointOf s i k x" "checkpointOf s j k y" for i j k x y
    using from_old [OF that(1)] from_old [OF that(2)] world_okD(3) [OF ok] sameObject_trans by metis
  moreover have "verified x" if p: "gm_get (replicationPlans s) i = Some p" "pl_State p = ''completed''" and x: "checkpointOf s i k x" for i p k x
  proof -
    have old: "gm_get (replicationPlans (rw_Store w)) i = Some p" by (rule upd(4) [OF p])
    have "checkpointOf (rw_Store w) i k x"
    proof (cases "r = Inr ()")
      case True
      have "i \<noteq> ck_PlanID c" using upd(5) [OF True] p by auto
      then show ?thesis using upd(2) [OF True] x by auto
    qed (use upd(1) x in simp)
    then show ?thesis by (rule world_okD(4) [OF ok old p(2)])
  qed
  ultimately show "world_ok uuid sha contents ?w"
    unfolding world_ok_def using rok by simp
qed

text \<open>Writing an object no verified checkpoint stands for.\<close>

lemma objects_world:
  assumes ok: "world_ok uuid sha contents w" and frame: "\<And>j. j \<noteq> k \<Longrightarrow> contents objs j = contents (rw_Objects w) j"
    and free: "contents objs k = contents (rw_Objects w) k \<or> (\<forall>i d. checkpointOf (rw_Store w) i k d \<longrightarrow> \<not> verified d)"
  shows "world_ok uuid sha contents (w\<lparr>rw_Objects := objs\<rparr>)"
proof -
  have "holds sha (contents objs) d" if "checkpointOf (rw_Store w) i j d" "verified d" for i j d
  proof -
    have "ck_ObjectKey d = j" using checkpointOf_key [OF world_okD(1) [OF ok] that(1)] by simp
    moreover have "contents objs j = contents (rw_Objects w) j" using frame free that by metis
    ultimately show ?thesis using world_okD(2) [OF ok that] by (simp add: holds_def)
  qed
  then show ?thesis using ok unfolding world_ok_def by simp
qed

section \<open>Copying\<close>

text \<open>The outcome of copying one object: \<open>x\<close> is the error, if any.\<close>

definition copied :: "(nat \<Rightarrow> string) \<Rightarrow> (string \<Rightarrow> string) \<Rightarrow> ('o \<Rightarrow> string \<Rightarrow> string option) \<Rightarrow> ReplicationCheckpoint \<Rightarrow> ('o, 'p) world
    \<Rightarrow> error option \<times> ('o, 'p) world \<Rightarrow> bool" where
  "copied uuid sha contents c w out \<longleftrightarrow> (case out of (x, w') \<Rightarrow> world_ok uuid sha contents w' \<and> kept (rw_Store w) (rw_Store w') \<and>
     rw_Published w' = rw_Published w \<and> (x = None \<longrightarrow> (\<exists>d. checkpointOf (rw_Store w') (ck_PlanID c) (ck_ObjectKey c) d \<and> verified d)))"

lemma copied_error: "world_ok uuid sha contents w' \<Longrightarrow> rw_Store w' = rw_Store w \<Longrightarrow> rw_Published w' = rw_Published w \<Longrightarrow>
    copied uuid sha contents c w (Some e, w')"
  by (simp add: copied_def)

lemma verifyCheckpoint_copied:
  assumes ok: "world_ok uuid sha contents w" and c: "known (rw_Store w) c" "holds sha (contents (rw_Objects w)) c"
  shows "copied uuid sha contents c w (verifyCheckpoint clock c token w)"
proof -
  let ?t = "\<lambda>n. clock (rw_Reads w + n)"
  let ?c = "c\<lparr>ck_ByteOffset := ck_Size c, ck_State := ''verified'', ck_LastError := [], ck_VerifiedAt := ?t 0\<rparr>"
  obtain r s where run: "UpdateReplicationCheckpointWithLease (\<lambda>n. ?t (Suc n)) ?c token (rw_Store w) = (r, s)" by force
  have c': "known (rw_Store w) ?c" "holds sha (contents (rw_Objects w)) ?c" "verified ?c"
    using c by (auto simp: known_def holds_def sameObject_def verified_def)
  note upd = update_world [OF ok run c'(1) c'(2)]
  have "verifyCheckpoint clock c token w = (errOf r, w\<lparr>rw_Store := s, rw_Reads := rw_Reads w + 4\<rparr>)"
    using run by (simp add: verifyCheckpoint_def storeCall_def)
  moreover have "\<exists>d. checkpointOf s (ck_PlanID c) (ck_ObjectKey c) d \<and> verified d" if "errOf r = None"
  proof -
    have "r = Inr ()" using that by (auto simp: errOf_def split: sum.splits)
    from upd(3) [OF this] show ?thesis by (auto simp: verified_def)
  qed
  ultimately show ?thesis
    using upd(1) [of "rw_Reads w + 4"] upd(2) [OF c'(3)] by (simp add: copied_def)
qed

lemma validSHA256_nonempty: "validSHA256 d \<Longrightarrow> d \<noteq> []"
  by (auto simp: validSHA256_def)

section \<open>Reports and publication\<close>

lemma world_ok_cong:
  "rw_Store w' = rw_Store w \<Longrightarrow> rw_Objects w' = rw_Objects w \<Longrightarrow> world_ok uuid sha contents w' = world_ok uuid sha contents w"
  by (simp add: world_ok_def)

lemma bookkept_trans: "bookkept u v \<Longrightarrow> bookkept v w \<Longrightarrow> bookkept u w"
  by (simp add: bookkept_def)

lemma copyFailed_world:
  assumes ok: "world_ok (env_UUID e) sha contents w" and c: "known (rw_Store w) c" "ck_PlanID c = pl_ID plan"
    and run: "copyFailed e clock plan leaseErr c err w = (x, w')"
  shows "world_ok (env_UUID e) sha contents w' \<and> rw_Published w' = rw_Published w"
proof (cases leaseErr)
  case (Some le)
  then show ?thesis using run ok by (simp add: copyFailed_def unlessLost_def)
next
  case None
  define d where "d = (case ListReplicationCheckpoints (pl_ID plan) (rw_Store w) of
      Inl _ \<Rightarrow> c
    | Inr persisted \<Rightarrow> (case find (\<lambda>d. ck_ObjectKey d = ck_ObjectKey c) persisted of None \<Rightarrow> c | Some d \<Rightarrow> d))"
  let ?d = "d\<lparr>ck_State := ''failed'', ck_Attempts := ck_Attempts d + 1, ck_LastError := errorText err\<rparr>"
  have "known (rw_Store w) d"
  proof (cases "ListReplicationCheckpoints (pl_ID plan) (rw_Store w)")
    case (Inr persisted)
    show ?thesis
    proof (cases "find (\<lambda>d. ck_ObjectKey d = ck_ObjectKey c) persisted")
      case (Some f)
      then have "f \<in> set persisted" by (auto simp: find_Some_iff)
      then have "checkpointOf (rw_Store w) (pl_ID plan) (ck_ObjectKey f) f"
        using listed_checkpoints(1) [OF world_okD(1) [OF ok] Inr] by simp
      moreover from this have "ck_PlanID f = pl_ID plan"
        using checkpointOf_key [OF world_okD(1) [OF ok]] by blast
      ultimately show ?thesis by (auto simp: known_def d_def Inr Some)
    qed (use c(1) in \<open>simp add: d_def Inr\<close>)
  qed (use c(1) in \<open>simp add: d_def\<close>)
  then have d: "known (rw_Store w) ?d" "verified ?d \<Longrightarrow> holds sha (contents (rw_Objects w)) ?d"
    by (simp_all add: known_def sameObject_def verified_def)
  obtain r s where upd: "UpdateReplicationCheckpointWithLease (\<lambda>n. clock (rw_Reads w + n)) ?d (pl_LeaseToken plan) (rw_Store w) = (r, s)"
    by force
  let ?w = "w\<lparr>rw_Store := s, rw_Reads := rw_Reads w + 4\<rparr>"
  have w: "world_ok (env_UUID e) sha contents ?w"
    by (rule update_world(1) [OF ok upd d])
  have call: "storeCall clock (\<lambda>t. UpdateReplicationCheckpointWithLease t ?d (pl_LeaseToken plan)) w = (r, ?w)"
    using upd by (simp add: storeCall_def)
  have out: "(case r of Inl e' \<Rightarrow> (Some e', ?w)
      | Inr _ \<Rightarrow> failPlan e clock (pl_ID plan) (''replication checkpoint failed: '' @ ck_ObjectKey ?d) (pl_LeaseToken plan) ?w) = (x, w')"
    using run None call unfolding copyFailed_def unlessLost_def d_def [symmetric] by (simp add: Let_def)
  show ?thesis
  proof (cases r)
    case (Inl e')
    then show ?thesis using out w by auto
  next
    case (Inr u)
    then have "failPlan e clock (pl_ID plan) (''replication checkpoint failed: '' @ ck_ObjectKey ?d) (pl_LeaseToken plan) ?w = (x, w')"
      using out by simp
    from failPlan_world [OF w this] show ?thesis by (simp add: bookkept_def)
  qed
qed

text \<open>
  The end of a plan changes nothing but plans and, when it gets that far, the publication; \<open>act\<close> is run on the state of the
  publication before.
\<close>

definition finished :: "('p \<Rightarrow> error option \<times> 'p) option \<Rightarrow> ('o, 'p) world \<Rightarrow> ('o, 'p) world \<Rightarrow> bool" where
  "finished act w w' \<longleftrightarrow> (\<exists>v. bookkept w v \<and> rw_Objects w' = rw_Objects w \<and> rw_Store w' = rw_Store v \<and>
     (rw_Published w' = rw_Published w \<or> (\<exists>publish. act = Some publish \<and> rw_Published w' = snd (publish (rw_Published w)))))"

lemma finished_bookkept: "bookkept w w' \<Longrightarrow> finished act w w'"
  unfolding finished_def bookkept_def by blast

lemma finishPlan_world:
  assumes ok: "world_ok (env_UUID e) sha contents w" and all: "\<forall>k c. checkpointOf (rw_Store w) (pl_ID plan) k c \<longrightarrow> verified c"
    and run: "finishPlan e clock plan leaseErr act w = (x, w')"
  shows "world_ok (env_UUID e) sha contents w' \<and> finished act w w'"
proof -
  let ?w = "w\<lparr>rw_Reads := rw_Reads w + 4\<rparr>"
  have call: "storeCall clock (\<lambda>t s. (LockReplicationPlanLease (t 0) (pl_ID plan) (pl_LeaseToken plan) s, s)) w =
      (LockReplicationPlanLease (clock (rw_Reads w)) (pl_ID plan) (pl_LeaseToken plan) (rw_Store w), ?w)"
    by (simp add: storeCall_def)
  show ?thesis
  proof (cases "LockReplicationPlanLease (clock (rw_Reads w)) (pl_ID plan) (pl_LeaseToken plan) (rw_Store w)")
    case (Inl err)
    then have "w' = ?w" using run call by (simp add: finishPlan_def)
    then show ?thesis
      using ok world_ok_cong [of ?w w] finished_bookkept [of w ?w] by (simp add: bookkept_def)
  next
    case (Inr u)
    obtain err pub where act: "(case act of None \<Rightarrow> (None, rw_Published ?w) | Some publish \<Rightarrow> publish (rw_Published ?w)) = (err, pub)"
      by force
    let ?v = "?w\<lparr>rw_Published := pub\<rparr>"
    have v: "world_ok (env_UUID e) sha contents ?v" using ok world_ok_cong [of ?v w] by simp
    have pub: "pub = rw_Published w \<or> (\<exists>publish. act = Some publish \<and> pub = snd (publish (rw_Published w)))"
      using act by (auto split: option.splits)
    have done': "world_ok (env_UUID e) sha contents w' \<and> finished act w w'"
      if "world_ok (env_UUID e) sha contents w' \<and> bookkept ?v w'"
    proof -
      have "bookkept w (w'\<lparr>rw_Published := rw_Published w\<rparr>)" using that by (simp add: bookkept_def)
      then show ?thesis
        using that pub unfolding finished_def
        by (intro conjI exI [of _ "w'\<lparr>rw_Published := rw_Published w\<rparr>"]) (auto simp: bookkept_def)
    qed
    show ?thesis
    proof (cases "err = None")
      case False
      then have "unlessLost leaseErr (failPlan e clock (pl_ID plan) ''publish replicated artifacts failed'' (pl_LeaseToken plan)) ?v = (x, w')"
        using run call Inr act by (simp add: finishPlan_def Let_def)
      from done' [OF unlessLost_world [OF v this failPlan_world [OF v]]] show ?thesis .
    next
      case True
      obtain r u where fin: "storeCall clock (\<lambda>t. CompleteReplicationPlanWithLease e t (pl_ID plan) (pl_LeaseToken plan)) ?v = (r, u)"
        by force
      then have "w' = u"
        using run call Inr act True by (auto simp: finishPlan_def Let_def split: sum.splits)
      then show ?thesis
        using done' report_world [OF v fin [unfolded report_calls]] all by simp
    qed
  qed
qed

text \<open>
  What a publication rests on: the checkpoints it is given are verified, cover every object of the plan and stand for the bytes at the
  destination, and the distribution of the artifact's digests is not held by a quarantine.
\<close>

definition justified :: "(string \<Rightarrow> string) \<Rightarrow> ('o \<Rightarrow> string \<Rightarrow> string option) \<Rightarrow> ('o, 'p) Worker \<Rightarrow> ReplicationPlan \<Rightarrow>
    (ReplicationPlan \<Rightarrow> ReplicationCheckpoint list \<Rightarrow> 'p \<Rightarrow> error option \<times> 'p) \<Rightarrow> ('o, 'p) world \<Rightarrow> ('o, 'p) world \<Rightarrow> bool" where
  "justified sha contents wk plan publish w w' \<longleftrightarrow>
     (\<exists>checks digests. rw_Published w' = snd (publish plan checks (rw_Published w)) \<and>
       checks \<noteq> [] \<and> (\<forall>c \<in> set checks. verified c \<and> holds sha (contents (rw_Objects w')) c) \<and>
       (\<forall>k d. checkpointOf (rw_Store w') (pl_ID plan) k d \<longrightarrow> k \<in> ck_ObjectKey ` set checks) \<and>
       (case wk_AdmissionSnapshot wk of
          None \<Rightarrow> digests = replicationAdmissionDigests plan checks
        | Some snapshot \<Rightarrow> snapshot plan checks (rw_Published w) = Inr (digests, True)) \<and>
       ArtifactDistributionAllowedForDigests (pl_SourceRepositoryID plan) (pl_Format plan) (pl_Coordinate plan) digests (rw_Store w') = Inr True)"

lemma justified_cong:
  "rw_Published v = rw_Published w \<Longrightarrow> justified sha contents wk plan publish v w' = justified sha contents wk plan publish w w'"
  unfolding justified_def by (simp only:)

lemma allowed_cong:
  "artifactQuarantines s' = artifactQuarantines s \<Longrightarrow>
     ArtifactDistributionAllowedForDigests r f c ds s' = ArtifactDistributionAllowedForDigests r f c ds s"
  by (simp add: ArtifactDistributionAllowedForDigests_def GetArtifactQuarantine_def)

text \<open>The checkpoints a publication is given: verified, with their bytes in place, and all of the plan.\<close>

definition ready :: "(string \<Rightarrow> string) \<Rightarrow> ('o \<Rightarrow> string \<Rightarrow> string option) \<Rightarrow> ReplicationPlan \<Rightarrow> ReplicationCheckpoint list \<Rightarrow> ('o, 'p) world \<Rightarrow> bool" where
  "ready sha contents plan checks w \<longleftrightarrow> checks \<noteq> [] \<and> (\<forall>c \<in> set checks. verified c \<and> holds sha (contents (rw_Objects w)) c) \<and>
     (\<forall>k d. checkpointOf (rw_Store w) (pl_ID plan) k d \<longrightarrow> verified d \<and> k \<in> ck_ObjectKey ` set checks)"

lemma reported_world:
  assumes "world_ok (env_UUID e) sha contents w"
    "unlessLost leaseErr (failPlan e clock i msg token) w = (x, w') \<or> unlessLost leaseErr (parkPlan e clock i msg token) w = (x, w')"
  shows "world_ok (env_UUID e) sha contents w' \<and> bookkept w w'"
  using assms(2)
proof
  assume "unlessLost leaseErr (failPlan e clock i msg token) w = (x, w')"
  from unlessLost_world [OF assms(1) this failPlan_world [OF assms(1)]] show ?thesis .
next
  assume "unlessLost leaseErr (parkPlan e clock i msg token) w = (x, w')"
  from unlessLost_world [OF assms(1) this parkPlan_world [OF assms(1)]] show ?thesis .
qed

lemma publishAdmitted_world:
  assumes ok: "world_ok (env_UUID e) sha contents w" and ready: "ready sha contents plan checks w"
    and run: "publishAdmitted e clock wk circ plan leaseErr publish checks w = (x, w')"
  shows "world_ok (env_UUID e) sha contents w' \<and> (rw_Published w' = rw_Published w \<or> justified sha contents wk plan publish w w')"
proof -
  define adm where "adm = (case wk_AdmissionSnapshot wk of
      None \<Rightarrow> Inr (replicationAdmissionDigests plan checks, True) | Some snapshot \<Rightarrow> snapshot plan checks (rw_Published w))"
  let ?allowed = "ArtifactDistributionAllowedForDigests (pl_SourceRepositoryID plan) (pl_Format plan) (pl_Coordinate plan)"
  consider (report) msg where "unlessLost leaseErr (failPlan e clock (pl_ID plan) msg (pl_LeaseToken plan)) w = (x, w') \<or>
        unlessLost leaseErr (parkPlan e clock (pl_ID plan) msg (pl_LeaseToken plan)) w = (x, w')"
    | (finish) digests where "adm = Inr (digests, True)" "?allowed digests (rw_Store w) = Inr True"
        "finishPlan e clock plan leaseErr (Some (publish plan checks)) w = (x, w')"
    using run unfolding publishAdmitted_def adm_def [symmetric] Let_def
    by (cases adm) (auto split: if_splits sum.splits prod.splits bool.splits)
  then show ?thesis
  proof cases
    case report
    from reported_world [OF ok this] show ?thesis by (simp add: bookkept_def)
  next
    case finish
    have "\<forall>k c. checkpointOf (rw_Store w) (pl_ID plan) k c \<longrightarrow> verified c"
      using ready by (simp add: ready_def)
    note fw = finishPlan_world [OF ok this finish(3)]
    then obtain v where v: "bookkept w v" "rw_Objects w' = rw_Objects w" "rw_Store w' = rw_Store v"
      "rw_Published w' = rw_Published w \<or> rw_Published w' = snd (publish plan checks (rw_Published w))"
      by (auto simp: finished_def)
    have store: "checkpointOf (rw_Store w') = checkpointOf (rw_Store w)" "artifactQuarantines (rw_Store w') = artifactQuarantines (rw_Store w)"
      using v(1,3) by (auto simp: bookkept_def intro: checkpointOf_cong)
    have "justified sha contents wk plan publish w w'" if "rw_Published w' = snd (publish plan checks (rw_Published w))"
      unfolding justified_def using that ready finish(1,2) allowed_cong [OF store(2)]
      by (intro exI [of _ checks] exI [of _ digests]) (auto simp: ready_def store(1) v(2) adm_def split: option.splits)
    then show ?thesis using v(4) fw by blast
  qed
qed

lemma publishPlan_world:
  assumes ok: "world_ok (env_UUID e) sha contents w" and run: "publishPlan e clock wk circ plan leaseErr publish w = (x, w')"
  shows "world_ok (env_UUID e) sha contents w' \<and> (rw_Published w' = rw_Published w \<or> justified sha contents wk plan publish w w')"
proof -
  note rok = world_okD(1) [OF ok]
  let ?upd = "\<lambda>checks t. UpdateReplicationCheckpointWithLease t (last checks) (pl_LeaseToken plan)"
  consider (report) msg where "unlessLost leaseErr (failPlan e clock (pl_ID plan) msg (pl_LeaseToken plan)) w = (x, w')"
    | (renew) checks r v where "ListReplicationCheckpoints (pl_ID plan) (rw_Store w) = Inr checks" "checks \<noteq> []"
        "find (\<lambda>c. ck_State c \<noteq> ''verified'') checks = None" "storeCall clock (?upd checks) w = (r, v)"
        "(case r of Inl err \<Rightarrow> (Some err, v) | Inr _ \<Rightarrow> publishAdmitted e clock wk circ plan leaseErr publish checks v) = (x, w')"
    using run unfolding publishPlan_def Let_def
    by (auto split: if_splits sum.splits option.splits prod.splits)
  then show ?thesis
  proof cases
    case report
    from reported_world [OF ok disjI1, OF this] show ?thesis by (simp add: bookkept_def)
  next
    case renew
    note mem = listed_checkpoints(1) [OF rok renew(1)]
    have ver: "verified c" if "c \<in> set checks" for c
      using renew(3) that by (auto simp: find_None_iff verified_def)
    have at_last: "checkpointOf (rw_Store w) (pl_ID plan) (ck_ObjectKey (last checks)) (last checks)" "verified (last checks)"
      using mem [of "last checks"] ver [of "last checks"] last_in_set [OF renew(2)] by blast+
    have "known (rw_Store w) (last checks)"
      unfolding known_def using at_last(1) checkpointOf_key [OF rok at_last(1)] by auto
    moreover obtain s where s: "?upd checks (\<lambda>n. clock (rw_Reads w + n)) (rw_Store w) = (r, s)"
        "v = w\<lparr>rw_Store := s, rw_Reads := rw_Reads w + 4\<rparr>"
      using renew(4) by (auto simp: storeCall_eq)
    ultimately have v: "world_ok (env_UUID e) sha contents v" "kept (rw_Store w) (rw_Store v)" "rw_Objects v = rw_Objects w" "rw_Published v = rw_Published w"
      using update_world [OF ok s(1) _ world_okD(2) [OF ok at_last(1)]] at_last(2) by simp_all
    have covered: "\<exists>c \<in> set checks. ck_ObjectKey c = k" if d: "checkpointOf (rw_Store v) (pl_ID plan) k d" for k d
    proof -
      obtain y where y: "checkpointOf (rw_Store w) (pl_ID plan) k y" using v(2) d unfolding kept_def by blast
      then show ?thesis using mem [of y] checkpointOf_key [OF rok y] by auto
    qed
    moreover have "verified d" if d: "checkpointOf (rw_Store v) (pl_ID plan) k d" for k d
    proof -
      obtain c where c: "c \<in> set checks" "ck_ObjectKey c = k" using covered [OF d] by blast
      then obtain d' where "checkpointOf (rw_Store v) (pl_ID plan) k d'" "verified d'"
        using v(2) mem [of c] ver [OF c(1)] unfolding kept_def by blast
      then show ?thesis using checkpointOf_fun [OF d] by blast
    qed
    moreover have "\<forall>c \<in> set checks. verified c \<and> holds sha (contents (rw_Objects v)) c"
      using mem ver world_okD(2) [OF ok] v(3) by simp
    ultimately have "ready sha contents plan checks v"
      using renew(2) unfolding ready_def by blast
    then have "world_ok (env_UUID e) sha contents w' \<and> (rw_Published w' = rw_Published v \<or> justified sha contents wk plan publish v w')"
      using renew(5) v(1) publishAdmitted_world [OF v(1)] by (cases r) auto
    then show ?thesis using justified_cong [OF v(4)] v(4) by simp
  qed
qed

lemma claim_world:
  assumes fresh: "fresh_uuids (env_UUID e)" and ok: "world_ok (env_UUID e) sha contents w"
    and run: "claimReplicationPlans e clock limit fmt (rw_Store w) = (plans, s)"
  shows "world_ok (env_UUID e) sha contents (w\<lparr>rw_Store := s, rw_Reads := n\<rparr>)"
proof (rule world_ok_store [OF ok])
  let ?w = "w\<lparr>rw_Store := s, rw_Reads := n\<rparr>"
  note rok = world_okD(1) [OF ok]
  show "replication_ok (env_UUID e) (rw_Store ?w)"
    using plan_claim_ok [OF fresh rok, of clock limit fmt] run by simp
  show "bookkept w ?w"
    using run recover_result(4,5) [OF rok claimBase_def [of e clock]] by (auto simp: bookkept_def claim_eq)
  fix i p k c assume p: "gm_get (replicationPlans (rw_Store ?w)) i = Some p" "pl_State p = ''completed''"
  show "(\<exists>q. gm_get (replicationPlans (rw_Store w)) i = Some q \<and> pl_State q = ''completed'') \<or> verified c"
  proof (cases "i \<in> fst ` set (claimStarts e clock limit fmt (rw_Store w))")
    case True
    then obtain r where r: "(i, r) \<in> set (claimStarts e clock limit fmt (rw_Store w))" by auto
    have "distinct (map fst (claimStarts e clock limit fmt (rw_Store w)))"
      using claim_choice(3) [OF rok] by (simp add: claimStarts_def)
    then have "p = r" using p(1) run r by (auto simp: claim_eq putAll_get)
    moreover have "pl_State r = ''running''"
      using startAll_mem [OF r [unfolded claimStarts_def]] by (auto simp: startPlan_def)
    ultimately show ?thesis using p(2) by simp
  next
    case False
    have "gm_get (replicationPlans (claimBase e clock (rw_Store w))) i = Some p"
      using p(1) run False claim_choice(3) [where clock = clock and limit = limit and fmt = fmt, OF rok]
      by (auto simp: claim_eq putAll_get claimStarts_def split: option.splits dest: map_of_SomeD intro: rev_image_eqI)
    then obtain q where q: "gm_get (replicationPlans (rw_Store w)) i = Some q" "p = recovered (clock 0) q"
      using recover_result(6) [where i = i, OF rok claimBase_def] by auto
    have "pl_State q = ''completed''"
      using p(2) q(2) by (auto simp: recovered_def expirePlan_def split: if_splits)
    then show ?thesis using q(1) by blast
  qed
qed

context object_store_laws begin

lemma recordVerified_copied:
  assumes ok: "world_ok uuid sha contents w" and c: "known (rw_Store w) c" "holds sha (contents (rw_Objects w)) c"
  shows "copied uuid sha contents c w (recordVerified clock st msg c token w)"
proof -
  obtain x objs where o': "os_SetVerifiedDigest st (ck_ObjectKey c) (ck_Digest c) (rw_Objects w) = (x, objs)" by force
  have same: "contents objs = contents (rw_Objects w)" by (rule digest_frame [OF o'])
  have w: "world_ok uuid sha contents (w\<lparr>rw_Objects := objs\<rparr>)"
    by (rule objects_world [OF ok]) (simp_all add: same)
  have "copied uuid sha contents c (w\<lparr>rw_Objects := objs\<rparr>) (verifyCheckpoint clock c token (w\<lparr>rw_Objects := objs\<rparr>))"
    using verifyCheckpoint_copied [OF w] c by (simp add: same)
  with w show ?thesis
    by (cases x) (auto simp: recordVerified_def o' copied_def Let_def)
qed

lemma transferObject_copied:
  assumes ok: "world_ok uuid sha contents w" and c: "known (rw_Store w) c"
    and free: "\<forall>i d. checkpointOf (rw_Store w) i (ck_ObjectKey c) d \<longrightarrow> \<not> verified d"
  shows "copied uuid sha contents c w (transferObject sha clock src st c token w)"
proof (cases "os_Open src (sourceKey c) (rw_Objects w)")
  case (Inl e)
  then show ?thesis using ok by (simp add: transferObject_def copied_error)
next
  case (Inr rn)
  obtain reader n where rn: "rn = (reader, n)" by force
  obtain putErr used objs where put: "os_PutReader st (ck_ObjectKey c) reader (ck_Size c) (rw_Objects w) = ((putErr, used), objs)"
    by (metis prod.exhaust)
  let ?w = "w\<lparr>rw_Objects := objs\<rparr>"
  have w: "world_ok uuid sha contents ?w"
    using objects_world [OF ok, where k = "ck_ObjectKey c"] put_frame [OF put] free by simp
  have gone: "world_ok uuid sha contents (?w\<lparr>rw_Objects := snd (os_Delete st (ck_ObjectKey c) objs)\<rparr>)"
    using objects_world [OF w, where k = "ck_ObjectKey c"] delete_frame [OF prod.collapse [symmetric]] free by simp
  have good: "copied uuid sha contents c w (recordVerified clock st ''record destination digest'' c token ?w)"
    if "putErr = None" "int (length used) = ck_Size c" "''sha256:'' @ sha used = ck_Digest c"
  proof -
    have "contents objs (ck_ObjectKey c) = Some used" using put_stores put that(1) by simp
    with that have "holds sha (contents (rw_Objects ?w)) c" by (simp add: holds_def)
    then have "copied uuid sha contents c ?w (recordVerified clock st ''record destination digest'' c token ?w)"
      using recordVerified_copied [OF w] c by simp
    then show ?thesis by (simp add: copied_def)
  qed
  show ?thesis
    using ok w gone good by (cases putErr) (simp_all add: transferObject_def Inr rn put copied_error Let_def)
qed

lemma copyCheckpoint_copied:
  assumes ok: "world_ok uuid sha contents w" and c: "known (rw_Store w) c"
  shows "copied uuid sha contents c w (copyCheckpoint sha clock src st c token w)"
proof -
  have err: "copied uuid sha contents c w (Some e, w)" for e
    using ok by (simp add: copied_error)
  obtain d0 where d0: "checkpointOf (rw_Store w) (ck_PlanID c) (ck_ObjectKey c) d0" "sameObject c d0"
    using c by (auto simp: known_def)
  have bytes: "\<exists>b. contents (rw_Objects w) (ck_ObjectKey c) = Some b \<and> int (length b) = ck_Size c"
    if "checkpointOf (rw_Store w) i (ck_ObjectKey c) d" "verified d" for i d
  proof -
    have "ck_Size d = ck_Size c" "ck_ObjectKey d = ck_ObjectKey c"
      using world_okD(3) [OF ok that(1) d0(1)] d0(2) checkpointOf_key [OF world_okD(1) [OF ok] that(1)] by (auto simp: sameObject_def)
    then show ?thesis using world_okD(2) [OF ok that] by (auto simp: holds_def)
  qed
  have transfer: "copied uuid sha contents c w (transferObject sha clock src st c token w)"
    if "contents (rw_Objects w) (ck_ObjectKey c) = None \<or> (\<exists>b. contents (rw_Objects w) (ck_ObjectKey c) = Some b \<and> int (length b) < ck_Size c)"
    using transferObject_copied [OF ok c] bytes that by fastforce
  show ?thesis
  proof (cases "os_Stat st (ck_ObjectKey c) (rw_Objects w)")
    case (Inl e)
    then show ?thesis
      using err transfer stat_missing by (auto simp: copyCheckpoint_def split: sum.splits)
  next
    case (Inr info)
    obtain b where b: "contents (rw_Objects w) (ck_ObjectKey c) = Some b" "in_Size info = int (length b)"
      "in_Digest info = [] \<or> in_Digest info = ''sha256:'' @ sha b"
      using stat_found [OF Inr] by blast
    have match: "''sha256:'' @ sha b = ck_Digest c"
      if "objectDigestMatches sha st (ck_ObjectKey c) (ck_Size c) (ck_Digest c) (rw_Objects w) = Inr True"
      using that open_reads b(1) by (fastforce simp: objectDigestMatches_def split: sum.splits option.splits)
    have recorded: "copied uuid sha contents c w (recordVerified clock st msg c token w)"
      if "in_Size info = ck_Size c" "''sha256:'' @ sha b = ck_Digest c" for msg
      using recordVerified_copied [OF ok c] that b by (simp add: holds_def)
    have valid: "in_Digest info = ck_Digest c \<Longrightarrow> validSHA256 (ck_Digest c) \<Longrightarrow> ''sha256:'' @ sha b = ck_Digest c"
      using b(3) validSHA256_nonempty by auto
    show ?thesis
      using err transfer recorded valid match b(1,2) Inr
      by (auto simp: copyCheckpoint_def split: sum.splits bool.splits)
  qed
qed

lemma copyEach_copied:
  assumes "world_ok uuid sha contents w" "\<forall>c \<in> set cs. known (rw_Store w) c" "\<forall>c \<in> set cs. verified c \<longrightarrow> (\<exists>d. checkpointOf (rw_Store w) (ck_PlanID c) (ck_ObjectKey c) d \<and> verified d)"
    "copyEach sha clock src st token cs w = (x, w')"
  shows "world_ok uuid sha contents w' \<and> kept (rw_Store w) (rw_Store w') \<and> rw_Published w' = rw_Published w \<and>
    (case x of None \<Rightarrow> \<forall>c \<in> set cs. \<exists>d. checkpointOf (rw_Store w') (ck_PlanID c) (ck_ObjectKey c) d \<and> verified d
     | Some (c, e) \<Rightarrow> c \<in> set cs)"
  using assms
proof (induction cs arbitrary: w)
  case (Cons c cs)
  have stays: "\<exists>d. checkpointOf t i k d \<and> verified d" if "kept s t" "checkpointOf s i k d" "verified d" for s t :: replication_store and i k d
    using that unfolding kept_def by blast
  show ?case
  proof (cases "ck_State c = ''verified''")
    case True
    then obtain d where "checkpointOf (rw_Store w) (ck_PlanID c) (ck_ObjectKey c) d" "verified d"
      using Cons.prems(3) by (auto simp: verified_def)
    then show ?thesis
      using Cons.IH [of w] Cons.prems True stays [of "rw_Store w" "rw_Store w'"] by (auto split: option.splits)
  next
    case False
    obtain y w1 where y: "copyCheckpoint sha clock src st c token w = (y, w1)" by force
    have one: "world_ok uuid sha contents w1" "kept (rw_Store w) (rw_Store w1)" "rw_Published w1 = rw_Published w"
      "y = None \<Longrightarrow> \<exists>d. checkpointOf (rw_Store w1) (ck_PlanID c) (ck_ObjectKey c) d \<and> verified d"
      using copyCheckpoint_copied [OF Cons.prems(1), where c = c and clock = clock and src = src and token = token] Cons.prems(2) y
      by (simp_all add: copied_def)
    show ?thesis
    proof (cases y)
      case (Some e)
      then show ?thesis using Cons.prems(4) False y one by auto
    next
      case None
      have run: "copyEach sha clock src st token cs w1 = (x, w')"
        using Cons.prems(4) False y None by simp
      have "\<forall>c \<in> set cs. known (rw_Store w1) c"
        using Cons.prems(2) known_kept [OF _ one(2)] by simp
      moreover have "\<forall>c \<in> set cs. verified c \<longrightarrow> (\<exists>d. checkpointOf (rw_Store w1) (ck_PlanID c) (ck_ObjectKey c) d \<and> verified d)"
        using Cons.prems(3) stays [OF one(2)] by (metis list.set_intros(2))
      ultimately have rest: "world_ok uuid sha contents w'" "kept (rw_Store w1) (rw_Store w')" "rw_Published w' = rw_Published w1"
        "case x of None \<Rightarrow> \<forall>c \<in> set cs. \<exists>d. checkpointOf (rw_Store w') (ck_PlanID c) (ck_ObjectKey c) d \<and> verified d | Some (c, e) \<Rightarrow> c \<in> set cs"
        using Cons.IH [OF one(1) _ _ run] by blast+
      have "\<exists>d. checkpointOf (rw_Store w') (ck_PlanID c) (ck_ObjectKey c) d \<and> verified d"
        using one(4) [OF None] stays [OF rest(2)] by blast
      then show ?thesis
        using rest one checkpoints_kept_trans [OF one(2) rest(2)] by (auto split: option.splits)
    qed
  qed
qed simp

text \<open>The rest of a plan after its checkpoints \<open>checks\<close> have been listed.\<close>

lemma copied_plan_world:
  assumes ok: "world_ok (env_UUID e) sha contents w" and listed: "ListReplicationCheckpoints (pl_ID plan) (rw_Store w) = Inr checks"
    and copy: "copyEach sha clock src st token checks w = (y, v)"
    and rest: "(case y of Some (c, err) \<Rightarrow> copyFailed e clock plan leaseErr c err v
      | None \<Rightarrow> (case wk_Publish wk of
          Some publish \<Rightarrow> publishPlan e clock wk circ plan leaseErr publish v
        | None \<Rightarrow> finishPlan e clock plan leaseErr None v)) = (x, w')"
  shows "world_ok (env_UUID e) sha contents w' \<and>
    (rw_Published w' = rw_Published w \<or> (\<exists>publish. wk_Publish wk = Some publish \<and> justified sha contents wk plan publish w w'))"
proof -
  note rok = world_okD(1) [OF ok] and mem = listed_checkpoints(1) [OF world_okD(1) [OF ok] listed]
  have id: "ck_PlanID c = pl_ID plan" and here: "checkpointOf (rw_Store w) (ck_PlanID c) (ck_ObjectKey c) c" if "c \<in> set checks" for c
  proof -
    have c: "checkpointOf (rw_Store w) (pl_ID plan) (ck_ObjectKey c) c" using mem [of c] that by simp
    then show "ck_PlanID c = pl_ID plan" using checkpointOf_key [OF rok] by blast
    with c show "checkpointOf (rw_Store w) (ck_PlanID c) (ck_ObjectKey c) c" by simp
  qed
  have "\<forall>c \<in> set checks. known (rw_Store w) c"
    unfolding known_def using here sameObject_simps(1) by blast
  note cp = copyEach_copied [OF ok this _ copy]
  have v: "world_ok (env_UUID e) sha contents v" "kept (rw_Store w) (rw_Store v)" "rw_Published v = rw_Published w"
    and outcome: "case y of None \<Rightarrow> \<forall>c \<in> set checks. \<exists>d. checkpointOf (rw_Store v) (ck_PlanID c) (ck_ObjectKey c) d \<and> verified d
      | Some (c, err) \<Rightarrow> c \<in> set checks"
    using cp here by (fastforce+)
  show ?thesis
  proof (cases y)
    case (Some ce)
    obtain c err where ce: "ce = (c, err)" by force
    have c: "c \<in> set checks" using outcome by (simp add: Some ce)
    have "known (rw_Store w) c" using here [OF c] by (auto simp: known_def)
    then show ?thesis
      using copyFailed_world [OF v(1) known_kept [OF _ v(2)] id [OF c]] rest v(3) by (simp add: Some ce)
  next
    case None
    show ?thesis
    proof (cases "wk_Publish wk")
      case (Some publish)
      then have "publishPlan e clock wk circ plan leaseErr publish v = (x, w')" using rest None by simp
      from publishPlan_world [OF v(1) this] show ?thesis using justified_cong [OF v(3)] v(3) by (simp add: Some)
    next
      case no: None
      have "\<forall>k d. checkpointOf (rw_Store v) (pl_ID plan) k d \<longrightarrow> verified d"
      proof (intro allI impI)
        fix k d assume d: "checkpointOf (rw_Store v) (pl_ID plan) k d"
        then obtain c where c: "checkpointOf (rw_Store w) (pl_ID plan) k c" using v(2) unfolding kept_def by blast
        then have "c \<in> set checks" "ck_ObjectKey c = k" using mem [of c] checkpointOf_key [OF rok c] by auto
        then show "verified d" using outcome id [of c] checkpointOf_fun [OF d] by (auto simp: None)
      qed
      moreover have "finishPlan e clock plan leaseErr None v = (x, w')" using rest None no by simp
      ultimately have "world_ok (env_UUID e) sha contents w' \<and> finished None v w'" by (rule finishPlan_world [OF v(1)])
      then show ?thesis using v(3) by (auto simp: finished_def)
    qed
  qed
qed

lemma runPlan_world:
  assumes ok: "world_ok (env_UUID e) sha contents w" and dst: "wk_Destination wk = Some st"
    and run: "runPlan e sha clock wk circ plan w = (x, w')"
  shows "world_ok (env_UUID e) sha contents w' \<and>
    (rw_Published w' = rw_Published w \<or> (\<exists>publish. wk_Publish wk = Some publish \<and> justified sha contents wk plan publish w w'))"
proof (cases "wk_Source wk")
  case None
  then have "failPlan e clock (pl_ID plan) ''replication worker is not configured'' (pl_LeaseToken plan) w = (x, w')"
    using run by (simp add: runPlan_def)
  from failPlan_world [OF ok this] show ?thesis by (simp add: bookkept_def)
next
  case (Some src)
  obtain r s1 where r: "RenewReplicationPlanLease (clock (rw_Reads w)) (pl_ID plan) (pl_LeaseToken plan) (rw_Store w) = (r, s1)" by force
  let ?w1 = "w\<lparr>rw_Store := s1, rw_Reads := rw_Reads w + 4\<rparr>"
  have w1: "world_ok (env_UUID e) sha contents ?w1" "bookkept w ?w1"
    using renew_world [OF ok r] by auto
  obtain leaseErr s2 where b: "heartbeat (pl_ID plan) (pl_LeaseToken plan) (ci_Beats circ) (rw_Store ?w1) = (leaseErr, s2)" by force
  let ?w2 = "?w1\<lparr>rw_Store := s2\<rparr>"
  have w2: "world_ok (env_UUID e) sha contents ?w2" "rw_Published ?w2 = rw_Published w"
    using heartbeat_world [OF w1(1) b] by simp_all
  consider (lost) "w' = ?w1"
    | (report) msg where "unlessLost leaseErr (failPlan e clock (pl_ID plan) msg (pl_LeaseToken plan)) ?w2 = (x, w') \<or>
        unlessLost leaseErr (parkPlan e clock (pl_ID plan) msg (pl_LeaseToken plan)) ?w2 = (x, w')"
    | (copy) checks y v where "ListReplicationCheckpoints (pl_ID plan) (rw_Store ?w2) = Inr checks"
        "copyEach sha clock src st (pl_LeaseToken plan) checks ?w2 = (y, v)"
        "(case y of Some (c, err) \<Rightarrow> copyFailed e clock plan leaseErr c err v
          | None \<Rightarrow> (case wk_Publish wk of
              Some publish \<Rightarrow> publishPlan e clock wk circ plan leaseErr publish v
            | None \<Rightarrow> finishPlan e clock plan leaseErr None v)) = (x, w')"
    using run r b unfolding runPlan_def storeCall_def Let_def
    by (auto simp: Some dst split: if_splits sum.splits prod.splits bool.splits option.splits)
  then show ?thesis
  proof cases
    case lost
    then show ?thesis using w1 by (simp add: bookkept_def)
  next
    case report
    from reported_world [OF w2(1) this] show ?thesis by (simp add: bookkept_def)
  next
    case copy
    from copied_plan_world [OF w2(1) copy] show ?thesis
      using justified_cong [OF w2(2)] w2(2) by simp
  qed
qed

lemma runPlans_world:
  "wk_Destination wk = Some st \<Longrightarrow> world_ok (env_UUID e) sha contents w \<Longrightarrow> runPlans e sha clock wk circ plans w = (x, w') \<Longrightarrow>
     world_ok (env_UUID e) sha contents w'"
proof (induction plans arbitrary: w)
  case (Cons plan plans)
  obtain y v where y: "runPlan e sha clock wk (circ plan) plan w = (y, v)" by force
  have "world_ok (env_UUID e) sha contents v" using runPlan_world [OF Cons.prems(2,1) y] by blast
  then show ?case using Cons.IH [OF Cons.prems(1)] Cons.prems(3) y by (cases y) auto
qed simp

lemma Run_world:
  assumes "fresh_uuids (env_UUID e)" "wk_Destination wk = Some st" "world_ok (env_UUID e) sha contents w" "Run e sha clock wk circ limit w = (x, w')"
  shows "world_ok (env_UUID e) sha contents w'"
proof -
  obtain plans s where c: "claimReplicationPlans e (\<lambda>n. clock (rw_Reads w + n)) limit (wk_Format wk) (rw_Store w) = (plans, s)" by force
  have "runPlans e sha clock wk circ plans (w\<lparr>rw_Store := s, rw_Reads := rw_Reads w + 4\<rparr>) = (x, w')"
    using assms(4) c
    by (auto simp: Run_def storeCall_def ClaimReplicationPlans_def ClaimReplicationPlansByFormat_def Let_def split: if_splits prod.splits)
  then show ?thesis
    by (rule runPlans_world [OF assms(2) claim_world [OF assms(1,3) c]])
qed

end

section \<open>Properties\<close>

text \<open>
  C3. A run of the replication worker delivers. Let the destination be the in-memory object store, and start from a state in which
  verified checkpoints stand for bytes at the destination, object keys name content and completed plans are verified
  throughout. After a run, whatever the source store, the publication, the clock, the locks and the heartbeat did, and whether or not the
  run ended in an error, every checkpoint marked verified has an object of its size and digest at the destination, and so has every
  checkpoint of every completed plan.
\<close>

theorem replication_run_delivers:
  assumes "fresh_uuids (env_UUID e)" "world_ok (env_UUID e) sha gm_get w" "wk_Destination wk = Some (memoryObjectStore sha)"
    "Run e sha clock wk circ limit w = (x, w')"
  shows "world_ok (env_UUID e) sha gm_get w' \<and>
    (\<forall>i p k c. gm_get (replicationPlans (rw_Store w')) i = Some p \<longrightarrow> pl_State p = ''completed'' \<longrightarrow> checkpointOf (rw_Store w') i k c \<longrightarrow>
      (\<exists>b. gm_get (rw_Objects w') k = Some b \<and> int (length b) = ck_Size c \<and> ck_Digest c = ''sha256:'' @ sha b))"
proof -
  have ok: "world_ok (env_UUID e) sha gm_get w'"
    by (rule memory_object_store.Run_world [OF assms(1,3,2,4)])
  moreover have "\<exists>b. gm_get (rw_Objects w') k = Some b \<and> int (length b) = ck_Size c \<and> ck_Digest c = ''sha256:'' @ sha b"
    if "gm_get (replicationPlans (rw_Store w')) i = Some p" "pl_State p = ''completed''" "checkpointOf (rw_Store w') i k c" for i p k c
    using world_okD(2) [OF ok that(3) world_okD(4) [OF ok that]] checkpointOf_key [OF world_okD(1) [OF ok] that(3)]
    by (simp add: holds_def)
  ultimately show ?thesis by blast
qed

text \<open>
  C4. Nothing unverified or quarantined is published. While the worker carries out a plan with the in-memory object store as its
  destination, the state of the publication changes only by one call of the publication function, on checkpoints that are all verified,
  cover every object of the plan and have the bytes of their size and digest at the destination; and at that moment the distribution of
  every admission digest, the reloaded ones if there is an admission snapshot, is allowed by the quarantine decisions of the
  source repository.
\<close>

theorem replication_publishes_admitted:
  assumes "world_ok (env_UUID e) sha gm_get w" "wk_Destination wk = Some (memoryObjectStore sha)"
    "runPlan e sha clock wk circ plan w = (x, w')" "rw_Published w' \<noteq> rw_Published w"
  shows "\<exists>publish checks digests. wk_Publish wk = Some publish \<and> rw_Published w' = snd (publish plan checks (rw_Published w)) \<and>
    checks \<noteq> [] \<and> (\<forall>c \<in> set checks. verified c \<and> holds sha (gm_get (rw_Objects w')) c) \<and>
    (\<forall>k d. checkpointOf (rw_Store w') (pl_ID plan) k d \<longrightarrow> k \<in> ck_ObjectKey ` set checks) \<and>
    (case wk_AdmissionSnapshot wk of
       None \<Rightarrow> digests = replicationAdmissionDigests plan checks
     | Some snapshot \<Rightarrow> snapshot plan checks (rw_Published w) = Inr (digests, True)) \<and>
    ArtifactDistributionAllowedForDigests (pl_SourceRepositoryID plan) (pl_Format plan) (pl_Coordinate plan) digests (rw_Store w') = Inr True"
proof -
  obtain publish where "wk_Publish wk = Some publish" "justified sha gm_get wk plan publish w w'"
    using memory_object_store.runPlan_world [OF assms(1-3)] assms(4) by blast
  then show ?thesis unfolding justified_def by blast
qed

section \<open>Witnesses\<close>

text \<open>A plan for one object of three bytes, and a digest function that is constant.\<close>

definition constSha :: "string \<Rightarrow> string" where
  "constSha _ = replicate 64 CHR ''0''"

definition threeBytes :: ReplicationCheckpoint where
  "threeBytes = exampleCheckpoint\<lparr>ck_Digest := ''sha256:'' @ constSha ''abc''\<rparr>"

definition deliveryStore :: replication_store where
  "deliveryStore = snd (CreateReplicationPlan 5 (examplePlanRequest 0) [threeBytes] (emptyReplicationStore\<lparr>uuidsDrawn := 1\<rparr>))"

definition deliveryWorld :: "(memory_objects, nat) world" where
  "deliveryWorld = \<lparr>rw_Store = deliveryStore, rw_Objects = [(''x'', ''abc'')], rw_Published = 0, rw_Reads = 0\<rparr>"

definition deliveryWorker :: "(memory_objects, nat) Worker" where
  "deliveryWorker = \<lparr>wk_Source = Some (memoryObjectStore constSha), wk_Destination = Some (memoryObjectStore constSha), wk_Format = FormatRaw,
     wk_Publish = Some (\<lambda>_ _ n. (None, Suc n)), wk_LockObject = True, wk_AdmissionSnapshot = None\<rparr>"

definition calm :: circumstances where
  "calm = \<lparr>ci_Beats = [7], ci_LockEarly = None, ci_LockObjects = None, ci_LockFinal = None\<rparr>"

lemma deliveryStore_reach: "replication_reach replicationEnv deliveryStore"
proof -
  have "uuidsDrawn emptyReplicationStore = 0"
    by (simp add: emptyReplicationStore_def emptyQuarantineStore_def emptyWebhookStore_def emptyHostedStore_def
      quarantine_store.defs webhook_store.defs hosted_store.defs)
  then show ?thesis
    unfolding deliveryStore_def
    using replication_reach.step [OF replication_reach.start replication_step.create, of replicationEnv "examplePlanRequest 0" 5 "[threeBytes]"]
      examplePlanRequest_requested [of 0] by simp
qed

lemma deliveryWorld_ok: "world_ok (env_UUID replicationEnv) constSha gm_get deliveryWorld"
proof -
  have eq: "replicationChecks deliveryStore = [(exampleUUID 0, [(''y'', createdCheckpoint (exampleUUID 0) 5 threeBytes)])]"
    "map (pl_State \<circ> snd) (replicationPlans deliveryStore) = [''pending'']"
    by code_simp+
  have st: "ck_State (createdCheckpoint (exampleUUID 0) 5 threeBytes) = ''pending''"
    by code_simp
  have only: "checkpointOf deliveryStore i k c \<Longrightarrow> c = createdCheckpoint (exampleUUID 0) 5 threeBytes" for i k c
    by (auto simp: checkpointOf_def eq(1) split: if_splits)
  have "replication_ok (env_UUID replicationEnv) deliveryStore"
    by (rule replication_reach_ok [OF deliveryStore_reach replicationEnv_fresh])
  moreover have "pl_State p \<noteq> ''completed''" if "gm_get (replicationPlans deliveryStore) i = Some p" for i p
    using eq(2) that by (cases "replicationPlans deliveryStore") (auto split: if_splits)
  moreover have "sameObject c d" if "checkpointOf deliveryStore i k c" "checkpointOf deliveryStore j k d" for i j k c d
    using only [OF that(1)] only [OF that(2)] by simp
  moreover have "\<not> verified c" if "checkpointOf deliveryStore i k c" for i k c
    using only [OF that] st by (simp add: verified_def)
  ultimately show ?thesis
    unfolding world_ok_def deliveryWorld_def by simp
qed

theorem replication_run_delivers_witness:
  "\<exists>w'. Run replicationEnv constSha (\<lambda>n. 6) deliveryWorker (\<lambda>_. calm) 10 deliveryWorld = (None, w') \<and>
     gm_get (rw_Objects w') ''y'' = Some ''abc'' \<and> world_ok (env_UUID replicationEnv) constSha gm_get w'"
proof (cases "Run replicationEnv constSha (\<lambda>n. 6) deliveryWorker (\<lambda>_. calm) 10 deliveryWorld")
  case (Pair x w')
  have "(case Run replicationEnv constSha (\<lambda>n. 6) deliveryWorker (\<lambda>_. calm) 10 deliveryWorld of (x, w') \<Rightarrow>
      x = None \<and> gm_get (rw_Objects w') ''y'' = Some ''abc'')"
    by code_simp
  moreover have "wk_Destination deliveryWorker = Some (memoryObjectStore constSha)" by (simp add: deliveryWorker_def)
  ultimately show ?thesis
    using replication_run_delivers [OF replicationEnv_fresh deliveryWorld_ok _ Pair] Pair by simp
qed

definition claimedWorld :: "(memory_objects, nat) world" where
  "claimedWorld = deliveryWorld\<lparr>rw_Store := snd (claimReplicationPlans replicationEnv (\<lambda>n. 6) 1 FormatRaw deliveryStore)\<rparr>"

definition claimedPlan :: ReplicationPlan where
  "claimedPlan = hd (fst (claimReplicationPlans replicationEnv (\<lambda>n. 6) 1 FormatRaw deliveryStore))"

theorem replication_publishes_admitted_witness:
  "\<exists>w' checks. runPlan replicationEnv constSha (\<lambda>n. 6) deliveryWorker calm claimedPlan claimedWorld = (None, w') \<and> rw_Published w' = 1 \<and>
     checks \<noteq> [] \<and> (\<forall>c \<in> set checks. verified c \<and> holds constSha (gm_get (rw_Objects w')) c)"
proof (cases "runPlan replicationEnv constSha (\<lambda>n. 6) deliveryWorker calm claimedPlan claimedWorld")
  case (Pair x w')
  have "(case runPlan replicationEnv constSha (\<lambda>n. 6) deliveryWorker calm claimedPlan claimedWorld of (x, w') \<Rightarrow>
      x = None \<and> rw_Published w' = 1 \<and> rw_Published claimedWorld = 0)"
    by code_simp
  with Pair have facts: "x = None" "rw_Published w' = 1" "rw_Published w' \<noteq> rw_Published claimedWorld" by auto
  have "rw_Store deliveryWorld = deliveryStore" by (simp add: deliveryWorld_def)
  then obtain plans s where s: "claimReplicationPlans replicationEnv (\<lambda>n. 6) 1 FormatRaw (rw_Store deliveryWorld) = (plans, s)"
    "claimedWorld = deliveryWorld\<lparr>rw_Store := s, rw_Reads := rw_Reads deliveryWorld\<rparr>"
    by (cases "claimReplicationPlans replicationEnv (\<lambda>n. 6) 1 FormatRaw deliveryStore") (auto simp: claimedWorld_def)
  have ok: "world_ok (env_UUID replicationEnv) constSha gm_get claimedWorld"
    unfolding s(2) by (rule claim_world [OF replicationEnv_fresh deliveryWorld_ok s(1)])
  have dst: "wk_Destination deliveryWorker = Some (memoryObjectStore constSha)" by (simp add: deliveryWorker_def)
  from replication_publishes_admitted [OF ok dst Pair facts(3)] Pair facts(1,2) show ?thesis by auto
qed

end
