(* ===== verification/Spec2Isabelle.thy ===== *)
theory Spec2Isabelle
  imports AuthorizationLaws LifecycleProps RawLaws RawHttpLaws EmailLaws OciGraphLaws CapacityLaws HttpErrorRateLaws WebhookLaws HostedLaws ReplicationWorkerLaws
begin

text \<open>
  A verification development for Artifact Gateway.
\<close>

end
